(* ===== verification/Prelude.thy ===== *)
theory Prelude
  imports Main "HOL-Library.Word" "HOL-Library.List_Lexorder" "HOL-Library.Char_ord" "HOL-Library.Sublist"
begin

text \<open>
  Shared vocabulary of the development: fallible results, Rust strings as lists of UTF-8 bytes,
  splitting and joining, decimal and hexadecimal rendering, and the ordered map that stands for
  \<open>BTreeMap\<close>.

  A Rust \<open>str\<close> is the list of its UTF-8 bytes, one HOL character per byte. Every character the
  program compares with is ASCII, and no byte of a multi-byte scalar is below 0x80, so a loop over
  \<open>chars()\<close> that compares with ASCII characters takes the same branches over the bytes. The only
  places where the program looks at a non-ASCII scalar are the white space test and the case
  mapping; the white space test below recognises the UTF-8 encodings of all Unicode white space, and
  the case mapping outside ASCII is a parameter (theory \<open>Lib\<close>).
\<close>

named_theorems result_simps \<open>unfolding of the result combinators\<close>
named_theorems str_simps \<open>string functions of the standard library\<close>
named_theorems btree_simps \<open>lookups in the ordered map\<close>

type_synonym byte = "8 word"
type_synonym u16 = "16 word"
type_synonym u32 = "32 word"
type_synonym u64 = "64 word"
type_synonym uuid = "128 word"

lemmas pair_simps = Let_def split_def

section \<open>Results\<close>

text \<open>\<open>Result<T, E>\<close> is \<open>E + T\<close>; \<open>?\<close> is \<open>res_bind\<close>.\<close>

definition res_bind :: "'e + 'a \<Rightarrow> ('a \<Rightarrow> 'e + 'b) \<Rightarrow> 'e + 'b" where
  "res_bind r f = (case r of Inl e \<Rightarrow> Inl e | Inr x \<Rightarrow> f x)"

definition res_map :: "('a \<Rightarrow> 'b) \<Rightarrow> 'e + 'a \<Rightarrow> 'e + 'b" where
  "res_map f r = (case r of Inl e \<Rightarrow> Inl e | Inr x \<Rightarrow> Inr (f x))"

definition map_err :: "('e \<Rightarrow> 'g) \<Rightarrow> 'e + 'a \<Rightarrow> 'g + 'a" where
  "map_err f r = (case r of Inl e \<Rightarrow> Inl (f e) | Inr x \<Rightarrow> Inr x)"

definition ok_or :: "'e \<Rightarrow> 'a option \<Rightarrow> 'e + 'a" where
  "ok_or e x = (case x of None \<Rightarrow> Inl e | Some y \<Rightarrow> Inr y)"

definition is_ok :: "'e + 'a \<Rightarrow> bool" where
  "is_ok r = (case r of Inl _ \<Rightarrow> False | Inr _ \<Rightarrow> True)"

text \<open>Collecting an iterator of results: the first error stops it.\<close>

fun res_collect :: "('e + 'a) list \<Rightarrow> 'e + 'a list" where
  "res_collect [] = Inr []"
| "res_collect (r # rs) = res_bind r (\<lambda>x. res_map (\<lambda>xs. x # xs) (res_collect rs))"

lemma res_bind_simps [simp, result_simps]:
  "res_bind (Inl e) f = Inl e" "res_bind (Inr x) f = f x"
  by (simp_all add: res_bind_def)

lemma res_map_simps [simp, result_simps]:
  "res_map f (Inl e) = Inl e" "res_map f (Inr x) = Inr (f x)"
  by (simp_all add: res_map_def)

lemma map_err_simps [simp, result_simps]:
  "map_err f (Inl e) = Inl (f e)" "map_err f (Inr x) = Inr x"
  by (simp_all add: map_err_def)

lemma ok_or_simps [simp, result_simps]: "ok_or e None = Inl e" "ok_or e (Some x) = Inr x"
  by (simp_all add: ok_or_def)

lemma is_ok_simps [simp, result_simps]: "is_ok (Inl e) = False" "is_ok (Inr x) = True"
  by (simp_all add: is_ok_def)

lemma res_bind_eq_Inr [simp]: "res_bind r f = Inr y \<longleftrightarrow> (\<exists>x. r = Inr x \<and> f x = Inr y)"
  by (cases r) auto

lemma res_bind_eq_Inl: "res_bind r f = Inl e \<longleftrightarrow> r = Inl e \<or> (\<exists>x. r = Inr x \<and> f x = Inl e)"
  by (cases r) auto

lemma res_map_res_map: "res_map f (res_map g r) = res_map (\<lambda>x. f (g x)) r"
  by (cases r) simp_all

lemma res_map_eq_Inr [simp]: "res_map f r = Inr y \<longleftrightarrow> (\<exists>x. r = Inr x \<and> f x = y)"
  by (cases r) auto

lemma res_map_eq_Inl [simp]: "res_map f r = Inl e \<longleftrightarrow> r = Inl e"
  by (cases r) auto

lemma map_err_eq_Inr [simp]: "map_err f r = Inr y \<longleftrightarrow> r = Inr y"
  by (cases r) auto

lemma ok_or_eq_Inr [simp]: "ok_or e x = Inr y \<longleftrightarrow> x = Some y"
  by (cases x) auto

lemma ok_or_eq_Inl [simp]: "ok_or e x = Inl e' \<longleftrightarrow> x = None \<and> e' = e"
  by (cases x) auto

lemma res_collect_map_Inr: "res_collect (map (\<lambda>x. Inr (f x)) xs) = Inr (map f xs)"
  by (induction xs) simp_all

lemma res_collect_Inr_iff: "res_collect rs = Inr xs \<longleftrightarrow> rs = map Inr xs"
proof (induction rs arbitrary: xs)
  case (Cons r rs)
  then show ?case by (cases r; cases xs) auto
qed auto

lemma res_collect_length: "res_collect rs = Inr xs \<Longrightarrow> length xs = length rs"
  by (simp add: res_collect_Inr_iff)

section \<open>Characters and white space\<close>

abbreviation LF :: char where "LF \<equiv> CHR 0x0A"
abbreviation CR :: char where "CR \<equiv> CHR 0x0D"
abbreviation TAB :: char where "TAB \<equiv> CHR 0x09"
abbreviation NUL :: char where "NUL \<equiv> CHR 0x00"
abbreviation DQUOTE :: char where "DQUOTE \<equiv> CHR 0x22"
abbreviation SQUOTE :: char where "SQUOTE \<equiv> CHR 0x27"
abbreviation BACKTICK :: char where "BACKTICK \<equiv> CHR 0x60"
abbreviation BSLASH :: char where "BSLASH \<equiv> CHR 0x5C"

definition char_code :: "char \<Rightarrow> nat" where
  "char_code c = of_char c"

definition is_ascii :: "char \<Rightarrow> bool" where
  "is_ascii c \<longleftrightarrow> char_code c < 128"

definition is_ascii_digit :: "char \<Rightarrow> bool" where
  "is_ascii_digit c \<longleftrightarrow> 48 \<le> char_code c \<and> char_code c \<le> 57"

definition is_ascii_alphanumeric :: "char \<Rightarrow> bool" where
  "is_ascii_alphanumeric c \<longleftrightarrow> is_ascii_digit c
     \<or> (65 \<le> char_code c \<and> char_code c \<le> 90) \<or> (97 \<le> char_code c \<and> char_code c \<le> 122)"

definition ascii_lower :: "char \<Rightarrow> char" where
  "ascii_lower c = (if 65 \<le> char_code c \<and> char_code c \<le> 90 then char_of (char_code c + 32) else c)"

definition ascii_upper :: "char \<Rightarrow> char" where
  "ascii_upper c = (if 97 \<le> char_code c \<and> char_code c \<le> 122 then char_of (char_code c - 32) else c)"

definition to_ascii_lowercase :: "string \<Rightarrow> string" where
  "to_ascii_lowercase s = map ascii_lower s"

definition eq_ignore_ascii_case :: "string \<Rightarrow> string \<Rightarrow> bool" where
  "eq_ignore_ascii_case a b \<longleftrightarrow> to_ascii_lowercase a = to_ascii_lowercase b"

text \<open>The UTF-8 encoding of one scalar with \<open>char::is_whitespace\<close>: the ASCII ones, U+0085, U+00A0,
  U+1680, U+2000 to U+200A, U+2028, U+2029, U+202F, U+205F and U+3000.\<close>

definition is_ws_scalar :: "string \<Rightarrow> bool" where
  "is_ws_scalar s \<longleftrightarrow> (case s of
       [c] \<Rightarrow> (9 \<le> char_code c \<and> char_code c \<le> 13) \<or> char_code c = 32
     | [a, b] \<Rightarrow> char_code a = 0xC2 \<and> (char_code b = 0x85 \<or> char_code b = 0xA0)
     | [a, b, c] \<Rightarrow>
         (char_code a = 0xE1 \<and> char_code b = 0x9A \<and> char_code c = 0x80)
       \<or> (char_code a = 0xE2 \<and> char_code b = 0x80
          \<and> ((0x80 \<le> char_code c \<and> char_code c \<le> 0x8A) \<or> char_code c = 0xA8
             \<or> char_code c = 0xA9 \<or> char_code c = 0xAF))
       \<or> (char_code a = 0xE2 \<and> char_code b = 0x81 \<and> char_code c = 0x9F)
       \<or> (char_code a = 0xE3 \<and> char_code b = 0x80 \<and> char_code c = 0x80)
     | _ \<Rightarrow> False)"

text \<open>How many bytes the leading (trailing) white space scalar takes, 0 when there is none.\<close>

definition ws_len :: "string \<Rightarrow> nat" where
  "ws_len s = (if is_ws_scalar (take 1 s) then 1 else if is_ws_scalar (take 2 s) then 2
     else if is_ws_scalar (take 3 s) then 3 else 0)"

definition ws_len_end :: "string \<Rightarrow> nat" where
  "ws_len_end s = (if is_ws_scalar (drop (length s - 1) s) then 1
     else if is_ws_scalar (drop (length s - 2) s) then 2
     else if is_ws_scalar (drop (length s - 3) s) then 3 else 0)"

lemma is_ws_scalar_nonempty: "is_ws_scalar s \<Longrightarrow> s \<noteq> []"
  by (auto simp: is_ws_scalar_def)

lemma ws_len_Nil [simp]: "ws_len [] = 0"
  by (simp add: ws_len_def is_ws_scalar_def)

lemma ws_len_pos_length: "0 < ws_len s \<Longrightarrow> s \<noteq> []"
  by (auto intro: ccontr)

lemma ws_len_end_Nil [simp]: "ws_len_end [] = 0"
  by (simp add: ws_len_end_def is_ws_scalar_def)

function trim_start :: "string \<Rightarrow> string" where
  "trim_start s = (if ws_len s = 0 then s else trim_start (drop (ws_len s) s))"
  by pat_completeness auto
termination
proof (relation "measure length")
  fix s assume "ws_len s \<noteq> 0"
  then have "0 < ws_len s" "s \<noteq> []" by auto
  then show "(drop (ws_len s) s, s) \<in> measure length" by simp
qed simp

function trim_end :: "string \<Rightarrow> string" where
  "trim_end s = (if ws_len_end s = 0 then s else trim_end (take (length s - ws_len_end s) s))"
  by pat_completeness auto
termination
proof (relation "measure length")
  fix s assume "ws_len_end s \<noteq> 0"
  then have "0 < ws_len_end s" "s \<noteq> []" by auto
  then show "(take (length s - ws_len_end s) s, s) \<in> measure length" by simp
qed simp

declare trim_start.simps [simp del] trim_end.simps [simp del]

definition trim :: "string \<Rightarrow> string" where
  "trim s = trim_end (trim_start s)"

lemma trim_start_Nil [simp]: "trim_start [] = []"
  by (simp add: trim_start.simps)

lemma trim_end_Nil [simp]: "trim_end [] = []"
  by (simp add: trim_end.simps)

lemma trim_Nil [simp]: "trim [] = []"
  by (simp add: trim_def)

lemma length_trim_start: "length (trim_start s) \<le> length s"
proof (induction s rule: trim_start.induct)
  case (1 s)
  then show ?case
    by (subst trim_start.simps) (auto intro: order.trans)
qed

lemma length_trim_end: "length (trim_end s) \<le> length s"
proof (induction s rule: trim_end.induct)
  case (1 s)
  then show ?case
    by (subst trim_end.simps) (auto intro: order.trans)
qed

lemma length_trim: "length (trim s) \<le> length s"
  using length_trim_start [of s] length_trim_end [of "trim_start s"] by (simp add: trim_def)

section \<open>Prefixes, suffixes, searching, splitting\<close>

definition strip_prefix :: "string \<Rightarrow> string \<Rightarrow> string option" where
  "strip_prefix p s = (if prefix p s then Some (drop (length p) s) else None)"

definition strip_suffix :: "string \<Rightarrow> string \<Rightarrow> string option" where
  "strip_suffix p s = (if suffix p s then Some (take (length s - length p) s) else None)"

definition contains :: "string \<Rightarrow> string \<Rightarrow> bool" where
  "contains p s \<longleftrightarrow> sublist p s"

lemma strip_prefix_append [simp, str_simps]: "strip_prefix p (p @ s) = Some s"
  by (simp add: strip_prefix_def)

lemma strip_prefix_Some: "strip_prefix p s = Some r \<longleftrightarrow> s = p @ r"
  by (auto simp: strip_prefix_def prefix_def)

lemma strip_suffix_Some: "strip_suffix p s = Some r \<longleftrightarrow> s = r @ p"
  by (auto simp: strip_suffix_def suffix_def)

text \<open>\<open>str::find\<close> of one character.\<close>

fun find_char :: "char \<Rightarrow> string \<Rightarrow> nat option" where
  "find_char c [] = None"
| "find_char c (x # xs) = (if x = c then Some 0 else map_option Suc (find_char c xs))"

lemma find_char_None: "find_char c s = None \<longleftrightarrow> c \<notin> set s"
  by (induction s) auto

lemma find_char_Some:
  "find_char c s = Some i \<Longrightarrow> i < length s \<and> s ! i = c \<and> c \<notin> set (take i s)"
  by (induction s arbitrary: i) (auto split: if_splits)

lemma find_char_append_sep: "c \<notin> set l \<Longrightarrow> find_char c (l @ c # r) = Some (length l)"
  by (induction l) auto

text \<open>\<open>str::split\<close> on one character: always at least one part.\<close>

fun split_on :: "char \<Rightarrow> string \<Rightarrow> string list" where
  "split_on c [] = [[]]"
| "split_on c (x # xs) =
     (if x = c then [] # split_on c xs
      else (case split_on c xs of [] \<Rightarrow> [[x]] | p # ps \<Rightarrow> (x # p) # ps))"

fun join_with :: "string \<Rightarrow> string list \<Rightarrow> string" where
  "join_with sep [] = []"
| "join_with sep [x] = x"
| "join_with sep (x # y # zs) = x @ sep @ join_with sep (y # zs)"

lemma split_on_nonempty [simp]: "split_on c s \<noteq> []"
  by (induction s) (auto split: list.splits)

lemma split_on_no_sep: "p \<in> set (split_on c s) \<Longrightarrow> c \<notin> set p"
  by (induction s arbitrary: p) (auto split: list.splits if_splits)

lemma join_split_on: "join_with [c] (split_on c s) = s"
proof (induction s)
  case (Cons x xs)
  obtain p ps where "split_on c xs = p # ps"
    by (cases "split_on c xs") auto
  with Cons show ?case by (cases ps) auto
qed simp

lemma split_on_append_sep: "c \<notin> set p \<Longrightarrow> split_on c (p @ c # r) = p # split_on c r"
  by (induction p) auto

lemma split_on_plain: "c \<notin> set p \<Longrightarrow> split_on c p = [p]"
  by (induction p) auto

lemma split_join_with:
  "ps \<noteq> [] \<Longrightarrow> (\<And>p. p \<in> set ps \<Longrightarrow> c \<notin> set p) \<Longrightarrow> split_on c (join_with [c] ps) = ps"
  by (induction "[c]" ps rule: join_with.induct) (simp_all add: split_on_append_sep split_on_plain)

section \<open>Numbers in text\<close>

text \<open>\<open>u64::to_string\<close> and the decimal \<open>parse\<close> of the integer types: an optional sign, then at least
  one digit, then the range check of the type.\<close>

definition digit_char :: "nat \<Rightarrow> char" where
  "digit_char d = char_of (48 + d)"

function show_nat :: "nat \<Rightarrow> string" where
  "show_nat n = (if n < 10 then [digit_char n] else show_nat (n div 10) @ [digit_char (n mod 10)])"
  by pat_completeness auto
termination
  by (relation "measure id") auto

declare show_nat.simps [simp del]

fun parse_digits :: "nat \<Rightarrow> string \<Rightarrow> nat option" where
  "parse_digits acc [] = Some acc"
| "parse_digits acc (c # cs) =
     (if is_ascii_digit c then parse_digits (acc * 10 + (char_code c - 48)) cs else None)"

definition parse_nat :: "string \<Rightarrow> nat option" where
  "parse_nat s = (if s = [] then None else parse_digits 0 s)"

definition parse_unsigned :: "nat \<Rightarrow> string \<Rightarrow> nat option" where
  "parse_unsigned bits s =
     (case parse_nat (case s of [] \<Rightarrow> [] | c # cs \<Rightarrow> if c = CHR ''+'' then cs else s) of
        None \<Rightarrow> None
      | Some n \<Rightarrow> if n < 2 ^ bits then Some n else None)"

definition in_i64 :: "int \<Rightarrow> bool" where
  "in_i64 i \<longleftrightarrow> - (2 ^ 63) \<le> i \<and> i < 2 ^ 63"

definition parse_i64 :: "string \<Rightarrow> int option" where
  "parse_i64 s = (case s of
       [] \<Rightarrow> None
     | c # cs \<Rightarrow>
         (case (if c = CHR ''-'' then map_option (\<lambda>n. - int n) (parse_nat cs)
                else if c = CHR ''+'' then map_option int (parse_nat cs)
                else map_option int (parse_nat s)) of
            None \<Rightarrow> None
          | Some i \<Rightarrow> if in_i64 i then Some i else None))"

definition show_int :: "int \<Rightarrow> string" where
  "show_int i = (if i < 0 then CHR ''-'' # show_nat (nat (- i)) else show_nat (nat i))"

lemma char_code_char_of [simp]: "n < 256 \<Longrightarrow> char_code (char_of n) = n"
  by (simp add: char_code_def)

lemma digit_char_code [simp]: "d < 10 \<Longrightarrow> char_code (digit_char d) = 48 + d"
  by (simp add: digit_char_def)

lemma digit_char_is_digit [simp]: "d < 10 \<Longrightarrow> is_ascii_digit (digit_char d)"
  by (simp add: is_ascii_digit_def)

lemma show_nat_nonempty [simp]: "show_nat n \<noteq> []"
  by (subst show_nat.simps) simp

lemma show_nat_digits: "c \<in> set (show_nat n) \<Longrightarrow> is_ascii_digit c"
proof (induction n rule: show_nat.induct)
  case (1 n)
  show ?case
  proof (cases "n < 10")
    case True
    with "1.prems" show ?thesis by (subst (asm) show_nat.simps) auto
  next
    case False
    with 1 show ?thesis by (subst (asm) (2) show_nat.simps) auto
  qed
qed

lemma parse_digits_append:
  "parse_digits acc (xs @ ys) =
     (case parse_digits acc xs of None \<Rightarrow> None | Some n \<Rightarrow> parse_digits n ys)"
  by (induction xs arbitrary: acc) auto

lemma parse_digits_show_nat: "parse_digits 0 (show_nat n) = Some n"
proof (induction n rule: show_nat.induct)
  case (1 n)
  show ?case
  proof (cases "n < 10")
    case True
    then show ?thesis by (subst show_nat.simps) simp
  next
    case False
    with 1 show ?thesis by (subst show_nat.simps) (simp add: parse_digits_append)
  qed
qed

lemma parse_nat_show_nat [simp]: "parse_nat (show_nat n) = Some n"
  by (simp add: parse_nat_def parse_digits_show_nat)

lemma show_nat_hd: "\<exists>c cs. show_nat n = c # cs \<and> is_ascii_digit c"
proof (cases "show_nat n")
  case (Cons c cs)
  then show ?thesis using show_nat_digits [of c n] by simp
qed simp

lemma sign_not_digit [simp]: "\<not> is_ascii_digit CHR ''+''" "\<not> is_ascii_digit CHR ''-''"
  by (simp_all add: is_ascii_digit_def char_code_def)

lemma parse_unsigned_show_nat: "n < 2 ^ bits \<Longrightarrow> parse_unsigned bits (show_nat n) = Some n"
proof -
  assume n: "n < 2 ^ bits"
  obtain c cs where c: "show_nat n = c # cs" "is_ascii_digit c"
    using show_nat_hd by blast
  then have "c \<noteq> CHR ''+''" by auto
  then have "parse_unsigned bits (c # cs) =
      (case parse_nat (c # cs) of None \<Rightarrow> None | Some n \<Rightarrow> if n < 2 ^ bits then Some n else None)"
    by (simp add: parse_unsigned_def)
  also have "parse_nat (c # cs) = Some n"
    using parse_nat_show_nat [of n] c by simp
  finally show ?thesis using n c by simp
qed

lemma parse_i64_show_int:
  assumes "in_i64 i"
  shows "parse_i64 (show_int i) = Some i"
proof (cases "i < 0")
  case True
  then show ?thesis using assms by (simp add: parse_i64_def show_int_def)
next
  case False
  obtain c cs where c: "show_nat (nat i) = c # cs" "is_ascii_digit c"
    using show_nat_hd by blast
  then have "c \<noteq> CHR ''+''" "c \<noteq> CHR ''-''" by auto
  moreover have "parse_nat (c # cs) = Some (nat i)"
    using parse_nat_show_nat [of "nat i"] c by simp
  ultimately show ?thesis using False assms c by (simp add: parse_i64_def show_int_def)
qed

section \<open>Hexadecimal\<close>

text \<open>One byte as two lower case digits, \<open>{:02x}\<close>.\<close>

definition hex_digit :: "nat \<Rightarrow> char" where
  "hex_digit d = (if d < 10 then char_of (48 + d) else char_of (87 + d))"

definition hex2 :: "nat \<Rightarrow> string" where
  "hex2 n = [hex_digit (n div 16 mod 16), hex_digit (n mod 16)]"

definition hex_value :: "char \<Rightarrow> nat option" where
  "hex_value c =
     (if is_ascii_digit c then Some (char_code c - 48)
      else if 97 \<le> char_code c \<and> char_code c \<le> 102 then Some (char_code c - 87)
      else if 65 \<le> char_code c \<and> char_code c \<le> 70 then Some (char_code c - 55)
      else None)"

lemma hex_value_digit [simp]: "d < 16 \<Longrightarrow> hex_value (hex_digit d) = Some d"
  by (auto simp: hex_value_def hex_digit_def is_ascii_digit_def)

section \<open>Bytes and characters\<close>

text \<open>\<open>as_bytes\<close> and its inverse.\<close>

definition as_bytes :: "string \<Rightarrow> byte list" where
  "as_bytes s = map (\<lambda>c. word_of_nat (char_code c)) s"

definition from_bytes :: "byte list \<Rightarrow> string" where
  "from_bytes bs = map (\<lambda>b. char_of (unat b)) bs"

lemma char_of_char_code [simp]: "char_of (char_code c) = c"
  by (simp add: char_code_def)

lemma char_code_less: "char_code c < 256"
  by (simp add: char_code_def)

lemma from_bytes_as_bytes [simp]: "from_bytes (as_bytes s) = s"
proof (induction s)
  case (Cons c s)
  have "unat (word_of_nat (char_code c) :: byte) = char_code c"
    using char_code_less [of c] by (simp add: unat_of_nat)
  then show ?case using Cons by (simp add: from_bytes_def as_bytes_def)
qed (simp add: from_bytes_def as_bytes_def)

lemma as_bytes_from_bytes [simp]: "as_bytes (from_bytes bs) = bs"
proof (induction bs)
  case (Cons b bs)
  have "unat b < 256" using unsigned_less [of b] by simp
  then show ?case using Cons by (simp add: from_bytes_def as_bytes_def)
qed (simp add: from_bytes_def as_bytes_def)

section \<open>UTF-8\<close>

text \<open>The first scalar of a byte sequence: \<open>(True, n)\<close> when it is well formed and n bytes long,
  \<open>(False, n)\<close> when it is not, n being the length of the prefix \<open>from_utf8_lossy\<close> replaces.\<close>

definition between :: "nat \<Rightarrow> nat \<Rightarrow> nat \<Rightarrow> bool" where
  "between lo hi n \<longleftrightarrow> lo \<le> n \<and> n \<le> hi"

definition nth_or_0 :: "nat list \<Rightarrow> nat \<Rightarrow> nat" where
  "nth_or_0 xs i = (if i < length xs then xs ! i else 0)"

definition utf8_head :: "nat list \<Rightarrow> bool \<times> nat" where
  "utf8_head xs =
     (let b0 = nth_or_0 xs 0; b1 = nth_or_0 xs 1; b2 = nth_or_0 xs 2; b3 = nth_or_0 xs 3 in
      if b0 < 128 then (True, 1)
      else if between 0xC2 0xDF b0 then
        (if between 0x80 0xBF b1 then (True, 2) else (False, 1))
      else if between 0xE0 0xEF b0 then
        (if between (if b0 = 0xE0 then 0xA0 else 0x80) (if b0 = 0xED then 0x9F else 0xBF) b1
         then (if between 0x80 0xBF b2 then (True, 3) else (False, 2))
         else (False, 1))
      else if between 0xF0 0xF4 b0 then
        (if between (if b0 = 0xF0 then 0x90 else 0x80) (if b0 = 0xF4 then 0x8F else 0xBF) b1
         then (if between 0x80 0xBF b2
               then (if between 0x80 0xBF b3 then (True, 4) else (False, 3))
               else (False, 2))
         else (False, 1))
      else (False, 1))"

lemma utf8_head_pos: "0 < snd (utf8_head xs)"
  by (simp add: utf8_head_def Let_def)

function utf8_chunks :: "byte list \<Rightarrow> (bool \<times> byte list) list" where
  "utf8_chunks bs = (if bs = [] then [] else
     (let (ok, n) = utf8_head (map unat (take 4 bs)) in (ok, take n bs) # utf8_chunks (drop n bs)))"
  by pat_completeness auto
termination
proof (relation "measure length")
  fix bs :: "byte list" and p :: "bool \<times> nat" and ok n
  assume bs: "bs \<noteq> []" and p: "p = utf8_head (map unat (take 4 bs))" "(ok, n) = p"
  then have "0 < n" using utf8_head_pos [of "map unat (take 4 bs)"] by (metis snd_conv)
  then show "(drop n bs, bs) \<in> measure length" using bs by simp
qed simp

declare utf8_chunks.simps [simp del]

definition valid_utf8 :: "byte list \<Rightarrow> bool" where
  "valid_utf8 bs \<longleftrightarrow> (\<forall>c \<in> set (utf8_chunks bs). fst c)"

definition from_utf8 :: "byte list \<Rightarrow> string option" where
  "from_utf8 bs = (if valid_utf8 bs then Some (from_bytes bs) else None)"

definition from_utf8_lossy :: "byte list \<Rightarrow> string" where
  "from_utf8_lossy bs =
     from_bytes (concat (map (\<lambda>c. if fst c then snd c else [0xEF, 0xBF, 0xBD]) (utf8_chunks bs)))"

lemma utf8_chunks_Nil [simp]: "utf8_chunks [] = []"
  by (simp add: utf8_chunks.simps)

lemma concat_utf8_chunks: "concat (map snd (utf8_chunks bs)) = bs"
proof (induction bs rule: utf8_chunks.induct)
  case (1 bs)
  show ?case
  proof (cases "bs = []")
    case False
    obtain ok n where h: "utf8_head (map unat (take 4 bs)) = (ok, n)" by fastforce
    have "concat (map snd (utf8_chunks (drop n bs))) = drop n bs"
      using 1 [OF False refl h [symmetric]] by simp
    then show ?thesis using False h by (subst utf8_chunks.simps) simp
  qed simp
qed

lemma from_utf8_lossy_valid:
  assumes "valid_utf8 bs"
  shows "from_utf8_lossy bs = from_bytes bs"
proof -
  have "map (\<lambda>c. if fst c then snd c else [0xEF, 0xBF, 0xBD]) (utf8_chunks bs)
      = map snd (utf8_chunks bs)"
    using assms by (auto simp: valid_utf8_def)
  then show ?thesis by (simp only: from_utf8_lossy_def concat_utf8_chunks)
qed

lemma utf8_chunks_ascii_Cons:
  "is_ascii c \<Longrightarrow> utf8_chunks (as_bytes (c # s)) = (True, as_bytes [c]) # utf8_chunks (as_bytes s)"
proof -
  assume c: "is_ascii c"
  have "unat (word_of_nat (char_code c) :: byte) = char_code c"
    using char_code_less [of c] by (simp add: unat_of_nat)
  then have "utf8_head (map unat (take 4 (as_bytes (c # s)))) = (True, 1)"
    using c by (simp add: utf8_head_def nth_or_0_def as_bytes_def is_ascii_def Let_def)
  then show ?thesis by (subst utf8_chunks.simps) (simp add: as_bytes_def)
qed

lemma valid_utf8_ascii: "list_all is_ascii s \<Longrightarrow> valid_utf8 (as_bytes s)"
proof (induction s)
  case (Cons c s)
  then show ?case by (auto simp: valid_utf8_def utf8_chunks_ascii_Cons)
qed (simp add: valid_utf8_def as_bytes_def)

text \<open>A character that is complete stays so when more bytes follow: a missing byte counts as 0, which
  is no continuation byte.\<close>

lemma between_nonzero: "0 < a \<Longrightarrow> between a b x \<Longrightarrow> x \<noteq> 0"
  by (auto simp: between_def)

lemma utf8_head_cong:
  assumes t: "fst (utf8_head xs)" and b: "\<And>i. nth_or_0 xs i \<noteq> 0 \<Longrightarrow> nth_or_0 ys i = nth_or_0 xs i"
    and b0: "nth_or_0 ys 0 = nth_or_0 xs 0"
  shows "utf8_head ys = utf8_head xs \<and> (\<exists>n. snd (utf8_head xs) = Suc n \<and> (0 < n \<longrightarrow> nth_or_0 xs n \<noteq> 0))"
proof -
  let ?b = "nth_or_0 xs"
  have nz: "?b i = nth_or_0 ys i \<and> ?b i \<noteq> 0" if "between a c (?b i)" "0 < a" for a c i
    using between_nonzero [OF that(2,1)] b [of i] by simp
  consider "?b 0 < 128" | "between 0xC2 0xDF (?b 0)" | "between 0xE0 0xEF (?b 0)" | "between 0xF0 0xF4 (?b 0)"
    using t by (auto simp: utf8_head_def Let_def split: if_split_asm)
  then show ?thesis
  proof cases
    case 1
    then show ?thesis by (simp add: utf8_head_def b0)
  next
    case 2
    then have n: "\<not> ?b 0 < 128" by (simp add: between_def)
    have c1: "between 0x80 0xBF (?b 1)" using t 2 n by (simp add: utf8_head_def split: if_split_asm)
    show ?thesis using 2 n c1 nz [OF c1] by (simp add: utf8_head_def b0)
  next
    case 3
    then have n: "\<not> ?b 0 < 128" "\<not> between 0xC2 0xDF (?b 0)" by (simp_all add: between_def)
    obtain lo hi where lo: "lo = (if ?b 0 = 0xE0 then 0xA0 else 0x80 :: nat)"
      and hi: "hi = (if ?b 0 = 0xED then 0x9F else 0xBF :: nat)" by blast
    have e: "utf8_head zs = (if between lo hi (nth_or_0 zs 1)
         then (if between 0x80 0xBF (nth_or_0 zs 2) then (True, 3) else (False, 2)) else (False, 1))"
      if "nth_or_0 zs 0 = ?b 0" for zs
      unfolding utf8_head_def that lo hi using 3 n by (simp add: Let_def)
    have c: "between lo hi (?b 1)" "between 0x80 0xBF (?b 2)"
      using t unfolding e [OF refl] by (simp_all split: if_split_asm)
    have "0 < lo" by (simp add: lo)
    then show ?thesis using e [OF refl] e [OF b0] c nz [OF c(1)] nz [OF c(2)] by simp
  next
    case 4
    then have n: "\<not> ?b 0 < 128" "\<not> between 0xC2 0xDF (?b 0)" "\<not> between 0xE0 0xEF (?b 0)"
      by (simp_all add: between_def)
    obtain lo hi where lo: "lo = (if ?b 0 = 0xF0 then 0x90 else 0x80 :: nat)"
      and hi: "hi = (if ?b 0 = 0xF4 then 0x8F else 0xBF :: nat)" by blast
    have e: "utf8_head zs = (if between lo hi (nth_or_0 zs 1)
         then (if between 0x80 0xBF (nth_or_0 zs 2)
               then (if between 0x80 0xBF (nth_or_0 zs 3) then (True, 4) else (False, 3)) else (False, 2))
         else (False, 1))"
      if "nth_or_0 zs 0 = ?b 0" for zs
      unfolding utf8_head_def that lo hi using 4 n by (simp add: Let_def)
    have c: "between lo hi (?b 1)" "between 0x80 0xBF (?b 2)" "between 0x80 0xBF (?b 3)"
      using t unfolding e [OF refl] by (simp_all split: if_split_asm)
    have "0 < lo" by (simp add: lo)
    then show ?thesis using e [OF refl] e [OF b0] c nz [OF c(1)] nz [OF c(2)] nz [OF c(3)] by simp
  qed
qed

lemma utf8_head_append:
  assumes "fst (utf8_head (map unat (take 4 bs)))" "bs \<noteq> []"
  shows "utf8_head (map unat (take 4 (bs @ cs))) = utf8_head (map unat (take 4 bs))
    \<and> snd (utf8_head (map unat (take 4 bs))) \<le> length bs"
proof -
  let ?xs = "map unat (take 4 bs)"
  have a: "nth_or_0 (map unat (take 4 (bs @ cs))) i = nth_or_0 ?xs i" if "i < length ?xs" for i
    using that by (auto simp: nth_or_0_def nth_append min_def)
  have "nth_or_0 ?xs i \<noteq> 0 \<Longrightarrow> i < length ?xs" for i by (simp add: nth_or_0_def split: if_split_asm)
  moreover have "0 < length ?xs" using assms(2) by simp
  ultimately show ?thesis
    using utf8_head_cong [OF assms(1), of "map unat (take 4 (bs @ cs))"] a assms(2)
    by (metis (no_types, lifting) Suc_leI length_map length_take min_less_iff_conj not_gr_zero less_Suc0)
qed

lemma valid_utf8_append: "valid_utf8 bs \<Longrightarrow> valid_utf8 cs \<Longrightarrow> valid_utf8 (bs @ cs)"
proof (induction bs rule: utf8_chunks.induct)
  case (1 bs)
  show ?case
  proof (cases "bs = []")
    case False
    obtain ok n where h: "utf8_head (map unat (take 4 bs)) = (ok, n)" by fastforce
    have u: "utf8_chunks bs = (ok, take n bs) # utf8_chunks (drop n bs)"
      using False h by (subst utf8_chunks.simps) simp
    then have ok: ok and v: "valid_utf8 (drop n bs)" using "1.prems"(1) by (auto simp: valid_utf8_def)
    have "utf8_head (map unat (take 4 (bs @ cs))) = (ok, n)" "n \<le> length bs"
      using utf8_head_append [of bs cs] h ok False by simp_all
    then have "utf8_chunks (bs @ cs) = (ok, take n bs) # utf8_chunks (drop n bs @ cs)"
      using False by (subst utf8_chunks.simps) simp
    then show ?thesis
      using "1.IH" [OF False refl h [symmetric] v "1.prems"(2)] ok by (simp add: valid_utf8_def)
  qed (use "1.prems" in simp)
qed
section \<open>The ordered map\<close>

text \<open>\<open>BTreeMap<K, V>\<close> is an association list whose keys increase strictly; iteration follows the
  list. Strings are ordered by their bytes, as in Rust.\<close>

type_synonym ('k, 'v) btree = "('k \<times> 'v) list"

fun bt_insert :: "'k::linorder \<Rightarrow> 'v \<Rightarrow> ('k, 'v) btree \<Rightarrow> ('k, 'v) btree" where
  "bt_insert k v [] = [(k, v)]"
| "bt_insert k v ((k', v') # m) =
     (if k < k' then (k, v) # (k', v') # m
      else if k = k' then (k, v) # m
      else (k', v') # bt_insert k v m)"

definition bt_get :: "('k, 'v) btree \<Rightarrow> 'k \<Rightarrow> 'v option" where
  "bt_get m k = map_of m k"

definition bt_remove :: "'k \<Rightarrow> ('k, 'v) btree \<Rightarrow> ('k, 'v) btree" where
  "bt_remove k m = filter (\<lambda>p. fst p \<noteq> k) m"

definition bt_ok :: "('k::linorder, 'v) btree \<Rightarrow> bool" where
  "bt_ok m \<longleftrightarrow> sorted_wrt (<) (map fst m)"

text \<open>\<open>collect()\<close> into a map: a later pair replaces an earlier one.\<close>

definition bt_collect :: "('k::linorder \<times> 'v) list \<Rightarrow> ('k, 'v) btree" where
  "bt_collect ps = fold (\<lambda>p. bt_insert (fst p) (snd p)) ps []"

lemma bt_get_Nil [simp, btree_simps]: "bt_get [] k = None"
  by (simp add: bt_get_def)

lemma bt_get_insert [simp, btree_simps]:
  "bt_get (bt_insert k v m) k' = (if k' = k then Some v else bt_get m k')"
  by (induction k v m rule: bt_insert.induct) (auto simp: bt_get_def)

lemma bt_get_remove [simp, btree_simps]:
  "bt_get (bt_remove k m) k' = (if k' = k then None else bt_get m k')"
  by (induction m) (auto simp: bt_get_def bt_remove_def)

lemma bt_insert_keys: "fst ` set (bt_insert k v m) = insert k (fst ` set m)"
  by (induction k v m rule: bt_insert.induct) auto

lemma bt_ok_Nil [simp]: "bt_ok []"
  by (simp add: bt_ok_def)

lemma bt_ok_Cons: "bt_ok ((k, v) # m) \<longleftrightarrow> (\<forall>k' \<in> fst ` set m. k < k') \<and> bt_ok m"
  by (simp add: bt_ok_def)

lemma bt_ok_insert [simp]: "bt_ok m \<Longrightarrow> bt_ok (bt_insert k v m)"
proof (induction k v m rule: bt_insert.induct)
  case (2 k v k' v' m)
  then show ?case
    by (auto simp: bt_ok_Cons bt_insert_keys)
qed (simp add: bt_ok_def)

lemma bt_ok_remove [simp]: "bt_ok m \<Longrightarrow> bt_ok (bt_remove k m)"
  by (induction m) (auto simp: bt_ok_Cons bt_remove_def)

lemma bt_ok_distinct: "bt_ok m \<Longrightarrow> distinct (map fst m)"
  by (induction m) (auto simp: bt_ok_Cons bt_ok_def)

lemma bt_ok_collect_aux: "bt_ok m \<Longrightarrow> bt_ok (fold (\<lambda>p. bt_insert (fst p) (snd p)) ps m)"
  by (induction ps arbitrary: m) auto

lemma bt_ok_collect [simp]: "bt_ok (bt_collect ps)"
  by (simp add: bt_collect_def bt_ok_collect_aux)

lemma bt_get_Some_in: "bt_ok m \<Longrightarrow> bt_get m k = Some v \<longleftrightarrow> (k, v) \<in> set m"
  by (simp add: bt_get_def bt_ok_distinct)

lemma bt_ok_ext:
  "bt_ok m \<Longrightarrow> bt_ok m' \<Longrightarrow> (\<And>k. bt_get m k = bt_get m' k) \<Longrightarrow> m = m'"
proof (induction m arbitrary: m')
  case Nil
  have "fst ` set m' = {}"
    using Nil.prems(3) by (metis bt_get_Nil bt_get_def map_of_eq_None_iff equals0I)
  then show ?case by simp
next
  case (Cons p m)
  obtain k v where p: "p = (k, v)" by (cases p)
  have "set (p # m) = set m'"
    using Cons.prems bt_get_Some_in by (metis surj_pair subset_antisym subsetI)
  moreover obtain k1 v1 m1 where m': "m' = (k1, v1) # m1"
    using calculation by (cases m') auto
  ultimately have sets: "insert (k, v) (set m) = insert (k1, v1) (set m1)" using p by simp
  have lt: "\<And>x y. (x, y) \<in> set m \<Longrightarrow> k < x" "\<And>x y. (x, y) \<in> set m1 \<Longrightarrow> k1 < x"
    using Cons.prems p m' by (force simp: bt_ok_Cons)+
  have hd: "k = k1 \<and> v = v1"
    using sets lt by (metis Pair_inject insertE insertI1 less_asym)
  have "\<And>x. bt_get m x = bt_get m1 x"
  proof -
    fix x
    show "bt_get m x = bt_get m1 x"
    proof (cases "x = k")
      case True
      have "bt_get m k = None" "bt_get m1 k = None"
        using hd by (auto simp: bt_get_def map_of_eq_None_iff dest: lt)
      then show ?thesis using True by simp
    next
      case False
      then show ?thesis using Cons.prems(3) [of x] p m' hd by (simp add: bt_get_def)
    qed
  qed
  then show ?case using Cons.IH [of m1] Cons.prems p m' hd by (simp add: bt_ok_Cons)
qed

lemma bt_insert_first: "(\<And>k'. k' \<in> fst ` set m \<Longrightarrow> k < k') \<Longrightarrow> bt_insert k v m = (k, v) # m"
  by (cases m) auto

text \<open>Deserialising a map that was serialised entry by entry gives it back.\<close>

lemma bt_insert_last: "(\<And>k'. k' \<in> fst ` set m \<Longrightarrow> k' < k) \<Longrightarrow> bt_insert k v m = m @ [(k, v)]"
  by (induction k v m rule: bt_insert.induct) force+

lemma bt_collect_aux: "bt_ok (m @ ps) \<Longrightarrow> fold (\<lambda>p. bt_insert (fst p) (snd p)) ps m = m @ ps"
proof (induction ps arbitrary: m)
  case (Cons p ps)
  have "bt_insert (fst p) (snd p) m = m @ [p]"
    using Cons.prems by (subst bt_insert_last) (auto simp: bt_ok_def sorted_wrt_append)
  with Cons show ?case by simp
qed simp

lemma bt_collect_ok [simp]: "bt_ok m \<Longrightarrow> bt_collect m = m"
  by (simp add: bt_collect_def bt_collect_aux)

end
