(* ===== verification/Lib.thy ===== *)
theory Lib
  imports Main Prelude "HOL-Library.Monad_Syntax"
begin

text \<open>
  The values the program exchanges with \<open>serde_json\<close> and the functions of third-party packages it
  relies on. \<open>json\<close> is \<open>serde_json::Value\<close>; its object is the \<open>BTreeMap\<close> of the default feature
  set. The functions of a package that is not in the repository are the fields of the record \<open>lib\<close>,
  which every definition that needs one takes as its first argument.

  The \<open>de_\<close> combinators are the derived \<open>Deserialize\<close> implementations run on a value: a struct is
  read from an object (unknown keys ignored) or, as serde's derive does, from an array of its
  fields in order. They return an option; the text of the error is a function of the target type
  and the value (\<open>lib_de_err\<close>).
\<close>

section \<open>JSON values\<close>

datatype jnum = PosInt u64 | NegInt int | JFloat u64

datatype json =
    JNull
  | JBool bool
  | JNumber jnum
  | JString string
  | JArray "json list"
  | JObject "(string \<times> json) list"

text \<open>A tree of this type is also what a derived \<open>Serialize\<close> hands to the writer: a struct is the object of
  its fields in the order they are declared. \<open>json_value\<close> is the \<open>Value\<close> such a tree becomes
  (\<open>serde_json::to_value\<close>, or parsing what was written): every object is collected into a map.\<close>

definition json_obj :: "(string \<times> json) list \<Rightarrow> json" where
  "json_obj ps = JObject (bt_collect ps)"

definition json_nat :: "nat \<Rightarrow> json" where
  "json_nat n = JNumber (PosInt (word_of_nat n))"

definition json_i64 :: "int \<Rightarrow> json" where
  "json_i64 i = JNumber (if 0 \<le> i then PosInt (word_of_int i) else NegInt i)"

definition json_opt :: "('a \<Rightarrow> json) \<Rightarrow> 'a option \<Rightarrow> json" where
  "json_opt f x = (case x of None \<Rightarrow> JNull | Some y \<Rightarrow> f y)"

definition json_strs :: "string list \<Rightarrow> json" where
  "json_strs xs = JArray (map JString xs)"

text \<open>\<open>Value::get\<close> by key.\<close>

definition json_get :: "json \<Rightarrow> string \<Rightarrow> json option" where
  "json_get v k = (case v of JObject m \<Rightarrow> bt_get m k | _ \<Rightarrow> None)"

definition json_as_str :: "json \<Rightarrow> string option" where
  "json_as_str v = (case v of JString s \<Rightarrow> Some s | _ \<Rightarrow> None)"

lemma json_as_str_simps [simp]: "json_as_str (JString s) = Some s"
  by (simp add: json_as_str_def)

fun json_value :: "json \<Rightarrow> json" where
  "json_value (JArray vs) = JArray (map json_value vs)"
| "json_value (JObject m) = json_obj (map (\<lambda>p. (fst p, json_value (snd p))) m)"
| "json_value v = v"

text \<open>A string of Rust is a byte string that is UTF-8.\<close>

definition is_utf8 :: "string \<Rightarrow> bool" where
  "is_utf8 s \<longleftrightarrow> valid_utf8 (as_bytes s)"

text \<open>A value \<open>serde_json\<close> can hold: objects are maps, a negative integer is an \<open>i64\<close> below 0.\<close>

fun json_ok :: "json \<Rightarrow> bool" where
  "json_ok (JArray vs) \<longleftrightarrow> list_all json_ok vs"
| "json_ok (JObject m) \<longleftrightarrow> bt_ok m \<and> list_all (\<lambda>p. json_ok (snd p)) m"
| "json_ok (JNumber (NegInt i)) \<longleftrightarrow> in_i64 i \<and> i < 0"
| "json_ok _ \<longleftrightarrow> True"

text \<open>A tree whose text \<open>serde_json\<close> reads back: no key twice in an object, strings that are UTF-8, no
  floating point number (their text is not read back exactly, and an infinite one is written as
  null), and arrays and objects within d levels (the parser stops at 128).\<close>

fun json_text :: "nat \<Rightarrow> json \<Rightarrow> bool" where
  "json_text d (JArray vs) \<longleftrightarrow> 0 < d \<and> list_all (json_text (d - 1)) vs"
| "json_text d (JObject m) \<longleftrightarrow> 0 < d \<and> distinct (map fst m)
     \<and> list_all (\<lambda>p. is_utf8 (fst p) \<and> json_text (d - 1) (snd p)) m"
| "json_text d (JString s) \<longleftrightarrow> is_utf8 s"
| "json_text d (JNumber (NegInt i)) \<longleftrightarrow> in_i64 i \<and> i < 0"
| "json_text d (JNumber (JFloat _)) \<longleftrightarrow> False"
| "json_text d _ \<longleftrightarrow> True"

definition PARSE_DEPTH :: nat where
  "PARSE_DEPTH = 127"

lemma json_value_ok: "json_ok v \<Longrightarrow> json_value v = v"
proof (induction v rule: json_value.induct)
  case (1 vs)
  then show ?case by (simp add: list_all_iff map_idI)
next
  case (2 m)
  then have "map (\<lambda>p. (fst p, json_value (snd p))) m = m"
    by (intro map_idI) (auto simp: list_all_iff)
  with 2 show ?case by (simp only: json_value.simps json_obj_def) simp
qed auto

lemma json_value_leaf [simp]: "json_value (json_nat n) = json_nat n" "json_value (json_i64 i) = json_i64 i"
  by (simp_all add: json_nat_def json_i64_def)

lemma json_value_opt [simp]:
  "(\<And>y. x = Some y \<Longrightarrow> json_value (f y) = f y) \<Longrightarrow> json_value (json_opt f x) = json_opt f x"
  by (cases x) (simp_all add: json_opt_def)

lemma json_text_leaf [simp]: "json_text d (json_nat n)" "in_i64 i \<Longrightarrow> json_text d (json_i64 i)"
  by (simp_all add: json_nat_def json_i64_def)

lemma json_text_opt: "(\<And>y. x = Some y \<Longrightarrow> json_text d (f y)) \<Longrightarrow> json_text d (json_opt f x)"
  by (cases x) (simp_all add: json_opt_def)

lemma is_utf8_ascii [simp]: "list_all is_ascii s \<Longrightarrow> is_utf8 s"
  by (simp add: is_utf8_def valid_utf8_ascii)

lemma is_utf8_append: "is_utf8 a \<Longrightarrow> is_utf8 b \<Longrightarrow> is_utf8 (a @ b)"
  using valid_utf8_append [of "as_bytes a" "as_bytes b"] by (simp add: is_utf8_def as_bytes_def)

lemma bt_ok_values [simp]: "bt_ok (map (\<lambda>p. (fst p, f (snd p))) m) \<longleftrightarrow> bt_ok m"
  by (simp add: bt_ok_def comp_def)

section \<open>Third-party functions\<close>

record lib =
  lib_upper :: "string \<Rightarrow> string"
  lib_lower :: "string \<Rightarrow> string"
  lib_parse :: "byte list \<Rightarrow> string + json"
  lib_parse_typed :: "string \<Rightarrow> byte list \<Rightarrow> string + json"
  lib_render :: "json \<Rightarrow> string"
  lib_pretty :: "json \<Rightarrow> string"
  lib_de_err :: "string \<Rightarrow> json \<Rightarrow> string"
  lib_uuid_parse :: "string \<Rightarrow> uuid option"
  lib_uuid_err :: "string \<Rightarrow> string"
  lib_uuid_show :: "uuid \<Rightarrow> string"
  lib_f64_parse :: "string \<Rightarrow> u64 option"
  lib_f64_show :: "u64 \<Rightarrow> string"
  lib_debug :: "string \<Rightarrow> string"
  lib_alphanumeric :: "string \<Rightarrow> bool"
  lib_hex_decode :: "string \<Rightarrow> byte list option"
  lib_seal :: "byte list \<Rightarrow> byte list \<Rightarrow> byte list \<Rightarrow> byte list option"
  lib_open :: "byte list \<Rightarrow> byte list \<Rightarrow> byte list \<Rightarrow> byte list option"
  lib_b64_encode :: "byte list \<Rightarrow> string"
  lib_b64_decode :: "string \<Rightarrow> byte list option"

text \<open>
  \<^item> \<open>lib_upper\<close>, \<open>lib_lower\<close>: the Unicode case mapping of a string that has a non-ASCII byte
    (\<open>str::to_uppercase\<close>, \<open>str::to_lowercase\<close>, whose tables are generated); ASCII is mapped here.
  \<^item> \<open>lib_parse\<close>, \<open>lib_render\<close>, \<open>lib_pretty\<close>: \<open>serde_json::from_slice\<close> with its error text,
    \<open>Value::to_string\<close> and \<open>serde_json::to_vec\<close>, \<open>serde_json::to_string_pretty\<close>.
  \<^item> \<open>lib_parse_typed ty\<close>: what \<open>serde_json::from_slice::<T>\<close> makes of the text before the fields of T
    are read: the value, or the error (of syntax, or a field that occurs twice in a struct).
  \<^item> \<open>lib_de_err ty v\<close>: the text of the error of deserialising v as the type ty.
  \<^item> \<open>lib_uuid_parse\<close>, \<open>lib_uuid_err\<close>, \<open>lib_uuid_show\<close>: \<open>Uuid::parse_str\<close>, the text of its error and
    the \<open>Display\<close> of an identifier.
  \<^item> \<open>lib_f64_parse\<close>, \<open>lib_f64_show\<close>: \<open>str::parse::<f64>\<close>, the bits of the number, and its \<open>Display\<close>.
  \<^item> \<open>lib_debug\<close>: the quoted form \<open>{:?}\<close> of a string, whose escapes depend on generated tables.
  \<^item> \<open>lib_alphanumeric\<close>: \<open>char::is_alphanumeric\<close> of the non-ASCII scalar a byte string starts with.
  \<^item> \<open>lib_hex_decode\<close>: \<open>hex::decode\<close>.
  \<^item> \<open>lib_seal key nonce text\<close>, \<open>lib_open\<close>: AES-256-GCM of the crate \<open>aes_gcm\<close>.
  \<^item> \<open>lib_b64_encode\<close>, \<open>lib_b64_decode\<close>: the standard engine of the crate \<open>base64\<close>.
\<close>

definition to_uppercase :: "lib \<Rightarrow> string \<Rightarrow> string" where
  "to_uppercase L s = (if list_all is_ascii s then map ascii_upper s else lib_upper L s)"

definition to_lowercase :: "lib \<Rightarrow> string \<Rightarrow> string" where
  "to_lowercase L s = (if list_all is_ascii s then map ascii_lower s else lib_lower L s)"

text \<open>\<open>serde_json::to_vec\<close> and \<open>to_vec_pretty\<close>. They fail when the writer fails, which a vector does
  not, or at a map whose keys are not strings, which no type of the program has; the callers still
  have their error branches.\<close>

definition to_vec :: "lib \<Rightarrow> json \<Rightarrow> string + byte list" where
  "to_vec L v = Inr (as_bytes (lib_render L v))"

definition to_vec_pretty :: "lib \<Rightarrow> json \<Rightarrow> string + byte list" where
  "to_vec_pretty L v = Inr (as_bytes (lib_pretty L v))"

lemmas to_vec_simps [simp] = to_vec_def to_vec_pretty_def

definition json_uuid :: "lib \<Rightarrow> uuid \<Rightarrow> json" where
  "json_uuid L u = JString (lib_uuid_show L u)"

section \<open>Deserialisation\<close>

definition de_string :: "json \<Rightarrow> string option" where
  "de_string v = json_as_str v"

definition de_bool :: "json \<Rightarrow> bool option" where
  "de_bool v = (case v of JBool b \<Rightarrow> Some b | _ \<Rightarrow> None)"

definition de_unsigned :: "nat \<Rightarrow> json \<Rightarrow> nat option" where
  "de_unsigned bits v = (case v of
     JNumber (PosInt w) \<Rightarrow> if unat w < 2 ^ bits then Some (unat w) else None | _ \<Rightarrow> None)"

definition de_i64 :: "json \<Rightarrow> int option" where
  "de_i64 v = (case v of
     JNumber (PosInt w) \<Rightarrow> if uint w < 2 ^ 63 then Some (uint w) else None
   | JNumber (NegInt i) \<Rightarrow> Some i | _ \<Rightarrow> None)"

definition de_option :: "(json \<Rightarrow> 'a option) \<Rightarrow> json \<Rightarrow> 'a option option" where
  "de_option f v = (if v = JNull then Some None else map_option Some (f v))"

fun opt_collect :: "'a option list \<Rightarrow> 'a list option" where
  "opt_collect [] = Some []"
| "opt_collect (x # xs) = do { y \<leftarrow> x; ys \<leftarrow> opt_collect xs; Some (y # ys) }"

definition de_vec :: "(json \<Rightarrow> 'a option) \<Rightarrow> json \<Rightarrow> 'a list option" where
  "de_vec f v = (case v of JArray vs \<Rightarrow> opt_collect (map f vs) | _ \<Rightarrow> None)"

text \<open>A map with string keys, as the list of its entries.\<close>

definition de_map :: "(json \<Rightarrow> 'a option) \<Rightarrow> json \<Rightarrow> (string \<times> 'a) list option" where
  "de_map f v = (case v of
     JObject m \<Rightarrow> opt_collect (map (\<lambda>(k, x). map_option (Pair k) (f x)) m) | _ \<Rightarrow> None)"

text \<open>An enum of unit variants: the variant's name, or an object with that one key and null.\<close>

definition de_unit_enum :: "(string \<times> 'a) list \<Rightarrow> json \<Rightarrow> 'a option" where
  "de_unit_enum vs v = (case v of
     JString s \<Rightarrow> map_of vs s
   | JObject [(k, x)] \<Rightarrow> if x = JNull then map_of vs k else None
   | _ \<Rightarrow> None)"

definition de_uuid :: "lib \<Rightarrow> json \<Rightarrow> uuid option" where
  "de_uuid L v = (case v of JString s \<Rightarrow> lib_uuid_parse L s | _ \<Rightarrow> None)"

text \<open>What a derived struct visitor sees of its fields.\<close>

datatype fields = FMap "(string \<times> json) list" | FSeq "string list" "json list"

definition de_fields :: "string list \<Rightarrow> json \<Rightarrow> fields option" where
  "de_fields names v = (case v of
     JObject m \<Rightarrow> Some (FMap m)
   | JArray vs \<Rightarrow> if length vs \<le> length names then Some (FSeq names vs) else None
   | _ \<Rightarrow> None)"

definition field :: "fields \<Rightarrow> string \<Rightarrow> json option" where
  "field fs n = (case fs of FMap m \<Rightarrow> bt_get m n | FSeq names vs \<Rightarrow> map_of (zip names vs) n)"

text \<open>A required field, an \<open>Option\<close> field without attribute (absent from an object is None, from an
  array an error) and a field with \<open>#[serde(default)]\<close>.\<close>

definition req_field :: "fields \<Rightarrow> string \<Rightarrow> (json \<Rightarrow> 'a option) \<Rightarrow> 'a option" where
  "req_field fs n f = field fs n \<bind> f"

definition opt_field :: "fields \<Rightarrow> string \<Rightarrow> (json \<Rightarrow> 'a option) \<Rightarrow> 'a option option" where
  "opt_field fs n f = (case field fs n of
     None \<Rightarrow> (case fs of FMap _ \<Rightarrow> Some None | FSeq _ _ \<Rightarrow> None)
   | Some v \<Rightarrow> de_option f v)"

definition def_field :: "fields \<Rightarrow> string \<Rightarrow> (json \<Rightarrow> 'a option) \<Rightarrow> 'a \<Rightarrow> 'a option" where
  "def_field fs n f d = (case field fs n of None \<Rightarrow> Some d | Some v \<Rightarrow> f v)"

text \<open>\<open>serde_json::from_slice::<T>\<close> and \<open>from_value::<T>\<close> with their errors.\<close>

definition from_slice :: "lib \<Rightarrow> string \<Rightarrow> (json \<Rightarrow> 'a option) \<Rightarrow> byte list \<Rightarrow> string + 'a" where
  "from_slice L ty f bs = res_bind (lib_parse_typed L ty bs) (\<lambda>v. ok_or (lib_de_err L ty v) (f v))"

definition from_value :: "lib \<Rightarrow> string \<Rightarrow> (json \<Rightarrow> 'a option) \<Rightarrow> json \<Rightarrow> string + 'a" where
  "from_value L ty f v = ok_or (lib_de_err L ty v) (f v)"

lemma opt_collect_map_Some: "opt_collect (map (\<lambda>x. Some (f x)) xs) = Some (map f xs)"
  by (induction xs) simp_all

lemma opt_collect_map_Some_id [simp]: "opt_collect (map Some ys) = Some ys"
  using opt_collect_map_Some [of "\<lambda>x. x" ys] by simp

lemma opt_collect_Some_iff: "opt_collect xs = Some ys \<longleftrightarrow> xs = map Some ys"
proof
  show "opt_collect xs = Some ys \<Longrightarrow> xs = map Some ys"
    by (induction xs arbitrary: ys) (auto simp: bind_eq_Some_conv)
qed simp

lemma de_option_JNull [simp]: "de_option f JNull = Some None"
  by (simp add: de_option_def)

lemma de_string_JString [simp]: "de_string (JString s) = Some s"
  by (simp add: de_string_def)

lemma de_bool_JBool [simp]: "de_bool (JBool b) = Some b"
  by (simp add: de_bool_def)

lemma de_option_json_opt:
  "(\<And>y. x = Some y \<Longrightarrow> g (f y) = Some y \<and> f y \<noteq> JNull) \<Longrightarrow> de_option g (json_opt f x) = Some x"
  by (cases x) (auto simp: de_option_def json_opt_def)

lemma de_option_string [simp]: "de_option de_string (json_opt JString x) = Some x"
  by (rule de_option_json_opt) simp

lemma de_unsigned_json_nat [simp]:
  "n < 2 ^ bits \<Longrightarrow> bits \<le> 64 \<Longrightarrow> de_unsigned bits (json_nat n) = Some n"
proof -
  assume n: "n < 2 ^ bits" and b: "bits \<le> 64"
  have "n < 2 ^ 64" using n b by (meson less_le_trans one_le_numeral power_increasing)
  then have "unat (word_of_nat n :: u64) = n" by (simp add: unat_of_nat)
  then show ?thesis using n by (simp add: de_unsigned_def json_nat_def)
qed

lemma de_i64_json_i64 [simp]: "in_i64 i \<Longrightarrow> de_i64 (json_i64 i) = Some i"
  by (auto simp: de_i64_def json_i64_def in_i64_def uint_word_of_int)

lemma de_vec_map:
  "(\<And>x. x \<in> set xs \<Longrightarrow> g (f x) = Some x) \<Longrightarrow> de_vec g (JArray (map f xs)) = Some xs"
  by (simp add: de_vec_def opt_collect_Some_iff)

lemma de_vec_strs [simp]: "de_vec de_string (json_strs xs) = Some xs"
  by (simp add: json_strs_def de_vec_map)

lemma de_fields_obj [simp]: "de_fields ns (json_obj ps) = Some (FMap (bt_collect ps))"
  by (simp add: de_fields_def json_obj_def)

lemma field_FMap [simp]: "field (FMap m) n = bt_get m n"
  by (simp add: field_def)

lemma bt_get_collect_aux:
  "bt_get (fold (\<lambda>p. bt_insert (fst p) (snd p)) ps m) k =
     (case map_of (rev ps) k of None \<Rightarrow> bt_get m k | Some v \<Rightarrow> Some v)"
  by (induction ps arbitrary: m) (auto simp: map_add_def split: option.splits)

lemma bt_get_collect: "bt_get (bt_collect ps) k = map_of (rev ps) k"
  by (simp add: bt_collect_def bt_get_collect_aux split: option.splits)

lemma json_get_obj: "json_get (json_obj ps) k = map_of (rev ps) k"
  by (simp add: json_get_def json_obj_def bt_get_collect)

lemmas de_simps = req_field_def opt_field_def def_field_def bt_get_collect

section \<open>A concrete instance\<close>

text \<open>Simple functions with the documented behaviour at the points the witnesses need: they show
  that hypotheses on \<open>lib\<close> can be met.\<close>

definition plain_lib :: lib where
  "plain_lib = \<lparr> lib_upper = id, lib_lower = id, lib_parse = (\<lambda>_. Inl []),
     lib_parse_typed = (\<lambda>_ _. Inl []), lib_render = (\<lambda>_. []),
     lib_pretty = (\<lambda>_. []), lib_de_err = (\<lambda>_ _. ''invalid''),
     lib_uuid_parse = (\<lambda>s. map_option word_of_nat (parse_nat s)),
     lib_uuid_err = (\<lambda>_. ''invalid''),
     lib_uuid_show = (\<lambda>u. show_nat (unat u)), lib_f64_parse = (\<lambda>_. None),
     lib_f64_show = (\<lambda>w. show_nat (unat w)), lib_debug = (\<lambda>s. [DQUOTE] @ s @ [DQUOTE]),
     lib_alphanumeric = (\<lambda>_. False), lib_hex_decode = (\<lambda>_. None),
     lib_seal = (\<lambda>k n t. Some t), lib_open = (\<lambda>k n c. Some c),
     lib_b64_encode = from_bytes, lib_b64_decode = (\<lambda>s. Some (as_bytes s)) \<rparr>"

end
