(* ===== verification/Codec.thy ===== *)
theory Codec
  imports Main Prelude Lib
begin

text \<open>
  A concrete instance of \<open>lib\<close> with the laws the development assumes of the third-party functions
  (\<open>lib_ok\<close>): a reversible text format for JSON values stands for \<open>serde_json\<close>. It is not the code's
  format; it shows that the laws can hold together, and the witnesses run on it.
\<close>

section \<open>The laws\<close>

text \<open>What the program relies on: a tree of strings and integers that \<open>to_vec_pretty\<close>, \<open>to_vec\<close> or
  \<open>to_string\<close> wrote, nested less deep than the parser's limit, is read back as the value it stands for; an
  identifier that was printed is parsed back; base64 is ASCII and decodes what it encoded; and the
  cipher opens what it sealed under the same key and nonce.\<close>

definition json_codec :: "lib \<Rightarrow> bool" where
  "json_codec L \<longleftrightarrow> (\<forall>v ty. json_text PARSE_DEPTH v \<longrightarrow>
     lib_parse_typed L ty (as_bytes (lib_pretty L v)) = Inr (json_value v)
     \<and> lib_parse L (as_bytes (lib_pretty L v)) = Inr (json_value v)
     \<and> lib_parse L (as_bytes (lib_render L v)) = Inr (json_value v)
     \<and> lib_pretty L v \<noteq> [])"

definition uuid_codec :: "lib \<Rightarrow> bool" where
  "uuid_codec L \<longleftrightarrow> (\<forall>u. lib_uuid_parse L (lib_uuid_show L u) = Some u)"

definition cipher_ok :: "lib \<Rightarrow> bool" where
  "cipher_ok L \<longleftrightarrow> (\<forall>bs. lib_b64_decode L (lib_b64_encode L bs) = Some bs \<and> list_all is_ascii (lib_b64_encode L bs))
     \<and> (\<forall>k n t c. lib_seal L k n t = Some c \<longrightarrow> lib_open L k n c = Some t)"

definition lib_ok :: "lib \<Rightarrow> bool" where
  "lib_ok L \<longleftrightarrow> json_codec L \<and> uuid_codec L \<and> cipher_ok L"

section \<open>A reversible text format\<close>

definition put_nat :: "nat \<Rightarrow> string" where
  "put_nat n = show_nat n @ '';''"

definition put_str :: "string \<Rightarrow> string" where
  "put_str s = put_nat (length s) @ s"

fun put_json :: "json \<Rightarrow> string" where
  "put_json JNull = ''n''"
| "put_json (JBool b) = (if b then ''t'' else ''f'')"
| "put_json (JNumber (PosInt w)) = ''p'' @ put_nat (unat w)"
| "put_json (JNumber (NegInt i)) = (if i < 0 then ''m'' else ''k'') @ put_nat (nat \<bar>i\<bar>)"
| "put_json (JNumber (JFloat w)) = ''d'' @ put_nat (unat w)"
| "put_json (JString s) = ''s'' @ put_str s"
| "put_json (JArray vs) = ''a'' @ put_nat (length vs) @ concat (map put_json vs)"
| "put_json (JObject m) = ''o'' @ put_nat (length m)
     @ concat (map (\<lambda>p. put_str (fst p) @ put_json (snd p)) m)"

definition get_nat :: "string \<Rightarrow> (nat \<times> string) option" where
  "get_nat s = (let ds = takeWhile is_ascii_digit s in
     case parse_nat ds of None \<Rightarrow> None | Some n \<Rightarrow> Some (n, drop (Suc (length ds)) s))"

definition get_str :: "string \<Rightarrow> (string \<times> string) option" where
  "get_str s = (case get_nat s of None \<Rightarrow> None | Some (n, r) \<Rightarrow> Some (take n r, drop n r))"

fun get_many :: "(string \<Rightarrow> ('a \<times> string) option) \<Rightarrow> nat \<Rightarrow> string \<Rightarrow> ('a list \<times> string) option" where
  "get_many f 0 s = Some ([], s)"
| "get_many f (Suc n) s = (case f s of None \<Rightarrow> None
     | Some (x, r) \<Rightarrow> (case get_many f n r of None \<Rightarrow> None | Some (xs, r') \<Rightarrow> Some (x # xs, r')))"

definition get_pair :: "(string \<Rightarrow> ('a \<times> string) option) \<Rightarrow> string \<Rightarrow> ((string \<times> 'a) \<times> string) option" where
  "get_pair f s = (case get_str s of None \<Rightarrow> None
     | Some (k, r) \<Rightarrow> (case f r of None \<Rightarrow> None | Some (v, r') \<Rightarrow> Some ((k, v), r')))"

fun get_json :: "nat \<Rightarrow> string \<Rightarrow> (json \<times> string) option" where
  "get_json 0 s = None"
| "get_json (Suc n) [] = None"
| "get_json (Suc n) (c # s) =
     (if c = CHR ''n'' then Some (JNull, s)
      else if c = CHR ''t'' then Some (JBool True, s)
      else if c = CHR ''f'' then Some (JBool False, s)
      else if c = CHR ''p'' then map_option (\<lambda>(k, r). (JNumber (PosInt (word_of_nat k)), r)) (get_nat s)
      else if c = CHR ''m'' then map_option (\<lambda>(k, r). (JNumber (NegInt (- int k)), r)) (get_nat s)
      else if c = CHR ''k'' then map_option (\<lambda>(k, r). (JNumber (NegInt (int k)), r)) (get_nat s)
      else if c = CHR ''d'' then map_option (\<lambda>(k, r). (JNumber (JFloat (word_of_nat k)), r)) (get_nat s)
      else if c = CHR ''s'' then map_option (\<lambda>(k, r). (JString k, r)) (get_str s)
      else if c = CHR ''a'' then (case get_nat s of None \<Rightarrow> None
        | Some (k, r) \<Rightarrow> map_option (\<lambda>(vs, r'). (JArray vs, r')) (get_many (get_json n) k r))
      else if c = CHR ''o'' then (case get_nat s of None \<Rightarrow> None
        | Some (k, r) \<Rightarrow> map_option (\<lambda>(m, r'). (json_obj m, r')) (get_many (get_pair (get_json n)) k r))
      else None)"

definition read_json :: "byte list \<Rightarrow> string + json" where
  "read_json bs = (let s = from_bytes bs in case get_json (Suc (length s)) s of
     Some (v, []) \<Rightarrow> Inr v | _ \<Rightarrow> Inl ''syntax error'')"

text \<open>Every byte as two letters from A to P stands for base64.\<close>

definition two_letters :: "byte list \<Rightarrow> string" where
  "two_letters bs = concat (map (\<lambda>b. [char_of (65 + unat b div 16), char_of (65 + unat b mod 16)]) bs)"

fun from_letters :: "string \<Rightarrow> byte list option" where
  "from_letters [] = Some []"
| "from_letters [c] = None"
| "from_letters (a # b # s) = map_option (\<lambda>bs.
     word_of_nat ((char_code a - 65) * 16 + (char_code b - 65)) # bs) (from_letters s)"

definition ref_lib :: lib where
  "ref_lib = plain_lib \<lparr> lib_parse := read_json, lib_parse_typed := \<lambda>_. read_json,
     lib_render := put_json, lib_pretty := put_json, lib_b64_encode := two_letters,
     lib_b64_decode := from_letters \<rparr>"

section \<open>It reads what it wrote\<close>

lemma get_put_nat [simp]: "get_nat (put_nat n @ r) = Some (n, r)"
proof -
  have "takeWhile is_ascii_digit (show_nat n @ CHR '';'' # r) = show_nat n"
    using show_nat_digits by (subst takeWhile_append2) (auto simp: is_ascii_digit_def char_code_def)
  then show ?thesis by (simp add: get_nat_def put_nat_def Let_def)
qed

lemma get_put_str [simp]: "get_str (put_str s @ r) = Some (s, r)"
  by (simp add: get_str_def put_str_def)

lemma get_put_many:
  "(\<And>x r. x \<in> set xs \<Longrightarrow> f (g x @ r) = Some (h x, r)) \<Longrightarrow>
   get_many f (length xs) (concat (map g xs) @ r) = Some (map h xs, r)"
  by (induction xs arbitrary: r) auto

lemma put_json_nonempty [simp]: "put_json v \<noteq> []"
  by (induction v rule: put_json.induct) auto

lemma length_concat_mem: "x \<in> set xs \<Longrightarrow> length (f x) \<le> length (concat (map f xs))"
  by (induction xs) auto

lemma put_nat_len: "0 < length (put_nat n)"
  by (simp add: put_nat_def)

lemma get_put_json: "length (put_json v) < n \<Longrightarrow> get_json n (put_json v @ r) = Some (json_value v, r)"
proof (induction v arbitrary: n r rule: put_json.induct)
  case (7 vs)
  then obtain k where n: "n = Suc k" by (cases n) auto
  have "get_json k (put_json v @ r') = Some (json_value v, r')" if "v \<in> set vs" for v r'
    using 7(1) [OF that] 7(2) length_concat_mem [OF that, of put_json] n by simp
  then show ?case using n get_put_many [of vs "get_json k" put_json json_value r] by simp
next
  case (8 m)
  then obtain k where n: "n = Suc k" by (cases n) auto
  have "get_pair (get_json k) ((put_str (fst p) @ put_json (snd p)) @ r') = Some ((fst p, json_value (snd p)), r')"
    if "p \<in> set m" for p r'
  proof -
    have "length (put_json (snd p)) < k"
      using 8(2) length_concat_mem [OF that, of "\<lambda>p. put_str (fst p) @ put_json (snd p)"] n by simp
    then show ?thesis using 8(1) [OF that] by (simp add: get_pair_def)
  qed
  then show ?case
    using n get_put_many [of m "get_pair (get_json k)" "\<lambda>p. put_str (fst p) @ put_json (snd p)"
        "\<lambda>p. (fst p, json_value (snd p))" r]
    by simp
qed (case_tac n; auto)+

lemma read_put_json [simp]: "read_json (as_bytes (put_json v)) = Inr (json_value v)"
  using get_put_json [of v "Suc (length (put_json v))" "[]"] by (simp add: read_json_def Let_def)

lemma two_letters_back: "from_letters (two_letters bs) = Some bs"
proof (induction bs)
  case (Cons b bs)
  have "unat b < 256" using unsigned_less [of b] by simp
  then have "65 + unat b div 16 < 256" "65 + unat b mod 16 < 256" by simp_all
  moreover have "word_of_nat (unat b div 16 * 16 + unat b mod 16) = b" by simp
  ultimately show ?case using Cons by (simp add: two_letters_def char_code_def)
qed (simp add: two_letters_def)

lemma two_letters_ascii: "list_all is_ascii (two_letters bs)"
proof (induction bs)
  case (Cons b bs)
  have "unat b < 256" using unsigned_less [of b] by simp
  then have "65 + unat b div 16 < 128" "65 + unat b mod 16 < 128" by simp_all
  then show ?case using Cons by (simp add: two_letters_def is_ascii_def char_code_def)
qed (simp add: two_letters_def)

lemma ref_lib_ok: "lib_ok ref_lib"
proof -
  have "unat (u :: uuid) < 2 ^ 128" for u using unsigned_less [of u] by simp
  then show ?thesis
    by (simp add: lib_ok_def json_codec_def uuid_codec_def cipher_ok_def ref_lib_def plain_lib_def
        two_letters_back two_letters_ascii)
qed

lemma ref_lib_simps [simp]:
  "lib_seal ref_lib k n t = Some t" "lib_uuid_parse ref_lib (lib_uuid_show ref_lib u) = Some u"
  by (simp_all add: ref_lib_def plain_lib_def)

end
