(* ===== verification/Core.thy ===== *)
theory Core
  imports Main Prelude Lib
begin

text \<open>
  The crate \<open>core\<close>: connection configuration, driver errors, row limits, timeouts, cell values,
  query results, the schema transfer types and the default methods of the trait
  \<open>DatabaseDriver\<close>, with the serialisation serde derives for them.
\<close>

section \<open>Configuration\<close>

datatype SslMode = Disabled | Preferred | Required | VerifyCa | VerifyIdentity

text \<open>The modes by how much they verify.\<close>

definition ssl_strength :: "SslMode \<Rightarrow> nat" where
  "ssl_strength m = (case m of Disabled \<Rightarrow> 0 | Preferred \<Rightarrow> 1 | Required \<Rightarrow> 2 | VerifyCa \<Rightarrow> 3
     | VerifyIdentity \<Rightarrow> 4)"

instantiation SslMode :: linorder
begin
definition less_eq_SslMode :: "SslMode \<Rightarrow> SslMode \<Rightarrow> bool" where
  "less_eq_SslMode a b \<longleftrightarrow> ssl_strength a \<le> ssl_strength b"
definition less_SslMode :: "SslMode \<Rightarrow> SslMode \<Rightarrow> bool" where
  "less_SslMode a b \<longleftrightarrow> ssl_strength a < ssl_strength b"
instance
proof
  fix a b c :: SslMode
  show "a < b \<longleftrightarrow> a \<le> b \<and> \<not> b \<le> a" by (auto simp: less_eq_SslMode_def less_SslMode_def)
  show "a \<le> a" by (simp add: less_eq_SslMode_def)
  show "a \<le> b \<Longrightarrow> b \<le> c \<Longrightarrow> a \<le> c" by (simp add: less_eq_SslMode_def)
  show "a \<le> b \<Longrightarrow> b \<le> a \<Longrightarrow> a = b"
    by (cases a; cases b) (simp_all add: less_eq_SslMode_def ssl_strength_def)
  show "a \<le> b \<or> b \<le> a" by (auto simp: less_eq_SslMode_def)
qed
end

definition ssl_mode_names :: "(string \<times> SslMode) list" where
  "ssl_mode_names = [(''disabled'', Disabled), (''preferred'', Preferred), (''required'', Required),
     (''verify_ca'', VerifyCa), (''verify_identity'', VerifyIdentity)]"

definition de_ssl_mode :: "json \<Rightarrow> SslMode option" where
  "de_ssl_mode = de_unit_enum ssl_mode_names"

definition ser_ssl_mode :: "SslMode \<Rightarrow> json" where
  "ser_ssl_mode m = JString (case m of Disabled \<Rightarrow> ''disabled'' | Preferred \<Rightarrow> ''preferred''
     | Required \<Rightarrow> ''required'' | VerifyCa \<Rightarrow> ''verify_ca'' | VerifyIdentity \<Rightarrow> ''verify_identity'')"

record SslConfig =
  ssl_mode :: "SslMode option"
  ca_path :: "string option"
  client_cert_path :: "string option"
  client_key_path :: "string option"

definition SslConfig_default :: SslConfig where
  "SslConfig_default = \<lparr> ssl_mode = None, ca_path = None, client_cert_path = None,
     client_key_path = None \<rparr>"

definition SslConfig_disabled :: SslConfig where
  "SslConfig_disabled = SslConfig_default \<lparr> ssl_mode := Some Disabled \<rparr>"

definition is_enabled :: "SslConfig \<Rightarrow> bool" where
  "is_enabled c \<longleftrightarrow> \<not> (ssl_mode c = None \<or> ssl_mode c = Some Disabled)"

definition ser_ssl_config :: "SslConfig \<Rightarrow> json" where
  "ser_ssl_config c = json_obj [(''mode'', json_opt ser_ssl_mode (ssl_mode c)),
     (''ca_path'', json_opt JString (ca_path c)),
     (''client_cert_path'', json_opt JString (client_cert_path c)),
     (''client_key_path'', json_opt JString (client_key_path c))]"

definition de_ssl_config :: "json \<Rightarrow> SslConfig option" where
  "de_ssl_config v = do {
     fs \<leftarrow> de_fields [''mode'', ''ca_path'', ''client_cert_path'', ''client_key_path''] v;
     m \<leftarrow> opt_field fs ''mode'' de_ssl_mode;
     ca \<leftarrow> opt_field fs ''ca_path'' de_string;
     cert \<leftarrow> opt_field fs ''client_cert_path'' de_string;
     key \<leftarrow> opt_field fs ''client_key_path'' de_string;
     Some \<lparr> ssl_mode = m, ca_path = ca, client_cert_path = cert, client_key_path = key \<rparr> }"

text \<open>\<open>additional_fields\<close> is a hash map: an association list with distinct keys, whose order nothing
  reads.\<close>

record ConnectionConfig =
  cc_host :: string
  cc_port :: nat
  cc_username :: string
  cc_password :: "string option"
  cc_database :: "string option"
  cc_ssl :: SslConfig
  cc_read_only :: bool
  cc_additional_fields :: "(string, string) btree"

definition ser_connection_config :: "ConnectionConfig \<Rightarrow> json" where
  "ser_connection_config c = json_obj [(''host'', JString (cc_host c)), (''port'', json_nat (cc_port c)),
     (''username'', JString (cc_username c)), (''database'', json_opt JString (cc_database c)),
     (''ssl'', ser_ssl_config (cc_ssl c)), (''read_only'', JBool (cc_read_only c)),
     (''additional_fields'', JObject (map (\<lambda>(k, v). (k, JString v)) (cc_additional_fields c)))]"

definition de_connection_config :: "json \<Rightarrow> ConnectionConfig option" where
  "de_connection_config v = do {
     fs \<leftarrow> de_fields [''host'', ''port'', ''username'', ''password'', ''database'', ''ssl'',
       ''read_only'', ''additional_fields''] v;
     host \<leftarrow> req_field fs ''host'' de_string;
     port \<leftarrow> req_field fs ''port'' (de_unsigned 16);
     user \<leftarrow> req_field fs ''username'' de_string;
     pw \<leftarrow> def_field fs ''password'' (de_option de_string) None;
     db \<leftarrow> opt_field fs ''database'' de_string;
     ssl \<leftarrow> def_field fs ''ssl'' de_ssl_config SslConfig_default;
     ro \<leftarrow> def_field fs ''read_only'' de_bool False;
     extra \<leftarrow> def_field fs ''additional_fields'' (de_map de_string) [];
     Some \<lparr> cc_host = host, cc_port = port, cc_username = user, cc_password = pw,
       cc_database = db, cc_ssl = ssl, cc_read_only = ro, cc_additional_fields = extra \<rparr> }"

definition config_ok :: "ConnectionConfig \<Rightarrow> bool" where
  "config_ok c \<longleftrightarrow> cc_port c < 2 ^ 16 \<and> bt_ok (cc_additional_fields c)"

lemma de_ser_ssl_mode [simp]: "de_ssl_mode (ser_ssl_mode m) = Some m"
  by (cases m) (simp_all add: de_ssl_mode_def ser_ssl_mode_def de_unit_enum_def ssl_mode_names_def)

lemma ser_ssl_mode_not_null [simp]: "ser_ssl_mode m \<noteq> JNull"
  by (simp add: ser_ssl_mode_def)

lemma de_ser_ssl_mode_opt [simp]: "de_option de_ssl_mode (json_opt ser_ssl_mode x) = Some x"
  by (rule de_option_json_opt) simp

lemma de_ser_ssl_config [simp]: "de_ssl_config (ser_ssl_config c) = Some c"
  by (simp add: de_ssl_config_def ser_ssl_config_def de_simps)

lemma de_map_strings [simp]:
  "de_map de_string (JObject (map (\<lambda>(k, v). (k, JString v)) m)) = Some m"
  by (simp add: de_map_def opt_collect_Some_iff split_def)

text \<open>The password is the one field that does not survive.\<close>

lemma de_ser_connection_config:
  "cc_port c < 2 ^ 16 \<Longrightarrow>
   de_connection_config (ser_connection_config c) = Some (c \<lparr> cc_password := None \<rparr>)"
  by (simp add: de_connection_config_def ser_connection_config_def de_simps)

section \<open>Errors, limits, timeouts, transport\<close>

datatype DriverErrorKind = Connection | Auth | Query | Timeout | Cancelled | Protocol | Internal

record DriverError =
  de_kind :: DriverErrorKind
  de_message :: string
  de_code :: "string option"
  de_sql_state :: "string option"
  de_detail :: "string option"

definition driver_error :: "DriverErrorKind \<Rightarrow> string \<Rightarrow> DriverError" where
  "driver_error k m =
     \<lparr> de_kind = k, de_message = m, de_code = None, de_sql_state = None, de_detail = None \<rparr>"

definition driver_cancelled :: DriverError where
  "driver_cancelled = driver_error Cancelled ''operation was cancelled''"

definition with_code :: "string \<Rightarrow> DriverError \<Rightarrow> DriverError" where
  "with_code c e = e \<lparr> de_code := Some c \<rparr>"

definition with_sql_state :: "string \<Rightarrow> DriverError \<Rightarrow> DriverError" where
  "with_sql_state c e = e \<lparr> de_sql_state := Some c \<rparr>"

definition with_detail :: "string \<Rightarrow> DriverError \<Rightarrow> DriverError" where
  "with_detail c e = e \<lparr> de_detail := Some c \<rparr>"

type_synonym 'a dres = "DriverError + 'a"

definition EMERGENCY_MAX :: nat where
  "EMERGENCY_MAX = 5000000"

definition SERVER_SECS :: nat where
  "SERVER_SECS = 30"

definition CLIENT_BACKSTOP_SECS :: nat where
  "CLIENT_BACKSTOP_SECS = 45"

text \<open>The compile-time assertion of \<open>timeouts.rs\<close>.\<close>

lemma backstop_longer: "SERVER_SECS < CLIENT_BACKSTOP_SECS"
  by (simp add: SERVER_SECS_def CLIENT_BACKSTOP_SECS_def)

definition keepalive_idle :: nat where "keepalive_idle = 1"
definition keepalive_interval :: nat where "keepalive_interval = 1"
definition keepalive_retries :: nat where "keepalive_retries = 3"

datatype KeepalivePosture = Applied | NotSupported string

section \<open>Cells, results and schema types\<close>

datatype CellValue = CNull | CText string | CBytes "byte list"

definition is_null :: "CellValue \<Rightarrow> bool" where
  "is_null v \<longleftrightarrow> v = CNull"

definition as_text :: "CellValue \<Rightarrow> string option" where
  "as_text v = (case v of CText s \<Rightarrow> Some s | _ \<Rightarrow> None)"

text \<open>The bytes a driver sends for a bound value.\<close>

definition cell_bytes :: "CellValue \<Rightarrow> byte list" where
  "cell_bytes v = (case v of CText s \<Rightarrow> as_bytes s | CBytes b \<Rightarrow> b | CNull \<Rightarrow> [])"

text \<open>\<open>#[serde(tag = kind, content = value)]\<close>: adjacently tagged.\<close>

definition ser_cell :: "CellValue \<Rightarrow> json" where
  "ser_cell v = (case v of
     CNull \<Rightarrow> json_obj [(''kind'', JString ''null'')]
   | CText s \<Rightarrow> json_obj [(''kind'', JString ''text''), (''value'', JString s)]
   | CBytes bs \<Rightarrow> json_obj [(''kind'', JString ''bytes''),
       (''value'', JArray (map (\<lambda>b. json_nat (unat b)) bs))])"

datatype IdentityKind = Always | ByDefault

record ColumnInfo =
  ci_name :: string
  ci_data_type :: string
  ci_is_nullable :: bool
  ci_is_primary_key :: bool
  ci_default_value :: "string option"
  ci_extra :: "string option"
  ci_charset :: "string option"
  ci_collation :: "string option"
  ci_comment :: "string option"
  ci_identity_kind :: "IdentityKind option"
  ci_is_generated :: bool
  ci_allowed_values :: "string list option"

datatype TableKind = Table | View | MaterializedView

record TableInfo =
  ti_name :: string
  ti_schema :: "string option"
  ti_kind :: TableKind
  ti_comment :: "string option"
  ti_row_count_estimate :: "int option"

record IndexInfo =
  ii_name :: string
  ii_columns :: "string list"
  ii_is_unique :: bool
  ii_is_primary :: bool
  ii_method :: "string option"

record ForeignKeyInfo =
  fk_name :: string
  fk_columns :: "string list"
  fk_referenced_table :: string
  fk_referenced_schema :: "string option"
  fk_referenced_columns :: "string list"
  fk_on_delete :: "string option"
  fk_on_update :: "string option"

record TriggerInfo =
  tr_name :: string
  tr_event :: string
  tr_timing :: string
  tr_definition :: "string option"

record TableMetadata =
  tm_info :: TableInfo
  tm_columns :: "ColumnInfo list"
  tm_indexes :: "IndexInfo list"
  tm_foreign_keys :: "ForeignKeyInfo list"
  tm_triggers :: "TriggerInfo list"

record DatabaseMetadata =
  dm_name :: string
  dm_schemas :: "string list"
  dm_size_bytes :: "nat option"

datatype ParameterStyle = QuestionMark | Dollar

record StreamHeader =
  sh_columns :: "string list"
  sh_column_type_names :: "string list"

datatype StreamElement = Header StreamHeader | Rows "CellValue list list"

record CreateDatabaseRequest =
  cd_name :: string
  cd_owner :: "string option"
  cd_encoding :: "string option"
  cd_additional_fields :: "(string, string) btree"

text \<open>A duration is its whole seconds and the nanoseconds beyond them.\<close>

record QueryResult =
  qr_columns :: "string list"
  qr_column_type_names :: "string list"
  qr_rows :: "CellValue list list"
  qr_rows_affected :: u64
  qr_execution_time :: "nat \<times> nat"
  qr_is_truncated :: bool
  qr_status_message :: "string option"
  qr_column_meta :: "ColumnInfo list option"

definition QueryResult_empty :: QueryResult where
  "QueryResult_empty = \<lparr> qr_columns = [], qr_column_type_names = [], qr_rows = [],
     qr_rows_affected = 0, qr_execution_time = (0, 0), qr_is_truncated = False,
     qr_status_message = None, qr_column_meta = None \<rparr>"

definition ser_identity_kind :: "IdentityKind \<Rightarrow> json" where
  "ser_identity_kind k = JString (case k of Always \<Rightarrow> ''always'' | ByDefault \<Rightarrow> ''by_default'')"

definition ser_column_info :: "ColumnInfo \<Rightarrow> json" where
  "ser_column_info c = json_obj [(''name'', JString (ci_name c)),
     (''data_type'', JString (ci_data_type c)), (''is_nullable'', JBool (ci_is_nullable c)),
     (''is_primary_key'', JBool (ci_is_primary_key c)),
     (''default_value'', json_opt JString (ci_default_value c)),
     (''extra'', json_opt JString (ci_extra c)), (''charset'', json_opt JString (ci_charset c)),
     (''collation'', json_opt JString (ci_collation c)),
     (''comment'', json_opt JString (ci_comment c)),
     (''identity_kind'', json_opt ser_identity_kind (ci_identity_kind c)),
     (''is_generated'', JBool (ci_is_generated c)),
     (''allowed_values'', json_opt json_strs (ci_allowed_values c))]"

definition ser_table_kind :: "TableKind \<Rightarrow> json" where
  "ser_table_kind k = JString (case k of Table \<Rightarrow> ''table'' | View \<Rightarrow> ''view''
     | MaterializedView \<Rightarrow> ''materialized_view'')"

definition ser_table_info :: "TableInfo \<Rightarrow> json" where
  "ser_table_info t = json_obj [(''name'', JString (ti_name t)),
     (''schema'', json_opt JString (ti_schema t)), (''kind'', ser_table_kind (ti_kind t)),
     (''comment'', json_opt JString (ti_comment t)),
     (''row_count_estimate'', json_opt json_i64 (ti_row_count_estimate t))]"

definition ser_index_info :: "IndexInfo \<Rightarrow> json" where
  "ser_index_info i = json_obj [(''name'', JString (ii_name i)),
     (''columns'', json_strs (ii_columns i)), (''is_unique'', JBool (ii_is_unique i)),
     (''is_primary'', JBool (ii_is_primary i)), (''method'', json_opt JString (ii_method i))]"

definition ser_foreign_key :: "ForeignKeyInfo \<Rightarrow> json" where
  "ser_foreign_key f = json_obj [(''name'', JString (fk_name f)),
     (''columns'', json_strs (fk_columns f)),
     (''referenced_table'', JString (fk_referenced_table f)),
     (''referenced_schema'', json_opt JString (fk_referenced_schema f)),
     (''referenced_columns'', json_strs (fk_referenced_columns f)),
     (''on_delete'', json_opt JString (fk_on_delete f)),
     (''on_update'', json_opt JString (fk_on_update f))]"

definition ser_trigger :: "TriggerInfo \<Rightarrow> json" where
  "ser_trigger t = json_obj [(''name'', JString (tr_name t)), (''event'', JString (tr_event t)),
     (''timing'', JString (tr_timing t)), (''definition'', json_opt JString (tr_definition t))]"

definition ser_table_metadata :: "TableMetadata \<Rightarrow> json" where
  "ser_table_metadata m = json_obj [(''info'', ser_table_info (tm_info m)),
     (''columns'', JArray (map ser_column_info (tm_columns m))),
     (''indexes'', JArray (map ser_index_info (tm_indexes m))),
     (''foreign_keys'', JArray (map ser_foreign_key (tm_foreign_keys m))),
     (''triggers'', JArray (map ser_trigger (tm_triggers m)))]"

definition ser_query_result :: "QueryResult \<Rightarrow> json" where
  "ser_query_result q = json_obj [(''columns'', json_strs (qr_columns q)),
     (''column_type_names'', json_strs (qr_column_type_names q)),
     (''rows'', JArray (map (\<lambda>r. JArray (map ser_cell r)) (qr_rows q))),
     (''rows_affected'', JNumber (PosInt (qr_rows_affected q))),
     (''execution_time'', json_obj [(''secs'', json_nat (fst (qr_execution_time q))),
        (''nanos'', json_nat (snd (qr_execution_time q)))]),
     (''is_truncated'', JBool (qr_is_truncated q)),
     (''status_message'', json_opt JString (qr_status_message q)),
     (''column_meta'', json_opt (\<lambda>cs. JArray (map ser_column_info cs)) (qr_column_meta q))]"

text \<open>Reading a cell back: the tag first, then the content the variant wants.\<close>

definition de_cell :: "json \<Rightarrow> CellValue option" where
  "de_cell v = do {
     fs \<leftarrow> de_fields [''kind'', ''value''] v;
     k \<leftarrow> req_field fs ''kind'' de_string;
     (if k = ''null'' then (case field fs ''value'' of None \<Rightarrow> Some CNull
                            | Some x \<Rightarrow> if x = JNull then Some CNull else None)
      else if k = ''text'' then map_option CText (req_field fs ''value'' de_string)
      else if k = ''bytes'' then map_option (\<lambda>ns. CBytes (map word_of_nat ns))
             (req_field fs ''value'' (de_vec (de_unsigned 8)))
      else None) }"

lemma de_ser_cell [simp]: "de_cell (ser_cell v) = Some v"
proof (cases v)
  case (CBytes bs)
  have "unat b < 2 ^ 8" for b :: byte
    using unsigned_less [of b] by simp
  then have "de_vec (de_unsigned 8) (JArray (map (\<lambda>b. json_nat (unat b)) bs)) = Some (map unat bs)"
    by (simp add: de_vec_def opt_collect_Some_iff)
  then show ?thesis
    using CBytes by (simp add: ser_cell_def de_cell_def de_simps comp_def)
qed (simp_all add: ser_cell_def de_cell_def de_simps)

section \<open>The driver trait\<close>

text \<open>
  A driver value is its state; an operation takes it and returns the result with the new state.
  The record holds the operations of one implementation over a state type; the trait's default
  methods are defined from them, as the trait does.
\<close>

record 's driver =
  drv_connect :: "'s \<Rightarrow> unit dres \<times> 's"
  drv_disconnect :: "'s \<Rightarrow> unit dres \<times> 's"
  drv_execute :: "string \<Rightarrow> 's \<Rightarrow> QueryResult dres \<times> 's"

definition drv_unit :: "(QueryResult dres \<times> 's) \<Rightarrow> (unit dres \<times> 's)" where
  "drv_unit p = (res_map (\<lambda>_. ()) (fst p), snd p)"

definition default_ping :: "'s driver \<Rightarrow> 's \<Rightarrow> unit dres \<times> 's" where
  "default_ping d s = drv_unit (drv_execute d ''SELECT 1'' s)"

definition default_fetch_triggers :: "TriggerInfo list dres" where
  "default_fetch_triggers = Inr []"

definition default_fetch_schemas :: "string list dres" where
  "default_fetch_schemas = Inr []"

definition default_switch_schema :: "string \<Rightarrow> unit dres" where
  "default_switch_schema schema =
     Inl (driver_error Query ''this driver does not support schemas'')"

definition default_begin_transaction :: "'s driver \<Rightarrow> 's \<Rightarrow> unit dres \<times> 's" where
  "default_begin_transaction d s = drv_unit (drv_execute d ''BEGIN'' s)"

definition default_commit_transaction :: "'s driver \<Rightarrow> 's \<Rightarrow> unit dres \<times> 's" where
  "default_commit_transaction d s = drv_unit (drv_execute d ''COMMIT'' s)"

definition default_rollback_transaction :: "'s driver \<Rightarrow> 's \<Rightarrow> unit dres \<times> 's" where
  "default_rollback_transaction d s = drv_unit (drv_execute d ''ROLLBACK'' s)"

definition default_cancel_query :: "unit dres" where
  "default_cancel_query = Inr ()"

definition default_apply_query_timeout :: "nat \<Rightarrow> unit dres" where
  "default_apply_query_timeout seconds = Inr ()"

end
