(* ===== verification/Registry.thy ===== *)
theory Registry
  imports Main Prelude
begin

text \<open>
  The crate \<open>registry\<close>: the generation-fenced attempt registry and the session registry it guards.
  A registry behind a mutex is its map; one critical section is one function on it. The locale
  \<open>attempt_fence\<close> states what the session registry relies on; it is interpreted on the model.
\<close>

section \<open>Attempt tokens\<close>

record AttemptToken =
  connection_id :: uuid
  generation :: u64

type_synonym generations = "uuid \<Rightarrow> u64 option"

definition AttemptToken_new :: "uuid \<Rightarrow> u64 \<Rightarrow> AttemptToken" where
  "AttemptToken_new cid g = \<lparr> connection_id = cid, generation = g \<rparr>"

definition registry_new :: generations where
  "registry_new = Map.empty"

definition next_generation :: "uuid \<Rightarrow> generations \<Rightarrow> u64" where
  "next_generation cid gs = (case gs cid of None \<Rightarrow> 1 | Some g \<Rightarrow> g + 1)"

definition begin_attempt :: "uuid \<Rightarrow> generations \<Rightarrow> AttemptToken \<times> generations" where
  "begin_attempt cid gs =
     (let nxt = next_generation cid gs in (AttemptToken_new cid nxt, gs(cid \<mapsto> nxt)))"

definition is_current :: "generations \<Rightarrow> AttemptToken \<Rightarrow> bool" where
  "is_current gs t \<longleftrightarrow> gs (connection_id t) = Some (generation t)"

definition invalidate :: "uuid \<Rightarrow> generations \<Rightarrow> generations" where
  "invalidate cid gs = (let nxt = next_generation cid gs in gs(cid \<mapsto> nxt))"

definition forget :: "uuid \<Rightarrow> generations \<Rightarrow> generations" where
  "forget cid gs = gs(cid := None)"

section \<open>Sessions\<close>

type_synonym 's sessions = "uuid \<Rightarrow> 's option"

definition sessions_new :: "'s sessions" where
  "sessions_new = Map.empty"

text \<open>\<open>insert_if_current\<close> reads the attempt registry twice, once before and once after it takes the
  lock of the session map; the two reads are separate critical sections, so the registry they see
  may differ. The result is the stale session handed back, or the session that was replaced.\<close>

definition insert_if_current ::
  "generations \<Rightarrow> generations \<Rightarrow> AttemptToken \<Rightarrow> 's \<Rightarrow> 's sessions \<Rightarrow> ('s + 's option) \<times> 's sessions" where
  "insert_if_current gs1 gs2 t s ss =
     (if \<not> is_current gs1 t then (Inl s, ss)
      else if \<not> is_current gs2 t then (Inl s, ss)
      else (Inr (ss (connection_id t)), ss(connection_id t \<mapsto> s)))"

definition sessions_remove :: "uuid \<Rightarrow> 's sessions \<Rightarrow> 's option \<times> 's sessions" where
  "sessions_remove cid ss = (ss cid, ss(cid := None))"

definition sessions_contains :: "'s sessions \<Rightarrow> uuid \<Rightarrow> bool" where
  "sessions_contains ss cid \<longleftrightarrow> ss cid \<noteq> None"

section \<open>The fence as an interface\<close>

text \<open>Storage guarded by a fence, over any notion of current token.\<close>

definition fenced_insert ::
  "('t \<Rightarrow> bool) \<Rightarrow> ('t \<Rightarrow> 'k) \<Rightarrow> 't \<Rightarrow> 's \<Rightarrow> ('k \<Rightarrow> 's option) \<Rightarrow> ('s + 's option) \<times> ('k \<Rightarrow> 's option)" where
  "fenced_insert cur key t s ss =
     (if cur t then (Inr (ss (key t)), ss(key t \<mapsto> s)) else (Inl s, ss))"

locale attempt_fence =
  fixes start :: "'k \<Rightarrow> 'r \<Rightarrow> 't \<times> 'r"
    and cancel :: "'k \<Rightarrow> 'r \<Rightarrow> 'r"
    and cur :: "'r \<Rightarrow> 't \<Rightarrow> bool"
    and key :: "'t \<Rightarrow> 'k"
  assumes start_key: "start k r = (t, r') \<Longrightarrow> key t = k"
    and start_current: "start k r = (t, r') \<Longrightarrow> cur r' t"
    and start_supersedes: "start k r = (t, r') \<Longrightarrow> key u = k \<Longrightarrow> cur r u \<Longrightarrow> \<not> cur r' u"
    and start_other: "start k r = (t, r') \<Longrightarrow> key u \<noteq> k \<Longrightarrow> cur r' u = cur r u"
    and cancel_supersedes: "key u = k \<Longrightarrow> cur r u \<Longrightarrow> \<not> cur (cancel k r) u"
    and cancel_other: "key u \<noteq> k \<Longrightarrow> cur (cancel k r) u = cur r u"
    and cur_unique: "cur r t \<Longrightarrow> cur r u \<Longrightarrow> key t = key u \<Longrightarrow> t = u"
begin

lemma start_only_current:
  assumes "start k r = (t, r')" and "key u = k"
  shows "cur r' u \<longleftrightarrow> u = t"
  using assms start_current start_key cur_unique by metis

lemma start_distinct:
  assumes "start k r = (t, r')" and "start k r' = (t2, r2)"
  shows "t2 \<noteq> t"
  using assms start_current start_supersedes start_key by metis

lemma superseded_insert_refused:
  assumes "start k r = (t, r')" and "start k r' = (t2, r2)"
  shows "fenced_insert (cur r2) key t s ss = (Inl s, ss)"
    and "fenced_insert (cur r2) key t2 s ss = (Inr (ss k), ss(k \<mapsto> s))"
proof -
  have "\<not> cur r2 t"
    using assms start_current start_supersedes start_key by metis
  then show "fenced_insert (cur r2) key t s ss = (Inl s, ss)"
    by (simp add: fenced_insert_def)
  have "cur r2 t2" "key t2 = k" using assms start_current start_key by blast+
  then show "fenced_insert (cur r2) key t2 s ss = (Inr (ss k), ss(k \<mapsto> s))"
    by (simp add: fenced_insert_def)
qed

lemma cancelled_insert_refused:
  assumes "start k r = (t, r')"
  shows "fenced_insert (cur (cancel k r')) key t s ss = (Inl s, ss)"
proof -
  have "\<not> cur (cancel k r') t"
    using assms start_current start_key cancel_supersedes by metis
  then show ?thesis by (simp add: fenced_insert_def)
qed

end

lemma next_generation_neq: "gs cid = Some g \<Longrightarrow> next_generation cid gs \<noteq> g"
  by (simp add: next_generation_def)

lemma is_current_upd:
  "is_current (gs(cid \<mapsto> g)) t \<longleftrightarrow>
     (if connection_id t = cid then generation t = g else is_current gs t)"
  by (auto simp: is_current_def)

lemmas registry_simps = begin_attempt_def invalidate_def forget_def AttemptToken_new_def Let_def

interpretation fence: attempt_fence begin_attempt invalidate is_current connection_id
proof
  fix k r t r' u
  show "begin_attempt k r = (t, r') \<Longrightarrow> connection_id t = k"
    by (auto simp: registry_simps)
  show "begin_attempt k r = (t, r') \<Longrightarrow> is_current r' t"
    by (auto simp: registry_simps is_current_upd)
  show "begin_attempt k r = (t, r') \<Longrightarrow> connection_id u = k \<Longrightarrow> is_current r u \<Longrightarrow> \<not> is_current r' u"
    by (auto simp: registry_simps is_current_upd is_current_def dest: next_generation_neq)
  show "begin_attempt k r = (t, r') \<Longrightarrow> connection_id u \<noteq> k \<Longrightarrow> is_current r' u = is_current r u"
    by (auto simp: registry_simps is_current_upd)
  show "connection_id u = k \<Longrightarrow> is_current r u \<Longrightarrow> \<not> is_current (invalidate k r) u"
    by (auto simp: registry_simps is_current_def dest: next_generation_neq)
  show "connection_id u \<noteq> k \<Longrightarrow> is_current (invalidate k r) u = is_current r u"
    by (auto simp: registry_simps is_current_upd)
  show "is_current r t \<Longrightarrow> is_current r u \<Longrightarrow> connection_id t = connection_id u \<Longrightarrow> t = u"
    by (auto simp: is_current_def)
qed

lemma insert_if_current_quiet:
  "insert_if_current gs gs t s ss = fenced_insert (is_current gs) connection_id t s ss"
  by (simp add: insert_if_current_def fenced_insert_def)

section \<open>Histories\<close>

text \<open>A sequence of critical sections on the attempt registry.\<close>

datatype reg_op = OBegin uuid | OInvalidate uuid | OForget uuid

definition reg_step :: "reg_op \<Rightarrow> generations \<Rightarrow> generations" where
  "reg_step op gs = (case op of
     OBegin cid \<Rightarrow> snd (begin_attempt cid gs)
   | OInvalidate cid \<Rightarrow> invalidate cid gs
   | OForget cid \<Rightarrow> forget cid gs)"

definition reg_run :: "reg_op list \<Rightarrow> generations \<Rightarrow> generations" where
  "reg_run ops gs = fold reg_step ops gs"

fun bumps :: "uuid \<Rightarrow> reg_op list \<Rightarrow> nat" where
  "bumps cid [] = 0"
| "bumps cid (OBegin c # ops) = (if c = cid then 1 else 0) + bumps cid ops"
| "bumps cid (OInvalidate c # ops) = (if c = cid then 1 else 0) + bumps cid ops"
| "bumps cid (OForget c # ops) = bumps cid ops"

lemma reg_run_generation:
  "gs cid = Some g \<Longrightarrow> OForget cid \<notin> set ops \<Longrightarrow>
   reg_run ops gs cid = Some (g + word_of_nat (bumps cid ops))"
proof (induction ops arbitrary: gs g)
  case Nil
  then show ?case by (simp add: reg_run_def)
next
  case (Cons op ops)
  have run: "reg_run (op # ops) gs = reg_run ops (reg_step op gs)"
    by (simp add: reg_run_def)
  show ?case
  proof (cases op)
    case (OBegin c)
    have "reg_step op gs cid = Some (if c = cid then g + 1 else g)"
      using Cons.prems OBegin by (auto simp: reg_step_def registry_simps next_generation_def)
    then show ?thesis using Cons.IH [of "reg_step op gs"] Cons.prems OBegin run
      by (simp add: algebra_simps)
  next
    case (OInvalidate c)
    have "reg_step op gs cid = Some (if c = cid then g + 1 else g)"
      using Cons.prems OInvalidate by (auto simp: reg_step_def registry_simps next_generation_def)
    then show ?thesis using Cons.IH [of "reg_step op gs"] Cons.prems OInvalidate run
      by (simp add: algebra_simps)
  next
    case (OForget c)
    have "reg_step op gs cid = Some g"
      using Cons.prems OForget by (auto simp: reg_step_def registry_simps)
    then show ?thesis using Cons.IH [of "reg_step op gs"] Cons.prems OForget run by simp
  qed
qed

lemma is_current_after_run:
  assumes "OForget (connection_id t) \<notin> set ops" and "is_current gs t"
  shows "is_current (reg_run ops gs) t \<longleftrightarrow> (word_of_nat (bumps (connection_id t) ops) :: u64) = 0"
  using reg_run_generation [of gs "connection_id t" "generation t" ops] assms
  by (auto simp: is_current_def)

section \<open>Properties\<close>

text \<open>The fence. After \<open>begin\<close> for a connection id, of all tokens of that id exactly the one it
  returned is current; the tokens of other ids are unaffected. A session offered under the token the
  call superseded is handed back unchanged and the session map is untouched, a session offered under
  the new token is installed and the one it replaced is returned.\<close>

theorem begin_fences_insert:
  "let (t, gs1) = begin_attempt cid gs; (t2, gs2) = begin_attempt cid gs1
   in (is_current gs2 u \<longleftrightarrow> (if connection_id u = cid then u = t2 else is_current gs u))
      \<and> insert_if_current gs2 gs2 t s ss = (Inl s, ss)
      \<and> insert_if_current gs2 gs2 t2 s ss = (Inr (ss cid), ss(cid \<mapsto> s))"
proof -
  obtain t gs1 where a: "begin_attempt cid gs = (t, gs1)" by fastforce
  obtain t2 gs2 where b: "begin_attempt cid gs1 = (t2, gs2)" by fastforce
  have "is_current gs2 u \<longleftrightarrow> (if connection_id u = cid then u = t2 else is_current gs u)"
    using fence.start_only_current [OF b] fence.start_other [OF a] fence.start_other [OF b] by simp
  then show ?thesis
    using a b fence.superseded_insert_refused [OF a b, where s = s and ss = ss]
    by (simp add: insert_if_current_quiet)
qed

text \<open>A token stays stale under any history of begins and invalidations, its own id's and
  others', for 2^64 - 1 bumps of its id; the counter wraps, and after exactly 2^64 bumps it is
  current again. \<open>forget\<close> of its id is the one operation excluded here.\<close>

theorem token_stale_until_wrap:
  assumes "is_current gs t" and "OForget (connection_id t) \<notin> set ops"
  shows "is_current (reg_run ops gs) t \<longleftrightarrow> 2 ^ 64 dvd bumps (connection_id t) ops"
  using is_current_after_run [OF assms(2,1)]
  by (simp add: word_of_nat_eq_0_iff)

theorem token_stale_until_wrap_witness:
  "is_current (reg_run [OBegin 7, OInvalidate 8] (registry_new(7 \<mapsto> 3)))
     \<lparr> connection_id = 7, generation = 3 \<rparr> = (2 ^ 64 dvd (1::nat))"
  using token_stale_until_wrap [of "registry_new(7 \<mapsto> 3)" "\<lparr> connection_id = 7, generation = 3 \<rparr>"
      "[OBegin 7, OInvalidate 8]"]
  by (simp add: is_current_def)

text \<open>\<open>forget\<close> resets the fence: the first token ever minted for an id is stale right after
  \<open>forget\<close>, and the next \<open>begin\<close> mints the same token again, so the old one is current once more and
  its late insert is accepted, replacing the session of the new attempt.\<close>

theorem forget_revives_first_token:
  "let (t, gs1) = begin_attempt cid registry_new; gs2 = forget cid gs1;
       (t', gs3) = begin_attempt cid gs2
   in \<not> is_current gs2 t \<and> t' = t \<and> is_current gs3 t
      \<and> insert_if_current gs3 gs3 t s (ss(cid \<mapsto> s')) = (Inr (Some s'), ss(cid \<mapsto> s))"
  by (simp add: registry_simps registry_new_def next_generation_def is_current_def
      insert_if_current_def)

text \<open>The window the two checks leave open: when the attempt is superseded after the second
  check, the insert still happens and the installed session belongs to a token that is no longer
  current; a registry that changes between the two checks is caught.\<close>

theorem insert_race_window:
  "let (t, gs1) = begin_attempt cid gs; (t', gs2) = begin_attempt cid gs1
   in insert_if_current gs1 gs2 t s ss = (Inl s, ss)
      \<and> insert_if_current gs1 gs1 t s ss = (Inr (ss cid), ss(cid \<mapsto> s)) \<and> \<not> is_current gs2 t"
  by (simp add: registry_simps next_generation_def is_current_def insert_if_current_def
      split: option.splits)

end
