(* ===== verification/Sse.thy ===== *)
theory Sse
  imports Main Prelude
begin

text \<open>
  \<open>mcp-wire/src/sse.rs\<close>: encoding of Server-Sent Events and the incremental decoder. The decoder's
  state is the buffered text and the pending event; \<open>feed\<close> is the loop that takes complete lines off
  the buffer.
\<close>

section \<open>Events and encoding\<close>

record SseEvent =
  sse_event :: "string option"
  sse_data :: string
  sse_id :: "string option"

definition is_eol :: "char \<Rightarrow> bool" where
  "is_eol c \<longleftrightarrow> c = LF \<or> c = CR"

definition first_line :: "string \<Rightarrow> string" where
  "first_line s = takeWhile (\<lambda>c. \<not> is_eol c) s"

definition encode_sse_event :: "SseEvent \<Rightarrow> string" where
  "encode_sse_event e =
     (case sse_event e of None \<Rightarrow> [] | Some name \<Rightarrow> ''event: '' @ first_line name @ [LF])
     @ (case sse_id e of None \<Rightarrow> [] | Some i \<Rightarrow> ''id: '' @ first_line i @ [LF])
     @ concat (map (\<lambda>line. ''data: '' @ line @ [LF]) (split_on LF (sse_data e)))
     @ [LF]"

section \<open>The decoder\<close>

record PendingEvent =
  pe_event :: "string option"
  pe_id :: "string option"
  pe_data_lines :: "string list"

definition pending_new :: PendingEvent where
  "pending_new = \<lparr> pe_event = None, pe_id = None, pe_data_lines = [] \<rparr>"

definition split_once :: "char \<Rightarrow> string \<Rightarrow> (string \<times> string) option" where
  "split_once c s = map_option (\<lambda>i. (take i s, drop (Suc i) s)) (find_char c s)"

definition apply_line :: "string \<Rightarrow> PendingEvent \<Rightarrow> PendingEvent" where
  "apply_line line p =
     (if prefix '':'' line then p
      else let (name, raw) = (case split_once CHR '':'' line of Some fv \<Rightarrow> fv | None \<Rightarrow> (line, []));
               val = (case strip_prefix '' '' raw of Some v \<Rightarrow> v | None \<Rightarrow> raw)
           in if name = ''data'' then p \<lparr> pe_data_lines := pe_data_lines p @ [val] \<rparr>
              else if name = ''event'' then p \<lparr> pe_event := Some val \<rparr>
              else if name = ''id'' then p \<lparr> pe_id := Some val \<rparr>
              else p)"

definition pending_reset :: "PendingEvent \<Rightarrow> PendingEvent" where
  "pending_reset p = p \<lparr> pe_event := None, pe_id := None, pe_data_lines := [] \<rparr>"

definition dispatch :: "PendingEvent \<Rightarrow> SseEvent option \<times> PendingEvent" where
  "dispatch p =
     (if pe_data_lines p = [] then (None, pending_reset p)
      else (Some \<lparr> sse_event = pe_event p, sse_data = join_with [LF] (pe_data_lines p),
                   sse_id = pe_id p \<rparr>, pending_reset p))"

record SseDecoder =
  sd_buffer :: string
  sd_pending :: PendingEvent

definition decoder_new :: SseDecoder where
  "decoder_new = \<lparr> sd_buffer = [], sd_pending = pending_new \<rparr>"

text \<open>The line terminator's optional carriage return.\<close>

definition chomp_cr :: "string \<Rightarrow> string" where
  "chomp_cr line = (if suffix [CR] line then butlast line else line)"

function drain :: "string \<Rightarrow> PendingEvent \<Rightarrow> SseEvent list \<times> string \<times> PendingEvent" where
  "drain buffer p = (case find_char LF buffer of
      None \<Rightarrow> ([], buffer, p)
    | Some idx \<Rightarrow>
        let line = chomp_cr (take idx buffer); rest = drop (Suc idx) buffer in
        if line = [] then
          let (ev, p1) = dispatch p; (evs, b, p2) = drain rest p1
          in (case ev of None \<Rightarrow> (evs, b, p2) | Some e \<Rightarrow> (e # evs, b, p2))
        else drain rest (apply_line line p))"
  by pat_completeness auto
termination
  by (relation "measure (\<lambda>(b, p). length b)") (auto dest: find_char_Some)

declare drain.simps [simp del]

definition feed :: "string \<Rightarrow> SseDecoder \<Rightarrow> SseEvent list \<times> SseDecoder" where
  "feed chunk d =
     (let (evs, b, p) = drain (sd_buffer d @ chunk) (sd_pending d)
      in (evs, \<lparr> sd_buffer = b, sd_pending = p \<rparr>))"

section \<open>One line at a time\<close>

definition line_step :: "string \<Rightarrow> PendingEvent \<Rightarrow> SseEvent list \<times> PendingEvent" where
  "line_step raw p =
     (let line = chomp_cr raw in
      if line = [] then (case dispatch p of (None, p1) \<Rightarrow> ([], p1) | (Some e, p1) \<Rightarrow> ([e], p1))
      else ([], apply_line line p))"

lemma drain_no_lf: "LF \<notin> set b \<Longrightarrow> drain b p = ([], b, p)"
  by (subst drain.simps) (simp add: find_char_None [THEN iffD2])

lemma drain_line:
  "LF \<notin> set l \<Longrightarrow>
   drain (l @ LF # r) p =
     (let (e1, p1) = line_step l p; (e2, b, p2) = drain r p1 in (e1 @ e2, b, p2))"
  by (subst drain.simps)
     (auto simp: find_char_append_sep line_step_def Let_def split: prod.splits option.splits)

lemma first_lf: "LF \<in> set b \<Longrightarrow> \<exists>l r. b = l @ LF # r \<and> LF \<notin> set l"
  using split_list_first by fastforce

lemma drain_append:
  "drain (a @ b) p =
     (let (e1, b1, p1) = drain a p; (e2, b2, p2) = drain (b1 @ b) p1 in (e1 @ e2, b2, p2))"
proof (induction "length a" arbitrary: a p rule: less_induct)
  case less
  show ?case
  proof (cases "LF \<in> set a")
    case False
    then show ?thesis by (simp add: drain_no_lf split_def Let_def)
  next
    case True
    then obtain l r where a: "a = l @ LF # r" "LF \<notin> set l" using first_lf by blast
    obtain e p1 where s: "line_step l p = (e, p1)" by fastforce
    have "drain (r @ b) p1 =
       (let (e1, b1, p1) = drain r p1; (e2, b2, p2) = drain (b1 @ b) p1 in (e1 @ e2, b2, p2))"
      by (rule less) (simp add: a)
    then show ?thesis using a s by (simp add: drain_line Let_def split_def)
  qed
qed

lemma drain_buffer_no_lf: "LF \<notin> set (fst (snd (drain a p)))"
proof (induction "length a" arbitrary: a p rule: less_induct)
  case less
  show ?case
  proof (cases "LF \<in> set a")
    case False
    then show ?thesis by (simp add: drain_no_lf)
  next
    case True
    then obtain l r where a: "a = l @ LF # r" "LF \<notin> set l" using first_lf by blast
    then show ?thesis using less [of r "snd (line_step l p)"]
      by (simp add: drain_line Let_def split_def)
  qed
qed

section \<open>Round trip\<close>

text \<open>What an event is after it has been on the wire: the single-line fields keep their first line,
  each line of the data loses one trailing carriage return.\<close>

definition wire_norm :: "SseEvent \<Rightarrow> SseEvent" where
  "wire_norm e = \<lparr> sse_event = map_option first_line (sse_event e),
     sse_data = join_with [LF] (map chomp_cr (split_on LF (sse_data e))),
     sse_id = map_option first_line (sse_id e) \<rparr>"

text \<open>An event the wire does not change.\<close>

definition wire_clean :: "SseEvent \<Rightarrow> bool" where
  "wire_clean e \<longleftrightarrow> pred_option (list_all (\<lambda>c. \<not> is_eol c)) (sse_event e)
     \<and> pred_option (list_all (\<lambda>c. \<not> is_eol c)) (sse_id e)
     \<and> list_all (\<lambda>l. \<not> suffix [CR] l) (split_on LF (sse_data e))"

lemma first_line_id: "first_line n = n \<longleftrightarrow> list_all (\<lambda>c. \<not> is_eol c) n"
  by (simp add: first_line_def takeWhile_eq_all_conv list_all_iff)

lemma chomp_cr_id_iff: "chomp_cr l = l \<longleftrightarrow> \<not> suffix [CR] l"
  by (auto simp: chomp_cr_def suffix_def)

lemma split_chomped:
  "split_on LF (join_with [LF] (map chomp_cr (split_on LF d))) = map chomp_cr (split_on LF d)"
  using split_on_no_sep [of _ LF d]
  by (intro split_join_with) (auto simp: chomp_cr_def dest: in_set_butlastD)

lemma wire_norm_clean: "wire_norm e = e \<longleftrightarrow> wire_clean e"
proof -
  have "join_with [LF] (map chomp_cr (split_on LF d)) = d \<longleftrightarrow> map chomp_cr (split_on LF d) = split_on LF d" for d
    by (metis join_split_on split_chomped)
  moreover have "map chomp_cr ls = ls \<longleftrightarrow> list_all (\<lambda>l. \<not> suffix [CR] l) ls" for ls
    by (induction ls) (simp_all add: chomp_cr_id_iff)
  moreover have "map_option first_line x = x \<longleftrightarrow> pred_option (list_all (\<lambda>c. \<not> is_eol c)) x" for x
    by (cases x) (simp_all add: first_line_id)
  ultimately show ?thesis by (cases e) (auto simp: wire_norm_def wire_clean_def)
qed

lemma first_line_no_eol: "c \<in> set (first_line s) \<Longrightarrow> \<not> is_eol c"
  unfolding first_line_def by (rule set_takeWhileD [THEN conjunct2])

lemma first_line_no_lf [simp]: "LF \<notin> set (first_line s)" "CR \<notin> set (first_line s)"
  using first_line_no_eol by (force simp: is_eol_def)+

lemma chomp_cr_id: "CR \<notin> set s \<Longrightarrow> chomp_cr s = s"
  by (auto simp: chomp_cr_def suffix_def)

lemma chomp_cr_append: "p \<noteq> [] \<Longrightarrow> CR \<notin> set p \<Longrightarrow> chomp_cr (p @ s) = p @ chomp_cr s"
  by (cases s rule: rev_cases) (auto simp: chomp_cr_def suffix_def butlast_append)

lemma chomp_cr_no_lf: "LF \<notin> set s \<Longrightarrow> LF \<notin> set (chomp_cr s)"
  by (auto simp: chomp_cr_def dest: in_set_butlastD)

lemma step_event: "CR \<notin> set v \<Longrightarrow> line_step (''event: '' @ v) p = ([], p \<lparr> pe_event := Some v \<rparr>)"
  using chomp_cr_append [of "''event: ''" v]
  by (simp add: line_step_def chomp_cr_id apply_line_def split_once_def strip_prefix_def)

lemma step_id: "CR \<notin> set v \<Longrightarrow> line_step (''id: '' @ v) p = ([], p \<lparr> pe_id := Some v \<rparr>)"
  using chomp_cr_append [of "''id: ''" v]
  by (simp add: line_step_def chomp_cr_id apply_line_def split_once_def strip_prefix_def)

lemma step_data:
  "line_step (''data: '' @ v) p = ([], p \<lparr> pe_data_lines := pe_data_lines p @ [chomp_cr v] \<rparr>)"
  using chomp_cr_append [of "''data: ''" v]
  by (simp add: line_step_def apply_line_def split_once_def strip_prefix_def)

lemma drain_data_lines:
  "(\<And>l. l \<in> set ls \<Longrightarrow> LF \<notin> set l) \<Longrightarrow>
   drain (concat (map (\<lambda>l. ''data: '' @ l @ [LF]) ls) @ r) p =
     drain r (p \<lparr> pe_data_lines := pe_data_lines p @ map chomp_cr ls \<rparr>)"
proof (induction ls arbitrary: p)
  case (Cons l ls)
  have "LF \<notin> set (''data: '' @ l)" using Cons.prems by simp
  from drain_line [OF this] Cons step_data [of l p] show ?case
    by (simp add: Let_def split_def)
qed simp

lemma drain_encoded:
  "drain (encode_sse_event e @ r) pending_new =
     (let (es, b, p) = drain r pending_new in (wire_norm e # es, b, p))"
proof -
  let ?p1 = "case sse_event e of None \<Rightarrow> pending_new
             | Some n \<Rightarrow> pending_new \<lparr> pe_event := Some (first_line n) \<rparr>"
  let ?p2 = "case sse_id e of None \<Rightarrow> ?p1 | Some i \<Rightarrow> ?p1 \<lparr> pe_id := Some (first_line i) \<rparr>"
  let ?d = "concat (map (\<lambda>line. ''data: '' @ line @ [LF]) (split_on LF (sse_data e)))"
  let ?p3 = "?p2 \<lparr> pe_data_lines := pe_data_lines ?p2 @ map chomp_cr (split_on LF (sse_data e)) \<rparr>"
  have ev: "drain ((case sse_event e of None \<Rightarrow> [] | Some n \<Rightarrow> ''event: '' @ first_line n @ [LF]) @ x)
      pending_new = drain x ?p1" for x
    using drain_line [of "''event: '' @ first_line n" x for n] step_event
    by (cases "sse_event e") (simp_all add: Let_def split_def)
  have id: "drain ((case sse_id e of None \<Rightarrow> [] | Some i \<Rightarrow> ''id: '' @ first_line i @ [LF]) @ x) p
      = drain x (case sse_id e of None \<Rightarrow> p | Some i \<Rightarrow> p \<lparr> pe_id := Some (first_line i) \<rparr>)" for x p
    using drain_line [of "''id: '' @ first_line i" x for i] step_id
    by (cases "sse_id e") (simp_all add: Let_def split_def)
  have "drain (encode_sse_event e @ r) pending_new = drain (?d @ [LF] @ r) ?p2"
    by (simp add: encode_sse_event_def ev id)
  also have "\<dots> = drain ([LF] @ r) ?p3"
    by (rule drain_data_lines) (use split_on_no_sep in blast)
  also have "\<dots> = (let (es, b, p) = drain r pending_new in (wire_norm e # es, b, p))"
    using drain_line [of "[]" r ?p3]
    by (simp add: line_step_def chomp_cr_def dispatch_def wire_norm_def pending_reset_def
        pending_new_def Let_def split_def split: option.splits)
  finally show ?thesis .
qed

lemma drain_encoded_list:
  "drain (concat (map encode_sse_event es)) pending_new = (map wire_norm es, [], pending_new)"
  by (induction es) (simp_all add: drain_no_lf drain_encoded)

text \<open>Feeding a list of chunks one after the other.\<close>

fun feed_all :: "string list \<Rightarrow> SseDecoder \<Rightarrow> SseEvent list \<times> SseDecoder" where
  "feed_all [] d = ([], d)"
| "feed_all (c # cs) d = (let (e1, d1) = feed c d; (e2, d2) = feed_all cs d1 in (e1 @ e2, d2))"

lemma feed_append:
  "feed (a @ b) d = (let (e1, d1) = feed a d; (e2, d2) = feed b d1 in (e1 @ e2, d2))"
  using drain_append [of "sd_buffer d @ a" b "sd_pending d"]
  by (simp add: feed_def Let_def split_def)

lemma feed_all_concat: "feed_all (c # cs) d = feed (concat (c # cs)) d"
proof (induction cs arbitrary: c d)
  case Nil
  then show ?case by (simp add: Let_def split_def)
next
  case (Cons c' cs)
  have "feed_all (c # c' # cs) d =
      (let (e1, d1) = feed c d; (e2, d2) = feed_all (c' # cs) d1 in (e1 @ e2, d2))"
    by simp
  also have "\<dots> = (let (e1, d1) = feed c d; (e2, d2) = feed (concat (c' # cs)) d1 in (e1 @ e2, d2))"
    by (simp only: Cons)
  also have "\<dots> = feed (concat (c # c' # cs)) d"
    by (simp add: feed_append)
  finally show ?case .
qed

lemma feed_all_encoded:
  "concat (c # cs) = concat (map encode_sse_event es) \<Longrightarrow>
   feed_all (c # cs) decoder_new = (map wire_norm es, decoder_new)"
  unfolding feed_all_concat by (simp add: feed_def decoder_new_def drain_encoded_list)

section \<open>Properties\<close>

text \<open>C28. Framing does not depend on how the transport cuts the text: any sequence of chunks yields
  the events, and leaves the decoder state, of feeding the concatenation at once. (An empty sequence
  is left out: no \<open>feed\<close> happens then.)\<close>

theorem feed_chunk_independent: "feed_all (c # cs) d = feed (concat (c # cs)) d"
  by (rule feed_all_concat)

text \<open>C27. Encoding any list of events and feeding the text, cut into any chunks, gives as many events in
  the same order and leaves nothing in the decoder. An event comes back as \<open>wire_norm\<close> of it: its
  name and id cut at their first line end, and one carriage return taken off the end of each data line
  that has one. So an event whose name and id have no line end and whose data lines do not end with a
  carriage return comes back as it was, and no other does.\<close>

theorem sse_roundtrip:
  assumes "concat (c # cs) = concat (map encode_sse_event es)"
  shows "feed_all (c # cs) decoder_new = (map wire_norm es, decoder_new)
    \<and> list_all (\<lambda>e. wire_norm e = e \<longleftrightarrow> wire_clean e) es"
  using feed_all_encoded [OF assms] by (simp add: list_all_iff wire_norm_clean)

theorem sse_roundtrip_witness:
  "let e = \<lparr> sse_event = Some ''m'', sse_data = ''a'' @ [LF] @ ''b'', sse_id = None \<rparr>
   in feed_all [take 9 (encode_sse_event e), drop 9 (encode_sse_event e)] decoder_new
      = ([e], decoder_new)"
  using sse_roundtrip [where es = "[\<lparr> sse_event = Some ''m'', sse_data = ''a'' @ [LF] @ ''b'', sse_id = None \<rparr>]"
      and c = "take 9 (encode_sse_event \<lparr> sse_event = Some ''m'', sse_data = ''a'' @ [LF] @ ''b'', sse_id = None \<rparr>)"
      and cs = "[drop 9 (encode_sse_event \<lparr> sse_event = Some ''m'', sse_data = ''a'' @ [LF] @ ''b'', sse_id = None \<rparr>)]"]
  by (simp add: wire_norm_def chomp_cr_def suffix_def Cons_eq_append_conv first_line_def is_eol_def
      Let_def del: feed_all.simps)

text \<open>An event whose single-line fields hold no line end and whose data lines do not end with a
  carriage return is unchanged by the wire: decoding is then the left inverse of encoding, whatever
  follows it in the stream.\<close>

theorem sse_clean_roundtrip:
  assumes "\<And>n. sse_event e = Some n \<or> sse_id e = Some n \<Longrightarrow> LF \<notin> set n \<and> CR \<notin> set n"
    and "\<And>l. l \<in> set (split_on LF (sse_data e)) \<Longrightarrow> \<not> suffix [CR] l"
  shows "feed (encode_sse_event e @ rest) decoder_new =
     (let (es, d) = feed rest decoder_new in (e # es, d))"
proof -
  have "wire_clean e"
    using assms by (auto simp: wire_clean_def option.pred_set list_all_iff is_eol_def)
  then have "wire_norm e = e" by (simp add: wire_norm_clean)
  then show ?thesis
    by (simp add: feed_def decoder_new_def drain_encoded Let_def split_def)
qed

theorem sse_clean_roundtrip_witness:
  "feed (encode_sse_event \<lparr> sse_event = Some ''m'', sse_data = ''a'', sse_id = None \<rparr> @ ''x'') decoder_new =
     ([\<lparr> sse_event = Some ''m'', sse_data = ''a'', sse_id = None \<rparr>],
      decoder_new \<lparr> sd_buffer := ''x'' \<rparr>)"
  by (subst sse_clean_roundtrip)
     (auto simp: suffix_def Cons_eq_append_conv feed_def decoder_new_def drain_no_lf split: if_splits)

end
