(* ===== verification/Jsonrpc.thy ===== *)
theory Jsonrpc
  imports Main Prelude Lib Codec
begin

text \<open>
  \<open>mcp-wire/src/jsonrpc.rs\<close>: the four JSON-RPC 2.0 message shapes, their serialisation, the nesting
  guard and the decoder.
\<close>

section \<open>Messages\<close>

definition JSONRPC_VERSION :: string where
  "JSONRPC_VERSION = ''2.0''"

definition MAX_JSON_NESTING_DEPTH :: nat where
  "MAX_JSON_NESTING_DEPTH = 128"

datatype JsonRpcId = Number int | String string

record JsonRpcError =
  err_code :: int
  err_message :: string
  err_data :: "json option"

definition PARSE_ERROR :: int where "PARSE_ERROR = -32700"
definition INVALID_REQUEST :: int where "INVALID_REQUEST = -32600"
definition METHOD_NOT_FOUND :: int where "METHOD_NOT_FOUND = -32601"
definition INVALID_PARAMS :: int where "INVALID_PARAMS = -32602"
definition INTERNAL_ERROR :: int where "INTERNAL_ERROR = -32603"

definition rpc_error_new :: "int \<Rightarrow> string \<Rightarrow> JsonRpcError" where
  "rpc_error_new c m = \<lparr> err_code = c, err_message = m, err_data = None \<rparr>"

definition parse_error :: "string \<Rightarrow> JsonRpcError" where
  "parse_error m = rpc_error_new PARSE_ERROR m"

definition invalid_request :: "string \<Rightarrow> JsonRpcError" where
  "invalid_request m = rpc_error_new INVALID_REQUEST m"

definition method_not_found :: "string \<Rightarrow> JsonRpcError" where
  "method_not_found m = rpc_error_new METHOD_NOT_FOUND m"

definition invalid_params :: "string \<Rightarrow> JsonRpcError" where
  "invalid_params m = rpc_error_new INVALID_PARAMS m"

definition internal_error :: "string \<Rightarrow> JsonRpcError" where
  "internal_error m = rpc_error_new INTERNAL_ERROR m"

definition with_data :: "json \<Rightarrow> JsonRpcError \<Rightarrow> JsonRpcError" where
  "with_data d e = e \<lparr> err_data := Some d \<rparr>"

record JsonRpcRequest =
  req_jsonrpc :: string
  req_id :: JsonRpcId
  req_method :: string
  req_params :: "json option"

definition request_new :: "JsonRpcId \<Rightarrow> string \<Rightarrow> json option \<Rightarrow> JsonRpcRequest" where
  "request_new i m ps =
     \<lparr> req_jsonrpc = JSONRPC_VERSION, req_id = i, req_method = m, req_params = ps \<rparr>"

record JsonRpcNotification =
  ntf_jsonrpc :: string
  ntf_method :: string
  ntf_params :: "json option"

definition notification_new :: "string \<Rightarrow> json option \<Rightarrow> JsonRpcNotification" where
  "notification_new m ps = \<lparr> ntf_jsonrpc = JSONRPC_VERSION, ntf_method = m, ntf_params = ps \<rparr>"

record JsonRpcSuccessResponse =
  ok_jsonrpc :: string
  ok_id :: JsonRpcId
  ok_result :: json

definition success_response_new :: "JsonRpcId \<Rightarrow> json \<Rightarrow> JsonRpcSuccessResponse" where
  "success_response_new i r = \<lparr> ok_jsonrpc = JSONRPC_VERSION, ok_id = i, ok_result = r \<rparr>"

record JsonRpcErrorResponse =
  er_jsonrpc :: string
  er_id :: "JsonRpcId option"
  er_error :: JsonRpcError

definition error_response_new :: "JsonRpcId option \<Rightarrow> JsonRpcError \<Rightarrow> JsonRpcErrorResponse" where
  "error_response_new i e = \<lparr> er_jsonrpc = JSONRPC_VERSION, er_id = i, er_error = e \<rparr>"

datatype JsonRpcMessage =
    Request JsonRpcRequest
  | Notification JsonRpcNotification
  | SuccessResponse JsonRpcSuccessResponse
  | ErrorResponse JsonRpcErrorResponse

section \<open>Serialisation\<close>

text \<open>The fields of a struct in the order it declares them.\<close>

definition ser_rpc_id :: "JsonRpcId \<Rightarrow> json" where
  "ser_rpc_id i = (case i of Number n \<Rightarrow> json_i64 n | String s \<Rightarrow> JString s)"

text \<open>A field with \<open>skip_serializing_if = Option::is_none\<close>.\<close>

definition skip_none :: "string \<Rightarrow> json option \<Rightarrow> (string \<times> json) list" where
  "skip_none k x = (case x of None \<Rightarrow> [] | Some v \<Rightarrow> [(k, v)])"

definition ser_rpc_error :: "JsonRpcError \<Rightarrow> json" where
  "ser_rpc_error e = JObject ([(''code'', json_i64 (err_code e)),
     (''message'', JString (err_message e))] @ skip_none ''data'' (err_data e))"

definition ser_request :: "JsonRpcRequest \<Rightarrow> json" where
  "ser_request r = JObject ([(''jsonrpc'', JString (req_jsonrpc r)), (''id'', ser_rpc_id (req_id r)),
     (''method'', JString (req_method r))] @ skip_none ''params'' (req_params r))"

definition ser_notification :: "JsonRpcNotification \<Rightarrow> json" where
  "ser_notification r = JObject ([(''jsonrpc'', JString (ntf_jsonrpc r)),
     (''method'', JString (ntf_method r))] @ skip_none ''params'' (ntf_params r))"

definition ser_success :: "JsonRpcSuccessResponse \<Rightarrow> json" where
  "ser_success r = JObject [(''jsonrpc'', JString (ok_jsonrpc r)), (''id'', ser_rpc_id (ok_id r)),
     (''result'', ok_result r)]"

definition ser_error_response :: "JsonRpcErrorResponse \<Rightarrow> json" where
  "ser_error_response r = JObject [(''jsonrpc'', JString (er_jsonrpc r)),
     (''id'', json_opt ser_rpc_id (er_id r)), (''error'', ser_rpc_error (er_error r))]"

definition ser_message :: "JsonRpcMessage \<Rightarrow> json" where
  "ser_message m = (case m of Request r \<Rightarrow> ser_request r | Notification r \<Rightarrow> ser_notification r
     | SuccessResponse r \<Rightarrow> ser_success r | ErrorResponse r \<Rightarrow> ser_error_response r)"

section \<open>The nesting guard\<close>

fun nesting_loop :: "nat \<Rightarrow> nat \<Rightarrow> bool \<Rightarrow> bool \<Rightarrow> byte list \<Rightarrow> bool" where
  "nesting_loop mx depth in_str esc [] = False"
| "nesting_loop mx depth in_str esc (b # bs) =
     (if in_str then
        (if esc then nesting_loop mx depth True False bs
         else if b = 0x5C then nesting_loop mx depth True True bs
         else if b = 0x22 then nesting_loop mx depth False esc bs
         else nesting_loop mx depth True esc bs)
      else if b = 0x22 then nesting_loop mx depth True esc bs
      else if b = 0x7B \<or> b = 0x5B then
        (if mx < depth + 1 then True else nesting_loop mx (depth + 1) in_str esc bs)
      else if b = 0x7D \<or> b = 0x5D then nesting_loop mx (depth - 1) in_str esc bs
      else nesting_loop mx depth in_str esc bs)"

definition exceeds_max_nesting :: "byte list \<Rightarrow> nat \<Rightarrow> bool" where
  "exceeds_max_nesting bs mx = nesting_loop mx 0 False False bs"

section \<open>Decoding\<close>

definition parse_id :: "json \<Rightarrow> JsonRpcId option" where
  "parse_id v = (case v of
     JNumber n \<Rightarrow> map_option Number (de_i64 (JNumber n))
   | JString s \<Rightarrow> Some (String s)
   | _ \<Rightarrow> None)"

definition de_rpc_error :: "json \<Rightarrow> JsonRpcError option" where
  "de_rpc_error v = do {
     fs \<leftarrow> de_fields [''code'', ''message'', ''data''] v;
     c \<leftarrow> req_field fs ''code'' de_i64;
     m \<leftarrow> req_field fs ''message'' de_string;
     d \<leftarrow> def_field fs ''data'' (de_option Some) None;
     Some \<lparr> err_code = c, err_message = m, err_data = d \<rparr> }"

type_synonym 'a rpc = "JsonRpcError + 'a"

definition decode_request_or_notification :: "(string, json) btree \<Rightarrow> json \<Rightarrow> JsonRpcMessage rpc" where
  \<open>decode_request_or_notification obj method_value =
     (case method_value of
        JString meth \<Rightarrow>
          let params = bt_get obj ''params'' in
          (case bt_get obj ''id'' of
             None \<Rightarrow> Inr (Notification \<lparr> ntf_jsonrpc = JSONRPC_VERSION, ntf_method = meth,
                                        ntf_params = params \<rparr>)
           | Some id_value \<Rightarrow>
               res_bind (ok_or (invalid_request ''"id" must be a number or string'') (parse_id id_value))
                 (\<lambda>i. Inr (Request \<lparr> req_jsonrpc = JSONRPC_VERSION, req_id = i, req_method = meth,
                                    req_params = params \<rparr>)))
      | _ \<Rightarrow> Inl (invalid_request ''"method" must be a string''))\<close>

definition decode_response :: "lib \<Rightarrow> (string, json) btree \<Rightarrow> JsonRpcMessage rpc" where
  \<open>decode_response L obj =
     (let has_result = bt_get obj ''result'' \<noteq> None; has_error = bt_get obj ''error'' \<noteq> None in
      if has_result \<and> has_error then
        Inl (invalid_request ''a response must not contain both "result" and "error"'')
      else if has_result then
        res_bind (ok_or (invalid_request ''missing "id" field'') (bt_get obj ''id'')) (\<lambda>id_value.
        res_bind (ok_or (invalid_request ''"id" must be a number or string'') (parse_id id_value)) (\<lambda>i.
        let result = (case bt_get obj ''result'' of Some v \<Rightarrow> v | None \<Rightarrow> JNull) in
        Inr (SuccessResponse \<lparr> ok_jsonrpc = JSONRPC_VERSION, ok_id = i, ok_result = result \<rparr>)))
      else if has_error then
        res_bind (ok_or (invalid_request ''missing "id" field'') (bt_get obj ''id'')) (\<lambda>id_value.
        res_bind (case id_value of
                    JNull \<Rightarrow> Inr None
                  | _ \<Rightarrow> res_map Some (ok_or (invalid_request
                           ''"id" must be a number, string, or null'') (parse_id id_value))) (\<lambda>i.
        let error_value = (case bt_get obj ''error'' of Some v \<Rightarrow> v | None \<Rightarrow> JNull) in
        res_bind (map_err (\<lambda>e. invalid_request (''invalid "error" object: '' @ e))
                   (from_value L ''JsonRpcError'' de_rpc_error error_value)) (\<lambda>e.
        Inr (ErrorResponse \<lparr> er_jsonrpc = JSONRPC_VERSION, er_id = i, er_error = e \<rparr>))))
      else Inl (invalid_request
             ''a JSON-RPC message must contain "method", "result", or "error"''))\<close>

definition decode_value :: "lib \<Rightarrow> json \<Rightarrow> JsonRpcMessage rpc" where
  \<open>decode_value L v = (case v of
     JObject obj \<Rightarrow>
       (case bt_get obj ''jsonrpc'' of
          Some (JString s) \<Rightarrow>
            if s = JSONRPC_VERSION then
              (case bt_get obj ''method'' of
                 Some method_value \<Rightarrow> decode_request_or_notification obj method_value
               | None \<Rightarrow> decode_response L obj)
            else Inl (invalid_request ''"jsonrpc" must be the string "2.0"'')
        | Some _ \<Rightarrow> Inl (invalid_request ''"jsonrpc" must be the string "2.0"'')
        | None \<Rightarrow> Inl (invalid_request ''missing "jsonrpc" field''))
   | _ \<Rightarrow> Inl (invalid_request ''a JSON-RPC message must be a JSON object''))\<close>

definition decode_message :: "lib \<Rightarrow> byte list \<Rightarrow> JsonRpcMessage rpc" where
  "decode_message L bs =
     (if exceeds_max_nesting bs MAX_JSON_NESTING_DEPTH then
        Inl (invalid_request (''JSON nesting depth exceeds the limit of ''
               @ show_nat MAX_JSON_NESTING_DEPTH))
      else res_bind (map_err parse_error (lib_parse L bs)) (decode_value L))"

section \<open>The guard against its specification\<close>

text \<open>The scanner without its early return: the depth, and whether the next byte is in a string and
  escaped, after each byte.\<close>

fun scan_step :: "byte \<Rightarrow> nat \<times> bool \<times> bool \<Rightarrow> nat \<times> bool \<times> bool" where
  "scan_step b (d, True, True) = (d, True, False)"
| "scan_step b (d, True, False) =
     (if b = 0x5C then (d, True, True) else if b = 0x22 then (d, False, False) else (d, True, False))"
| "scan_step b (d, False, e) =
     (if b = 0x22 then (d, True, e)
      else if b = 0x7B \<or> b = 0x5B then (d + 1, False, e)
      else if b = 0x7D \<or> b = 0x5D then (d - 1, False, e)
      else (d, False, e))"

definition open_brackets :: "byte list \<Rightarrow> nat" where
  "open_brackets bs = fst (fold scan_step bs (0, False, False))"

lemma scan_step_depth: "fst (scan_step b (d, s, e)) \<le> d + 1"
  by (cases s; cases e) auto

lemma nesting_loop_prefixes:
  "d \<le> mx \<Longrightarrow> (s \<or> \<not> e) \<Longrightarrow>
   nesting_loop mx d s e bs \<longleftrightarrow> (\<exists>n. mx < fst (fold scan_step (take n bs) (d, s, e)))"
proof (induction bs arbitrary: d s e)
  case (Cons b bs)
  obtain d' s' e' where st: "scan_step b (d, s, e) = (d', s', e')" by (metis prod_cases3)
  have inv: "s' \<or> \<not> e'"
    using st Cons.prems(2) by (cases s; cases e) (auto split: if_splits)
  have split: "(\<exists>n. mx < fst (fold scan_step (take n (b # bs)) (d, s, e))) \<longleftrightarrow>
        (\<exists>n. mx < fst (fold scan_step (take n bs) (d', s', e')))" (is "?L \<longleftrightarrow> ?R")
  proof
    assume ?L
    then obtain n where n: "mx < fst (fold scan_step (take n (b # bs)) (d, s, e))" by blast
    then have "n \<noteq> 0" using Cons.prems(1) by (cases n) auto
    then show ?R using n st by (cases n) auto
  next
    assume ?R
    then obtain n where "mx < fst (fold scan_step (take n bs) (d', s', e'))" by blast
    then have "mx < fst (fold scan_step (take (Suc n) (b # bs)) (d, s, e))" using st by simp
    then show ?L by blast
  qed
  show ?case
  proof (cases "d' \<le> mx")
    case True
    have "nesting_loop mx d s e (b # bs) = nesting_loop mx d' s' e' bs"
      using st True Cons.prems(2) by (cases s; cases e) (auto split: if_splits)
    then show ?thesis using Cons.IH [OF True inv] split by simp
  next
    case False
    then have "mx < fst (fold scan_step (take 0 bs) (d', s', e'))" by simp
    then have "\<exists>n. mx < fst (fold scan_step (take n (b # bs)) (d, s, e))"
      unfolding split by blast
    moreover have "nesting_loop mx d s e (b # bs)"
      using st False Cons.prems by (cases s; cases e) (auto split: if_splits)
    ultimately show ?thesis by simp
  qed
qed simp

section \<open>Decoding what was encoded\<close>

text \<open>A message this program can hold: the version is 2.0 and the integers are \<open>i64\<close>.\<close>

definition id_ok :: "JsonRpcId \<Rightarrow> bool" where
  "id_ok i = (case i of Number n \<Rightarrow> in_i64 n | String _ \<Rightarrow> True)"

fun message_ok :: "JsonRpcMessage \<Rightarrow> bool" where
  "message_ok (Request r) \<longleftrightarrow> req_jsonrpc r = JSONRPC_VERSION \<and> id_ok (req_id r)"
| "message_ok (Notification r) \<longleftrightarrow> ntf_jsonrpc r = JSONRPC_VERSION"
| "message_ok (SuccessResponse r) \<longleftrightarrow> ok_jsonrpc r = JSONRPC_VERSION \<and> id_ok (ok_id r)"
| "message_ok (ErrorResponse r) \<longleftrightarrow> er_jsonrpc r = JSONRPC_VERSION
     \<and> (case er_id r of None \<Rightarrow> True | Some i \<Rightarrow> id_ok i) \<and> in_i64 (err_code (er_error r))"

text \<open>The values a message carries are values of \<open>serde_json\<close>.\<close>

fun payloads :: "JsonRpcMessage \<Rightarrow> json list" where
  "payloads (Request r) = (case req_params r of None \<Rightarrow> [] | Some v \<Rightarrow> [v])"
| "payloads (Notification r) = (case ntf_params r of None \<Rightarrow> [] | Some v \<Rightarrow> [v])"
| "payloads (SuccessResponse r) = [ok_result r]"
| "payloads (ErrorResponse r) = (case err_data (er_error r) of None \<Rightarrow> [] | Some v \<Rightarrow> [v])"

text \<open>The one loss: an error whose data is an explicit null comes back without data.\<close>

fun wire_message :: "JsonRpcMessage \<Rightarrow> JsonRpcMessage" where
  "wire_message (ErrorResponse r) =
     (if err_data (er_error r) = Some JNull
      then ErrorResponse (r \<lparr> er_error := (er_error r) \<lparr> err_data := None \<rparr> \<rparr>)
      else ErrorResponse r)"
| "wire_message m = m"

lemma json_i64_number [simp]: "\<exists>n. json_i64 i = JNumber n"
  by (simp add: json_i64_def)

lemma parse_ser_id [simp]: "id_ok i \<Longrightarrow> parse_id (ser_rpc_id i) = Some i"
proof (cases i)
  case (Number n)
  obtain k where k: "json_i64 n = JNumber k" using json_i64_number by blast
  assume "id_ok i"
  then have "de_i64 (JNumber k) = Some n" using Number k de_i64_json_i64 [of n]
    by (simp add: id_ok_def)
  then show ?thesis using Number k by (simp add: ser_rpc_id_def parse_id_def)
qed (simp add: ser_rpc_id_def parse_id_def)

lemma ser_rpc_id_not_null [simp]: "ser_rpc_id i \<noteq> JNull"
  by (cases i) (simp_all add: ser_rpc_id_def json_i64_def)

lemma skip_none_rev: "map_of (rev (skip_none k x)) n = (if n = k then x else None)"
  by (cases x) (auto simp: skip_none_def)

lemma json_value_id [simp]: "json_value (ser_rpc_id i) = ser_rpc_id i"
  by (cases i) (simp_all add: ser_rpc_id_def)

lemma skip_none_value:
  "(\<And>v. x = Some v \<Longrightarrow> json_ok v) \<Longrightarrow> map (\<lambda>p. (fst p, json_value (snd p))) (skip_none k x) = skip_none k x"
  by (cases x) (simp_all add: skip_none_def json_value_ok)

text \<open>What a reader of the text sees: the fields as a map.\<close>

lemma value_of_message:
  assumes "list_all json_ok (payloads m)"
  shows "json_value (ser_message m) = (case m of
     Request r \<Rightarrow> json_obj ([(''jsonrpc'', JString (req_jsonrpc r)), (''id'', ser_rpc_id (req_id r)),
       (''method'', JString (req_method r))] @ skip_none ''params'' (req_params r))
   | Notification r \<Rightarrow> json_obj ([(''jsonrpc'', JString (ntf_jsonrpc r)),
       (''method'', JString (ntf_method r))] @ skip_none ''params'' (ntf_params r))
   | SuccessResponse r \<Rightarrow> json_obj [(''jsonrpc'', JString (ok_jsonrpc r)), (''id'', ser_rpc_id (ok_id r)),
       (''result'', ok_result r)]
   | ErrorResponse r \<Rightarrow> json_obj [(''jsonrpc'', JString (er_jsonrpc r)),
       (''id'', json_opt ser_rpc_id (er_id r)), (''error'', json_value (ser_rpc_error (er_error r)))])"
  using assms
  by (cases m) (auto simp: ser_message_def ser_request_def ser_notification_def ser_success_def
      ser_error_response_def skip_none_def json_value_ok split: option.splits)

lemma de_ser_rpc_error:
  assumes "in_i64 (err_code e)" "\<And>v. err_data e = Some v \<Longrightarrow> json_ok v"
  shows "de_rpc_error (json_value (ser_rpc_error e)) =
     Some (if err_data e = Some JNull then e \<lparr> err_data := None \<rparr> else e)"
proof -
  have v: "json_value (ser_rpc_error e) = json_obj ([(''code'', json_i64 (err_code e)),
      (''message'', JString (err_message e))] @ skip_none ''data'' (err_data e))"
    using assms(2) by (simp add: ser_rpc_error_def skip_none_value)
  show ?thesis
    unfolding v de_rpc_error_def de_fields_obj
    using assms(1) by (cases "err_data e")
      (auto simp: req_field_def def_field_def skip_none_def bt_get_collect de_option_def)
qed

lemma decode_ser_error_response:
  assumes "message_ok (ErrorResponse r)" "list_all json_ok (payloads (ErrorResponse r))"
  shows "decode_value L (json_value (ser_message (ErrorResponse r))) = Inr (wire_message (ErrorResponse r))"
proof -
  have e: "de_rpc_error (json_value (ser_rpc_error (er_error r))) =
      Some (if err_data (er_error r) = Some JNull then (er_error r) \<lparr> err_data := None \<rparr> else er_error r)"
    using assms by (intro de_ser_rpc_error) auto
  show ?thesis
  proof (cases "er_id r")
    case None
    then show ?thesis
      using assms(1) by (simp add: value_of_message [OF assms(2)] decode_value_def decode_response_def json_obj_def
          bt_get_collect from_value_def e json_opt_def Let_def)
  next
    case (Some i)
    have "(case ser_rpc_id i of JNull \<Rightarrow> Inr None
           | _ \<Rightarrow> res_map Some (ok_or e (parse_id (ser_rpc_id i)))) = Inr (Some i)" for e :: JsonRpcError
      using assms Some parse_ser_id [of i] ser_rpc_id_not_null [of i]
      by (cases "ser_rpc_id i") (simp_all del: parse_ser_id ser_rpc_id_not_null)
    then show ?thesis
      using assms(1) Some by (simp add: value_of_message [OF assms(2)] decode_value_def decode_response_def
          json_obj_def bt_get_collect from_value_def e json_opt_def Let_def)
  qed
qed

lemma decode_ser_request:
  assumes "message_ok (Request r)" "list_all json_ok (payloads (Request r))"
  shows "decode_value L (json_value (ser_message (Request r))) = Inr (Request r)"
  unfolding value_of_message [OF assms(2)]
  using assms(1) by (cases "req_params r")
     (simp_all add: decode_value_def decode_request_or_notification_def json_obj_def
       bt_get_collect skip_none_def Let_def)

lemma decode_ser_notification:
  assumes "message_ok (Notification r)" "list_all json_ok (payloads (Notification r))"
  shows "decode_value L (json_value (ser_message (Notification r))) = Inr (Notification r)"
  unfolding value_of_message [OF assms(2)]
  using assms(1) by (cases "ntf_params r")
     (simp_all add: decode_value_def decode_request_or_notification_def json_obj_def
       bt_get_collect skip_none_def Let_def)

lemma decode_ser_success:
  assumes "message_ok (SuccessResponse r)" "list_all json_ok (payloads (SuccessResponse r))"
  shows "decode_value L (json_value (ser_message (SuccessResponse r))) = Inr (SuccessResponse r)"
  unfolding value_of_message [OF assms(2)]
  using assms(1) by (simp add: decode_value_def decode_response_def json_obj_def bt_get_collect Let_def)

lemmas rpc_error_defs = invalid_request_def parse_error_def rpc_error_new_def

lemma decode_response_error_code:
  "decode_response L obj = Inl e \<Longrightarrow> err_code e = INVALID_REQUEST"
  by (auto simp: decode_response_def Let_def res_bind_eq_Inl rpc_error_defs ok_or_def from_value_def
      split: if_splits option.splits json.splits)

lemma decode_value_error_code: "decode_value L v = Inl e \<Longrightarrow> err_code e = INVALID_REQUEST"
  by (auto simp: decode_value_def decode_request_or_notification_def Let_def res_bind_eq_Inl
      rpc_error_defs ok_or_def dest: decode_response_error_code
      split: json.splits option.splits if_splits)

section \<open>Properties\<close>

text \<open>C26. A message that is written as bytes and read back by \<open>decode_message\<close> is the same message, for
  each of the four shapes, with one exception the wire format forces: an error object whose \<open>data\<close>
  is an explicit null comes back without data (\<open>wire_message\<close>). The conditions: the message is of
  version 2.0 and its integers are \<open>i64\<close>; what it carries is a value of \<open>serde_json\<close>; the tree has UTF-8
  strings, no floating point number and at most 127 levels, so that the parser reads it; and
  the text passes the program's own nesting guard.\<close>

theorem decode_ser_message:
  assumes "json_codec L" and "message_ok m" and "list_all json_ok (payloads m)"
    and "json_text PARSE_DEPTH (ser_message m)"
    and "to_vec L (ser_message m) = Inr bs" and "\<not> exceeds_max_nesting bs MAX_JSON_NESTING_DEPTH"
  shows "decode_message L bs = Inr (wire_message m)
    \<and> (wire_message m = m \<longleftrightarrow> (case m of ErrorResponse r \<Rightarrow> err_data (er_error r) \<noteq> Some JNull | _ \<Rightarrow> True))"
proof
  have "lib_parse L bs = Inr (json_value (ser_message m))"
    using assms(1,4,5) by (auto simp: json_codec_def)
  then show "decode_message L bs = Inr (wire_message m)"
    using assms(2,3,6) decode_ser_request decode_ser_notification decode_ser_success decode_ser_error_response
    by (cases m) (simp_all add: decode_message_def)
  show "wire_message m = m \<longleftrightarrow> (case m of ErrorResponse r \<Rightarrow> err_data (er_error r) \<noteq> Some JNull | _ \<Rightarrow> True)"
    by (cases m) (auto dest: arg_cong [of _ _ "\<lambda>r. err_data (er_error r)"])
qed

theorem decode_ser_message_witness:
  "decode_message ref_lib (projr (to_vec ref_lib (ser_message (Request (request_new (Number 7) ''ping'' None)))))
     = Inr (Request (request_new (Number 7) ''ping'' None))"
proof -
  let ?m = "Request (request_new (Number 7) ''ping'' None)"
  have "json_text PARSE_DEPTH (ser_message ?m)" by code_simp
  moreover have "\<not> exceeds_max_nesting (projr (to_vec ref_lib (ser_message ?m))) MAX_JSON_NESTING_DEPTH"
    by code_simp
  ultimately show ?thesis
    using decode_ser_message [of ref_lib ?m "projr (to_vec ref_lib (ser_message ?m))"] ref_lib_ok
    by (simp add: lib_ok_def request_new_def id_ok_def in_i64_def)
qed

text \<open>C40. The nesting guard refuses a text exactly when some prefix of it has more than the allowed
  number of open brackets outside strings, counted with the saturating close; so no accepted text
  ever has more open brackets than the limit.\<close>

theorem nesting_guard_exact:
  "exceeds_max_nesting bs mx \<longleftrightarrow> (\<exists>n. mx < open_brackets (take n bs))"
  unfolding exceeds_max_nesting_def open_brackets_def by (rule nesting_loop_prefixes) simp_all

text \<open>Decoding never fails with anything but the two codes the documentation names, and what
  each means: a parse error only for a text within the nesting limit that the JSON parser refuses;
  a text within the limit that parses to a value fails, if it does, with invalid-request.\<close>

theorem decode_message_errors:
  "case decode_message L bs of
     Inr _ \<Rightarrow> \<not> exceeds_max_nesting bs 128 \<and> is_ok (lib_parse L bs)
   | Inl e \<Rightarrow> err_code e =
       (if exceeds_max_nesting bs 128 \<or> is_ok (lib_parse L bs) then INVALID_REQUEST else PARSE_ERROR)"
  using decode_value_error_code
  by (cases "lib_parse L bs")
     (auto simp: decode_message_def MAX_JSON_NESTING_DEPTH_def rpc_error_defs split: sum.splits)

text \<open>A text that nests too deep is refused before the parser sees it, whatever follows and
  whether or not it is JSON: 129 opening brackets alone, which no parser accepts, are answered with
  invalid-request, not with a parse error.\<close>

theorem deep_garbage_is_invalid_request:
  "\<exists>m. decode_message L (replicate 129 0x5B @ rest) = Inl (invalid_request m)"
proof -
  have "fold scan_step (replicate n 0x5B) (d, False, False) = (d + n, False, False)" for n d
    by (induction n arbitrary: d) auto
  then have "128 < open_brackets (take 129 (replicate 129 0x5B @ rest))"
    by (simp add: open_brackets_def)
  then have "\<exists>n. 128 < open_brackets (take n (replicate 129 0x5B @ rest))" by blast
  then have "exceeds_max_nesting (replicate 129 0x5B @ rest) 128"
    unfolding exceeds_max_nesting_def open_brackets_def
    by (subst nesting_loop_prefixes) simp_all
  then show ?thesis
    unfolding decode_message_def MAX_JSON_NESTING_DEPTH_def by (simp only: if_True) blast
qed

text \<open>A message with a \<open>method\<close> key is a request exactly when it has an \<open>id\<close> key and a
  notification exactly when it has none; an explicit null id makes it neither.\<close>

theorem request_iff_id_key:
  \<open>decode_request_or_notification obj (JString meth) = (case bt_get obj ''id'' of
     None \<Rightarrow> Inr (Notification (notification_new meth (bt_get obj ''params'')))
   | Some v \<Rightarrow> (case parse_id v of
       None \<Rightarrow> Inl (invalid_request ''"id" must be a number or string'')
     | Some i \<Rightarrow> Inr (Request (request_new i meth (bt_get obj ''params'')))))\<close>
  by (simp add: decode_request_or_notification_def notification_new_def request_new_def Let_def
      split: option.splits)

end
