(* ===== verification/McpServer.thy ===== *)
theory McpServer
  imports Main Prelude Lib Jsonrpc "HOL-Library.AList" "HOL-Library.Multiset"
begin

text \<open>
  The crate \<open>mcp-server\<close>: tools and their registry, audit events, and the session that dispatches
  one decoded message. A tool acts on a world of type 'w (the connections, the profiles, the files:
  whatever the tools of the instance share); the session threads it. The locale \<open>message_server\<close>
  states what a transport relies on; it is interpreted on \<open>handle\<close>.
\<close>

section \<open>Tools\<close>

datatype McpToolError = InvalidArguments string | Failed string

definition tool_error_text :: "McpToolError \<Rightarrow> string" where
  "tool_error_text e = (case e of
     InvalidArguments m \<Rightarrow> ''invalid arguments: '' @ m | Failed m \<Rightarrow> m)"

record ContentBlock =
  cb_kind :: string
  cb_text :: string

definition content_text :: "string \<Rightarrow> ContentBlock" where
  "content_text t = \<lparr> cb_kind = ''text'', cb_text = t \<rparr>"

record CallToolResult =
  ctr_content :: "ContentBlock list"
  ctr_is_error :: bool
  ctr_structured_content :: "json option"

definition call_success :: "lib \<Rightarrow> json \<Rightarrow> CallToolResult" where
  "call_success L v = \<lparr> ctr_content = [content_text (lib_pretty L v)], ctr_is_error = False,
     ctr_structured_content = Some v \<rparr>"

definition call_error :: "string \<Rightarrow> CallToolResult" where
  "call_error m = \<lparr> ctr_content = [content_text m], ctr_is_error = True,
     ctr_structured_content = None \<rparr>"

definition ser_content_block :: "ContentBlock \<Rightarrow> json" where
  "ser_content_block b = json_obj [(''type'', JString (cb_kind b)), (''text'', JString (cb_text b))]"

definition into_value :: "CallToolResult \<Rightarrow> json" where
  "into_value r = json_obj ([(''content'', JArray (map ser_content_block (ctr_content r))),
     (''isError'', JBool (ctr_is_error r))] @ skip_none ''structuredContent'' (ctr_structured_content r))"

record ToolDescriptor =
  td_name :: string
  td_description :: string
  td_input_schema :: json

definition ser_descriptor :: "ToolDescriptor \<Rightarrow> json" where
  "ser_descriptor d = json_obj [(''name'', JString (td_name d)),
     (''description'', JString (td_description d)), (''inputSchema'', td_input_schema d)]"

type_synonym 'w tool_call = "json option \<Rightarrow> 'w \<Rightarrow> (McpToolError + json) \<times> 'w"

record 'w tool =
  tool_name :: string
  tool_description :: string
  tool_schema :: json
  tool_run :: "'w tool_call"

definition descriptor :: "'w tool \<Rightarrow> ToolDescriptor" where
  "descriptor t = \<lparr> td_name = tool_name t, td_description = tool_description t,
     td_input_schema = tool_schema t \<rparr>"

definition CARGO_PKG_VERSION :: string where
  "CARGO_PKG_VERSION = ''0.1.3''"

definition ping_schema :: json where
  "ping_schema = json_obj [(''type'', JString ''object''), (''properties'', json_obj []),
     (''additionalProperties'', JBool False)]"

definition ping_call :: "'w tool_call" where
  "ping_call args w =
     (Inr (json_obj [(''status'', JString ''pong''), (''version'', JString CARGO_PKG_VERSION)]), w)"

definition ping_tool :: "'w tool" where
  \<open>ping_tool = \<lparr> tool_name = ''ping'',
     tool_description = ''Health check; returns "pong" and the server version.'',
     tool_schema = ping_schema, tool_run = ping_call \<rparr>\<close>

definition echo_schema :: json where
  "echo_schema = json_obj [(''type'', JString ''object''),
     (''properties'', json_obj [(''message'', json_obj [(''type'', JString ''string'')])]),
     (''required'', json_strs [''message'']), (''additionalProperties'', JBool False)]"

definition echo_call :: "'w tool_call" where
  \<open>echo_call args w = (case args of
     None \<Rightarrow> (Inl (InvalidArguments ''missing arguments''), w)
   | Some a \<Rightarrow> (case json_get a ''message'' \<bind> json_as_str of
       None \<Rightarrow> (Inl (InvalidArguments ''"message" must be a string''), w)
     | Some m \<Rightarrow> (Inr (json_obj [(''message'', JString m)]), w)))\<close>

definition echo_tool :: "'w tool" where
  \<open>echo_tool = \<lparr> tool_name = ''echo'', tool_description = ''Echoes back the "message" argument.'',
     tool_schema = echo_schema, tool_run = echo_call \<rparr>\<close>

section \<open>The tool registry\<close>

text \<open>The hash map is an association list in the order its iteration happens to have.\<close>

type_synonym 'w registry = "(string \<times> 'w tool) list"

definition registry_empty :: "'w registry" where
  "registry_empty = []"

definition register :: "'w tool \<Rightarrow> 'w registry \<Rightarrow> 'w registry" where
  "register t r = AList.update (tool_name t) t r"

definition descriptors :: "'w registry \<Rightarrow> ToolDescriptor list" where
  "descriptors r = sort_key td_name (map (descriptor \<circ> snd) r)"

datatype ToolCallError = UnknownTool string | ToolFailed McpToolError

definition registry_call ::
  "'w registry \<Rightarrow> string \<Rightarrow> json option \<Rightarrow> 'w \<Rightarrow> (ToolCallError + json) \<times> 'w" where
  "registry_call r name args w = (case map_of r name of
     None \<Rightarrow> (Inl (UnknownTool name), w)
   | Some t \<Rightarrow> (let (res, w') = tool_run t args w in (map_err ToolFailed res, w')))"

definition unknown_tool_text :: "string \<Rightarrow> string" where
  "unknown_tool_text n = ''no such tool: '' @ n"

section \<open>Audit\<close>

datatype AuditOutcome = Ok | Error int

definition outcome_from_result :: "JsonRpcError + 'a \<Rightarrow> AuditOutcome" where
  "outcome_from_result r = (case r of Inr _ \<Rightarrow> Ok | Inl e \<Rightarrow> Error (err_code e))"

record AuditEvent =
  ae_method :: string
  ae_tool_name :: "string option"
  ae_outcome :: AuditOutcome

text \<open>\<open>TracingAuditLogger\<close> logs at info or at warn; a log line is its level, its fields and its text.\<close>

datatype log_level = Info | Warn

definition tracing_record :: "AuditEvent \<Rightarrow> log_level \<times> (string \<times> string option \<times> int option) \<times> string" where
  "tracing_record e = (case ae_outcome e of
     Ok \<Rightarrow> (Info, (ae_method e, ae_tool_name e, None), ''mcp call ok'')
   | Error c \<Rightarrow> (Warn, (ae_method e, ae_tool_name e, Some c), ''mcp call failed''))"

section \<open>The session\<close>

definition PROTOCOL_VERSION :: string where
  "PROTOCOL_VERSION = ''2025-06-18''"

text \<open>The audit log is the list of recorded events, oldest first.\<close>

record 'w McpSession =
  ms_registry :: "'w registry"
  ms_audit :: "AuditEvent list"
  ms_initialized :: bool
  ms_world :: 'w

definition session_new :: "'w registry \<Rightarrow> 'w \<Rightarrow> 'w McpSession" where
  "session_new r w = \<lparr> ms_registry = r, ms_audit = [], ms_initialized = False, ms_world = w \<rparr>"

definition handle_initialize :: "'w McpSession \<Rightarrow> json rpc \<times> 'w McpSession" where
  "handle_initialize s =
     (Inr (json_obj [(''protocolVersion'', JString PROTOCOL_VERSION),
        (''serverInfo'', json_obj [(''name'', JString ''db-headless-mcp''),
           (''version'', JString CARGO_PKG_VERSION)]),
        (''capabilities'', json_obj [(''tools'', json_obj [])])]),
      s \<lparr> ms_initialized := True \<rparr>)"

definition require_initialized :: "'w McpSession \<Rightarrow> unit rpc" where
  \<open>require_initialized s =
     (if ms_initialized s then Inr ()
      else Inl (invalid_request ''session is not initialized; call "initialize" first''))\<close>

definition handle_tools_list :: "'w McpSession \<Rightarrow> json rpc" where
  "handle_tools_list s = res_bind (require_initialized s) (\<lambda>_.
     Inr (json_obj [(''tools'', JArray (map ser_descriptor (descriptors (ms_registry s))))]))"

record ToolCallParams =
  tcp_name :: string
  tcp_arguments :: "json option"

definition de_tool_call_params :: "json \<Rightarrow> ToolCallParams option" where
  "de_tool_call_params v = do {
     fs \<leftarrow> de_fields [''name'', ''arguments''] v;
     n \<leftarrow> req_field fs ''name'' de_string;
     a \<leftarrow> def_field fs ''arguments'' (de_option Some) None;
     Some \<lparr> tcp_name = n, tcp_arguments = a \<rparr> }"

definition map_call_result :: "lib \<Rightarrow> ToolCallError + json \<Rightarrow> json rpc \<times> AuditOutcome" where
  "map_call_result L result = (case result of
     Inr v \<Rightarrow> (Inr (into_value (call_success L v)), Ok)
   | Inl (UnknownTool n) \<Rightarrow>
       let e = method_not_found (unknown_tool_text n) in (Inl e, Error (err_code e))
   | Inl (ToolFailed err) \<Rightarrow>
       let code = (case err of InvalidArguments _ \<Rightarrow> INVALID_PARAMS | Failed _ \<Rightarrow> INTERNAL_ERROR)
       in (Inr (into_value (call_error (tool_error_text err))), Error code))"

definition handle_tools_call ::
  "lib \<Rightarrow> json option \<Rightarrow> 'w McpSession \<Rightarrow> (json rpc \<times> string option \<times> AuditOutcome) \<times> 'w McpSession" where
  \<open>handle_tools_call L params s = (case require_initialized s of
     Inl err \<Rightarrow> ((Inl err, None, Error (err_code err)), s)
   | Inr _ \<Rightarrow>
     (case map_option (from_value L ''ToolCallParams'' de_tool_call_params) params of
        None \<Rightarrow>
          let e = invalid_params ''"tools/call" requires params''
          in ((Inl e, None, Error (err_code e)), s)
      | Some (Inl err) \<Rightarrow>
          let e = invalid_params (''invalid "tools/call" params: '' @ err)
          in ((Inl e, None, Error (err_code e)), s)
      | Some (Inr p) \<Rightarrow>
          let (result, w) = registry_call (ms_registry s) (tcp_name p) (tcp_arguments p) (ms_world s);
              (mapped, outcome) = map_call_result L result
          in ((mapped, Some (tcp_name p), outcome), s \<lparr> ms_world := w \<rparr>)))\<close>

definition dispatch_request ::
  "lib \<Rightarrow> JsonRpcRequest \<Rightarrow> 'w McpSession \<Rightarrow> (json rpc \<times> string option \<times> AuditOutcome) \<times> 'w McpSession" where
  "dispatch_request L r s =
     (if req_method r = ''initialize'' then
        let (result, s') = handle_initialize s
        in ((result, None, outcome_from_result result), s')
      else if req_method r = ''tools/list'' then
        let result = handle_tools_list s in ((result, None, outcome_from_result result), s)
      else if req_method r = ''tools/call'' then handle_tools_call L (req_params r) s
      else let result = Inl (method_not_found (''unknown method: '' @ req_method r))
           in ((result, None, outcome_from_result result), s))"

definition audit_record :: "AuditEvent \<Rightarrow> 'w McpSession \<Rightarrow> 'w McpSession" where
  "audit_record e s = s \<lparr> ms_audit := ms_audit s @ [e] \<rparr>"

definition handle_request :: "lib \<Rightarrow> JsonRpcRequest \<Rightarrow> 'w McpSession \<Rightarrow> JsonRpcMessage \<times> 'w McpSession" where
  "handle_request L r s =
     (let ((result, tool, outcome), s1) = dispatch_request L r s;
          s2 = audit_record \<lparr> ae_method = req_method r, ae_tool_name = tool, ae_outcome = outcome \<rparr> s1
      in (case result of
            Inr v \<Rightarrow> SuccessResponse (success_response_new (req_id r) v)
          | Inl e \<Rightarrow> ErrorResponse (error_response_new (Some (req_id r)) e), s2))"

text \<open>A notification is only logged.\<close>

definition handle_notification :: "JsonRpcNotification \<Rightarrow> 'w McpSession \<Rightarrow> 'w McpSession" where
  "handle_notification n s = (if ntf_method n = ''notifications/initialized'' then s else s)"

definition handle :: "lib \<Rightarrow> JsonRpcMessage \<Rightarrow> 'w McpSession \<Rightarrow> JsonRpcMessage option \<times> 'w McpSession" where
  "handle L m s = (case m of
     Request r \<Rightarrow> (let (reply, s') = handle_request L r s in (Some reply, s'))
   | Notification n \<Rightarrow> (None, handle_notification n s)
   | SuccessResponse _ \<Rightarrow> (None, s)
   | ErrorResponse _ \<Rightarrow> (None, s))"

section \<open>What a transport relies on\<close>

definition is_request :: "JsonRpcMessage \<Rightarrow> bool" where
  "is_request m = (case m of Request _ \<Rightarrow> True | _ \<Rightarrow> False)"

definition message_id :: "JsonRpcMessage \<Rightarrow> JsonRpcId option" where
  "message_id m = (case m of Request r \<Rightarrow> Some (req_id r) | Notification _ \<Rightarrow> None
     | SuccessResponse r \<Rightarrow> Some (ok_id r) | ErrorResponse r \<Rightarrow> er_id r)"

definition is_response :: "JsonRpcMessage \<Rightarrow> bool" where
  "is_response m = (case m of SuccessResponse _ \<Rightarrow> True | ErrorResponse _ \<Rightarrow> True | _ \<Rightarrow> False)"

text \<open>A handler run over a list of inputs.\<close>

fun serve_all :: "('i \<Rightarrow> 's \<Rightarrow> 'o option \<times> 's) \<Rightarrow> 'i list \<Rightarrow> 's \<Rightarrow> 'o list \<times> 's" where
  "serve_all h [] s = ([], s)"
| "serve_all h (m # ms) s =
     (let (r, s1) = h m s; (rs, s2) = serve_all h ms s1
      in ((case r of None \<Rightarrow> rs | Some x \<Rightarrow> x # rs), s2))"

lemma serve_all_append:
  "serve_all h (xs @ ys) s =
     (let (r1, s1) = serve_all h xs s; (r2, s2) = serve_all h ys s1 in (r1 @ r2, s2))"
  by (induction xs arbitrary: s) (auto simp: pair_simps split: option.splits)

locale message_server =
  fixes hnd :: "'i \<Rightarrow> 's \<Rightarrow> 'o option \<times> 's"
    and wants_reply :: "'i \<Rightarrow> bool"
    and answers :: "'i \<Rightarrow> 'o \<Rightarrow> bool"
  assumes request_answered: "wants_reply m \<Longrightarrow> \<exists>r. fst (hnd m s) = Some r \<and> answers m r"
    and others_silent: "\<not> wants_reply m \<Longrightarrow> hnd m s = (None, s)"
begin

lemma serve_all_answers:
  "list_all2 answers (filter wants_reply ms) (fst (serve_all hnd ms s))"
proof (induction ms arbitrary: s)
  case (Cons m ms)
  obtain r s1 where h: "hnd m s = (r, s1)" by fastforce
  show ?case
  proof (cases "wants_reply m")
    case True
    then obtain x where "r = Some x" "answers m x" using request_answered [of m s] h by auto
    then show ?thesis using h True Cons by (simp add: pair_simps)
  next
    case False
    then show ?thesis using others_silent Cons by (simp add: pair_simps)
  qed
qed simp

lemma serve_all_skips: "serve_all hnd ms s = serve_all hnd (filter wants_reply ms) s"
  by (induction ms arbitrary: s) (simp_all add: others_silent pair_simps)

end

locale logged_server = message_server hnd wants_reply answers
  for hnd :: "'i \<Rightarrow> 's \<Rightarrow> 'o option \<times> 's" and wants_reply and answers +
  fixes log :: "'s \<Rightarrow> nat"
  assumes request_logged: "wants_reply m \<Longrightarrow> log (snd (hnd m s)) = Suc (log s)"
begin

lemma serve_all_logged:
  "log (snd (serve_all hnd ms s)) = log s + length (filter wants_reply ms)"
proof (induction ms arbitrary: s)
  case (Cons m ms)
  then show ?case
    using request_logged [of m s] others_silent [of m s] request_answered [of m s]
    by (cases "wants_reply m") (auto simp: pair_simps)
qed simp

end

lemma dispatch_audit [simp]: "ms_audit (snd (dispatch_request L r s)) = ms_audit s"
  by (auto simp: dispatch_request_def handle_initialize_def handle_tools_call_def Let_def split_def
      split: sum.splits option.splits)

lemma dispatch_registry [simp]: "ms_registry (snd (dispatch_request L r s)) = ms_registry s"
  by (auto simp: dispatch_request_def handle_initialize_def handle_tools_call_def Let_def split_def
      split: sum.splits option.splits)

lemma handle_request_audit:
  "\<exists>t c. ms_audit (snd (handle_request L r s)) =
     ms_audit s @ [\<lparr> ae_method = req_method r, ae_tool_name = t, ae_outcome = c \<rparr>]"
  by (auto simp: handle_request_def audit_record_def split_def Let_def)

lemma handle_request_reply:
  "message_id (fst (handle_request L r s)) = Some (req_id r) \<and> is_response (fst (handle_request L r s))"
  by (auto simp: handle_request_def message_id_def is_response_def success_response_new_def
      error_response_new_def split_def Let_def split: sum.splits)

interpretation mcp: logged_server "handle L" is_request
  "\<lambda>m r. message_id r = message_id m \<and> is_response r" "\<lambda>s. length (ms_audit s)" for L :: lib
proof
  fix m :: JsonRpcMessage and s :: "'a McpSession"
  show "is_request m \<Longrightarrow> \<exists>r. fst (handle L m s) = Some r \<and> message_id r = message_id m \<and> is_response r"
    using handle_request_reply
    by (cases m) (auto simp: is_request_def handle_def message_id_def [of "Request _"] pair_simps)
  show "\<not> is_request m \<Longrightarrow> handle L m s = (None, s)"
    by (cases m) (simp_all add: is_request_def handle_def handle_notification_def)
  show "is_request m \<Longrightarrow> length (ms_audit (snd (handle L m s))) = Suc (length (ms_audit s))"
    using handle_request_audit [of L _ s]
    by (cases m) (auto simp: is_request_def handle_def pair_simps, metis length_append_singleton)
qed

section \<open>Lemmas on the registry\<close>

definition registry_of :: "'w tool list \<Rightarrow> 'w registry" where
  "registry_of ts = fold register ts registry_empty"

lemma map_of_registry_aux:
  "map_of (fold register ts r) = map_of r ++ map_of (rev (map (\<lambda>t. (tool_name t, t)) ts))"
  by (induction ts arbitrary: r) (auto simp: register_def update_conv' fun_eq_iff map_add_def
      split: option.splits)

lemma map_of_registry:
  "map_of (registry_of ts) = map_of (rev (map (\<lambda>t. (tool_name t, t)) ts))"
  by (simp add: registry_of_def registry_empty_def map_of_registry_aux)

lemma registry_aux_distinct:
  "distinct (map fst r) \<Longrightarrow> distinct (map fst (fold register ts r))"
  by (induction ts arbitrary: r) (simp_all add: register_def distinct_update)

lemma registry_of_distinct: "distinct (map fst (registry_of ts))"
  by (simp add: registry_of_def registry_empty_def registry_aux_distinct)

lemma registry_keys_are_names:
  "(k, t) \<in> set (registry_of ts) \<Longrightarrow> tool_name t = k \<and> t \<in> set ts"
proof -
  assume "(k, t) \<in> set (registry_of ts)"
  then have "map_of (registry_of ts) k = Some t"
    using registry_of_distinct [of ts] by simp
  then show ?thesis unfolding map_of_registry by (auto dest: map_of_SomeD)
qed

lemma descriptors_names: "td_name (descriptor t) = tool_name t"
  by (simp add: descriptor_def)

lemma registry_descriptor_names:
  "map td_name (map (descriptor \<circ> snd) (registry_of ts)) = map fst (registry_of ts)"
  using registry_keys_are_names by (force simp: descriptors_names)

lemma distinct_descriptors: "distinct (map td_name (descriptors (registry_of ts)))"
proof -
  have "distinct (map td_name (map (descriptor \<circ> snd) (registry_of ts)))"
    unfolding registry_descriptor_names by (rule registry_of_distinct)
  then show ?thesis
    unfolding descriptors_def by (metis distinct_map distinct_sort set_sort)
qed

lemma descriptor_names_set: "set (map td_name (descriptors (registry_of ts))) = tool_name ` set ts"
proof -
  have "set (map td_name (descriptors (registry_of ts))) = fst ` set (registry_of ts)"
    unfolding descriptors_def by (metis list.set_map registry_descriptor_names set_sort)
  also have "\<dots> = dom (map_of (registry_of ts))" by (simp add: dom_map_of_conv_image_fst)
  also have "\<dots> = tool_name ` set ts"
    by (simp add: map_of_registry dom_map_of_conv_image_fst image_image)
  finally show ?thesis .
qed

lemma sort_key_unique:
  assumes "set xs = set ys" "distinct (map f xs)" "distinct (map f ys)"
  shows "sort_key f xs = sort_key f ys"
proof (rule map_sorted_distinct_set_unique)
  show "inj_on f (set (sort_key f xs) \<union> set (sort_key f ys))"
    using assms by (simp add: distinct_map)
  show "distinct (map f (sort_key f xs))" "distinct (map f (sort_key f ys))"
    using assms by (simp_all add: distinct_map)
qed (use assms in simp_all)

definition tool_methods :: "string list" where
  "tool_methods = [''tools/list'', ''tools/call'']"

subsection \<open>Which tool a message runs\<close>

text \<open>Of several tools with one name the last one registered counts.\<close>

definition tool_named :: "'w tool list \<Rightarrow> string \<Rightarrow> 'w tool option" where
  "tool_named ts n = find (\<lambda>t. tool_name t = n) (rev ts)"

lemma registry_tool_named: "map_of (registry_of ts) n = tool_named ts n"
  unfolding map_of_registry tool_named_def by (induction ts rule: rev_induct) auto

definition called_tool :: "'w tool list \<Rightarrow> JsonRpcMessage \<Rightarrow> ('w tool \<times> json option) option" where
  "called_tool ts m = (case m of
     Request r \<Rightarrow> if req_method r = ''tools/call''
       then do { ps \<leftarrow> req_params r; p \<leftarrow> de_tool_call_params ps; t \<leftarrow> tool_named ts (tcp_name p);
                 Some (t, tcp_arguments p) }
       else None
   | _ \<Rightarrow> None)"

definition run_tools :: "('w tool \<times> json option) list \<Rightarrow> 'w \<Rightarrow> 'w" where
  "run_tools cs w = fold (\<lambda>(t, args) w. snd (tool_run t args w)) cs w"

text \<open>A tool's answer as the JSON of the protocol.\<close>

definition tool_answer :: "string \<Rightarrow> bool \<Rightarrow> (string \<times> json) list \<Rightarrow> json" where
  "tool_answer t err rest = json_obj ([(''content'', JArray [json_obj [(''type'', JString ''text''),
     (''text'', JString t)]]), (''isError'', JBool err)] @ rest)"

lemma into_value_answer:
  "into_value (call_success L v) = tool_answer (lib_pretty L v) False [(''structuredContent'', v)]"
  "into_value (call_error m) = tool_answer m True []"
  by (simp_all add: into_value_def call_success_def call_error_def tool_answer_def content_text_def
      ser_content_block_def skip_none_def)

lemma registry_call_named:
  "registry_call (registry_of ts) n args w = (case tool_named ts n of
     None \<Rightarrow> (Inl (UnknownTool n), w)
   | Some t \<Rightarrow> (map_err ToolFailed (fst (tool_run t args w)), snd (tool_run t args w)))"
  by (simp add: registry_call_def registry_tool_named pair_simps split: option.split)

lemma handle_runs_tool:
  assumes "ms_registry s = registry_of ts" "ms_initialized s"
  shows "ms_registry (snd (handle L m s)) = registry_of ts \<and> ms_initialized (snd (handle L m s))
    \<and> ms_world (snd (handle L m s)) = run_tools (case called_tool ts m of None \<Rightarrow> [] | Some c \<Rightarrow> [c]) (ms_world s)"
  using assms
  by (auto simp: handle_def called_tool_def run_tools_def handle_request_def dispatch_request_def
      handle_initialize_def handle_tools_call_def require_initialized_def from_value_def registry_call_named
      audit_record_def handle_notification_def pair_simps
      split: JsonRpcMessage.split option.splits Option.bind_splits sum.splits)

lemma serve_all_runs_tools:
  assumes "ms_registry s = registry_of ts" "ms_initialized s"
  shows "ms_world (snd (serve_all (handle L) ms s)) = run_tools (List.map_filter (called_tool ts) ms) (ms_world s)"
  using assms
proof (induction ms arbitrary: s)
  case (Cons m ms)
  note h = handle_runs_tool [OF Cons.prems, of L m]
  show ?case
    using Cons.IH [of "snd (handle L m s)"] h
    by (simp add: pair_simps run_tools_def List.map_filter_simps split: option.splits)
qed (simp add: run_tools_def List.map_filter_simps)

section \<open>Properties\<close>

text \<open>Every request gets exactly one reply, a success or error response that carries the
  request's id; a notification or a response gets none and changes nothing.\<close>

theorem handle_answers_requests:
  "case m of
     Request r \<Rightarrow> (\<exists>reply. fst (handle L m s) = Some reply \<and> is_response reply
                     \<and> message_id reply = Some (req_id r))
   | _ \<Rightarrow> handle L m s = (None, s)"
  using mcp.request_answered [of m L s] mcp.others_silent [of m L s]
  by (cases m) (auto simp: is_request_def message_id_def [of "Request _"])

text \<open>C6. Over any sequence of messages the replies answer the requests one for one, in order, and
  the audit log grows by exactly one event per request.\<close>

theorem session_answers_in_order:
  "let (replies, s') = serve_all (handle L) ms s; reqs = filter is_request ms
   in list_all2 (\<lambda>m r. message_id r = message_id m \<and> is_response r) reqs replies
      \<and> length (ms_audit s') = length (ms_audit s) + length reqs"
  using mcp.serve_all_answers [of ms L s] mcp.serve_all_logged [of L ms s]
  by (simp add: pair_simps)

text \<open>Before \<open>initialize\<close> the tool methods are closed: a \<open>tools/list\<close> or \<open>tools/call\<close> request is
  answered with invalid-request, no tool runs, and nothing but the audit log changes.\<close>

theorem uninitialized_session_is_closed:
  assumes "\<not> ms_initialized s" and "req_method r \<in> set tool_methods"
  shows "\<exists>e. handle L (Request r) s =
     (Some (ErrorResponse (error_response_new (Some (req_id r)) e)),
      s \<lparr> ms_audit := ms_audit s @ [\<lparr> ae_method = req_method r, ae_tool_name = None,
                                        ae_outcome = Error INVALID_REQUEST \<rparr>] \<rparr>)
     \<and> err_code e = INVALID_REQUEST"
  using assms
  by (auto simp: tool_methods_def handle_def handle_request_def dispatch_request_def
      handle_tools_list_def handle_tools_call_def require_initialized_def outcome_from_result_def
      audit_record_def invalid_request_def rpc_error_new_def)

theorem uninitialized_session_is_closed_witness:
  "\<exists>e. handle plain_lib (Request (request_new (Number 1) ''tools/call'' None))
       (session_new (registry_of [ping_tool]) ()) =
     (Some (ErrorResponse (error_response_new (Some (Number 1)) e)),
      (session_new (registry_of [ping_tool]) ()) \<lparr> ms_audit :=
         [\<lparr> ae_method = ''tools/call'', ae_tool_name = None, ae_outcome = Error INVALID_REQUEST \<rparr>] \<rparr>)
     \<and> err_code e = INVALID_REQUEST"
  using uninitialized_session_is_closed [of "session_new (registry_of [ping_tool]) ()"
      "request_new (Number 1) ''tools/call'' None" plain_lib]
  by (simp add: session_new_def tool_methods_def request_new_def)

text \<open>C5. Every tool is run once per call. Take an initialized session whose registry was filled with
  the tools \<open>ts\<close>. However many messages it serves, its world ends as running, in the order of
  the messages, the tool of each well-formed \<open>tools/call\<close> request once with that request's
  arguments leaves it: nothing else touches the world, no tool runs twice. One call is answered with the outcome of
  that run: a value as pretty text and as structured content; a tool's failure as a
  successful response with \<open>isError\<close> and the error's text; a name no tool has as
  method-not-found, with the world untouched. The audit log grows by one event, which holds the
  method, the name and the error code, and no argument or result.\<close>

theorem tools_call_runs_tool:
  assumes "ms_registry s = registry_of ts" and "ms_initialized s" and "req_method r = ''tools/call''"
    and "req_params r = Some ps" and "de_tool_call_params ps = Some p"
  shows "ms_world (snd (serve_all (handle L) ms s)) = run_tools (List.map_filter (called_tool ts) ms) (ms_world s)
    \<and> (let logged = (\<lambda>oc w. s \<lparr> ms_world := w, ms_audit := ms_audit s @ [\<lparr> ae_method = ''tools/call'',
             ae_tool_name = Some (tcp_name p), ae_outcome = oc \<rparr>] \<rparr>);
           answer = (\<lambda>v. Some (SuccessResponse (success_response_new (req_id r) v)))
       in handle L (Request r) s = (case tool_named ts (tcp_name p) of
            None \<Rightarrow> (Some (ErrorResponse (error_response_new (Some (req_id r))
                       (method_not_found (''no such tool: '' @ tcp_name p)))), logged (Error (-32601)) (ms_world s))
          | Some t \<Rightarrow> (case tool_run t (tcp_arguments p) (ms_world s) of
              (Inr v, w) \<Rightarrow> (answer (tool_answer (lib_pretty L v) False [(''structuredContent'', v)]), logged Ok w)
            | (Inl (InvalidArguments e), w) \<Rightarrow> (answer (tool_answer (''invalid arguments: '' @ e) True []),
                logged (Error (-32602)) w)
            | (Inl (Failed e), w) \<Rightarrow> (answer (tool_answer e True []), logged (Error (-32603)) w))))"
  using assms serve_all_runs_tools [OF assms(1,2)]
  by (auto simp: handle_def handle_request_def dispatch_request_def handle_tools_call_def require_initialized_def
      from_value_def map_call_result_def registry_call_named into_value_answer tool_error_text_def audit_record_def
      unknown_tool_text_def METHOD_NOT_FOUND_def INVALID_PARAMS_def INTERNAL_ERROR_def
      method_not_found_def rpc_error_new_def pair_simps
      split: sum.splits McpToolError.splits option.splits)

text \<open>A tool that counts its calls, called twice.\<close>

definition count_tool :: "nat tool" where
  "count_tool = \<lparr> tool_name = ''count'', tool_description = [], tool_schema = JNull,
     tool_run = (\<lambda>_ w. (Inr JNull, Suc w)) \<rparr>"

definition count_request :: JsonRpcRequest where
  "count_request = request_new (Number 1) ''tools/call'' (Some (JObject [(''name'', JString ''count'')]))"

theorem tools_call_runs_tool_witness:
  "let s = (session_new (registry_of [count_tool]) 0) \<lparr> ms_initialized := True \<rparr>
   in ms_world (snd (serve_all (handle plain_lib) [Request count_request, Request count_request] s)) = 2
     \<and> ms_audit (snd (handle plain_lib (Request count_request) s)) =
         [\<lparr> ae_method = ''tools/call'', ae_tool_name = Some ''count'', ae_outcome = Ok \<rparr>]"
  using tools_call_runs_tool [of "(session_new (registry_of [count_tool]) 0) \<lparr> ms_initialized := True \<rparr>"
      "[count_tool]" count_request "JObject [(''name'', JString ''count'')]"
      "\<lparr> tcp_name = ''count'', tcp_arguments = None \<rparr>" plain_lib "[Request count_request, Request count_request]"]
  by (simp add: session_new_def request_new_def count_request_def de_tool_call_params_def de_fields_def de_simps
      bt_get_def count_tool_def called_tool_def tool_named_def run_tools_def List.map_filter_simps Let_def del: serve_all.simps)

text \<open>\<open>tools/list\<close> is deterministic: the descriptors come out strictly sorted by name, and only
  the set of registered tools matters, not the order they were registered in.\<close>

lemma descriptors_sorted: "sorted_wrt (<) (map td_name (descriptors (registry_of ts)))"
  using distinct_descriptors [of ts]
  by (simp add: strict_sorted_iff descriptors_def)

text \<open>The listing depends only on the set of tools.\<close>

theorem descriptors_order_independent:
  assumes "set ts = set ts'" and "inj_on tool_name (set ts)"
  shows "descriptors (registry_of ts) = descriptors (registry_of ts')"
proof -
  have all: "set (map snd (registry_of us)) = set us" if inj: "inj_on tool_name (set us)" for us :: "'a tool list"
  proof -
    have "t \<in> snd ` set (registry_of us)" if t: "t \<in> set us" for t
    proof -
      have "tool_name t \<in> dom (map_of (registry_of us))"
        using t by (simp add: map_of_registry dom_map_of_conv_image_fst image_image)
      then obtain t' where "(tool_name t, t') \<in> set (registry_of us)"
        by (auto dest: map_of_SomeD)
      moreover from this have "t' = t"
        using registry_keys_are_names [of "tool_name t" t' us] t inj by (auto dest: inj_onD)
      ultimately show ?thesis by force
    qed
    then show ?thesis using registry_keys_are_names by force
  qed
  have img: "set (map (descriptor \<circ> snd) (registry_of us)) = descriptor ` set (map snd (registry_of us))"
    for us :: "'a tool list" by (simp add: image_comp)
  have "set (map (descriptor \<circ> snd) (registry_of ts)) = set (map (descriptor \<circ> snd) (registry_of ts'))"
    unfolding img using all [of ts] all [of ts'] assms by simp
  then show ?thesis
    unfolding descriptors_def
    by (rule sort_key_unique) (simp_all only: registry_descriptor_names registry_of_distinct)
qed

theorem descriptors_order_independent_witness:
  "descriptors (registry_of [ping_tool, echo_tool :: unit tool])
     = descriptors (registry_of [echo_tool, ping_tool :: unit tool])"
  by (rule descriptors_order_independent) (auto simp: ping_tool_def echo_tool_def)

end
