(* ===== verification/Stdio.thy ===== *)
theory Stdio
  imports Main Prelude Lib Jsonrpc McpServer
begin

text \<open>
  The crate \<open>transport-stdio\<close>: the line loop. The reader is the sequence of results its
  \<open>next_line\<close> calls return before end of file; the writer is a state with a write and a flush
  operation that may fail. \<open>line_handle\<close> is one turn of the loop up to its reply, and an instance of
  the interface \<open>message_server\<close>.
\<close>

section \<open>The loop\<close>

datatype read_event = Line string | ReadError

record 'o writer =
  wr_write_all :: "byte list \<Rightarrow> 'o \<Rightarrow> bool \<times> 'o"
  wr_flush :: "'o \<Rightarrow> bool \<times> 'o"

definition write_reply :: "lib \<Rightarrow> 'o writer \<Rightarrow> JsonRpcMessage \<Rightarrow> 'o \<Rightarrow> bool \<times> 'o" where
  "write_reply L W reply out =
     (case to_vec L (ser_message reply) of
        Inl _ \<Rightarrow> (True, out)
      | Inr bytes \<Rightarrow>
         (let (ok, out1) = wr_write_all W (bytes @ [0x0A]) out
          in if \<not> ok then (False, out1) else wr_flush W out1))"

text \<open>The reply to one line that is not blank.\<close>

definition line_reply :: "lib \<Rightarrow> string \<Rightarrow> 'w McpSession \<Rightarrow> JsonRpcMessage option \<times> 'w McpSession" where
  "line_reply L line s = (case decode_message L (as_bytes line) of
     Inr m \<Rightarrow> handle L m s
   | Inl e \<Rightarrow> (Some (ErrorResponse (error_response_new None e)), s))"

definition line_handle :: "lib \<Rightarrow> read_event \<Rightarrow> 'w McpSession \<Rightarrow> JsonRpcMessage option \<times> 'w McpSession" where
  "line_handle L ev s = (case ev of
     ReadError \<Rightarrow> (None, s)
   | Line line \<Rightarrow> if trim line = [] then (None, s) else line_reply L line s)"

fun run_stdio ::
  "lib \<Rightarrow> 'o writer \<Rightarrow> read_event list \<Rightarrow> 'w McpSession \<Rightarrow> 'o \<Rightarrow> bool \<times> 'w McpSession \<times> 'o" where
  "run_stdio L W [] s out = (True, s, out)"
| "run_stdio L W (ev # evs) s out =
     (let (reply, s1) = line_handle L ev s in
      case reply of
        None \<Rightarrow> run_stdio L W evs s1 out
      | Some r \<Rightarrow> (let (ok, out1) = write_reply L W r out
                    in if ok then run_stdio L W evs s1 out1 else (False, s1, out1)))"

section \<open>The loop as a message server\<close>

definition decoded :: "lib \<Rightarrow> read_event \<Rightarrow> JsonRpcMessage rpc option" where
  "decoded L ev = (case ev of
     ReadError \<Rightarrow> None
   | Line l \<Rightarrow> if trim l = [] then None else Some (decode_message L (as_bytes l)))"

definition line_wants_reply :: "lib \<Rightarrow> read_event \<Rightarrow> bool" where
  "line_wants_reply L ev = (case decoded L ev of
     None \<Rightarrow> False | Some (Inl _) \<Rightarrow> True | Some (Inr m) \<Rightarrow> is_request m)"

definition line_answered :: "lib \<Rightarrow> read_event \<Rightarrow> JsonRpcMessage \<Rightarrow> bool" where
  "line_answered L ev r = (case decoded L ev of
     None \<Rightarrow> False
   | Some (Inl e) \<Rightarrow> r = ErrorResponse (error_response_new None e)
   | Some (Inr m) \<Rightarrow> message_id r = message_id m \<and> is_response r)"

lemma line_handle_decoded:
  "line_handle L ev s = (case decoded L ev of
     None \<Rightarrow> (None, s)
   | Some (Inl e) \<Rightarrow> (Some (ErrorResponse (error_response_new None e)), s)
   | Some (Inr m) \<Rightarrow> handle L m s)"
  by (auto simp: line_handle_def decoded_def line_reply_def split: read_event.splits sum.splits)

interpretation stdio: message_server "line_handle L" "line_wants_reply L" "line_answered L" for L :: lib
proof
  fix ev and s :: "'a McpSession"
  show "line_wants_reply L ev \<Longrightarrow> \<exists>r. fst (line_handle L ev s) = Some r \<and> line_answered L ev r"
    using mcp.request_answered [of _ L s]
    by (auto simp: line_wants_reply_def line_answered_def line_handle_decoded
        split: option.splits sum.splits)
  show "\<not> line_wants_reply L ev \<Longrightarrow> line_handle L ev s = (None, s)"
    using mcp.others_silent [of _ L s]
    by (auto simp: line_wants_reply_def line_handle_decoded split: option.splits sum.splits)
qed

section \<open>Writing to memory\<close>

text \<open>A writer that never fails and appends what it gets.\<close>

definition memory_writer :: "byte list writer" where
  "memory_writer = \<lparr> wr_write_all = (\<lambda>bs out. (True, out @ bs)), wr_flush = (\<lambda>out. (True, out)) \<rparr>"

definition frame :: "lib \<Rightarrow> JsonRpcMessage \<Rightarrow> byte list" where
  "frame L r = as_bytes (lib_render L (ser_message r)) @ [0x0A]"

lemma run_stdio_memory:
  "run_stdio L memory_writer evs s out =
     (let (rs, s') = serve_all (line_handle L) evs s in (True, s', out @ concat (map (frame L) rs)))"
  by (induction evs arbitrary: s out)
     (auto simp: pair_simps memory_writer_def write_reply_def frame_def split: option.splits)

text \<open>The messages the lines hold.\<close>

definition decoded_messages :: "lib \<Rightarrow> read_event list \<Rightarrow> JsonRpcMessage list" where
  "decoded_messages L evs = concat (map (\<lambda>ev. case decoded L ev of
     Some (Inr m) \<Rightarrow> [m] | _ \<Rightarrow> []) evs)"

lemma serve_lines_session:
  "snd (serve_all (line_handle L) evs s) = snd (serve_all (handle L) (decoded_messages L evs) s)"
  by (induction evs arbitrary: s)
     (auto simp: decoded_messages_def line_handle_decoded pair_simps split: option.splits sum.splits)

section \<open>Properties\<close>

text \<open>C38. No input stops the loop: whatever the lines hold, with a writer that accepts the replies it
  runs to end of file, and the replies written are, in order, one for each line that holds a request
  or does not decode and none for any other; a line that does not decode is answered with the
  decoder's error under a null id, and the session ends as if only the messages that decode had
  arrived.\<close>

theorem stdio_answers_every_line:
  "\<exists>replies. run_stdio L memory_writer evs s out =
       (True, snd (serve_all (handle L) (decoded_messages L evs) s), out @ concat (map (frame L) replies))
     \<and> list_all2 (line_answered L) (filter (line_wants_reply L) evs) replies"
  using stdio.serve_all_answers [of L evs s]
  by (auto simp: run_stdio_memory serve_lines_session pair_simps)

text \<open>A reply to a line that parses but is not a message has a null id even where the line has
  an id the server could use: an object with version 2.0, a well-formed id and a method that is not a
  string is answered under the null id.\<close>

theorem undecodable_line_loses_id:
  assumes "\<not> exceeds_max_nesting (as_bytes line) MAX_JSON_NESTING_DEPTH"
    and "lib_parse L (as_bytes line) = Inr (JObject obj)"
    and "bt_get obj ''jsonrpc'' = Some (JString JSONRPC_VERSION)"
    and "bt_get obj ''id'' = Some i" and "parse_id i \<noteq> None"
    and "bt_get obj ''method'' = Some v" and "json_as_str v = None"
  shows \<open>line_reply L line s = (Some (ErrorResponse (error_response_new None
     (invalid_request ''"method" must be a string''))), s)\<close>
  using assms
  by (cases v) (simp_all add: line_reply_def decode_message_def decode_value_def json_as_str_def
      decode_request_or_notification_def)

definition method_not_string :: "(string, json) btree" where
  "method_not_string = [(''id'', json_nat 7), (''jsonrpc'', JString ''2.0''), (''method'', json_nat 5)]"

theorem undecodable_line_loses_id_witness:
  \<open>line_reply (plain_lib \<lparr> lib_parse := \<lambda>_. Inr (JObject method_not_string) \<rparr>) ''x''
       (session_new registry_empty ())
     = (Some (ErrorResponse (error_response_new None
          (invalid_request ''"method" must be a string''))), session_new registry_empty ())\<close>
proof (rule undecodable_line_loses_id)
  show "bt_get method_not_string ''id'' = Some (json_nat 7)"
    "bt_get method_not_string ''method'' = Some (json_nat 5)"
    "bt_get method_not_string ''jsonrpc'' = Some (JString JSONRPC_VERSION)"
    by (simp_all add: method_not_string_def bt_get_def JSONRPC_VERSION_def)
  show "parse_id (json_nat 7) \<noteq> None" "json_as_str (json_nat 5) = None"
    by (simp_all add: parse_id_def json_nat_def json_as_str_def de_i64_def)
  show "\<not> exceeds_max_nesting (as_bytes ''x'') MAX_JSON_NESTING_DEPTH"
    by (simp add: exceeds_max_nesting_def as_bytes_def MAX_JSON_NESTING_DEPTH_def char_code_def)
qed simp

text \<open>A reader whose errors last is never given up: after any number of them the loop reads on.\<close>

theorem read_errors_never_end:
  "run_stdio L W (replicate n ReadError @ evs) s out = run_stdio L W evs s out"
  by (induction n) (simp_all add: line_handle_def)

end
