(* ===== verification/Http.thy ===== *)
theory Http
  imports Main Prelude Lib Sse Jsonrpc McpServer
begin

text \<open>
  The crate \<open>transport-http\<close>: rate limit, bearer check, the handler of \<open>POST /mcp\<close> and the demo
  stream. axum, \<open>http\<close> and \<open>governor\<close> are third-party: the header conversion, the keyed limiter and
  the body extractor are the fields of \<open>http_env\<close>; the composition of the layers is the router's
  (a layer runs before the routes it wraps, a path without a route is 404, a method without a
  handler 405, a GET handler also answers HEAD, without its body). Headers that axum adds by itself
  are left out.
\<close>

section \<open>Requests and responses\<close>

text \<open>A request as the router sees it: the values of the first Authorization header and the body the
  \<open>Bytes\<close> extractor yields, or the status of its refusal.\<close>

record 'ip http_request =
  hr_client :: 'ip
  hr_path :: string
  hr_method :: string
  hr_authorization :: "byte list option"
  hr_body :: "nat + byte list"

record http_response =
  rs_status :: nat
  rs_headers :: "(string \<times> string) list"
  rs_body :: "byte list"

record ('lim, 'ip) http_env =
  he_to_str :: "byte list \<Rightarrow> string option"
  he_keyed :: "nat \<Rightarrow> 'lim"
  he_check_key :: "'lim \<Rightarrow> 'ip \<Rightarrow> bool \<times> 'lim"

record HttpTransportConfig =
  hc_bind_addr :: string
  hc_bearer_token :: string
  hc_rate_limit_per_minute :: nat

text \<open>The hand-written \<open>Debug\<close>; the address is taken in its display form.\<close>

definition debug_http_config :: "HttpTransportConfig \<Rightarrow> string" where
  "debug_http_config c = ''HttpTransportConfig { bind_addr: '' @ hc_bind_addr c @ '', bearer_token: '' @ [DQUOTE]
     @ ''<redacted>'' @ [DQUOTE] @ '', rate_limit_per_minute: '' @ show_nat (hc_rate_limit_per_minute c) @ '' }''"

record ('w, 'lim) AppState =
  as_session :: "'w McpSession"
  as_bearer_token :: string
  as_limiter :: 'lim

definition plain_response :: "nat \<Rightarrow> string \<Rightarrow> http_response" where
  "plain_response st body = \<lparr> rs_status = st, rs_headers = [], rs_body = as_bytes body \<rparr>"

section \<open>Authentication\<close>

definition BEARER_PREFIX :: string where
  "BEARER_PREFIX = ''Bearer ''"

definition extract_bearer_token :: "('lim, 'ip) http_env \<Rightarrow> byte list option \<Rightarrow> string option" where
  "extract_bearer_token E auth = (case auth of
     None \<Rightarrow> None
   | Some raw \<Rightarrow> (case he_to_str E raw of None \<Rightarrow> None | Some s \<Rightarrow> strip_prefix BEARER_PREFIX s))"

text \<open>The constant-time comparison of the bytes.\<close>

definition tokens_match :: "string \<Rightarrow> string \<Rightarrow> bool" where
  "tokens_match provided expected \<longleftrightarrow> as_bytes provided = as_bytes expected"

type_synonym ('w, 'lim, 'ip) service =
  "'ip http_request \<Rightarrow> ('w, 'lim) AppState \<Rightarrow> http_response \<times> ('w, 'lim) AppState"

definition require_bearer_token ::
  "('lim, 'ip) http_env \<Rightarrow> ('w, 'lim, 'ip) service \<Rightarrow> ('w, 'lim, 'ip) service" where
  "require_bearer_token E nxt req st = (case extract_bearer_token E (hr_authorization req) of
     Some token \<Rightarrow> if tokens_match token (as_bearer_token st) then nxt req st
                    else (plain_response 401 ''unauthorized'', st)
   | None \<Rightarrow> (plain_response 401 ''unauthorized'', st))"

section \<open>Rate limit\<close>

definition build_limiter :: "('lim, 'ip) http_env \<Rightarrow> nat \<Rightarrow> 'lim" where
  "build_limiter E requests_per_minute =
     (let burst = (if requests_per_minute = 0 then 1 else requests_per_minute) in he_keyed E burst)"

definition enforce_rate_limit ::
  "('lim, 'ip) http_env \<Rightarrow> ('w, 'lim, 'ip) service \<Rightarrow> ('w, 'lim, 'ip) service" where
  "enforce_rate_limit E nxt req st =
     (let (ok, lim) = he_check_key E (as_limiter st) (hr_client req);
          st1 = st \<lparr> as_limiter := lim \<rparr>
      in if ok then nxt req st1 else (plain_response 429 ''rate limit exceeded'', st1))"

section \<open>The endpoint\<close>

definition json_response :: "lib \<Rightarrow> nat \<Rightarrow> json \<Rightarrow> http_response" where
  "json_response L status body = (case to_vec L body of
     Inr bytes \<Rightarrow> \<lparr> rs_status = status, rs_headers = [(''content-type'', ''application/json'')], rs_body = bytes \<rparr>
   | Inl _ \<Rightarrow> plain_response 500 [])"

definition handle_mcp :: "lib \<Rightarrow> byte list \<Rightarrow> ('w, 'lim) AppState \<Rightarrow> http_response \<times> ('w, 'lim) AppState" where
  "handle_mcp L body st = (case decode_message L body of
     Inr message \<Rightarrow>
       (let (reply, s) = handle L message (as_session st); st1 = st \<lparr> as_session := s \<rparr>
        in case reply of
             Some r \<Rightarrow> (json_response L 200 (ser_message r), st1)
           | None \<Rightarrow> (plain_response 202 [], st1))
   | Inl e \<Rightarrow> (json_response L 200 (ser_error_response (error_response_new None e)), st))"

section \<open>The demo stream\<close>

definition DEMO_EVENT_COUNT :: nat where
  "DEMO_EVENT_COUNT = 5"

record DemoPingStream =
  dps_remaining :: nat
  dps_sequence :: nat

definition demo_new :: "nat \<Rightarrow> DemoPingStream" where
  "demo_new n = \<lparr> dps_remaining = n, dps_sequence = 0 \<rparr>"

datatype 'a poll = Pending | Ready 'a

definition demo_event :: "nat \<Rightarrow> SseEvent" where
  \<open>demo_event n = \<lparr> sse_event = Some ''ping'', sse_data = ''{"seq":'' @ show_nat n @ ''}'',
     sse_id = Some (show_nat n) \<rparr>\<close>

text \<open>One poll; the argument says whether the interval's tick is ready.\<close>

definition poll_next :: "bool \<Rightarrow> DemoPingStream \<Rightarrow> string option poll \<times> DemoPingStream" where
  "poll_next tick d =
     (if dps_remaining d = 0 then (Ready None, d)
      else if \<not> tick then (Pending, d)
      else let d1 = d \<lparr> dps_remaining := dps_remaining d - 1, dps_sequence := dps_sequence d + 1 \<rparr>
           in (Ready (Some (encode_sse_event (demo_event (dps_sequence d1)))), d1))"

text \<open>The chunks a consumer that polls until the end sees; a pending poll is retried, so only the
  ready ones count.\<close>

function demo_chunks :: "DemoPingStream \<Rightarrow> string list" where
  "demo_chunks d = (case poll_next True d of
     (Ready (Some c), d1) \<Rightarrow> c # demo_chunks d1 | _ \<Rightarrow> [])"
  by pat_completeness auto
termination
  by (relation "measure dps_remaining") (auto simp: poll_next_def Let_def split: if_splits)

declare demo_chunks.simps [simp del]

definition stream_demo :: http_response where
  "stream_demo = \<lparr> rs_status = 200,
     rs_headers = [(''content-type'', ''text/event-stream''), (''cache-control'', ''no-cache'')],
     rs_body = as_bytes (concat (demo_chunks (demo_new DEMO_EVENT_COUNT))) \<rparr>"

section \<open>The router\<close>

definition build_state :: "('lim, 'ip) http_env \<Rightarrow> 'w McpSession \<Rightarrow> HttpTransportConfig \<Rightarrow> ('w, 'lim) AppState" where
  "build_state E session config = \<lparr> as_session = session,
     as_bearer_token = hc_bearer_token config,
     as_limiter = build_limiter E (hc_rate_limit_per_minute config) \<rparr>"

definition mcp_service :: "lib \<Rightarrow> ('w, 'lim, 'ip) service" where
  "mcp_service L req st =
     (if hr_method req \<noteq> ''POST'' then (plain_response 405 [], st)
      else case hr_body req of
             Inl status \<Rightarrow> (plain_response status [], st)
           | Inr body \<Rightarrow> handle_mcp L body st)"

definition route :: "lib \<Rightarrow> ('lim, 'ip) http_env \<Rightarrow> ('w, 'lim, 'ip) service" where
  "route L E req st =
     (if hr_path req = ''/mcp'' then require_bearer_token E (mcp_service L) req st
      else if hr_path req = ''/mcp/stream'' then
        (if hr_method req = ''GET'' then (stream_demo, st)
         else if hr_method req = ''HEAD'' then (stream_demo \<lparr> rs_body := [] \<rparr>, st)
         else (plain_response 405 [], st))
      else (plain_response 404 [], st))"

definition router :: "lib \<Rightarrow> ('lim, 'ip) http_env \<Rightarrow> ('w, 'lim, 'ip) service" where
  "router L E = enforce_rate_limit E (route L E)"

datatype HttpTransportError = Bind string string | Serve string

text \<open>\<open>run_http\<close>: binding may fail, and the accept loop only ends with an error or by itself.\<close>

definition run_http ::
  "('lim, 'ip) http_env \<Rightarrow> 'w McpSession \<Rightarrow> HttpTransportConfig \<Rightarrow> string option \<Rightarrow> string option
   \<Rightarrow> HttpTransportError + ('w, 'lim) AppState" where
  "run_http E session config bind_err serve_err = (case bind_err of
     Some e \<Rightarrow> Inl (Bind (hc_bind_addr config) e)
   | None \<Rightarrow> (case serve_err of
       Some e \<Rightarrow> Inl (Serve e) | None \<Rightarrow> Inr (build_state E session config)))"

section \<open>Serving requests\<close>

fun serve_http :: "lib \<Rightarrow> ('lim, 'ip) http_env \<Rightarrow> 'ip http_request list \<Rightarrow> ('w, 'lim) AppState
    \<Rightarrow> http_response list \<times> ('w, 'lim) AppState" where
  "serve_http L E [] st = ([], st)"
| "serve_http L E (r # rs) st =
     (let (x, st1) = router L E r st; (xs, st2) = serve_http L E rs st1 in (x # xs, st2))"

text \<open>The right to reach the session: the limiter lets the client through and the token matches.\<close>

definition authorized :: "('lim, 'ip) http_env \<Rightarrow> 'ip http_request \<Rightarrow> ('w, 'lim) AppState \<Rightarrow> bool" where
  "authorized E req st \<longleftrightarrow> fst (he_check_key E (as_limiter st) (hr_client req))
     \<and> extract_bearer_token E (hr_authorization req) = Some (as_bearer_token st)"

lemma tokens_match_iff [simp]: "tokens_match a b \<longleftrightarrow> a = b"
proof
  assume "tokens_match a b"
  then have "from_bytes (as_bytes a) = from_bytes (as_bytes b)" by (simp add: tokens_match_def)
  then show "a = b" by simp
qed (simp add: tokens_match_def)

lemma router_unauthorized:
  "\<not> authorized E req st \<Longrightarrow> as_session (snd (router L E req st)) = as_session st
     \<and> as_bearer_token (snd (router L E req st)) = as_bearer_token st"
  by (auto simp: router_def enforce_rate_limit_def route_def require_bearer_token_def authorized_def
      pair_simps split: option.splits)

lemma router_keeps_token: "as_bearer_token (snd (router L E req st)) = as_bearer_token st"
  by (auto simp: router_def enforce_rate_limit_def route_def require_bearer_token_def
      mcp_service_def handle_mcp_def pair_simps split: option.splits sum.splits)

lemma demo_chunks_unfold:
  "demo_chunks \<lparr> dps_remaining = n, dps_sequence = k \<rparr> =
     map (\<lambda>i. encode_sse_event (demo_event i)) [Suc k..<Suc (k + n)]"
proof (induction n arbitrary: k)
  case 0
  then show ?case by (subst demo_chunks.simps) (simp add: poll_next_def)
next
  case (Suc n)
  have "[Suc k..<Suc (k + Suc n)] = Suc k # [Suc (Suc k)..<Suc (Suc k + n)]"
    by (simp add: upt_conv_Cons)
  then show ?case by (subst demo_chunks.simps) (simp add: poll_next_def Suc Let_def)
qed

lemma show_nat_no_eol: "LF \<notin> set (show_nat n)" "CR \<notin> set (show_nat n)"
  using show_nat_digits [of _ n] by (force simp: is_ascii_digit_def char_code_def)+

lemma demo_event_clean: "wire_norm (demo_event n) = demo_event n"
proof -
  have lf: "LF \<notin> set (sse_data (demo_event n))" and cr: "CR \<notin> set (sse_data (demo_event n))"
    by (simp_all add: demo_event_def show_nat_no_eol)
  have "first_line (show_nat n) = show_nat n"
    using show_nat_no_eol [of n] by (auto simp: first_line_def is_eol_def takeWhile_eq_all_conv)
  then show ?thesis
    using lf cr by (simp add: wire_norm_def split_on_plain chomp_cr_id)
      (simp add: demo_event_def first_line_def is_eol_def)
qed

section \<open>Properties\<close>

text \<open>C37. Nothing reaches the session without the token. A request whose client is over its limit or
  whose bearer token is not exactly the configured one leaves the session and the configured token
  untouched, whatever its path, method and body. Over the limit it is answered 429 on every path.
  Within the limit and without the token only \<open>/mcp\<close> refuses it, with 401: the demo stream at
  \<open>/mcp/stream\<close> asks for no token and answers a GET with its five events, which are the same for every
  session; any other path is 404. Neither the answer nor the state left depends on the session or
  the body.\<close>

theorem http_unauthorized_never_reaches_session:
  assumes "\<not> authorized E req st"
  shows "router L E req st =
     (if \<not> fst (he_check_key E (as_limiter st) (hr_client req)) then plain_response 429 ''rate limit exceeded''
      else if hr_path req = ''/mcp'' then plain_response 401 ''unauthorized''
      else if hr_path req \<noteq> ''/mcp/stream'' then plain_response 404 []
      else if hr_method req = ''GET'' then stream_demo
      else if hr_method req = ''HEAD'' then stream_demo \<lparr> rs_body := [] \<rparr>
      else plain_response 405 [],
      st \<lparr> as_limiter := snd (he_check_key E (as_limiter st) (hr_client req)) \<rparr>)"
  using assms
  by (auto simp: router_def enforce_rate_limit_def route_def require_bearer_token_def authorized_def
      pair_simps split: option.splits)

definition open_env :: "(unit, nat) http_env" where
  "open_env = \<lparr> he_to_str = (\<lambda>b. Some (from_bytes b)), he_keyed = (\<lambda>_. ()),
     he_check_key = (\<lambda>l _. (True, l)) \<rparr>"

theorem http_unauthorized_never_reaches_session_witness:
  "let st = build_state open_env (session_new registry_empty ())
         \<lparr> hc_bind_addr = ''127.0.0.1:1'', hc_bearer_token = ''secret'', hc_rate_limit_per_minute = 9 \<rparr>;
       req = \<lparr> hr_client = 1, hr_path = ''/mcp'', hr_method = ''POST'',
         hr_authorization = Some (as_bytes ''Bearer guess''), hr_body = Inr [] \<rparr>
   in router plain_lib open_env req st = (plain_response 401 ''unauthorized'', st)"
  using http_unauthorized_never_reaches_session [of open_env
      "\<lparr> hr_client = 1, hr_path = ''/mcp'', hr_method = ''POST'',
         hr_authorization = Some (as_bytes ''Bearer guess''), hr_body = Inr [] \<rparr>"
      "build_state open_env (session_new registry_empty ())
         \<lparr> hc_bind_addr = ''127.0.0.1:1'', hc_bearer_token = ''secret'', hc_rate_limit_per_minute = 9 \<rparr>"
      plain_lib]
  by (simp add: authorized_def open_env_def extract_bearer_token_def strip_prefix_def BEARER_PREFIX_def
      build_state_def build_limiter_def)

text \<open>The demo endpoint's body, fed to the decoder in any cut, is the five \<open>ping\<close> events numbered
  1 to 5: the frames the transport writes are frames the wire crate reads.\<close>

theorem demo_stream_decodes:
  assumes "concat (c # cs) = from_bytes (rs_body stream_demo)"
  shows "feed_all (c # cs) decoder_new = (map demo_event [1..<6], decoder_new)"
proof -
  have "concat (c # cs) = concat (map encode_sse_event (map demo_event [1..<6]))"
    using assms unfolding stream_demo_def demo_new_def DEMO_EVENT_COUNT_def
    by (simp add: demo_chunks_unfold comp_def numeral_eq_Suc)
  from feed_all_encoded [OF this] show ?thesis by (simp add: demo_event_clean comp_def)
qed

theorem demo_stream_decodes_witness:
  "feed_all [from_bytes (rs_body stream_demo)] decoder_new = (map demo_event [1..<6], decoder_new)"
  by (rule demo_stream_decodes) simp

text \<open>The debug output does not depend on the token.\<close>

lemma debug_hides_token: "debug_http_config (c \<lparr> hc_bearer_token := t \<rparr>) = debug_http_config c"
  by (simp add: debug_http_config_def)

text \<open>A configured limit of 0 is the limit 1, never a panic or no limit; any other is kept.\<close>

theorem rate_limit_clamped:
  "as_limiter (build_state E s c) = he_keyed E (max 1 (hc_rate_limit_per_minute c))"
  by (simp add: build_state_def build_limiter_def)

end
