(* ===== verification/Secrets.thy ===== *)
theory Secrets
  imports Main Prelude Lib Codec
begin

text \<open>
  The crate \<open>secrets\<close>: the master key, the encrypted file store and the trait \<open>SecretStore\<close> as the
  locale \<open>secret_store\<close>, interpreted on the file store. A file is its content; writing it goes
  through the temporary file and the rename step by step, and every step may fail.
\<close>

section \<open>Errors\<close>

datatype SecretError =
    Io string
  | MissingMasterKey
  | InvalidMasterKey string
  | EmptyKey
  | EncryptionFailed string
  | DecryptionFailed string
  | Corrupted string

definition MASTER_KEY_ENV_VAR :: string where
  "MASTER_KEY_ENV_VAR = ''DB_HEADLESS_MASTER_KEY''"

definition secret_error_text :: "SecretError \<Rightarrow> string" where
  "secret_error_text e = (case e of
     Io m \<Rightarrow> ''secret store I/O failure: '' @ m
   | MissingMasterKey \<Rightarrow> ''missing master key: set the '' @ MASTER_KEY_ENV_VAR
       @ '' environment variable to 64 hex characters (32 bytes)''
   | InvalidMasterKey r \<Rightarrow> ''invalid master key: '' @ r
   | EmptyKey \<Rightarrow> ''secret key must not be empty''
   | EncryptionFailed k \<Rightarrow> ''encryption failed for key '' @ [SQUOTE] @ k @ [SQUOTE]
   | DecryptionFailed k \<Rightarrow> ''decryption failed for key '' @ [SQUOTE] @ k @ [SQUOTE]
   | Corrupted r \<Rightarrow> ''secret store file is corrupted: '' @ r)"

section \<open>The master key\<close>

definition KEY_LEN_BYTES :: nat where
  "KEY_LEN_BYTES = 32"

definition master_key_from_hex :: "lib \<Rightarrow> string \<Rightarrow> SecretError + byte list" where
  "master_key_from_hex L hex_str =
     res_bind (ok_or (InvalidMasterKey ''master key must be valid hex'') (lib_hex_decode L (trim hex_str)))
       (\<lambda>decoded. if length decoded = KEY_LEN_BYTES then Inr decoded
          else Inl (InvalidMasterKey (''master key must decode to '' @ show_nat KEY_LEN_BYTES
                 @ '' bytes, got '' @ show_nat (length decoded))))"

text \<open>An environment variable is unset, not Unicode, or a string.\<close>

datatype env_var = Unset | NotUnicode | EnvValue string

definition master_key_from_env :: "lib \<Rightarrow> env_var \<Rightarrow> SecretError + byte list" where
  "master_key_from_env L var = (case var of
     EnvValue raw \<Rightarrow> master_key_from_hex L raw | _ \<Rightarrow> Inl MissingMasterKey)"

section \<open>Writing a file\<close>

text \<open>
  A file is the content a reader sees, whether all of it is on the disk, and its mode (None: the one
  it was created with). The directory has the target and the temporary file next to it; it is
  never synced, so the entries a rename replaced (\<open>fs_stale\<close>) may come back in a crash.
\<close>

record disk_file =
  fi_data :: "byte list"
  fi_synced :: bool
  fi_mode :: "nat option"

record filesys =
  fs_target :: "disk_file option"
  fs_temp :: "disk_file option"
  fs_stale :: "disk_file option list"

definition fl_target :: "filesys \<Rightarrow> byte list option" where
  "fl_target f = map_option fi_data (fs_target f)"

definition no_file :: filesys where
  "no_file = \<lparr> fs_target = None, fs_temp = None, fs_stale = [] \<rparr>"

lemma fl_target_no_file [simp]: "fl_target no_file = None"
  by (simp add: fl_target_def no_file_def)

text \<open>What the target may hold after a crash: a content that was not synced may have become anything.\<close>

fun entry_after_crash :: "disk_file option \<Rightarrow> byte list option \<Rightarrow> bool" where
  "entry_after_crash None c = (c = None)"
| "entry_after_crash (Some fi) c = (case c of None \<Rightarrow> False | Some bs \<Rightarrow> \<not> fi_synced fi \<or> bs = fi_data fi)"

definition after_crash :: "filesys \<Rightarrow> byte list option \<Rightarrow> bool" where
  "after_crash f c \<longleftrightarrow> list_ex (\<lambda>t. entry_after_crash t c) (fs_target f # fs_stale f)"

datatype write_step = CreateDir | NewTemp | WriteAll | SyncAll | SetPermissions | Persist

definition write_plan :: "write_step list" where
  "write_plan = [CreateDir, NewTemp, WriteAll, SyncAll, SetPermissions, Persist]"

definition OWNER_ONLY :: nat where
  "OWNER_ONLY = 384"

definition on_temp :: "(disk_file \<Rightarrow> disk_file) \<Rightarrow> filesys \<Rightarrow> filesys" where
  "on_temp g f = f \<lparr> fs_temp := map_option g (fs_temp f) \<rparr>"

text \<open>The states of the files during a step, the last one being its effect. \<open>write_all\<close> hands the
  bytes over piece by piece, so any part of them may have been written; the mode 0o600 is 384.\<close>

definition write_step_states :: "byte list \<Rightarrow> write_step \<Rightarrow> filesys \<Rightarrow> filesys list" where
  "write_step_states contents st f = (case st of
     CreateDir \<Rightarrow> [f]
   | NewTemp \<Rightarrow> [f \<lparr> fs_temp := Some \<lparr> fi_data = [], fi_synced = False, fi_mode = None \<rparr> \<rparr>]
   | WriteAll \<Rightarrow> map (\<lambda>k. on_temp (\<lambda>t. t \<lparr> fi_data := fi_data t @ take k contents, fi_synced := False \<rparr>) f)
       [0..<Suc (length contents)]
   | SyncAll \<Rightarrow> [on_temp (\<lambda>t. t \<lparr> fi_synced := True \<rparr>) f]
   | SetPermissions \<Rightarrow> [on_temp (\<lambda>t. t \<lparr> fi_mode := Some OWNER_ONLY \<rparr>) f]
   | Persist \<Rightarrow> (case fs_temp f of
       None \<Rightarrow> [f]
     | Some t \<Rightarrow> [f \<lparr> fs_target := Some t, fs_temp := None, fs_stale := fs_target f # fs_stale f \<rparr>]))"

definition write_step_effect :: "byte list \<Rightarrow> write_step \<Rightarrow> filesys \<Rightarrow> filesys" where
  "write_step_effect contents st f = last (write_step_states contents st f)"

text \<open>Which step fails, with the error's text; a failure drops the temporary file.\<close>

type_synonym faults = "write_step \<Rightarrow> string option"

definition drop_temp :: "filesys \<Rightarrow> filesys" where
  "drop_temp f = f \<lparr> fs_temp := None \<rparr>"

fun run_write :: "faults \<Rightarrow> byte list \<Rightarrow> write_step list \<Rightarrow> filesys \<Rightarrow> (string + unit) \<times> filesys" where
  "run_write F contents [] f = (Inr (), f)"
| "run_write F contents (st # sts) f = (case F st of
     Some e \<Rightarrow> (Inl e, drop_temp f)
   | None \<Rightarrow> run_write F contents sts (write_step_effect contents st f))"

text \<open>Every state the files are in while \<open>run_write\<close> runs, which are the ones a crash may find: a step
  that fails may have got anywhere short of its end.\<close>

fun write_trace :: "faults \<Rightarrow> byte list \<Rightarrow> write_step list \<Rightarrow> filesys \<Rightarrow> filesys list" where
  "write_trace F contents [] f = [f]"
| "write_trace F contents (st # sts) f = f # (case F st of
     Some e \<Rightarrow> butlast (write_step_states contents st f) @ [drop_temp f]
   | None \<Rightarrow> write_step_states contents st f @ write_trace F contents sts (write_step_effect contents st f))"

lemma write_step_effects [simp]:
  "write_step_effect c CreateDir f = f"
  "write_step_effect c NewTemp f = f \<lparr> fs_temp := Some \<lparr> fi_data = [], fi_synced = False, fi_mode = None \<rparr> \<rparr>"
  "write_step_effect c WriteAll f = on_temp (\<lambda>t. t \<lparr> fi_data := fi_data t @ c, fi_synced := False \<rparr>) f"
  "write_step_effect c SyncAll f = on_temp (\<lambda>t. t \<lparr> fi_synced := True \<rparr>) f"
  "write_step_effect c SetPermissions f = on_temp (\<lambda>t. t \<lparr> fi_mode := Some OWNER_ONLY \<rparr>) f"
  "write_step_effect c Persist f = (case fs_temp f of None \<Rightarrow> f
     | Some t \<Rightarrow> f \<lparr> fs_target := Some t, fs_temp := None, fs_stale := fs_target f # fs_stale f \<rparr>)"
  by (simp_all add: write_step_effect_def write_step_states_def split: option.splits)

text \<open>The trace ends where the run ends.\<close>

lemma write_trace_last: "last (write_trace F c sts f) = snd (run_write F c sts f)"
proof (induction sts arbitrary: f)
  case (Cons st sts)
  have ne: "write_trace F c sts g \<noteq> []" for g by (cases sts) auto
  show ?case using Cons ne by (simp split: option.splits)
qed simp

definition write_atomic :: "faults \<Rightarrow> byte list \<Rightarrow> filesys \<Rightarrow> (SecretError + unit) \<times> filesys" where
  "write_atomic F contents f =
     (let (r, f') = run_write F contents write_plan f in (map_err Io r, f'))"

lemma run_write_target:
  "fl_target (snd (run_write F c write_plan f)) =
     (if fst (run_write F c write_plan f) = Inr () then Some c else fl_target f)"
  by (simp add: write_plan_def fl_target_def on_temp_def drop_temp_def split: option.splits)

text \<open>What a write that succeeds leaves: the complete file, on the disk and for its owner only.\<close>

lemma run_write_done:
  "fst (run_write F c write_plan f) = Inr () \<Longrightarrow> snd (run_write F c write_plan f) =
     f \<lparr> fs_target := Some \<lparr> fi_data = c, fi_synced = True, fi_mode = Some OWNER_ONLY \<rparr>, fs_temp := None,
        fs_stale := fs_target f # fs_stale f \<rparr>"
  by (simp add: write_plan_def on_temp_def split: option.splits)

lemma run_write_failed:
  "fst (run_write F c write_plan f) \<noteq> Inr () \<Longrightarrow> fs_target (snd (run_write F c write_plan f)) = fs_target f
     \<and> fs_temp (snd (run_write F c write_plan f)) = None"
  by (simp add: write_plan_def on_temp_def drop_temp_def split: option.splits)

lemma run_write_ok:
  "(\<And>st. F st = None) \<Longrightarrow> fst (run_write F c write_plan f) = Inr ()"
  by (simp add: write_plan_def)

lemma write_atomic_result:
  "write_atomic F c f = (r, f') \<Longrightarrow> fl_target f' = (if r = Inr () then Some c else fl_target f)"
proof -
  assume a: "write_atomic F c f = (r, f')"
  obtain r0 f0 where r0: "run_write F c write_plan f = (r0, f0)" by fastforce
  then have "f' = f0" "r = map_err Io r0" using a by (simp_all add: write_atomic_def)
  then show ?thesis using run_write_target [of F c f] r0 by (cases r0) auto
qed

section \<open>The encrypted file store\<close>

definition NONCE_LEN_BYTES :: nat where
  "NONCE_LEN_BYTES = 12"

record StoredSecret =
  st_nonce :: string
  st_ciphertext :: string

definition ser_stored_secret :: "StoredSecret \<Rightarrow> json" where
  "ser_stored_secret s = JObject [(''nonce'', JString (st_nonce s)),
     (''ciphertext'', JString (st_ciphertext s))]"

definition de_stored_secret :: "json \<Rightarrow> StoredSecret option" where
  "de_stored_secret v = do {
     fs \<leftarrow> de_fields [''nonce'', ''ciphertext''] v;
     n \<leftarrow> req_field fs ''nonce'' de_string;
     c \<leftarrow> req_field fs ''ciphertext'' de_string;
     Some \<lparr> st_nonce = n, st_ciphertext = c \<rparr> }"

type_synonym secret_file = "(string, StoredSecret) btree"

text \<open>The store: its file, its key, the random generator as the sequence of nonces it will draw, and
  the faults of the I/O calls to come (for reading the file, and for the steps of writing it).\<close>

record file_store =
  es_file :: filesys
  es_key :: "byte list"
  es_nonces :: "nat \<Rightarrow> byte list"
  es_drawn :: nat
  es_read_faults :: "nat \<Rightarrow> string option"
  es_write_faults :: "nat \<Rightarrow> faults"
  es_calls :: nat

definition with_master_key :: "filesys \<Rightarrow> byte list \<Rightarrow> (nat \<Rightarrow> byte list) \<Rightarrow> file_store" where
  "with_master_key f key nonces = \<lparr> es_file = f, es_key = key, es_nonces = nonces, es_drawn = 0,
     es_read_faults = (\<lambda>_. None), es_write_faults = (\<lambda>_ _. None), es_calls = 0 \<rparr>"

definition with_master_key_hex :: "lib \<Rightarrow> filesys \<Rightarrow> (nat \<Rightarrow> byte list) \<Rightarrow> string \<Rightarrow> SecretError + file_store" where
  "with_master_key_hex L f nonces hex_str =
     res_map (\<lambda>key. with_master_key f key nonces) (master_key_from_hex L hex_str)"

definition store_from_env :: "lib \<Rightarrow> filesys \<Rightarrow> (nat \<Rightarrow> byte list) \<Rightarrow> env_var \<Rightarrow> SecretError + file_store" where
  "store_from_env L f nonces var =
     res_map (\<lambda>key. with_master_key f key nonces) (master_key_from_env L var)"

definition de_secret_file :: "json \<Rightarrow> secret_file option" where
  "de_secret_file v = map_option bt_collect (de_map de_stored_secret v)"

definition read_file :: "lib \<Rightarrow> string option \<Rightarrow> filesys \<Rightarrow> SecretError + secret_file" where
  "read_file L fault f = (case fl_target f of
     None \<Rightarrow> Inr []
   | Some bs \<Rightarrow> (case fault of
       Some e \<Rightarrow> Inl (Io e)
     | None \<Rightarrow> if bs = [] then Inr []
         else map_err (\<lambda>e. Corrupted (''failed to parse secret store file: '' @ e))
                (from_slice L ''StoreFile'' de_secret_file bs)))"

definition ser_secret_file :: "secret_file \<Rightarrow> json" where
  "ser_secret_file m = JObject (map (\<lambda>(k, v). (k, ser_stored_secret v)) m)"

definition write_file :: "lib \<Rightarrow> faults \<Rightarrow> secret_file \<Rightarrow> filesys \<Rightarrow> (SecretError + unit) \<times> filesys" where
  "write_file L F m f = (case to_vec_pretty L (ser_secret_file m) of
     Inl e \<Rightarrow> (Inl (Corrupted (''failed to serialize secret store file: '' @ e)), f)
   | Inr json \<Rightarrow> write_atomic F json f)"

definition encrypt :: "lib \<Rightarrow> string \<Rightarrow> byte list \<Rightarrow> file_store \<Rightarrow> (SecretError + StoredSecret) \<times> file_store" where
  "encrypt L key plaintext s =
     (let nonce = es_nonces s (es_drawn s); s1 = s \<lparr> es_drawn := Suc (es_drawn s) \<rparr> in
      (res_map (\<lambda>c. \<lparr> st_nonce = lib_b64_encode L nonce, st_ciphertext = lib_b64_encode L c \<rparr>)
         (ok_or (EncryptionFailed key) (lib_seal L (es_key s) nonce plaintext)), s1))"

definition decrypt :: "lib \<Rightarrow> byte list \<Rightarrow> string \<Rightarrow> StoredSecret \<Rightarrow> SecretError + byte list" where
  "decrypt L cipher key stored =
     res_bind (ok_or (Corrupted (''nonce for key '' @ [SQUOTE] @ key @ [SQUOTE] @ '' is not valid base64''))
        (lib_b64_decode L (st_nonce stored))) (\<lambda>nonce.
     res_bind (ok_or (Corrupted (''ciphertext for key '' @ [SQUOTE] @ key @ [SQUOTE] @ '' is not valid base64''))
        (lib_b64_decode L (st_ciphertext stored))) (\<lambda>ciphertext.
     if length nonce = NONCE_LEN_BYTES
     then ok_or (DecryptionFailed key) (lib_open L cipher nonce ciphertext)
     else Inl (Corrupted (''nonce for key '' @ [SQUOTE] @ key @ [SQUOTE] @ '' has the wrong length''))))"

definition validate_key :: "string \<Rightarrow> SecretError + unit" where
  "validate_key key = (if key = [] then Inl EmptyKey else Inr ())"

text \<open>One call of the file system's read, and one atomic write, with the faults due for them.\<close>

definition locked_read :: "lib \<Rightarrow> file_store \<Rightarrow> (SecretError + secret_file) \<times> file_store" where
  "locked_read L s = (read_file L (es_read_faults s (es_calls s)) (es_file s),
     s \<lparr> es_calls := Suc (es_calls s) \<rparr>)"

definition locked_write :: "lib \<Rightarrow> secret_file \<Rightarrow> file_store \<Rightarrow> (SecretError + unit) \<times> file_store" where
  "locked_write L m s =
     (let (r, f) = write_file L (es_write_faults s (es_calls s)) m (es_file s)
      in (r, s \<lparr> es_file := f, es_calls := Suc (es_calls s) \<rparr>))"

definition secret_get :: "lib \<Rightarrow> string \<Rightarrow> file_store \<Rightarrow> (SecretError + string option) \<times> file_store" where
  "secret_get L key s = (case validate_key key of
     Inl e \<Rightarrow> (Inl e, s)
   | Inr _ \<Rightarrow>
     (case locked_read L s of
        (Inl e, s1) \<Rightarrow> (Inl e, s1)
      | (Inr m, s1) \<Rightarrow>
        (case bt_get m key of
           None \<Rightarrow> (Inr None, s1)
         | Some stored \<Rightarrow>
             (res_bind (decrypt L (es_key s1) key stored)
                (\<lambda>plaintext. res_map Some (ok_or (DecryptionFailed key) (from_utf8 plaintext))), s1))))"

definition secret_set :: "lib \<Rightarrow> string \<Rightarrow> string \<Rightarrow> file_store \<Rightarrow> (SecretError + unit) \<times> file_store" where
  "secret_set L key val s = (case validate_key key of
     Inl e \<Rightarrow> (Inl e, s)
   | Inr _ \<Rightarrow>
     (case locked_read L s of
        (Inl e, s1) \<Rightarrow> (Inl e, s1)
      | (Inr m, s1) \<Rightarrow>
        (case encrypt L key (as_bytes val) s1 of
           (Inl e, s2) \<Rightarrow> (Inl e, s2)
         | (Inr stored, s2) \<Rightarrow> locked_write L (bt_insert key stored m) s2)))"

definition secret_delete :: "lib \<Rightarrow> string \<Rightarrow> file_store \<Rightarrow> (SecretError + unit) \<times> file_store" where
  "secret_delete L key s = (case validate_key key of
     Inl e \<Rightarrow> (Inl e, s)
   | Inr _ \<Rightarrow>
     (case locked_read L s of
        (Inl e, s1) \<Rightarrow> (Inl e, s1)
      | (Inr m, s1) \<Rightarrow> locked_write L (bt_remove key m) s1))"

section \<open>The trait as an interface\<close>

text \<open>What a client of a secret store relies on: the contents as a map, every operation either doing
  what it says or failing and leaving the contents as they were.\<close>

locale secret_store =
  fixes get_secret :: "string \<Rightarrow> 's \<Rightarrow> (SecretError + string option) \<times> 's"
    and set_secret :: "string \<Rightarrow> string \<Rightarrow> 's \<Rightarrow> (SecretError + unit) \<times> 's"
    and delete_secret :: "string \<Rightarrow> 's \<Rightarrow> (SecretError + unit) \<times> 's"
    and contents :: "'s \<Rightarrow> string \<Rightarrow> string option"
    and ok :: "'s \<Rightarrow> bool"
    and storable :: "string \<Rightarrow> bool"
  assumes get_result: "ok s \<Longrightarrow> get_secret k s = (Inr x, s') \<Longrightarrow> x = contents s k"
    and get_keeps: "ok s \<Longrightarrow> get_secret k s = (r, s') \<Longrightarrow> ok s' \<and> contents s' = contents s"
    and set_ok: "ok s \<Longrightarrow> storable k \<Longrightarrow> storable v \<Longrightarrow> set_secret k v s = (Inr (), s') \<Longrightarrow>
      ok s' \<and> contents s' = (contents s)(k \<mapsto> v)"
    and set_failed: "ok s \<Longrightarrow> storable k \<Longrightarrow> storable v \<Longrightarrow> set_secret k v s = (Inl e, s') \<Longrightarrow>
      ok s' \<and> contents s' = contents s"
    and delete_ok: "ok s \<Longrightarrow> delete_secret k s = (Inr (), s') \<Longrightarrow>
      ok s' \<and> contents s' = (contents s)(k := None)"
    and delete_failed: "ok s \<Longrightarrow> delete_secret k s = (Inl e, s') \<Longrightarrow>
      ok s' \<and> contents s' = contents s"
begin

lemma set_then_get:
  assumes "ok s" "storable k" "storable v" "set_secret k v s = (Inr (), s1)" "get_secret k' s1 = (Inr x, s2)"
  shows "x = (if k' = k then Some v else contents s k')"
  using assms set_ok [OF assms(1-4)] get_result [of s1 k' x s2] by auto

lemma delete_then_get:
  assumes "ok s" "delete_secret k s = (Inr (), s1)" "get_secret k' s1 = (Inr x, s2)"
  shows "x = (if k' = k then None else contents s k')"
  using assms delete_ok [OF assms(1-2)] get_result [of s1 k' x s2] by auto

end

section \<open>The file store provides it\<close>

text \<open>The contents of a file this program wrote under the key: its strings are UTF-8 and every entry
  opens to a string.\<close>

definition stored_ok :: "lib \<Rightarrow> byte list \<Rightarrow> string \<Rightarrow> StoredSecret \<Rightarrow> bool" where
  "stored_ok L key k st \<longleftrightarrow> is_utf8 k \<and> is_utf8 (st_nonce st) \<and> is_utf8 (st_ciphertext st)
     \<and> (case decrypt L key k st of Inr p \<Rightarrow> from_utf8 p \<noteq> None | Inl _ \<Rightarrow> False)"

definition plaintext_of :: "lib \<Rightarrow> byte list \<Rightarrow> string \<Rightarrow> StoredSecret \<Rightarrow> string option" where
  "plaintext_of L key k st = (case decrypt L key k st of Inr p \<Rightarrow> from_utf8 p | Inl _ \<Rightarrow> None)"

definition file_map :: "lib \<Rightarrow> filesys \<Rightarrow> secret_file" where
  "file_map L f = (case read_file L None f of Inr m \<Rightarrow> m | Inl _ \<Rightarrow> [])"

definition contents_of :: "lib \<Rightarrow> byte list \<Rightarrow> secret_file \<Rightarrow> string \<Rightarrow> string option" where
  "contents_of L key m k = (if k = [] then None
     else case bt_get m k of None \<Rightarrow> None | Some st \<Rightarrow> plaintext_of L key k st)"

definition secret_contents :: "lib \<Rightarrow> file_store \<Rightarrow> string \<Rightarrow> string option" where
  "secret_contents L s = contents_of L (es_key s) (file_map L (es_file s))"

definition secret_store_ok :: "lib \<Rightarrow> file_store \<Rightarrow> bool" where
  "secret_store_ok L s \<longleftrightarrow> lib_ok L \<and> is_ok (read_file L None (es_file s))
     \<and> bt_ok (file_map L (es_file s))
     \<and> (\<forall>(k, st) \<in> set (file_map L (es_file s)). stored_ok L (es_key s) k st)
     \<and> (\<forall>n. length (es_nonces s n) = NONCE_LEN_BYTES)"

lemma de_ser_stored [simp]: "de_stored_secret (json_value (ser_stored_secret s)) = Some s"
  by (simp add: de_stored_secret_def ser_stored_secret_def de_simps)

lemma ser_secret_file_text:
  assumes "bt_ok m" "\<forall>(k, st) \<in> set m. stored_ok L key k st"
  shows "json_text PARSE_DEPTH (ser_secret_file m)"
  using assms bt_ok_distinct [OF assms(1)]
  by (auto simp: ser_secret_file_def ser_stored_secret_def stored_ok_def PARSE_DEPTH_def list_all_iff
      comp_def split_def is_ascii_def char_code_def)

lemma de_ser_secret_file: "bt_ok m \<Longrightarrow> de_secret_file (json_value (ser_secret_file m)) = Some m"
  using opt_collect_map_Some_id [of m] bt_ok_values [of "\<lambda>s. json_value (ser_stored_secret s)" m]
  by (simp add: de_secret_file_def ser_secret_file_def json_obj_def de_map_def split_def comp_def)

lemma read_after_write:
  assumes "lib_ok L" "bt_ok m" "\<forall>(k, st) \<in> set m. stored_ok L key k st"
    and "fl_target f = Some (as_bytes (lib_pretty L (ser_secret_file m)))"
  shows "read_file L None f = Inr m"
proof -
  have "lib_parse_typed L ''StoreFile'' (as_bytes (lib_pretty L (ser_secret_file m))) =
      Inr (json_value (ser_secret_file m))" "lib_pretty L (ser_secret_file m) \<noteq> []"
    using assms(1) ser_secret_file_text [OF assms(2,3)] by (simp_all add: lib_ok_def json_codec_def)
  then show ?thesis
    using assms by (simp add: read_file_def from_slice_def de_ser_secret_file as_bytes_def)
qed

lemma locked_read_ok:
  assumes "secret_store_ok L s" "locked_read L s = (Inr m, s1)"
  shows "m = file_map L (es_file s)" "secret_store_ok L s1" "es_file s1 = es_file s" "es_key s1 = es_key s"
  using assms
  by (auto simp: locked_read_def read_file_def file_map_def secret_store_ok_def
      split: option.splits if_splits)

lemma locked_read_keeps:
  "locked_read L s = (r, s1) \<Longrightarrow> es_file s1 = es_file s \<and> es_key s1 = es_key s \<and> es_nonces s1 = es_nonces s"
  by (auto simp: locked_read_def)

lemma store_ok_same_file:
  "secret_store_ok L s \<Longrightarrow> es_file s' = es_file s \<Longrightarrow> es_key s' = es_key s \<Longrightarrow> es_nonces s' = es_nonces s \<Longrightarrow>
   secret_store_ok L s' \<and> secret_contents L s' = secret_contents L s"
  by (simp add: secret_store_ok_def secret_contents_def)

lemma locked_write_result:
  assumes "secret_store_ok L s" "bt_ok m" "\<forall>(k, st) \<in> set m. stored_ok L (es_key s) k st"
    and "locked_write L m s = (r, s')"
  shows "secret_store_ok L s' \<and> es_key s' = es_key s
    \<and> (if r = Inr () then file_map L (es_file s') = m else secret_contents L s' = secret_contents L s)"
proof -
  have L: "lib_ok L" using assms(1) by (simp add: secret_store_ok_def)
  obtain f where w: "write_file L (es_write_faults s (es_calls s)) m (es_file s) = (r, f)"
    and s': "s' = s \<lparr> es_file := f, es_calls := Suc (es_calls s) \<rparr>"
    using assms(4) by (auto simp: locked_write_def split: prod.splits)
  have t: "fl_target f = (if r = Inr () then Some (as_bytes (lib_pretty L (ser_secret_file m)))
      else fl_target (es_file s))"
    using w write_atomic_result by (simp add: write_file_def)
  show ?thesis
  proof (cases "r = Inr ()")
    case True
    then have "read_file L None f = Inr m" using read_after_write [OF L assms(2,3)] t by simp
    then show ?thesis
      using True assms s' L by (auto simp: secret_store_ok_def file_map_def)
  next
    case False
    then have "read_file L None f = read_file L None (es_file s)"
      using t by (simp add: read_file_def)
    then show ?thesis
      using False assms s' by (simp add: secret_store_ok_def file_map_def secret_contents_def)
  qed
qed

lemma bt_remove_sub: "set (bt_remove k m) \<subseteq> set m"
  by (auto simp: bt_remove_def)

lemma bt_insert_set: "p \<in> set (bt_insert k v m) \<Longrightarrow> p = (k, v) \<or> p \<in> set m"
  by (induction k v m rule: bt_insert.induct) (auto split: if_splits)

lemma encrypt_ok:
  assumes "secret_store_ok L s" "encrypt L k (as_bytes v) s = (Inr st, s1)" "is_utf8 v" "is_utf8 k"
  shows "plaintext_of L (es_key s) k st = Some v" "stored_ok L (es_key s) k st"
proof -
  let ?n = "es_nonces s (es_drawn s)"
  obtain c where c: "lib_seal L (es_key s) ?n (as_bytes v) = Some c"
    and st: "st = \<lparr> st_nonce = lib_b64_encode L ?n, st_ciphertext = lib_b64_encode L c \<rparr>"
    using assms(2) by (auto simp: encrypt_def Let_def)
  have "decrypt L (es_key s) k st = Inr (as_bytes v)"
    using assms(1) c st by (simp add: decrypt_def secret_store_ok_def lib_ok_def cipher_ok_def)
  then show "plaintext_of L (es_key s) k st = Some v" "stored_ok L (es_key s) k st"
    using assms c st by (simp_all add: plaintext_of_def stored_ok_def from_utf8_def is_utf8_def [of v]
        secret_store_ok_def lib_ok_def cipher_ok_def)
qed

lemma encrypt_keeps:
  "encrypt L k p s = (r, s1) \<Longrightarrow> es_file s1 = es_file s \<and> es_key s1 = es_key s \<and> es_nonces s1 = es_nonces s"
  by (auto simp: encrypt_def Let_def)

lemma secret_get_result:
  assumes "secret_store_ok L s" "secret_get L k s = (r, s')"
  shows "secret_store_ok L s' \<and> secret_contents L s' = secret_contents L s
     \<and> (\<forall>v. r = Inr v \<longrightarrow> v = secret_contents L s k)"
proof (cases "k = []")
  case True
  then show ?thesis using assms by (auto simp: secret_get_def validate_key_def)
next
  case False
  obtain rr s1 where rd: "locked_read L s = (rr, s1)" by fastforce
  have s': "s' = s1" using assms(2) False rd
    by (auto simp: secret_get_def validate_key_def split: sum.splits option.splits)
  have keep: "secret_store_ok L s1 \<and> secret_contents L s1 = secret_contents L s"
    using locked_read_keeps [OF rd] store_ok_same_file [OF assms(1)] by blast
  have "v = secret_contents L s k" if r: "r = Inr v" for v
  proof -
    obtain m where m: "rr = Inr m"
      using assms(2) False rd r by (cases rr) (auto simp: secret_get_def validate_key_def)
    note lk = locked_read_ok [OF assms(1), of m s1]
    show ?thesis
      using assms(2) False rd r m lk
      by (auto simp: secret_get_def validate_key_def secret_contents_def contents_of_def plaintext_of_def
          split: option.splits)
  qed
  then show ?thesis using keep s' by blast
qed

lemma file_ok_entries:
  assumes "secret_store_ok L s"
  shows "bt_ok (file_map L (es_file s))"
    and "\<forall>(k, st) \<in> set (file_map L (es_file s)). stored_ok L (es_key s) k st"
  using assms by (auto simp: secret_store_ok_def)

lemma contents_of_upd:
  "k \<noteq> [] \<Longrightarrow> (\<And>k'. k' \<noteq> k \<Longrightarrow> bt_get m k' = bt_get m0 k') \<Longrightarrow>
   contents_of L key m = (contents_of L key m0)
     (k := case bt_get m k of None \<Rightarrow> None | Some st \<Rightarrow> plaintext_of L key k st)"
  by (auto simp: contents_of_def fun_eq_iff)

lemma locked_write_contents:
  assumes "secret_store_ok L s" "bt_ok m" "\<forall>(k, st) \<in> set m. stored_ok L (es_key s) k st"
    and "locked_write L m s = (r, s')" and "k \<noteq> []"
    and "\<And>k'. k' \<noteq> k \<Longrightarrow> bt_get m k' = bt_get (file_map L (es_file s)) k'"
    and "x = (case bt_get m k of None \<Rightarrow> None | Some st \<Rightarrow> plaintext_of L (es_key s) k st)"
  shows "secret_store_ok L s' \<and>
    secret_contents L s' = (if r = Inr () then (secret_contents L s)(k := x) else secret_contents L s)"
proof (cases "r = Inr ()")
  case True
  then show ?thesis
    using locked_write_result [OF assms(1-4)] contents_of_upd [OF assms(5,6), of L "es_key s"] assms(7)
    by (simp add: secret_contents_def)
next
  case False
  then show ?thesis using locked_write_result [OF assms(1-4)] by simp
qed

lemma secret_set_result:
  assumes "secret_store_ok L s" "is_utf8 v" "is_utf8 k" "secret_set L k v s = (r, s')"
  shows "secret_store_ok L s' \<and>
    secret_contents L s' = (if r = Inr () then (secret_contents L s)(k \<mapsto> v) else secret_contents L s)"
proof (cases "k = []")
  case True
  then show ?thesis using assms by (auto simp: secret_set_def validate_key_def)
next
  case False
  obtain rr s1 where rd: "locked_read L s = (rr, s1)" by fastforce
  note keep1 = locked_read_keeps [OF rd]
  have ok1: "secret_store_ok L s1 \<and> secret_contents L s1 = secret_contents L s"
    using keep1 store_ok_same_file [OF assms(1)] by blast
  show ?thesis
  proof (cases rr)
    case (Inl e)
    then show ?thesis using assms(4) False rd ok1 by (auto simp: secret_set_def validate_key_def)
  next
    case (Inr m)
    have m: "m = file_map L (es_file s)" using locked_read_ok(1) [OF assms(1), of m s1] rd Inr by simp
    obtain er s2 where en: "encrypt L k (as_bytes v) s1 = (er, s2)" by fastforce
    note keep2 = encrypt_keeps [OF en]
    have ok2: "secret_store_ok L s2 \<and> secret_contents L s2 = secret_contents L s"
      using ok1 keep2 store_ok_same_file [of L s1 s2] by simp
    show ?thesis
    proof (cases er)
      case (Inl e)
      then show ?thesis using assms(4) False rd Inr en ok2 by (auto simp: secret_set_def validate_key_def)
    next
      case er: (Inr st)
      note enc = encrypt_ok [OF conjunct1 [OF ok1] en [unfolded er] assms(2,3)]
      have w: "locked_write L (bt_insert k st m) s2 = (r, s')"
        using assms(4) False rd Inr en er by (simp add: secret_set_def validate_key_def)
      have m2: "file_map L (es_file s2) = m" using m keep1 keep2 by simp
      have key: "es_key s2 = es_key s1" using keep2 by simp
      have "secret_store_ok L s' \<and> secret_contents L s' =
          (if r = Inr () then (secret_contents L s2)(k := Some v) else secret_contents L s2)"
      proof (rule locked_write_contents [OF conjunct1 [OF ok2] _ _ w False])
        show "bt_ok (bt_insert k st m)"
          using file_ok_entries [OF conjunct1 [OF ok2]] m2 by simp
        show "\<forall>(k, st) \<in> set (bt_insert k st m). stored_ok L (es_key s2) k st"
          using file_ok_entries(2) [OF conjunct1 [OF ok2]] m2 enc key by (auto dest!: bt_insert_set)
        show "Some v = (case bt_get (bt_insert k st m) k of None \<Rightarrow> None
            | Some st \<Rightarrow> plaintext_of L (es_key s2) k st)"
          using enc key by simp
      qed (simp add: m2)
      then show ?thesis using ok2 by simp
    qed
  qed
qed

lemma secret_delete_result:
  assumes "secret_store_ok L s" "secret_delete L k s = (r, s')"
  shows "secret_store_ok L s' \<and>
    secret_contents L s' = (if r = Inr () then (secret_contents L s)(k := None) else secret_contents L s)"
proof (cases "k = []")
  case True
  then show ?thesis using assms by (auto simp: secret_delete_def validate_key_def)
next
  case False
  obtain rr s1 where rd: "locked_read L s = (rr, s1)" by fastforce
  note keep1 = locked_read_keeps [OF rd]
  have ok1: "secret_store_ok L s1 \<and> secret_contents L s1 = secret_contents L s"
    using keep1 store_ok_same_file [OF assms(1)] by blast
  show ?thesis
  proof (cases rr)
    case (Inl e)
    then show ?thesis using assms(2) False rd ok1 by (auto simp: secret_delete_def validate_key_def)
  next
    case (Inr m)
    have m: "m = file_map L (es_file s1)" using locked_read_ok(1) [OF assms(1), of m s1] rd Inr keep1 by simp
    have w: "locked_write L (bt_remove k m) s1 = (r, s')"
      using assms(2) False rd Inr by (simp add: secret_delete_def validate_key_def)
    have "secret_store_ok L s' \<and> secret_contents L s' =
        (if r = Inr () then (secret_contents L s1)(k := None) else secret_contents L s1)"
    proof (rule locked_write_contents [OF conjunct1 [OF ok1] _ _ w False])
      show "\<forall>(k, st) \<in> set (bt_remove k m). stored_ok L (es_key s1) k st"
        using file_ok_entries(2) [OF conjunct1 [OF ok1]] m bt_remove_sub [of k m] by blast
    qed (use file_ok_entries(1) [OF conjunct1 [OF ok1]] m in simp_all)
    then show ?thesis using ok1 by simp
  qed
qed

interpretation enc: secret_store "secret_get L" "secret_set L" "secret_delete L"
  "secret_contents L" "secret_store_ok L" is_utf8 for L :: lib
proof
  fix s s' k v r e x
  show "secret_store_ok L s \<Longrightarrow> secret_get L k s = (Inr x, s') \<Longrightarrow> x = secret_contents L s k"
    using secret_get_result [of L s k "Inr x" s'] by simp
  show "secret_store_ok L s \<Longrightarrow> secret_get L k s = (r, s') \<Longrightarrow>
      secret_store_ok L s' \<and> secret_contents L s' = secret_contents L s"
    using secret_get_result [of L s k r s'] by simp
  show "secret_store_ok L s \<Longrightarrow> is_utf8 k \<Longrightarrow> is_utf8 v \<Longrightarrow> secret_set L k v s = (Inr (), s') \<Longrightarrow>
      secret_store_ok L s' \<and> secret_contents L s' = (secret_contents L s)(k \<mapsto> v)"
    using secret_set_result [of L s v k "Inr ()" s'] by simp
  show "secret_store_ok L s \<Longrightarrow> is_utf8 k \<Longrightarrow> is_utf8 v \<Longrightarrow> secret_set L k v s = (Inl e, s') \<Longrightarrow>
      secret_store_ok L s' \<and> secret_contents L s' = secret_contents L s"
    using secret_set_result [of L s v k "Inl e" s'] by simp
  show "secret_store_ok L s \<Longrightarrow> secret_delete L k s = (Inr (), s') \<Longrightarrow>
      secret_store_ok L s' \<and> secret_contents L s' = (secret_contents L s)(k := None)"
    using secret_delete_result [of L s k "Inr ()" s'] by simp
  show "secret_store_ok L s \<Longrightarrow> secret_delete L k s = (Inl e, s') \<Longrightarrow>
      secret_store_ok L s' \<and> secret_contents L s' = secret_contents L s"
    using secret_delete_result [of L s k "Inl e" s'] by simp
qed

section \<open>No fault ahead\<close>

text \<open>A store whose I/O will not fail and whose cipher accepts any text; then every operation does
  what it says.\<close>

definition secret_healthy :: "lib \<Rightarrow> file_store \<Rightarrow> bool" where
  "secret_healthy L s \<longleftrightarrow> (\<forall>n \<ge> es_calls s. es_read_faults s n = None \<and> es_write_faults s n = (\<lambda>_. None))
     \<and> (\<forall>n t. lib_seal L (es_key s) n t \<noteq> None)"

locale reliable_secret_store = secret_store get_secret set_secret delete_secret contents ok storable
  for get_secret :: "string \<Rightarrow> 's \<Rightarrow> (SecretError + string option) \<times> 's"
    and set_secret and delete_secret and contents and ok and storable +
  fixes healthy :: "'s \<Rightarrow> bool"
  assumes get_total: "ok s \<Longrightarrow> healthy s \<Longrightarrow> k \<noteq> [] \<Longrightarrow>
      \<exists>x s'. get_secret k s = (Inr x, s') \<and> healthy s'"
    and set_total: "ok s \<Longrightarrow> healthy s \<Longrightarrow> k \<noteq> [] \<Longrightarrow> storable k \<Longrightarrow> storable v \<Longrightarrow>
      \<exists>s'. set_secret k v s = (Inr (), s') \<and> healthy s'"
    and delete_total: "ok s \<Longrightarrow> healthy s \<Longrightarrow> k \<noteq> [] \<Longrightarrow>
      \<exists>s'. delete_secret k s = (Inr (), s') \<and> healthy s'"
begin

lemma get_healthy:
  assumes "ok s" "healthy s" "k \<noteq> []"
  shows "\<exists>s'. get_secret k s = (Inr (contents s k), s') \<and> ok s' \<and> healthy s' \<and> contents s' = contents s"
  using get_total [OF assms] get_result [OF assms(1)] get_keeps [OF assms(1)] by blast

lemma set_healthy:
  assumes "ok s" "healthy s" "k \<noteq> []" "storable k" "storable v"
  shows "\<exists>s'. set_secret k v s = (Inr (), s') \<and> ok s' \<and> healthy s' \<and> contents s' = (contents s)(k \<mapsto> v)"
  using set_total [OF assms] set_ok [OF assms(1,4,5)] by blast

lemma delete_healthy:
  assumes "ok s" "healthy s" "k \<noteq> []"
  shows "\<exists>s'. delete_secret k s = (Inr (), s') \<and> ok s' \<and> healthy s' \<and> contents s' = (contents s)(k := None)"
  using delete_total [OF assms] delete_ok [OF assms(1)] by blast

lemma set_get_healthy:
  assumes "ok s" "healthy s" "k \<noteq> []" "storable k" "storable v" "k' \<noteq> []"
  shows "\<exists>s1. set_secret k v s = (Inr (), s1)
    \<and> fst (get_secret k' s1) = Inr (if k' = k then Some v else contents s k')"
proof -
  obtain s1 where s1: "set_secret k v s = (Inr (), s1)" "ok s1" "healthy s1"
    "contents s1 = (contents s)(k \<mapsto> v)" using set_healthy [OF assms(1-5)] by blast
  then obtain s2 where "get_secret k' s1 = (Inr (contents s1 k'), s2)"
    using get_healthy [OF s1(2,3) assms(6)] by blast
  then show ?thesis using s1 by simp
qed

end

lemma healthy_read:
  assumes "secret_store_ok L s" "secret_healthy L s"
  shows "\<exists>s1. locked_read L s = (Inr (file_map L (es_file s)), s1) \<and> secret_store_ok L s1
    \<and> secret_healthy L s1 \<and> es_file s1 = es_file s \<and> es_key s1 = es_key s"
proof -
  have "is_ok (read_file L None (es_file s))" using assms by (simp add: secret_store_ok_def)
  then obtain m where "read_file L None (es_file s) = Inr m"
    by (cases "read_file L None (es_file s)") auto
  then show ?thesis
    using assms by (auto simp: locked_read_def file_map_def secret_store_ok_def secret_healthy_def)
qed

lemma healthy_write:
  assumes "secret_healthy L s"
  shows "\<exists>s1. locked_write L m s = (Inr (), s1) \<and> secret_healthy L s1"
proof -
  have "fst (run_write (es_write_faults s (es_calls s)) c write_plan f) = Inr ()" for c f
    using assms by (intro run_write_ok) (simp add: secret_healthy_def)
  then show ?thesis
    using assms
    by (auto simp: locked_write_def write_file_def write_atomic_def secret_healthy_def pair_simps)
qed

lemma healthy_encrypt:
  assumes "secret_healthy L s"
  shows "\<exists>st s1. encrypt L k p s = (Inr st, s1) \<and> secret_healthy L s1"
  using assms by (auto simp: encrypt_def Let_def secret_healthy_def)

interpretation renc: reliable_secret_store "secret_get L" "secret_set L" "secret_delete L"
  "secret_contents L" "secret_store_ok L" is_utf8 "secret_healthy L" for L :: lib
proof
  fix s :: file_store and k v :: string
  assume ok: "secret_store_ok L s" "secret_healthy L s" and k: "k \<noteq> []"
  obtain s1 where rd: "locked_read L s = (Inr (file_map L (es_file s)), s1)"
    and s1: "secret_store_ok L s1" "secret_healthy L s1" "es_file s1 = es_file s" "es_key s1 = es_key s"
    using healthy_read [OF ok] by blast
  show "\<exists>x s'. secret_get L k s = (Inr x, s') \<and> secret_healthy L s'"
  proof (cases "bt_get (file_map L (es_file s)) k")
    case (Some st)
    then have "stored_ok L (es_key s) k st"
      using file_ok_entries [OF ok(1)] by (auto simp: bt_get_Some_in)
    then show ?thesis
      using rd k Some s1 by (auto simp: secret_get_def validate_key_def stored_ok_def split: sum.splits)
  qed (use rd k s1 in \<open>simp add: secret_get_def validate_key_def\<close>)
  show "\<exists>s'. secret_delete L k s = (Inr (), s') \<and> secret_healthy L s'"
    using rd k healthy_write [OF s1(2)] by (simp add: secret_delete_def validate_key_def)
  show "\<exists>s'. secret_set L k v s = (Inr (), s') \<and> secret_healthy L s'"
  proof -
    obtain st s2 where en: "encrypt L k (as_bytes v) s1 = (Inr st, s2)" "secret_healthy L s2"
      using healthy_encrypt [OF s1(2)] by blast
    then show ?thesis
      using rd k healthy_write [OF en(2)] by (simp add: secret_set_def validate_key_def)
  qed
qed

text \<open>A write that fails at its first step.\<close>

lemma delete_fault:
  assumes "secret_store_ok L s" "k \<noteq> []" "es_read_faults s (es_calls s) = None"
    and "es_write_faults s (Suc (es_calls s)) CreateDir = Some e"
  shows "\<exists>s'. secret_delete L k s = (Inl (Io e), s') \<and> es_calls s' = Suc (Suc (es_calls s))
    \<and> es_read_faults s' = es_read_faults s \<and> es_write_faults s' = es_write_faults s \<and> es_key s' = es_key s"
proof -
  have "is_ok (read_file L None (es_file s))" using assms by (simp add: secret_store_ok_def)
  then obtain m where "read_file L None (es_file s) = Inr m"
    by (cases "read_file L None (es_file s)") auto
  then show ?thesis
    using assms by (simp add: secret_delete_def validate_key_def locked_read_def locked_write_def
        write_file_def write_atomic_def write_plan_def pair_simps)
qed

section \<open>Properties\<close>

text \<open>C32. The store keeps what it is given. With a working file system, storing a value under a
  non-empty key (both strings, that is UTF-8) succeeds, reading that key gives the value back, through serialisation, base64 and
  the cipher, and reading any other key gives what it gave before.\<close>

theorem secret_roundtrip:
  assumes "secret_store_ok L s" "secret_healthy L s" "k \<noteq> []" "is_utf8 k" "is_utf8 v" "k' \<noteq> []"
  shows "fst (secret_set L k v s) = Inr ()
    \<and> fst (secret_get L k' (snd (secret_set L k v s)))
        = Inr (if k' = k then Some v else secret_contents L s k')"
  using renc.set_get_healthy [OF assms] by auto

definition empty_store :: file_store where
  "empty_store = with_master_key no_file (replicate 32 7)
     (\<lambda>_. replicate 12 0)"

lemma empty_store_ok [simp]: "secret_store_ok ref_lib empty_store" "secret_healthy ref_lib empty_store"
  by (simp_all add: secret_store_ok_def secret_healthy_def ref_lib_ok empty_store_def with_master_key_def
      read_file_def file_map_def NONCE_LEN_BYTES_def)

theorem secret_roundtrip_witness:
  "fst (secret_get ref_lib ''k'' (snd (secret_set ref_lib ''k'' ''hunter2'' empty_store)))
     = Inr (Some ''hunter2'')"
  using secret_roundtrip [of ref_lib empty_store "''k''" "''hunter2''" "''k''"]
  by (simp add: is_utf8_def valid_utf8_ascii is_ascii_def char_code_def)

text \<open>C33. A failed operation changes nothing that can be read: whatever step of whatever I/O call
  fails, a set or delete that reports an error leaves every stored secret as it was, and one that
  reports success changed exactly its own key.\<close>

theorem secret_ops_all_or_nothing:
  assumes "secret_store_ok L s" "is_utf8 v" "is_utf8 k"
  shows "(let (r, s1) = secret_set L k v s in secret_contents L s1 =
           (if r = Inr () then (secret_contents L s)(k \<mapsto> v) else secret_contents L s))
     \<and> (let (r, s1) = secret_delete L k s in secret_contents L s1 =
           (if r = Inr () then (secret_contents L s)(k := None) else secret_contents L s))"
  using secret_set_result [OF assms] secret_delete_result [OF assms(1), of k]
  by (auto simp: pair_simps)

theorem secret_ops_all_or_nothing_witness:
  "(let (r, s1) = secret_set ref_lib ''k'' ''v'' (empty_store \<lparr> es_write_faults := \<lambda>_ st.
          if st = SyncAll then Some ''disk full'' else None \<rparr>)
    in secret_contents ref_lib s1 = (if r = Inr () then [''k'' \<mapsto> ''v''] else Map.empty))"
proof -
  let ?s = "empty_store \<lparr> es_write_faults := \<lambda>_ st. if st = SyncAll then Some ''disk full'' else None \<rparr>"
  have "secret_store_ok ref_lib ?s" using empty_store_ok by (simp add: secret_store_ok_def)
  moreover have "is_utf8 ''v''" by (simp add: is_utf8_def valid_utf8_ascii is_ascii_def char_code_def)
  moreover have "secret_contents ref_lib ?s = Map.empty"
    by (simp add: secret_contents_def contents_of_def file_map_def read_file_def empty_store_def
        with_master_key_def fun_eq_iff)
  ultimately show ?thesis
    using secret_ops_all_or_nothing [of ref_lib ?s "''v''" "''k''"]
    by (simp add: pair_simps is_ascii_def char_code_def del: not_None_eq)
qed

text \<open>A crash in the middle of a write sees the old entries or the complete synced file.\<close>

definition untorn :: "byte list \<Rightarrow> filesys \<Rightarrow> filesys \<Rightarrow> bool" where
  "untorn contents f g \<longleftrightarrow> fs_stale g = fs_stale f \<and> fs_target g = fs_target f
     \<or> fs_stale g = fs_target f # fs_stale f \<and> (\<exists>m. fs_target g =
         Some \<lparr> fi_data = contents, fi_synced = True, fi_mode = m \<rparr>)"

lemma untorn_after_crash:
  assumes "untorn contents f g"
  shows "fl_target g \<in> {fl_target f, Some contents}"
    and "after_crash g c \<longleftrightarrow> after_crash f c \<or> (fs_stale g \<noteq> fs_stale f \<and> c = Some contents)"
  using assms by (auto simp: untorn_def fl_target_def after_crash_def split: option.splits)

lemma write_trace_untorn: "g \<in> set (write_trace F contents write_plan f) \<Longrightarrow> untorn contents f g"
  by (auto simp: write_plan_def write_step_states_def untorn_def on_temp_def drop_temp_def
      simp del: upt_Suc dest!: in_set_butlastD split: option.splits)

text \<open>C34. No torn file. Let any step of the atomic write fail, and stop the machine at any moment of
  it, with any part of the bytes written and everything that was not synced lost: the target
  then holds what it could hold before, or the complete new content. A process that reads the file
  meanwhile sees the old content or the complete new one. A write that succeeds leaves the
  complete content, synced and with mode 0o600; one that fails leaves the target alone; and either
  way the temporary file is gone.\<close>

theorem write_never_tears:
  assumes "g \<in> set (write_trace F contents write_plan f)" "after_crash g c"
  shows "(after_crash f c \<or> c = Some contents) \<and> fl_target g \<in> {fl_target f, Some contents}
    \<and> (case run_write F contents write_plan f of
         (Inr _, f') \<Rightarrow> fs_target f' = Some \<lparr> fi_data = contents, fi_synced = True, fi_mode = Some OWNER_ONLY \<rparr>
           \<and> fs_temp f' = None
       | (Inl _, f') \<Rightarrow> fs_target f' = fs_target f \<and> fs_temp f' = None)"
  using assms untorn_after_crash [OF write_trace_untorn [OF assms(1)]]
    run_write_done [of F contents f] run_write_failed [of F contents f]
  by (auto split: prod.splits sum.splits)

text \<open>The machine stops while the second of two bytes is being written over an older file.\<close>

definition old_file :: filesys where
  "old_file = \<lparr> fs_target = Some \<lparr> fi_data = [1], fi_synced = True, fi_mode = Some OWNER_ONLY \<rparr>,
     fs_temp = None, fs_stale = [] \<rparr>"

theorem write_never_tears_witness:
  "let g = write_trace (\<lambda>_. None) [2, 3] write_plan old_file ! 6 in
     map_option fi_data (fs_temp g) = Some [2] \<and> after_crash g (Some [1])
     \<and> (after_crash old_file (Some [1]) \<or> Some [1] = Some [2, 3 :: byte])
     \<and> fl_target g \<in> {fl_target old_file, Some [2, 3]}"
proof -
  let ?t = "write_trace (\<lambda>_. None) [2, 3 :: byte] write_plan old_file"
  have l: "6 < length ?t" and m: "map_option fi_data (fs_temp (?t ! 6)) = Some [2]"
    and c: "after_crash (?t ! 6) (Some [1])"
    by (simp_all add: write_plan_def old_file_def write_step_states_def on_temp_def after_crash_def upt_rec)
  show ?thesis
    using write_never_tears [OF nth_mem [OF l] c] m c by (simp add: Let_def)
qed

end
