(* ===== verification/Profiles.thy ===== *)
theory Profiles
  imports Main Prelude Lib Core Codec Secrets
begin

text \<open>
  The crate \<open>connection-profiles\<close>: the metadata store (a plain JSON file written atomically) and the
  profile manager, which keeps the password in a secret store. The manager takes its secret store as
  a record of operations; its lemmas are proved in the locale \<open>reliable_secret_store\<close> and used at the
  encrypted file store.
\<close>

section \<open>Profiles and errors\<close>

record ConnectionProfile =
  cp_name :: string
  cp_database_type :: string
  cp_host :: string
  cp_port :: nat
  cp_username :: string
  cp_database :: "string option"
  cp_ssl_mode :: "SslMode option"
  cp_read_only :: bool
  cp_has_password :: bool
  cp_created_at_unix_ms :: nat
  cp_updated_at_unix_ms :: nat

definition ser_profile :: "ConnectionProfile \<Rightarrow> json" where
  "ser_profile p = JObject [(''name'', JString (cp_name p)),
     (''database_type'', JString (cp_database_type p)), (''host'', JString (cp_host p)),
     (''port'', json_nat (cp_port p)), (''username'', JString (cp_username p)),
     (''database'', json_opt JString (cp_database p)),
     (''ssl_mode'', json_opt ser_ssl_mode (cp_ssl_mode p)),
     (''read_only'', JBool (cp_read_only p)), (''has_password'', JBool (cp_has_password p)),
     (''created_at_unix_ms'', json_nat (cp_created_at_unix_ms p)),
     (''updated_at_unix_ms'', json_nat (cp_updated_at_unix_ms p))]"

definition de_profile :: "json \<Rightarrow> ConnectionProfile option" where
  "de_profile v = do {
     fs \<leftarrow> de_fields [''name'', ''database_type'', ''host'', ''port'', ''username'', ''database'',
       ''ssl_mode'', ''read_only'', ''has_password'', ''created_at_unix_ms'', ''updated_at_unix_ms''] v;
     name \<leftarrow> req_field fs ''name'' de_string;
     ty \<leftarrow> req_field fs ''database_type'' de_string;
     host \<leftarrow> req_field fs ''host'' de_string;
     port \<leftarrow> req_field fs ''port'' (de_unsigned 16);
     user \<leftarrow> req_field fs ''username'' de_string;
     db \<leftarrow> opt_field fs ''database'' de_string;
     ssl \<leftarrow> opt_field fs ''ssl_mode'' de_ssl_mode;
     ro \<leftarrow> def_field fs ''read_only'' de_bool False;
     pw \<leftarrow> req_field fs ''has_password'' de_bool;
     created \<leftarrow> req_field fs ''created_at_unix_ms'' (de_unsigned 64);
     updated \<leftarrow> req_field fs ''updated_at_unix_ms'' (de_unsigned 64);
     Some \<lparr> cp_name = name, cp_database_type = ty, cp_host = host, cp_port = port,
       cp_username = user, cp_database = db, cp_ssl_mode = ssl, cp_read_only = ro,
       cp_has_password = pw, cp_created_at_unix_ms = created, cp_updated_at_unix_ms = updated \<rparr> }"

definition profile_ok :: "ConnectionProfile \<Rightarrow> bool" where
  "profile_ok p \<longleftrightarrow> cp_port p < 2 ^ 16 \<and> cp_created_at_unix_ms p < 2 ^ 64
     \<and> cp_updated_at_unix_ms p < 2 ^ 64
     \<and> list_all is_utf8 [cp_name p, cp_database_type p, cp_host p, cp_username p]
     \<and> pred_option is_utf8 (cp_database p)"

text \<open>An entry of the metadata file.\<close>

definition entry_ok :: "string \<Rightarrow> ConnectionProfile \<Rightarrow> bool" where
  "entry_ok k p \<longleftrightarrow> is_utf8 k \<and> profile_ok p"

datatype ProfileError =
    ProfileIo string
  | ProfileCorrupted string
  | EmptyName
  | NotFound string
  | SecretFailure SecretError

definition profile_error_text :: "ProfileError \<Rightarrow> string" where
  "profile_error_text e = (case e of
     ProfileIo m \<Rightarrow> ''connection profile metadata store I/O failure: '' @ m
   | ProfileCorrupted r \<Rightarrow> ''connection profile metadata store is corrupted: '' @ r
   | EmptyName \<Rightarrow> ''connection profile name must not be empty''
   | NotFound n \<Rightarrow> ''no such connection profile: '' @ n
   | SecretFailure s \<Rightarrow> secret_error_text s)"

section \<open>The metadata store\<close>

type_synonym profile_file = "(string, ConnectionProfile) btree"

record metadata_store =
  md_file :: filesys
  md_read_faults :: "nat \<Rightarrow> string option"
  md_write_faults :: "nat \<Rightarrow> faults"
  md_calls :: nat

definition metadata_new :: "filesys \<Rightarrow> metadata_store" where
  "metadata_new f = \<lparr> md_file = f, md_read_faults = (\<lambda>_. None), md_write_faults = (\<lambda>_ _. None),
     md_calls = 0 \<rparr>"

definition metadata_write_atomic :: "faults \<Rightarrow> byte list \<Rightarrow> filesys \<Rightarrow> (ProfileError + unit) \<times> filesys" where
  "metadata_write_atomic F contents f =
     (let (r, f') = run_write F contents write_plan f in (map_err ProfileIo r, f'))"

definition de_profile_file :: "json \<Rightarrow> profile_file option" where
  "de_profile_file v = map_option bt_collect (de_map de_profile v)"

definition ser_profile_file :: "profile_file \<Rightarrow> json" where
  "ser_profile_file m = JObject (map (\<lambda>(k, v). (k, ser_profile v)) m)"

definition md_read_file :: "lib \<Rightarrow> string option \<Rightarrow> filesys \<Rightarrow> ProfileError + profile_file" where
  "md_read_file L fault f = (case fl_target f of
     None \<Rightarrow> Inr []
   | Some bs \<Rightarrow> (case fault of
       Some e \<Rightarrow> Inl (ProfileIo e)
     | None \<Rightarrow> if bs = [] then Inr []
         else map_err (\<lambda>e. ProfileCorrupted (''failed to parse connection profile store file: '' @ e))
                (from_slice L ''StoreFile'' de_profile_file bs)))"

definition md_write_file :: "lib \<Rightarrow> faults \<Rightarrow> profile_file \<Rightarrow> filesys \<Rightarrow> (ProfileError + unit) \<times> filesys" where
  "md_write_file L F m f = (case to_vec_pretty L (ser_profile_file m) of
     Inl e \<Rightarrow> (Inl (ProfileCorrupted (''failed to serialize connection profile store file: '' @ e)), f)
   | Inr json \<Rightarrow> metadata_write_atomic F json f)"

definition md_locked_read :: "lib \<Rightarrow> metadata_store \<Rightarrow> (ProfileError + profile_file) \<times> metadata_store" where
  "md_locked_read L s = (md_read_file L (md_read_faults s (md_calls s)) (md_file s),
     s \<lparr> md_calls := Suc (md_calls s) \<rparr>)"

definition md_locked_write :: "lib \<Rightarrow> profile_file \<Rightarrow> metadata_store \<Rightarrow> (ProfileError + unit) \<times> metadata_store" where
  "md_locked_write L m s =
     (let (r, f) = md_write_file L (md_write_faults s (md_calls s)) m (md_file s)
      in (r, s \<lparr> md_file := f, md_calls := Suc (md_calls s) \<rparr>))"

definition md_list :: "lib \<Rightarrow> metadata_store \<Rightarrow> (ProfileError + ConnectionProfile list) \<times> metadata_store" where
  "md_list L s = (let (r, s1) = md_locked_read L s in (res_map (map snd) r, s1))"

definition md_get :: "lib \<Rightarrow> string \<Rightarrow> metadata_store \<Rightarrow> (ProfileError + ConnectionProfile option) \<times> metadata_store" where
  "md_get L name s = (let (r, s1) = md_locked_read L s in (res_map (\<lambda>m. bt_get m name) r, s1))"

definition md_upsert :: "lib \<Rightarrow> ConnectionProfile \<Rightarrow> metadata_store \<Rightarrow> (ProfileError + unit) \<times> metadata_store" where
  "md_upsert L p s = (case md_locked_read L s of
     (Inl e, s1) \<Rightarrow> (Inl e, s1)
   | (Inr m, s1) \<Rightarrow> md_locked_write L (bt_insert (cp_name p) p m) s1)"

definition md_remove :: "lib \<Rightarrow> string \<Rightarrow> metadata_store \<Rightarrow> (ProfileError + bool) \<times> metadata_store" where
  "md_remove L name s = (case md_locked_read L s of
     (Inl e, s1) \<Rightarrow> (Inl e, s1)
   | (Inr m, s1) \<Rightarrow>
       (let removed = bt_get m name \<noteq> None; (r, s2) = md_locked_write L (bt_remove name m) s1
        in (res_map (\<lambda>_. removed) r, s2)))"

section \<open>The manager\<close>

record 's secret_ops =
  so_get :: "string \<Rightarrow> 's \<Rightarrow> (SecretError + string option) \<times> 's"
  so_set :: "string \<Rightarrow> string \<Rightarrow> 's \<Rightarrow> (SecretError + unit) \<times> 's"
  so_delete :: "string \<Rightarrow> 's \<Rightarrow> (SecretError + unit) \<times> 's"

definition file_ops :: "lib \<Rightarrow> file_store secret_ops" where
  "file_ops L = \<lparr> so_get = secret_get L, so_set = secret_set L, so_delete = secret_delete L \<rparr>"

record SaveProfileParams =
  sp_name :: string
  sp_database_type :: string
  sp_host :: string
  sp_port :: nat
  sp_username :: string
  sp_password :: "string option"
  sp_database :: "string option"
  sp_ssl_mode :: "SslMode option"
  sp_read_only :: "bool option"

record ResolvedProfile =
  rp_database_type :: string
  rp_config :: ConnectionConfig

definition secret_key :: "string \<Rightarrow> string" where
  "secret_key name = ''profile:'' @ name @ '':password''"

definition validate_name :: "string \<Rightarrow> ProfileError + unit" where
  "validate_name name = (if name = [] then Inl EmptyName else Inr ())"

record 's profile_manager =
  pm_metadata :: metadata_store
  pm_secrets :: 's

text \<open>\<open>save\<close> in the critical sections it is made of: the lookup, the password, the upsert.\<close>

definition save_lookup ::
  "lib \<Rightarrow> string \<Rightarrow> 's profile_manager \<Rightarrow> (ProfileError + ConnectionProfile option) \<times> 's profile_manager" where
  "save_lookup L name m = (let (r, md) = md_get L name (pm_metadata m) in (r, m \<lparr> pm_metadata := md \<rparr>))"

definition save_password ::
  "'s secret_ops \<Rightarrow> SaveProfileParams \<Rightarrow> ConnectionProfile option \<Rightarrow> 's profile_manager
   \<Rightarrow> (ProfileError + bool) \<times> 's profile_manager" where
  "save_password SO params existing m = (case sp_password params of
     Some pw \<Rightarrow> (let (r, s) = so_set SO (secret_key (sp_name params)) pw (pm_secrets m)
                 in (res_map (\<lambda>_. True) (map_err SecretFailure r), m \<lparr> pm_secrets := s \<rparr>))
   | None \<Rightarrow> (Inr (case existing of None \<Rightarrow> False | Some p \<Rightarrow> cp_has_password p), m))"

definition save_profile :: "SaveProfileParams \<Rightarrow> ConnectionProfile option \<Rightarrow> bool \<Rightarrow> nat \<Rightarrow> ConnectionProfile" where
  "save_profile params existing has_password now =
     \<lparr> cp_name = sp_name params, cp_database_type = sp_database_type params,
       cp_host = sp_host params, cp_port = sp_port params, cp_username = sp_username params,
       cp_database = sp_database params, cp_ssl_mode = sp_ssl_mode params,
       cp_read_only = (case sp_read_only params of Some b \<Rightarrow> b
          | None \<Rightarrow> (case existing of None \<Rightarrow> False | Some p \<Rightarrow> cp_read_only p)),
       cp_has_password = has_password,
       cp_created_at_unix_ms = (case existing of None \<Rightarrow> now | Some p \<Rightarrow> cp_created_at_unix_ms p),
       cp_updated_at_unix_ms = now \<rparr>"

definition save_commit ::
  "lib \<Rightarrow> ConnectionProfile \<Rightarrow> 's profile_manager \<Rightarrow> (ProfileError + unit) \<times> 's profile_manager" where
  "save_commit L p m = (let (r, md) = md_upsert L p (pm_metadata m) in (r, m \<lparr> pm_metadata := md \<rparr>))"

definition profile_save ::
  "lib \<Rightarrow> 's secret_ops \<Rightarrow> SaveProfileParams \<Rightarrow> nat \<Rightarrow> 's profile_manager
   \<Rightarrow> (ProfileError + unit) \<times> 's profile_manager" where
  "profile_save L SO params now m = (case validate_name (sp_name params) of
     Inl e \<Rightarrow> (Inl e, m)
   | Inr _ \<Rightarrow> (case save_lookup L (sp_name params) m of
       (Inl e, m1) \<Rightarrow> (Inl e, m1)
     | (Inr existing, m1) \<Rightarrow> (case save_password SO params existing m1 of
         (Inl e, m2) \<Rightarrow> (Inl e, m2)
       | (Inr has_password, m2) \<Rightarrow>
           save_commit L (save_profile params existing has_password now) m2)))"

definition profile_list ::
  "lib \<Rightarrow> 's profile_manager \<Rightarrow> (ProfileError + ConnectionProfile list) \<times> 's profile_manager" where
  "profile_list L m = (let (r, md) = md_list L (pm_metadata m)
     in (res_map (sort_key cp_name) r, m \<lparr> pm_metadata := md \<rparr>))"

definition profile_config :: "ConnectionProfile \<Rightarrow> string option \<Rightarrow> ConnectionConfig" where
  "profile_config p password = \<lparr> cc_host = cp_host p, cc_port = cp_port p,
     cc_username = cp_username p, cc_password = password, cc_database = cp_database p,
     cc_ssl = SslConfig_default \<lparr> ssl_mode := cp_ssl_mode p \<rparr>, cc_read_only = cp_read_only p,
     cc_additional_fields = [] \<rparr>"

definition profile_resolve ::
  "lib \<Rightarrow> 's secret_ops \<Rightarrow> string \<Rightarrow> 's profile_manager \<Rightarrow> (ProfileError + ResolvedProfile) \<times> 's profile_manager" where
  "profile_resolve L SO name m = (case validate_name name of
     Inl e \<Rightarrow> (Inl e, m)
   | Inr _ \<Rightarrow> (case save_lookup L name m of
       (Inl e, m1) \<Rightarrow> (Inl e, m1)
     | (Inr None, m1) \<Rightarrow> (Inl (NotFound name), m1)
     | (Inr (Some p), m1) \<Rightarrow>
         (let (r, s) = so_get SO (secret_key name) (pm_secrets m1); m2 = m1 \<lparr> pm_secrets := s \<rparr>
          in (res_map (\<lambda>pw. \<lparr> rp_database_type = cp_database_type p, rp_config = profile_config p pw \<rparr>)
                (map_err SecretFailure r), m2))))"

definition profile_delete ::
  "lib \<Rightarrow> 's secret_ops \<Rightarrow> string \<Rightarrow> 's profile_manager \<Rightarrow> (ProfileError + unit) \<times> 's profile_manager" where
  "profile_delete L SO name m = (case validate_name name of
     Inl e \<Rightarrow> (Inl e, m)
   | Inr _ \<Rightarrow> (let (r, md) = md_remove L name (pm_metadata m); m1 = m \<lparr> pm_metadata := md \<rparr> in
       case r of
         Inl e \<Rightarrow> (Inl e, m1)
       | Inr removed \<Rightarrow>
           if \<not> removed then (Inl (NotFound name), m1)
           else (let (r2, s) = so_delete SO (secret_key name) (pm_secrets m1)
                 in (map_err SecretFailure r2, m1 \<lparr> pm_secrets := s \<rparr>))))"

section \<open>The metadata store as a map\<close>

definition md_map :: "lib \<Rightarrow> filesys \<Rightarrow> profile_file" where
  "md_map L f = (case md_read_file L None f of Inr m \<Rightarrow> m | Inl _ \<Rightarrow> [])"

definition md_profiles :: "lib \<Rightarrow> metadata_store \<Rightarrow> string \<Rightarrow> ConnectionProfile option" where
  "md_profiles L s = bt_get (md_map L (md_file s))"

definition md_ok :: "lib \<Rightarrow> metadata_store \<Rightarrow> bool" where
  "md_ok L s \<longleftrightarrow> lib_ok L \<and> is_ok (md_read_file L None (md_file s)) \<and> bt_ok (md_map L (md_file s))
     \<and> (\<forall>(k, p) \<in> set (md_map L (md_file s)). entry_ok k p)"

definition md_healthy :: "metadata_store \<Rightarrow> bool" where
  "md_healthy s \<longleftrightarrow> (\<forall>n. md_read_faults s n = None) \<and> (\<forall>n st. md_write_faults s n st = None)"

lemma json_value_ssl [simp]: "json_value (ser_ssl_mode m) = ser_ssl_mode m" "json_text d (ser_ssl_mode m)"
  by (cases m; simp add: ser_ssl_mode_def is_ascii_def char_code_def)+

lemma de_ser_profile: "profile_ok p \<Longrightarrow> de_profile (json_value (ser_profile p)) = Some p"
  by (simp add: de_profile_def ser_profile_def de_simps profile_ok_def)

lemma ser_profile_text: "profile_ok p \<Longrightarrow> json_text 126 (ser_profile p)"
  by (auto simp: ser_profile_def profile_ok_def is_ascii_def char_code_def intro!: json_text_opt)

lemma ser_profile_file_text:
  "bt_ok m \<Longrightarrow> \<forall>(k, p) \<in> set m. entry_ok k p \<Longrightarrow> json_text PARSE_DEPTH (ser_profile_file m)"
  using bt_ok_distinct [of m]
  by (auto simp: ser_profile_file_def PARSE_DEPTH_def entry_ok_def list_all_iff comp_def split_def ser_profile_text)

lemma de_ser_profile_file:
  assumes "bt_ok m" "\<forall>(k, p) \<in> set m. entry_ok k p"
  shows "de_profile_file (json_value (ser_profile_file m)) = Some m"
proof -
  have "map (\<lambda>p. map_option (Pair (fst p)) (de_profile (json_value (ser_profile (snd p))))) m = map Some m"
    using assms(2) by (intro map_cong) (auto simp: de_ser_profile entry_ok_def)
  then have "opt_collect (map (\<lambda>p. map_option (Pair (fst p)) (de_profile (json_value (ser_profile (snd p))))) m)
      = Some m" by (simp only: opt_collect_map_Some_id)
  then show ?thesis
    using assms(1) bt_ok_values [of "\<lambda>p. json_value (ser_profile p)" m]
    by (simp add: de_profile_file_def ser_profile_file_def json_obj_def de_map_def split_def comp_def
        del: map_eq_conv)
qed

lemma md_read_after_write:
  assumes "lib_ok L" "bt_ok m" "\<forall>(k, p) \<in> set m. entry_ok k p"
    and "fl_target f = Some (as_bytes (lib_pretty L (ser_profile_file m)))"
  shows "md_read_file L None f = Inr m"
proof -
  have "lib_parse_typed L ''StoreFile'' (as_bytes (lib_pretty L (ser_profile_file m))) =
      Inr (json_value (ser_profile_file m))" "lib_pretty L (ser_profile_file m) \<noteq> []"
    using assms(1) ser_profile_file_text [OF assms(2,3)] by (simp_all add: lib_ok_def json_codec_def)
  then show ?thesis
    using assms(4) de_ser_profile_file [OF assms(2,3)]
    by (simp add: md_read_file_def from_slice_def as_bytes_def)
qed

lemma md_read_file_fault: "md_read_file L fl f = Inr m \<Longrightarrow> md_read_file L None f = Inr m"
  by (auto simp: md_read_file_def split: option.splits if_splits)

lemma md_locked_read_ok:
  assumes "md_ok L s" "md_locked_read L s = (r, s1)"
  shows "md_ok L s1 \<and> md_profiles L s1 = md_profiles L s \<and> md_file s1 = md_file s
    \<and> (\<forall>m. r = Inr m \<longrightarrow> m = md_map L (md_file s)) \<and> (md_healthy s \<longrightarrow> is_ok r \<and> md_healthy s1)"
proof -
  have s1: "s1 = s \<lparr> md_calls := Suc (md_calls s) \<rparr>"
    and r: "r = md_read_file L (md_read_faults s (md_calls s)) (md_file s)"
    using assms(2) by (auto simp: md_locked_read_def)
  have "md_map L (md_file s) = m" if "r = Inr m" for m
    using that md_read_file_fault [of L _ "md_file s" m] unfolding r by (simp add: md_map_def)
  moreover have "is_ok r" if "md_healthy s"
    using that assms(1) unfolding r by (simp add: md_healthy_def md_ok_def)
  ultimately show ?thesis
    using assms(1) s1 by (auto simp: md_ok_def md_profiles_def md_healthy_def)
qed

lemma md_locked_write_ok:
  assumes "md_ok L s" "bt_ok m" "\<forall>(k, p) \<in> set m. entry_ok k p" "md_locked_write L m s = (r, s')"
  shows "md_ok L s' \<and> md_profiles L s' = (if r = Inr () then bt_get m else md_profiles L s)
    \<and> (md_healthy s \<longrightarrow> r = Inr () \<and> md_healthy s')"
proof -
  have L: "lib_ok L" using assms(1) by (simp add: md_ok_def)
  obtain r0 f where w: "run_write (md_write_faults s (md_calls s))
      (as_bytes (lib_pretty L (ser_profile_file m))) write_plan (md_file s) = (r0, f)" by fastforce
  have s': "s' = s \<lparr> md_file := f, md_calls := Suc (md_calls s) \<rparr>" and r: "r = map_err ProfileIo r0"
    using assms(4) w by (auto simp: md_locked_write_def md_write_file_def metadata_write_atomic_def)
  have rr: "r = Inr () \<longleftrightarrow> r0 = Inr ()" using r by (cases r0) auto
  have t: "fl_target f = (if r = Inr () then Some (as_bytes (lib_pretty L (ser_profile_file m)))
      else fl_target (md_file s))"
    using run_write_target [of "md_write_faults s (md_calls s)"
        "as_bytes (lib_pretty L (ser_profile_file m))" "md_file s"] w rr by simp
  have h: "md_healthy s \<longrightarrow> r = Inr () \<and> md_healthy s'"
    using run_write_ok [of "md_write_faults s (md_calls s)"
        "as_bytes (lib_pretty L (ser_profile_file m))" "md_file s"] w rr s'
    by (auto simp: md_healthy_def)
  show ?thesis
  proof (cases "r = Inr ()")
    case True
    then have "md_read_file L None f = Inr m" using md_read_after_write [OF L assms(2,3)] t by simp
    then show ?thesis
      using True assms s' L h by (auto simp: md_ok_def md_map_def md_profiles_def)
  next
    case False
    then have "md_read_file L None f = md_read_file L None (md_file s)"
      using t by (simp add: md_read_file_def)
    then show ?thesis
      using False assms s' h by (simp add: md_ok_def md_map_def md_profiles_def)
  qed
qed

lemma md_entries:
  assumes "md_ok L s"
  shows "bt_ok (md_map L (md_file s))" "\<forall>(k, p) \<in> set (md_map L (md_file s)). entry_ok k p"
  using assms by (auto simp: md_ok_def)

lemma md_get_result:
  assumes "md_ok L s" "md_get L name s = (r, s')"
  shows "md_ok L s' \<and> md_profiles L s' = md_profiles L s \<and> (\<forall>x. r = Inr x \<longrightarrow> x = md_profiles L s name)
    \<and> (md_healthy s \<longrightarrow> r = Inr (md_profiles L s name) \<and> md_healthy s')"
proof -
  obtain r0 s1 where rd: "md_locked_read L s = (r0, s1)" by fastforce
  show ?thesis
    using md_locked_read_ok [OF assms(1) rd] assms(2) rd
    by (cases r0) (auto simp: md_get_def md_profiles_def)
qed

lemma md_upsert_result:
  assumes "md_ok L s" "profile_ok p" "md_upsert L p s = (r, s')"
  shows "md_ok L s' \<and> md_profiles L s' =
      (if r = Inr () then (md_profiles L s)(cp_name p \<mapsto> p) else md_profiles L s)
    \<and> (md_healthy s \<longrightarrow> r = Inr () \<and> md_healthy s')"
proof -
  obtain r0 s1 where rd: "md_locked_read L s = (r0, s1)" by fastforce
  note k = md_locked_read_ok [OF assms(1) rd]
  show ?thesis
  proof (cases r0)
    case (Inl e)
    then show ?thesis using k assms(3) rd by (auto simp: md_upsert_def)
  next
    case (Inr m)
    then have m: "m = md_map L (md_file s1)" using k by simp
    have w: "md_locked_write L (bt_insert (cp_name p) p m) s1 = (r, s')"
      using assms(3) rd Inr by (simp add: md_upsert_def)
    have "md_ok L s1" using k by simp
    note e = md_entries [OF this]
    have "bt_get (bt_insert (cp_name p) p m) = (md_profiles L s1)(cp_name p \<mapsto> p)"
      by (simp add: md_profiles_def m fun_eq_iff)
    moreover have "\<forall>(k, x) \<in> set (bt_insert (cp_name p) p m). entry_ok k x"
      using e(2) m assms(2) by (auto dest!: bt_insert_set simp: entry_ok_def profile_ok_def)
    ultimately show ?thesis
      using md_locked_write_ok [OF \<open>md_ok L s1\<close> _ _ w] e(1) k m by auto
  qed
qed

lemma md_remove_result:
  assumes "md_ok L s" "md_remove L name s = (r, s')"
  shows "md_ok L s' \<and> md_profiles L s' =
      (if is_ok r then (md_profiles L s)(name := None) else md_profiles L s)
    \<and> (\<forall>b. r = Inr b \<longrightarrow> b = (md_profiles L s name \<noteq> None))
    \<and> (md_healthy s \<longrightarrow> is_ok r \<and> md_healthy s')"
proof -
  obtain r0 s1 where rd: "md_locked_read L s = (r0, s1)" by fastforce
  note k = md_locked_read_ok [OF assms(1) rd]
  show ?thesis
  proof (cases r0)
    case (Inl e)
    then show ?thesis using k assms(2) rd by (auto simp: md_remove_def)
  next
    case (Inr m)
    then have m: "m = md_map L (md_file s1)" "m = md_map L (md_file s)" using k by simp_all
    obtain r2 s2 where w: "md_locked_write L (bt_remove name m) s1 = (r2, s2)" by fastforce
    have rs: "r = res_map (\<lambda>_. bt_get m name \<noteq> None) r2" "s' = s2"
      using assms(2) rd Inr w by (auto simp: md_remove_def)
    have "md_ok L s1" using k by simp
    note e = md_entries [OF this]
    have "bt_get (bt_remove name m) = (md_profiles L s1)(name := None)"
      by (simp add: md_profiles_def m(1) fun_eq_iff)
    moreover have "\<forall>(k, p) \<in> set (bt_remove name m). entry_ok k p"
      using e(2) m(1) bt_remove_sub [of name m] by blast
    ultimately show ?thesis
      using md_locked_write_ok [OF \<open>md_ok L s1\<close> _ _ w] e(1) k m rs
      by (cases r2) (auto simp: md_profiles_def)
  qed
qed

lemma md_get_healthy:
  assumes "md_ok L s" "md_healthy s"
  obtains s' where "md_get L n s = (Inr (md_profiles L s n), s')" "md_ok L s'" "md_healthy s'"
    "md_profiles L s' = md_profiles L s"
proof -
  obtain r s' where g: "md_get L n s = (r, s')" by fastforce
  from md_get_result [OF assms(1) g] assms(2) g that show ?thesis by blast
qed

lemma md_upsert_healthy:
  assumes "md_ok L s" "md_healthy s" "profile_ok p"
  obtains s' where "md_upsert L p s = (Inr (), s')" "md_ok L s'" "md_healthy s'"
    "md_profiles L s' = (md_profiles L s)(cp_name p \<mapsto> p)"
proof -
  obtain r s' where g: "md_upsert L p s = (r, s')" by fastforce
  note u = md_upsert_result [OF assms(1,3) g]
  then have "r = Inr ()" using assms(2) by blast
  with u g assms(2) that show ?thesis by simp
qed

lemma md_remove_healthy:
  assumes "md_ok L s" "md_healthy s"
  obtains s' where "md_remove L n s = (Inr (md_profiles L s n \<noteq> None), s')" "md_ok L s'" "md_healthy s'"
    "md_profiles L s' = (md_profiles L s)(n := None)"
proof -
  obtain r s' where g: "md_remove L n s = (r, s')" by fastforce
  note u = md_remove_result [OF assms(1) g]
  then have "is_ok r" using assms(2) by blast
  then obtain b where r: "r = Inr b" by (cases r) auto
  with u have "b = (md_profiles L s n \<noteq> None)" by blast
  with u r g assms(2) that show ?thesis by auto
qed

section \<open>The manager over a reliable store\<close>

definition manager_ready :: "lib \<Rightarrow> ('s \<Rightarrow> bool) \<Rightarrow> ('s \<Rightarrow> bool) \<Rightarrow> 's profile_manager \<Rightarrow> bool" where
  "manager_ready L ok healthy m \<longleftrightarrow> md_ok L (pm_metadata m) \<and> md_healthy (pm_metadata m)
     \<and> ok (pm_secrets m) \<and> healthy (pm_secrets m)"

definition manager_profiles :: "lib \<Rightarrow> 's profile_manager \<Rightarrow> string \<Rightarrow> ConnectionProfile option" where
  "manager_profiles L m = md_profiles L (pm_metadata m)"

definition params_ok :: "SaveProfileParams \<Rightarrow> nat \<Rightarrow> bool" where
  "params_ok params now \<longleftrightarrow> sp_name params \<noteq> [] \<and> sp_port params < 2 ^ 16 \<and> now < 2 ^ 64
     \<and> list_all is_utf8 [sp_name params, sp_database_type params, sp_host params, sp_username params]
     \<and> pred_option is_utf8 (sp_database params) \<and> pred_option is_utf8 (sp_password params)"

definition saved_has_password :: "SaveProfileParams \<Rightarrow> ConnectionProfile option \<Rightarrow> bool" where
  "saved_has_password params existing = (case sp_password params of Some _ \<Rightarrow> True
     | None \<Rightarrow> (case existing of None \<Rightarrow> False | Some p \<Rightarrow> cp_has_password p))"

lemma secret_key_nonempty [simp]: "secret_key n \<noteq> []"
  by (simp add: secret_key_def)

lemma secret_key_inj [simp]: "secret_key a = secret_key b \<longleftrightarrow> a = b"
  by (simp add: secret_key_def)

lemma save_profile_ok:
  assumes "params_ok params now" "\<And>p. existing = Some p \<Longrightarrow> profile_ok p"
  shows "profile_ok (save_profile params existing hp now)"
  using assms by (auto simp: params_ok_def profile_ok_def save_profile_def split: option.splits)

lemma save_profile_name [simp]: "cp_name (save_profile params existing hp now) = sp_name params"
  by (simp add: save_profile_def)

lemma md_profile_ok:
  assumes "md_ok L s" "md_profiles L s n = Some p"
  shows "profile_ok p"
proof -
  have "(n, p) \<in> set (md_map L (md_file s))"
    using assms md_entries(1) [OF assms(1)] by (simp add: md_profiles_def bt_get_Some_in)
  then show ?thesis using md_entries(2) [OF assms(1)] by (auto simp: entry_ok_def)
qed

context reliable_secret_store
begin

lemma save_ready:
  assumes "manager_ready L ok healthy m" "params_ok params now"
    and "storable (secret_key (sp_name params))" "\<And>pw. sp_password params = Some pw \<Longrightarrow> storable pw"
  shows "\<exists>m'. profile_save L \<lparr> so_get = get_secret, so_set = set_secret, so_delete = delete_secret \<rparr>
        params now m = (Inr (), m') \<and> manager_ready L ok healthy m'
    \<and> manager_profiles L m' = (manager_profiles L m)(sp_name params \<mapsto> save_profile params
          (manager_profiles L m (sp_name params))
          (saved_has_password params (manager_profiles L m (sp_name params))) now)
    \<and> contents (pm_secrets m') = (case sp_password params of
          None \<Rightarrow> contents (pm_secrets m)
        | Some pw \<Rightarrow> (contents (pm_secrets m))(secret_key (sp_name params) \<mapsto> pw))"
proof -
  let ?ops = "\<lparr> so_get = get_secret, so_set = set_secret, so_delete = delete_secret \<rparr>"
  let ?n = "sp_name params"
  have md: "md_ok L (pm_metadata m)" "md_healthy (pm_metadata m)" and ss: "ok (pm_secrets m)" "healthy (pm_secrets m)"
    using assms(1) by (auto simp: manager_ready_def)
  let ?ex = "md_profiles L (pm_metadata m) ?n"
  obtain md1 where g: "md_get L ?n (pm_metadata m) = (Inr ?ex, md1)" and g': "md_ok L md1" "md_healthy md1"
      "md_profiles L md1 = md_profiles L (pm_metadata m)"
    by (rule md_get_healthy [OF md, of ?n])
  let ?m1 = "m \<lparr> pm_metadata := md1 \<rparr>"
  obtain s2 where pw: "save_password ?ops params ?ex ?m1 =
      (Inr (saved_has_password params ?ex), ?m1 \<lparr> pm_secrets := s2 \<rparr>)"
    and s2: "ok s2" "healthy s2" "contents s2 = (case sp_password params of
        None \<Rightarrow> contents (pm_secrets m) | Some pw \<Rightarrow> (contents (pm_secrets m))(secret_key ?n \<mapsto> pw))"
  proof (cases "sp_password params")
    case None
    then show ?thesis using that [of "pm_secrets m"] ss
      by (simp add: save_password_def saved_has_password_def)
  next
    case (Some p)
    then show ?thesis
      using set_healthy [OF ss secret_key_nonempty assms(3) assms(4) [OF Some]] that
      by (auto simp: save_password_def saved_has_password_def)
  qed
  let ?p = "save_profile params ?ex (saved_has_password params ?ex) now"
  have pok: "profile_ok ?p" using save_profile_ok [OF assms(2)] md_profile_ok [OF md(1)] by blast
  obtain md3 where up: "md_upsert L ?p md1 = (Inr (), md3)" and up': "md_ok L md3" "md_healthy md3"
      "md_profiles L md3 = (md_profiles L (pm_metadata m))(?n \<mapsto> ?p)"
    by (rule md_upsert_healthy [OF g'(1,2) pok]) (simp add: g'(3))
  have "profile_save L ?ops params now m = (Inr (), m \<lparr> pm_metadata := md3, pm_secrets := s2 \<rparr>)"
    using assms(2) g pw up
    by (simp add: profile_save_def validate_name_def params_ok_def save_lookup_def save_commit_def)
  then show ?thesis
    using up' s2 by (auto simp: manager_ready_def manager_profiles_def)
qed

lemma resolve_ready:
  assumes "manager_ready L ok healthy m" "name \<noteq> []"
  shows "\<exists>m'. profile_resolve L \<lparr> so_get = get_secret, so_set = set_secret, so_delete = delete_secret \<rparr> name m
      = (case manager_profiles L m name of
           None \<Rightarrow> Inl (NotFound name)
         | Some p \<Rightarrow> Inr \<lparr> rp_database_type = cp_database_type p,
             rp_config = profile_config p (contents (pm_secrets m) (secret_key name)) \<rparr>, m')
    \<and> manager_ready L ok healthy m' \<and> manager_profiles L m' = manager_profiles L m
    \<and> contents (pm_secrets m') = contents (pm_secrets m)"
proof -
  have md: "md_ok L (pm_metadata m)" "md_healthy (pm_metadata m)" and ss: "ok (pm_secrets m)" "healthy (pm_secrets m)"
    using assms(1) by (auto simp: manager_ready_def)
  obtain md1 where g: "md_get L name (pm_metadata m) = (Inr (md_profiles L (pm_metadata m) name), md1)"
    and g': "md_ok L md1" "md_healthy md1" "md_profiles L md1 = md_profiles L (pm_metadata m)"
    by (rule md_get_healthy [OF md, of name])
  obtain s1 where s1: "get_secret (secret_key name) (pm_secrets m)
      = (Inr (contents (pm_secrets m) (secret_key name)), s1)"
    "ok s1" "healthy s1" "contents s1 = contents (pm_secrets m)"
    using get_healthy [OF ss secret_key_nonempty [of name]] by blast
  show ?thesis
    using g g' assms(2) ss s1
    by (cases "md_profiles L (pm_metadata m) name")
      (simp_all add: profile_resolve_def validate_name_def save_lookup_def manager_ready_def
        manager_profiles_def)
qed

lemma delete_ready:
  assumes "manager_ready L ok healthy m" "name \<noteq> []" "manager_profiles L m name \<noteq> None"
  shows "\<exists>m'. profile_delete L \<lparr> so_get = get_secret, so_set = set_secret, so_delete = delete_secret \<rparr> name m
      = (Inr (), m') \<and> manager_ready L ok healthy m'
    \<and> manager_profiles L m' = (manager_profiles L m)(name := None)
    \<and> contents (pm_secrets m') = (contents (pm_secrets m))(secret_key name := None)"
proof -
  have md: "md_ok L (pm_metadata m)" "md_healthy (pm_metadata m)" and ss: "ok (pm_secrets m)" "healthy (pm_secrets m)"
    using assms(1) by (auto simp: manager_ready_def)
  obtain md1 where g: "md_remove L name (pm_metadata m) =
      (Inr (md_profiles L (pm_metadata m) name \<noteq> None), md1)"
    and g': "md_ok L md1" "md_healthy md1"
      "md_profiles L md1 = (md_profiles L (pm_metadata m))(name := None)"
    by (rule md_remove_healthy [OF md, of name])
  obtain s1 where s1: "delete_secret (secret_key name) (pm_secrets m) = (Inr (), s1)"
    "ok s1" "healthy s1" "contents s1 = (contents (pm_secrets m))(secret_key name := None)"
    using delete_healthy [OF ss secret_key_nonempty [of name]] by blast
  show ?thesis
    using g g' assms(2,3) s1
    by (simp add: profile_delete_def validate_name_def manager_ready_def manager_profiles_def)
qed

text \<open>The secret store may fail where the metadata store does not.\<close>

lemma delete_secret_fails:
  assumes "md_ok L (pm_metadata m)" "md_healthy (pm_metadata m)" "ok (pm_secrets m)" "name \<noteq> []"
    and "manager_profiles L m name \<noteq> None"
    and "delete_secret (secret_key name) (pm_secrets m) = (Inl e, s')"
  shows "\<exists>m'. profile_delete L \<lparr> so_get = get_secret, so_set = set_secret, so_delete = delete_secret \<rparr> name m
      = (Inl (SecretFailure e), m') \<and> md_ok L (pm_metadata m') \<and> md_healthy (pm_metadata m')
    \<and> pm_secrets m' = s' \<and> ok s' \<and> contents s' = contents (pm_secrets m)
    \<and> manager_profiles L m' = (manager_profiles L m)(name := None)"
proof -
  obtain md1 where g: "md_remove L name (pm_metadata m) =
      (Inr (md_profiles L (pm_metadata m) name \<noteq> None), md1)"
    and g': "md_ok L md1" "md_healthy md1"
      "md_profiles L md1 = (md_profiles L (pm_metadata m))(name := None)"
    by (rule md_remove_healthy [OF assms(1,2), of name])
  show ?thesis
    using delete_failed [OF assms(3,6)] assms(4,5,6) g g'
    by (simp add: profile_delete_def validate_name_def manager_profiles_def)
qed

end

section \<open>At the encrypted file store\<close>

abbreviation ready :: "lib \<Rightarrow> file_store profile_manager \<Rightarrow> bool" where
  "ready L \<equiv> manager_ready L (secret_store_ok L) (secret_healthy L)"

lemma secret_key_utf8: "is_utf8 n \<Longrightarrow> is_utf8 (secret_key n)"
  unfolding secret_key_def by (intro is_utf8_append) (auto simp: is_ascii_def char_code_def)

lemma params_ok_key: "params_ok params now \<Longrightarrow> is_utf8 (secret_key (sp_name params))"
  by (simp add: params_ok_def secret_key_utf8)

lemma params_ok_storable: "params_ok params now \<Longrightarrow> sp_password params = Some pw \<Longrightarrow> is_utf8 pw"
  by (simp add: params_ok_def)

lemmas save_file = renc.save_ready [folded file_ops_def, OF _ _ params_ok_key params_ok_storable]
lemmas resolve_file = renc.resolve_ready [folded file_ops_def]
lemmas delete_file = renc.delete_ready [folded file_ops_def]
lemmas delete_file_fails = renc.delete_secret_fails [folded file_ops_def]

text \<open>A manager on empty files with the reference library.\<close>

definition ref_manager :: "file_store profile_manager" where
  "ref_manager = \<lparr> pm_metadata = metadata_new no_file,
     pm_secrets = empty_store \<rparr>"

definition ref_params :: SaveProfileParams where
  "ref_params = \<lparr> sp_name = ''prod'', sp_database_type = ''PostgreSQL'', sp_host = ''db'',
     sp_port = 5432, sp_username = ''app'', sp_password = Some ''hunter2'', sp_database = None,
     sp_ssl_mode = None, sp_read_only = Some True \<rparr>"

lemma ref_manager_ready [simp]: "ready ref_lib ref_manager"
  by (simp add: manager_ready_def ref_manager_def md_ok_def md_healthy_def metadata_new_def ref_lib_ok
      md_read_file_def md_map_def)

lemma ref_params_ok [simp]: "params_ok ref_params 5" "params_ok (ref_params \<lparr> sp_password := None \<rparr>) 6"
  "params_ok (ref_params \<lparr> sp_password := None, sp_read_only := None \<rparr>) 6"
  by (simp_all add: params_ok_def ref_params_def is_utf8_def valid_utf8_ascii is_ascii_def char_code_def)

lemma ref_manager_empty [simp]: "manager_profiles ref_lib ref_manager = (\<lambda>_. None)"
  "secret_contents ref_lib (pm_secrets ref_manager) = (\<lambda>_. None)"
  by (auto simp: manager_profiles_def md_profiles_def ref_manager_def md_map_def md_read_file_def
      metadata_new_def fun_eq_iff empty_store_def with_master_key_def secret_contents_def
      contents_of_def file_map_def read_file_def)

section \<open>Properties\<close>

text \<open>Saving a profile and resolving it gives the connection it describes, with the password taken
  from the encrypted store: the one just given, or, when the save omits it, the one stored before; an
  omitted \<open>read_only\<close> keeps the stored flag. Every other profile resolves as before.\<close>

theorem save_then_resolve:
  assumes "ready L m" "params_ok params now" "other \<noteq> []" "other \<noteq> sp_name params"
  shows "let (r, m1) = profile_save L (file_ops L) params now m; old = manager_profiles L m (sp_name params)
     in r = Inr ()
      \<and> fst (profile_resolve L (file_ops L) (sp_name params) m1) = Inr \<lparr>
          rp_database_type = sp_database_type params,
          rp_config = \<lparr> cc_host = sp_host params, cc_port = sp_port params,
            cc_username = sp_username params,
            cc_password = (case sp_password params of Some pw \<Rightarrow> Some pw
               | None \<Rightarrow> secret_contents L (pm_secrets m) (secret_key (sp_name params))),
            cc_database = sp_database params,
            cc_ssl = SslConfig_default \<lparr> ssl_mode := sp_ssl_mode params \<rparr>,
            cc_read_only = (case sp_read_only params of Some b \<Rightarrow> b
               | None \<Rightarrow> (case old of None \<Rightarrow> False | Some p \<Rightarrow> cp_read_only p)),
            cc_additional_fields = [] \<rparr> \<rparr>
      \<and> fst (profile_resolve L (file_ops L) other m1) = fst (profile_resolve L (file_ops L) other m)"
proof -
  have ne: "sp_name params \<noteq> []" using assms(2) by (simp add: params_ok_def)
  obtain m1 where s: "profile_save L (file_ops L) params now m = (Inr (), m1)"
    and m1: "ready L m1"
      "manager_profiles L m1 = (manager_profiles L m)(sp_name params \<mapsto> save_profile params
          (manager_profiles L m (sp_name params))
          (saved_has_password params (manager_profiles L m (sp_name params))) now)"
      "secret_contents L (pm_secrets m1) = (case sp_password params of
          None \<Rightarrow> secret_contents L (pm_secrets m)
        | Some pw \<Rightarrow> (secret_contents L (pm_secrets m))(secret_key (sp_name params) \<mapsto> pw))"
    using save_file [OF assms(1,2) assms(2) assms(2)] by blast
  have "fst (profile_resolve L (file_ops L) other m1) = fst (profile_resolve L (file_ops L) other m)"
    using resolve_file [OF m1(1) assms(3)] resolve_file [OF assms(1,3)] m1(2,3) assms(4)
    by (auto split: option.splits)
  then show ?thesis
    using s resolve_file [OF m1(1) ne] m1(2,3)
    by (auto simp: save_profile_def profile_config_def split: option.splits)
qed

theorem save_then_resolve_witness:
  "cc_password (rp_config (projr (fst (profile_resolve ref_lib (file_ops ref_lib) ''prod''
      (snd (profile_save ref_lib (file_ops ref_lib) ref_params 5 ref_manager)))))) = Some ''hunter2''"
  using save_then_resolve [of ref_lib ref_manager ref_params 5 "''x''"]
  by (simp add: ref_params_def [THEN arg_cong, of sp_name] ref_params_def [THEN arg_cong, of sp_password]
      pair_simps)

text \<open>C35. Deleting a profile removes the profile and its stored password and nothing else: resolving
  it reports not-found, its key holds no secret, every other profile and every other secret is
  unchanged.\<close>

theorem delete_removes_both:
  assumes "ready L m" "name \<noteq> []" "manager_profiles L m name \<noteq> None"
  shows "let (r, m1) = profile_delete L (file_ops L) name m
     in r = Inr () \<and> fst (profile_resolve L (file_ops L) name m1) = Inl (NotFound name)
      \<and> manager_profiles L m1 = (manager_profiles L m)(name := None)
      \<and> secret_contents L (pm_secrets m1) = (secret_contents L (pm_secrets m))(secret_key name := None)"
proof -
  obtain m1 where d: "profile_delete L (file_ops L) name m = (Inr (), m1)" and m1: "ready L m1"
    "manager_profiles L m1 = (manager_profiles L m)(name := None)"
    "secret_contents L (pm_secrets m1) = (secret_contents L (pm_secrets m))(secret_key name := None)"
    using delete_file [OF assms] by blast
  then show ?thesis using resolve_file [OF m1(1) assms(2)] by auto
qed

definition saved_manager :: "file_store profile_manager" where
  "saved_manager = snd (profile_save ref_lib (file_ops ref_lib) ref_params 5 ref_manager)"

lemma saved_manager_facts:
  "ready ref_lib saved_manager"
  "manager_profiles ref_lib saved_manager = [''prod'' \<mapsto> save_profile ref_params None True 5]"
  "secret_contents ref_lib (pm_secrets saved_manager) = [secret_key ''prod'' \<mapsto> ''hunter2'']"
proof -
  obtain m1 where "profile_save ref_lib (file_ops ref_lib) ref_params 5 ref_manager = (Inr (), m1)"
    "ready ref_lib m1"
    "manager_profiles ref_lib m1 = [''prod'' \<mapsto> save_profile ref_params None True 5]"
    "secret_contents ref_lib (pm_secrets m1) = [secret_key ''prod'' \<mapsto> ''hunter2'']"
    using save_file [OF ref_manager_ready ref_params_ok(1) ref_params_ok(1) ref_params_ok(1)]
    by (auto simp: saved_has_password_def ref_params_def)
  then show "ready ref_lib saved_manager"
    "manager_profiles ref_lib saved_manager = [''prod'' \<mapsto> save_profile ref_params None True 5]"
    "secret_contents ref_lib (pm_secrets saved_manager) = [secret_key ''prod'' \<mapsto> ''hunter2'']"
    by (simp_all add: saved_manager_def)
qed

theorem delete_removes_both_witness:
  "fst (profile_resolve ref_lib (file_ops ref_lib) ''prod''
     (snd (profile_delete ref_lib (file_ops ref_lib) ''prod'' saved_manager))) = Inl (NotFound ''prod'')"
  using delete_removes_both [of ref_lib saved_manager "''prod''"] saved_manager_facts
  by (simp add: pair_simps)

text \<open>Deletion removes the metadata first. When the secret store then fails, the call reports the
  failure but the profile is gone, so it cannot be retried (the name is not found any more), and the
  password stays behind: a profile created later under the same name without a password says it has
  none and resolves with the old one.\<close>

theorem failed_delete_leaves_password:
  assumes "md_ok L (pm_metadata m)" "md_healthy (pm_metadata m)" "secret_store_ok L (pm_secrets m)"
    and "params_ok params now" "sp_password params = None"
    and "manager_profiles L m (sp_name params) \<noteq> None"
    and "secret_delete L (secret_key (sp_name params)) (pm_secrets m) = (Inl e, s')"
    and "secret_healthy L s'"
  shows "let (r, m1) = profile_delete L (file_ops L) (sp_name params) m;
         (r2, m2) = profile_save L (file_ops L) params now m1
     in r = Inl (SecretFailure e)
      \<and> fst (profile_delete L (file_ops L) (sp_name params) m1) = Inl (NotFound (sp_name params))
      \<and> r2 = Inr ()
      \<and> map_option cp_has_password (manager_profiles L m2 (sp_name params)) = Some False
      \<and> map_err (\<lambda>_. ()) (res_map (\<lambda>x. cc_password (rp_config x))
           (fst (profile_resolve L (file_ops L) (sp_name params) m2)))
         = Inr (secret_contents L (pm_secrets m) (secret_key (sp_name params)))"
proof -
  let ?n = "sp_name params"
  have ne: "?n \<noteq> []" using assms(4) by (simp add: params_ok_def)
  obtain m1 where d: "profile_delete L (file_ops L) ?n m = (Inl (SecretFailure e), m1)"
    and m1: "md_ok L (pm_metadata m1)" "md_healthy (pm_metadata m1)" "pm_secrets m1 = s'"
      "secret_store_ok L s'" "secret_contents L s' = secret_contents L (pm_secrets m)"
      "manager_profiles L m1 = (manager_profiles L m)(?n := None)"
    using delete_file_fails [OF assms(1-3) ne assms(6,7)] by blast
  have rd: "ready L m1" using m1 assms(8) by (simp add: manager_ready_def)
  have again: "fst (profile_delete L (file_ops L) ?n m1) = Inl (NotFound ?n)"
  proof -
    have "md_profiles L (pm_metadata m1) ?n = None" using m1(6) by (simp add: manager_profiles_def)
    then obtain md where "md_remove L ?n (pm_metadata m1) = (Inr False, md)"
      using md_remove_healthy [OF m1(1,2), of ?n] by auto
    then show ?thesis using ne by (simp add: profile_delete_def validate_name_def)
  qed
  obtain m2 where s: "profile_save L (file_ops L) params now m1 = (Inr (), m2)"
    and m2: "ready L m2"
      "manager_profiles L m2 = (manager_profiles L m1)(?n \<mapsto> save_profile params None False now)"
      "secret_contents L (pm_secrets m2) = secret_contents L (pm_secrets m1)"
    using save_file [OF rd assms(4) assms(4) assms(4)] assms(5) m1(6)
    by (auto simp: saved_has_password_def)
  show ?thesis
    using d again s m2 m1 resolve_file [OF m2(1) ne]
    by (auto simp: save_profile_def profile_config_def)
qed

text \<open>The saved manager on a disk that fails for one write.\<close>

definition full_disk :: "file_store \<Rightarrow> file_store" where
  "full_disk s = s \<lparr> es_calls := 0, es_read_faults := \<lambda>_. None,
     es_write_faults := \<lambda>n st. if n = 1 then Some ''disk full'' else None \<rparr>"

definition full_disk_manager :: "file_store profile_manager" where
  "full_disk_manager = saved_manager \<lparr> pm_secrets := full_disk (pm_secrets saved_manager) \<rparr>"

theorem failed_delete_leaves_password_witness:
  "let params = ref_params \<lparr> sp_password := None \<rparr>;
       (r, m1) = profile_delete ref_lib (file_ops ref_lib) ''prod'' full_disk_manager;
       (r2, m2) = profile_save ref_lib (file_ops ref_lib) params 6 m1
   in map_err (\<lambda>_. ()) (res_map (\<lambda>x. cc_password (rp_config x))
        (fst (profile_resolve ref_lib (file_ops ref_lib) ''prod'' m2))) = Inr (Some ''hunter2'')"
proof -
  let ?m = full_disk_manager and ?p = "ref_params \<lparr> sp_password := None \<rparr>"
  have name: "sp_name ?p = ''prod''" by (simp add: ref_params_def)
  have sm: "md_ok ref_lib (pm_metadata saved_manager)" "md_healthy (pm_metadata saved_manager)"
    "secret_store_ok ref_lib (pm_secrets saved_manager)"
    using saved_manager_facts(1) by (auto simp: manager_ready_def)
  have ok: "secret_store_ok ref_lib (pm_secrets ?m)"
    "secret_contents ref_lib (pm_secrets ?m) = [secret_key ''prod'' \<mapsto> ''hunter2'']"
    using store_ok_same_file [OF sm(3), of "full_disk (pm_secrets saved_manager)"] saved_manager_facts(3)
    by (simp_all add: full_disk_manager_def full_disk_def)
  obtain s' where s': "secret_delete ref_lib (secret_key ''prod'') (pm_secrets ?m) = (Inl (Io ''disk full''), s')"
    "es_calls s' = 2" "es_read_faults s' = (\<lambda>_. None)"
    "es_write_faults s' = (\<lambda>n st. if n = 1 then Some ''disk full'' else None)"
    using delete_fault [OF ok(1) secret_key_nonempty [of "''prod''"], of "''disk full''"]
    by (auto simp: full_disk_manager_def full_disk_def numeral_2_eq_2)
  have "secret_healthy ref_lib s'" using s' by (auto simp: secret_healthy_def)
  then have "let (r, m1) = profile_delete ref_lib (file_ops ref_lib) (sp_name ?p) ?m;
         (r2, m2) = profile_save ref_lib (file_ops ref_lib) ?p 6 m1
     in r = Inl (SecretFailure (Io ''disk full''))
      \<and> fst (profile_delete ref_lib (file_ops ref_lib) (sp_name ?p) m1) = Inl (NotFound (sp_name ?p))
      \<and> r2 = Inr ()
      \<and> map_option cp_has_password (manager_profiles ref_lib m2 (sp_name ?p)) = Some False
      \<and> map_err (\<lambda>_. ()) (res_map (\<lambda>x. cc_password (rp_config x))
           (fst (profile_resolve ref_lib (file_ops ref_lib) (sp_name ?p) m2)))
         = Inr (secret_contents ref_lib (pm_secrets ?m) (secret_key (sp_name ?p)))"
    using ok(1) sm s'(1) saved_manager_facts(2)
    by (intro failed_delete_leaves_password)
      (simp_all add: full_disk_manager_def manager_profiles_def name)
  then show ?thesis by (simp add: ok(2) name pair_simps)
qed

text \<open>\<open>save\<close> is not one critical section. A save that omits \<open>read_only\<close> and looked the profile up
  before another save turned the flag on writes the old flag back: the profile ends writable although
  the save that made it read-only reported success and no later save asked for a change.\<close>

theorem concurrent_save_drops_read_only:
  assumes "ready L m" "params_ok pa now" "params_ok pb now" "sp_name pb = sp_name pa"
    and "sp_password pa = None" "sp_read_only pa = None" "sp_read_only pb = Some True"
    and "map_option cp_read_only (manager_profiles L m (sp_name pa)) = Some False"
  shows "let (ra, m1) = save_lookup L (sp_name pa) m;
         (rb, m2) = profile_save L (file_ops L) pb now m1
     in rb = Inr () \<and> map_option cp_read_only (manager_profiles L m2 (sp_name pa)) = Some True
      \<and> (case ra of Inl _ \<Rightarrow> False | Inr existing \<Rightarrow>
          (case save_password (file_ops L) pa existing m2 of
             (Inl _, m3) \<Rightarrow> False
           | (Inr hp, m3) \<Rightarrow>
               (let (rc, m4) = save_commit L (save_profile pa existing hp now) m3
                in rc = Inr () \<and> map_option cp_read_only (manager_profiles L m4 (sp_name pa)) = Some False)))"
proof -
  let ?n = "sp_name pa"
  obtain p0 where p0: "manager_profiles L m ?n = Some p0" "\<not> cp_read_only p0"
    using assms(8) by (cases "manager_profiles L m ?n") auto
  have md: "md_ok L (pm_metadata m)" "md_healthy (pm_metadata m)"
    using assms(1) by (auto simp: manager_ready_def)
  obtain md1 where g: "md_get L ?n (pm_metadata m) = (Inr (Some p0), md1)" and g': "md_ok L md1" "md_healthy md1"
      "md_profiles L md1 = md_profiles L (pm_metadata m)"
    using md_get_healthy [OF md, of ?n] p0(1) by (metis manager_profiles_def)
  let ?m1 = "m \<lparr> pm_metadata := md1 \<rparr>"
  have m1: "ready L ?m1" "manager_profiles L ?m1 = manager_profiles L m"
    using assms(1) g' by (simp_all add: manager_ready_def manager_profiles_def)
  obtain m2 where b: "profile_save L (file_ops L) pb now ?m1 = (Inr (), m2)" and m2: "ready L m2"
    "manager_profiles L m2 = (manager_profiles L m)(?n \<mapsto>
        save_profile pb (Some p0) (saved_has_password pb (Some p0)) now)"
    using save_file [OF m1(1) assms(3) assms(3) assms(3)] assms(4) p0(1) m1(2) by auto
  let ?p = "save_profile pa (Some p0) (cp_has_password p0) now"
  have "profile_ok p0" using md_profile_ok [OF md(1)] p0(1) by (simp add: manager_profiles_def)
  then have pok: "profile_ok ?p" using save_profile_ok [OF assms(2), of "Some p0"] by simp
  have md2: "md_ok L (pm_metadata m2)" "md_healthy (pm_metadata m2)"
    using m2(1) by (auto simp: manager_ready_def)
  obtain md3 where c: "md_upsert L ?p (pm_metadata m2) = (Inr (), md3)"
      "md_profiles L md3 = (md_profiles L (pm_metadata m2))(?n \<mapsto> ?p)"
    using md_upsert_healthy [OF md2 pok] by auto
  have "save_lookup L ?n m = (Inr (Some p0), ?m1)" using g by (simp add: save_lookup_def)
  moreover have "save_password (file_ops L) pa (Some p0) m2 = (Inr (cp_has_password p0), m2)"
    using assms(5) by (simp add: save_password_def)
  moreover have "save_commit L ?p m2 = (Inr (), m2 \<lparr> pm_metadata := md3 \<rparr>)"
    using c by (simp add: save_commit_def)
  ultimately show ?thesis
    using b m2(2) c(2) p0(2) assms(6,7)
    by (simp add: manager_profiles_def) (simp add: save_profile_def)
qed

definition writable_params :: SaveProfileParams where
  "writable_params = ref_params \<lparr> sp_password := None, sp_read_only := None \<rparr>"

definition writable_manager :: "file_store profile_manager" where
  "writable_manager = snd (profile_save ref_lib (file_ops ref_lib) writable_params 6 ref_manager)"

theorem concurrent_save_drops_read_only_witness:
  "let pb = writable_params \<lparr> sp_read_only := Some True \<rparr>;
       (ra, m1) = save_lookup ref_lib ''prod'' writable_manager;
       (rb, m2) = profile_save ref_lib (file_ops ref_lib) pb 6 m1
   in rb = Inr () \<and> map_option cp_read_only (manager_profiles ref_lib m2 ''prod'') = Some True"
proof -
  have ok: "params_ok writable_params 6" "params_ok (writable_params \<lparr> sp_read_only := Some True \<rparr>) 6"
    by (simp_all add: writable_params_def params_ok_def ref_params_def is_ascii_def char_code_def)
  have name: "sp_name writable_params = ''prod''" by (simp add: writable_params_def ref_params_def)
  obtain m1 where "profile_save ref_lib (file_ops ref_lib) writable_params 6 ref_manager = (Inr (), m1)"
    "ready ref_lib m1"
    "manager_profiles ref_lib m1 = [''prod'' \<mapsto> save_profile writable_params None False 6]"
    using save_file [OF ref_manager_ready ok(1) ok(1) ok(1)]
    by (auto simp: saved_has_password_def name) (simp add: writable_params_def)
  then have m: "ready ref_lib writable_manager"
    "map_option cp_read_only (manager_profiles ref_lib writable_manager ''prod'') = Some False"
    by (simp_all add: writable_manager_def save_profile_def) (simp add: writable_params_def)
  show ?thesis
    using concurrent_save_drops_read_only [OF m(1) ok] m(2)
    by (simp add: name pair_simps) (simp add: writable_params_def)
qed

end
