(* ===== verification/Manager.thy ===== *)
theory Manager
  imports Main Prelude Lib Core Registry McpServer
begin

text \<open>
  \<open>connections/src/manager.rs\<close>, one operation at a time: the connection manager over a store of
  driver objects. A driver handle (an \<open>Arc\<close>) is an index into the store, so the two maps of the
  manager that share a driver share its state. The trait's methods the manager and the tools call
  are the fields of \<open>driver_ops\<close>; theory \<open>ManagerSteps\<close> has the interleavings.
\<close>

section \<open>The driver objects\<close>

record 'd driver_ops =
  do_connect :: "'d \<Rightarrow> unit dres \<times> 'd"
  do_disconnect :: "'d \<Rightarrow> unit dres \<times> 'd"
  do_apply_query_timeout :: "nat \<Rightarrow> 'd \<Rightarrow> unit dres \<times> 'd"
  do_keepalive :: "'d \<Rightarrow> KeepalivePosture"
  do_execute_user_query ::
    "string \<Rightarrow> nat option \<Rightarrow> CellValue list option \<Rightarrow> 'd \<Rightarrow> QueryResult dres option \<times> 'd"
  do_cancel_query :: "'d \<Rightarrow> unit dres \<times> 'd"
  do_fetch_tables :: "string option \<Rightarrow> 'd \<Rightarrow> TableInfo list dres \<times> 'd"
  do_fetch_table_metadata :: "string \<Rightarrow> string option \<Rightarrow> 'd \<Rightarrow> TableMetadata dres \<times> 'd"
  do_fetch_databases :: "'d \<Rightarrow> string list dres \<times> 'd"
  do_supports_schemas :: "'d \<Rightarrow> bool"
  do_fetch_schemas :: "'d \<Rightarrow> string list dres \<times> 'd"

text \<open>A query that does not finish within the client-side backstop is \<open>None\<close>.\<close>

section \<open>The manager\<close>

record ConnectionEntry =
  ce_driver :: nat
  ce_database_type :: string
  ce_connected_at :: nat

record ConnectionSummary =
  cs_connection_id :: uuid
  cs_database_type :: string
  cs_connected_at_unix_ms :: nat

datatype ConnectionManagerError =
    UnknownDatabaseType string
  | NotFound uuid
  | Superseded uuid
  | Driver DriverError

text \<open>The entries are kept in the order of their identifiers: the code iterates its hash map only to
  sort the result. Beside the code's four maps, the record holds the store of driver objects, the random
  generator as the sequence of identifiers it will produce, and the clock (milliseconds since the
  epoch, negative before it).\<close>

record 'd manager =
  mg_factories :: "(string \<times> (ConnectionConfig \<Rightarrow> 'd)) list"
  mg_attempts :: generations
  mg_sessions :: "nat sessions"
  mg_entries :: "(uuid, ConnectionEntry) btree"
  mg_drivers :: "nat \<Rightarrow> 'd option"
  mg_next :: nat
  mg_uuids :: "nat \<Rightarrow> uuid"
  mg_minted :: nat
  mg_clock :: int

definition manager_new :: "(nat \<Rightarrow> uuid) \<Rightarrow> 'd manager" where
  "manager_new uuids = \<lparr> mg_factories = [], mg_attempts = registry_new, mg_sessions = sessions_new,
     mg_entries = [], mg_drivers = Map.empty, mg_next = 0, mg_uuids = uuids, mg_minted = 0,
     mg_clock = 0 \<rparr>"

definition register_driver_factory :: "string \<Rightarrow> (ConnectionConfig \<Rightarrow> 'd) \<Rightarrow> 'd manager \<Rightarrow> 'd manager" where
  "register_driver_factory ty f m = m \<lparr> mg_factories := AList.update ty f (mg_factories m) \<rparr>"

text \<open>Milliseconds since the epoch, 0 before it, capped at the largest \<open>u64\<close>.\<close>

definition summary_from_entry :: "uuid \<Rightarrow> ConnectionEntry \<Rightarrow> ConnectionSummary" where
  "summary_from_entry cid e = \<lparr> cs_connection_id = cid, cs_database_type = ce_database_type e,
     cs_connected_at_unix_ms = min (ce_connected_at e) (2 ^ 64 - 1) \<rparr>"

text \<open>A method call on a shared driver.\<close>

definition on_driver :: "nat \<Rightarrow> ('d \<Rightarrow> 'a \<times> 'd) \<Rightarrow> 'd manager \<Rightarrow> 'a option \<times> 'd manager" where
  "on_driver h f m = (case mg_drivers m h of
     None \<Rightarrow> (None, m)
   | Some d \<Rightarrow> (let (x, d') = f d in (Some x, m \<lparr> mg_drivers := (mg_drivers m)(h \<mapsto> d') \<rparr>)))"

definition entry_get :: "uuid \<Rightarrow> 'd manager \<Rightarrow> ConnectionEntry option" where
  "entry_get cid m = bt_get (mg_entries m) cid"

definition finish_connect ::
  "'d driver_ops \<Rightarrow> AttemptToken \<Rightarrow> nat \<Rightarrow> 'd manager \<Rightarrow> (ConnectionManagerError + unit) \<times> 'd manager" where
  "finish_connect D token h m =
     (let cid = connection_id token;
          (r, ss) = insert_if_current (mg_attempts m) (mg_attempts m) token h (mg_sessions m);
          m1 = m \<lparr> mg_sessions := ss \<rparr>
      in case r of
           Inr None \<Rightarrow> (Inr (), m1)
         | Inr (Some previous) \<Rightarrow> (Inr (), snd (on_driver previous (do_disconnect D) m1))
         | Inl orphaned \<Rightarrow> (Inl (Superseded cid), snd (on_driver orphaned (do_disconnect D) m1)))"

definition manager_connect ::
  "'d driver_ops \<Rightarrow> string \<Rightarrow> ConnectionConfig \<Rightarrow> 'd manager \<Rightarrow> (ConnectionManagerError + uuid) \<times> 'd manager" where
  "manager_connect D ty config m = (case map_of (mg_factories m) ty of
     None \<Rightarrow> (Inl (UnknownDatabaseType ty), m)
   | Some factory \<Rightarrow>
     let cid = mg_uuids m (mg_minted m); h = mg_next m;
         (token, gs) = begin_attempt cid (mg_attempts m);
         (res, d1) = do_connect D (factory config);
         m1 = m \<lparr> mg_attempts := gs, mg_minted := Suc (mg_minted m), mg_next := Suc h \<rparr>
     in case res of
          Inl e \<Rightarrow> (Inl (Driver e), m1 \<lparr> mg_attempts := invalidate cid (mg_attempts m1) \<rparr>)
        | Inr _ \<Rightarrow>
          let (_, d2) = do_apply_query_timeout D SERVER_SECS d1;
              m2 = m1 \<lparr> mg_drivers := (mg_drivers m1)(h \<mapsto> d2) \<rparr>
          in case finish_connect D token h m2 of
               (Inl e, m3) \<Rightarrow> (Inl e, m3)
             | (Inr _, m3) \<Rightarrow>
                 (Inr cid, m3 \<lparr> mg_entries := bt_insert cid
                    \<lparr> ce_driver = h, ce_database_type = ty, ce_connected_at = nat (mg_clock m3) \<rparr>
                    (mg_entries m3) \<rparr>))"

definition manager_disconnect ::
  "'d driver_ops \<Rightarrow> uuid \<Rightarrow> 'd manager \<Rightarrow> (ConnectionManagerError + unit) \<times> 'd manager" where
  "manager_disconnect D cid m =
     (let entry = entry_get cid m;
          m1 = m \<lparr> mg_entries := bt_remove cid (mg_entries m),
                   mg_sessions := snd (sessions_remove cid (mg_sessions m)),
                   mg_attempts := forget cid (mg_attempts m) \<rparr>
      in case entry of
           None \<Rightarrow> (Inr (), m1)
         | Some e \<Rightarrow> (case on_driver (ce_driver e) (do_disconnect D) m1 of
             (Some r, m2) \<Rightarrow> (map_err Driver r, m2)
           | (None, m2) \<Rightarrow> (Inr (), m2)))"

definition manager_get :: "uuid \<Rightarrow> 'd manager \<Rightarrow> ConnectionManagerError + nat" where
  "manager_get cid m = ok_or (NotFound cid) (map_option ce_driver (entry_get cid m))"

definition manager_list :: "'d manager \<Rightarrow> ConnectionSummary list" where
  "manager_list m = sort_key cs_connection_id (map (\<lambda>(cid, e). summary_from_entry cid e) (mg_entries m))"

definition manager_status :: "uuid \<Rightarrow> 'd manager \<Rightarrow> ConnectionManagerError + ConnectionSummary" where
  "manager_status cid m = ok_or (NotFound cid) (map_option (summary_from_entry cid) (entry_get cid m))"

section \<open>Well-formed managers\<close>

text \<open>Between operations the two maps agree, every handle is in the store and no two connections share
  a driver. A random identifier can in principle collide with one in use; \<open>fresh_next\<close> says that the
  next one does not.\<close>

definition manager_ok :: "'d manager \<Rightarrow> bool" where
  "manager_ok m \<longleftrightarrow> bt_ok (mg_entries m)
     \<and> mg_sessions m = (\<lambda>cid. map_option ce_driver (bt_get (mg_entries m) cid))
     \<and> (\<forall>cid e. bt_get (mg_entries m) cid = Some e \<longrightarrow> ce_driver e < mg_next m \<and> mg_drivers m (ce_driver e) \<noteq> None)
     \<and> (\<forall>c c' e e'. bt_get (mg_entries m) c = Some e \<longrightarrow> bt_get (mg_entries m) c' = Some e' \<longrightarrow>
          ce_driver e = ce_driver e' \<longrightarrow> c = c')"

definition fresh_next :: "'d manager \<Rightarrow> bool" where
  "fresh_next m \<longleftrightarrow> bt_get (mg_entries m) (mg_uuids m (mg_minted m)) = None
     \<and> mg_attempts m (mg_uuids m (mg_minted m)) = None"

lemma on_driver_fields [simp]:
  "mg_entries (snd (on_driver h f m)) = mg_entries m"
  "mg_sessions (snd (on_driver h f m)) = mg_sessions m"
  "mg_attempts (snd (on_driver h f m)) = mg_attempts m"
  "mg_next (snd (on_driver h f m)) = mg_next m"
  "mg_uuids (snd (on_driver h f m)) = mg_uuids m"
  "mg_minted (snd (on_driver h f m)) = mg_minted m"
  "mg_factories (snd (on_driver h f m)) = mg_factories m"
  "mg_clock (snd (on_driver h f m)) = mg_clock m"
  by (simp_all add: on_driver_def pair_simps split: option.split)

lemma on_driver_dom [simp]: "mg_drivers (snd (on_driver h f m)) h' = None \<longleftrightarrow> mg_drivers m h' = None"
  by (simp add: on_driver_def pair_simps split: option.split)

lemma manager_ok_fields:
  "manager_ok m \<Longrightarrow> mg_entries m' = mg_entries m \<Longrightarrow> mg_sessions m' = mg_sessions m \<Longrightarrow>
   mg_next m \<le> mg_next m' \<Longrightarrow> (\<And>h. mg_drivers m h \<noteq> None \<Longrightarrow> mg_drivers m' h \<noteq> None) \<Longrightarrow> manager_ok m'"
  unfolding manager_ok_def by (auto, meson less_le_trans)

text \<open>With a fresh identifier the fence lets the attempt through and there is no previous session.\<close>

lemma fresh_id:
  assumes "manager_ok m" "fresh_next m"
  shows "mg_attempts m (mg_uuids m (mg_minted m)) = None"
    "bt_get (mg_entries m) (mg_uuids m (mg_minted m)) = None"
    "mg_sessions m (mg_uuids m (mg_minted m)) = None"
  using assms by (auto simp: manager_ok_def fresh_next_def)

definition connected_manager ::
  "uuid \<Rightarrow> nat \<Rightarrow> string \<Rightarrow> 'd \<Rightarrow> 'd manager \<Rightarrow> 'd manager" where
  "connected_manager cid h ty d m = m \<lparr> mg_attempts := (mg_attempts m)(cid \<mapsto> 1),
     mg_minted := Suc (mg_minted m), mg_next := Suc h, mg_drivers := (mg_drivers m)(h \<mapsto> d),
     mg_sessions := (mg_sessions m)(cid \<mapsto> h),
     mg_entries := bt_insert cid
        \<lparr> ce_driver = h, ce_database_type = ty, ce_connected_at = nat (mg_clock m) \<rparr> (mg_entries m) \<rparr>"

lemma connect_succeeds:
  assumes "manager_ok m" "fresh_next m" "map_of (mg_factories m) ty = Some f"
    and "do_connect D (f config) = (Inr u, d1)"
  shows "manager_connect D ty config m = (Inr (mg_uuids m (mg_minted m)),
     connected_manager (mg_uuids m (mg_minted m)) (mg_next m) ty
       (snd (do_apply_query_timeout D SERVER_SECS d1)) m)"
  using assms(3,4) fresh_id [OF assms(1,2)]
  by (simp add: manager_connect_def begin_attempt_def next_generation_def AttemptToken_new_def
      finish_connect_def insert_if_current_def is_current_def connected_manager_def pair_simps)

lemma connect_driver_fails:
  assumes "manager_ok m" "fresh_next m" "map_of (mg_factories m) ty = Some f"
    and "do_connect D (f config) = (Inl e, d1)"
  shows "manager_connect D ty config m = (Inl (Driver e), m \<lparr>
     mg_attempts := (mg_attempts m)(mg_uuids m (mg_minted m) \<mapsto> 2),
     mg_minted := Suc (mg_minted m), mg_next := Suc (mg_next m) \<rparr>)"
  using assms(3,4) fresh_id [OF assms(1,2)]
  by (simp add: manager_connect_def begin_attempt_def invalidate_def next_generation_def pair_simps)

lemma connected_manager_ok:
  assumes "manager_ok m"
  shows "manager_ok (connected_manager c (mg_next m) ty d m)"
proof -
  have old: "ce_driver e < mg_next m" if "bt_get (mg_entries m) c = Some e" for c e
    using assms that by (simp add: manager_ok_def)
  then show ?thesis
    using assms by (auto simp: manager_ok_def connected_manager_def fun_eq_iff less_Suc_eq dest: old)
qed

lemma connect_ok:
  assumes "manager_ok m" "fresh_next m"
  shows "manager_ok (snd (manager_connect D ty config m))"
proof (cases "map_of (mg_factories m) ty")
  case None
  then show ?thesis using assms by (simp add: manager_connect_def)
next
  case (Some f)
  obtain r d1 where d: "do_connect D (f config) = (r, d1)" by fastforce
  show ?thesis
  proof (cases r)
    case (Inl e)
    then show ?thesis
      using connect_driver_fails [OF assms Some d [unfolded Inl]]
      by (intro manager_ok_fields [OF assms(1)]) auto
  next
    case (Inr u)
    then show ?thesis
      using connect_succeeds [OF assms Some d [unfolded Inr]] connected_manager_ok [OF assms(1)] by simp
  qed
qed

lemma disconnect_maps:
  "mg_entries (snd (manager_disconnect D cid m)) = bt_remove cid (mg_entries m)"
  "mg_sessions (snd (manager_disconnect D cid m)) = (mg_sessions m)(cid := None)"
  "mg_attempts (snd (manager_disconnect D cid m)) = forget cid (mg_attempts m)"
  "mg_next (snd (manager_disconnect D cid m)) = mg_next m"
  "mg_uuids (snd (manager_disconnect D cid m)) = mg_uuids m"
  "mg_minted (snd (manager_disconnect D cid m)) = mg_minted m"
  "mg_drivers (snd (manager_disconnect D cid m)) h = None \<longleftrightarrow> mg_drivers m h = None"
  by (auto simp: manager_disconnect_def sessions_remove_def on_driver_def pair_simps Let_def split: option.split)

lemma disconnect_ok:
  assumes "manager_ok m"
  shows "manager_ok (snd (manager_disconnect D cid m))"
  using assms by (simp add: manager_ok_def disconnect_maps fun_eq_iff)

section \<open>A concrete driver\<close>

text \<open>A driver whose state counts the calls made on it; it refuses to connect to port 0.\<close>

definition counting_ops :: "nat driver_ops" where
  "counting_ops = \<lparr>
     do_connect = (\<lambda>d. (if d = 0 then Inl (driver_error Connection ''refused'') else Inr (), d + 1)),
     do_disconnect = (\<lambda>d. (Inr (), d + 1)),
     do_apply_query_timeout = (\<lambda>n d. (Inr (), d + 1)),
     do_keepalive = (\<lambda>d. Applied),
     do_execute_user_query = (\<lambda>q n ps d. (Some (Inr QueryResult_empty), d + 1)),
     do_cancel_query = (\<lambda>d. (Inr (), d + 1)),
     do_fetch_tables = (\<lambda>s d. (Inr [], d)),
     do_fetch_table_metadata = (\<lambda>t s d. (Inl (driver_error Query t), d)),
     do_fetch_databases = (\<lambda>d. (Inr [''main''], d)),
     do_supports_schemas = (\<lambda>d. d > 0),
     do_fetch_schemas = (\<lambda>d. (Inr [''public''], d)) \<rparr>"

definition counting_manager :: "nat manager" where
  "counting_manager = register_driver_factory ''counting'' cc_port (manager_new word_of_nat)"

definition port_config :: "nat \<Rightarrow> ConnectionConfig" where
  "port_config p = \<lparr> cc_host = ''h'', cc_port = p, cc_username = ''u'', cc_password = None,
     cc_database = None, cc_ssl = SslConfig_default, cc_read_only = False, cc_additional_fields = [] \<rparr>"

lemmas counting_simps = counting_ops_def counting_manager_def register_driver_factory_def
  manager_new_def port_config_def registry_new_def sessions_new_def

lemma counting_manager_ok [simp]: "manager_ok counting_manager" "fresh_next counting_manager"
  by (simp_all add: manager_ok_def fresh_next_def counting_simps fun_eq_iff)

lemma counting_factory [simp]: "map_of (mg_factories counting_manager) ''counting'' = Some cc_port"
  by (simp add: counting_simps)

lemma counting_connect [simp]:
  "do_connect counting_ops (cc_port (port_config 5)) = (Inr (), 6)"
  "do_connect counting_ops (cc_port (port_config 0)) = (Inl (driver_error Connection ''refused''), 1)"
  by (simp_all add: counting_simps)

lemma counting_first [simp]:
  "mg_uuids counting_manager (mg_minted counting_manager) = 0" "mg_next counting_manager = 0"
  "do_apply_query_timeout counting_ops n d = (Inr (), d + 1)"
  "do_disconnect counting_ops d = (Inr (), d + 1)"
  by (simp_all add: counting_simps)

section \<open>Properties\<close>

text \<open>A connect whose driver comes up returns a new identifier under which exactly that driver is
  found, with the server-side timeout already applied to it; disconnecting the identifier calls that
  driver's disconnect, reports its result, and after it the identifier is unknown; the other
  connections are untouched throughout. Both keep the manager well formed.\<close>

theorem connect_get_disconnect:
  assumes "manager_ok m" "fresh_next m" "map_of (mg_factories m) ty = Some f"
    and "do_connect D (f config) = (Inr (), d1)"
  shows "let (r, m1) = manager_connect D ty config m; cid = mg_uuids m (mg_minted m);
             d2 = snd (do_apply_query_timeout D 30 d1);
             (r2, m2) = manager_disconnect D cid m1
     in r = Inr cid \<and> manager_ok m1 \<and> manager_ok m2
      \<and> entry_get cid m = None
      \<and> manager_get cid m1 = Inr (mg_next m) \<and> mg_drivers m1 (mg_next m) = Some d2
      \<and> r2 = map_err Driver (fst (do_disconnect D d2))
      \<and> mg_drivers m2 (mg_next m) = Some (snd (do_disconnect D d2))
      \<and> manager_get cid m2 = Inl (NotFound cid)
      \<and> (if other = cid then True else manager_get other m1 = manager_get other m
           \<and> manager_get other m2 = manager_get other m)"
proof -
  let ?c = "mg_uuids m (mg_minted m)"
  let ?d2 = "snd (do_apply_query_timeout D 30 d1)"
  let ?m1 = "connected_manager ?c (mg_next m) ty ?d2 m"
  have c: "manager_connect D ty config m = (Inr ?c, ?m1)"
    using connect_succeeds [OF assms] by (simp add: SERVER_SECS_def)
  have ok1: "manager_ok ?m1" by (rule connected_manager_ok [OF assms(1)])
  have ok2: "manager_ok (snd (manager_disconnect D ?c ?m1))" by (rule disconnect_ok [OF ok1])
  show ?thesis
    using c ok1 ok2 fresh_id [OF assms(1,2)]
    by (simp add: manager_get_def entry_get_def disconnect_maps pair_simps)
      (simp add: connected_manager_def manager_disconnect_def on_driver_def entry_get_def pair_simps)
qed

theorem connect_get_disconnect_witness:
  "let (r, m1) = manager_connect counting_ops ''counting'' (port_config 5) counting_manager;
       (r2, m2) = manager_disconnect counting_ops 0 m1
   in r = Inr 0 \<and> mg_drivers m1 0 = Some 7 \<and> r2 = Inr () \<and> mg_drivers m2 0 = Some 8
      \<and> manager_get 0 m2 = Inl (NotFound 0)"
  using connect_get_disconnect [of counting_manager "''counting''" cc_port counting_ops "port_config 5" 6]
  by (simp add: pair_simps)

text \<open>Disconnecting an unknown identifier is a success that changes no connection; a connect whose
  driver fails reports the driver's error and leaves every connection as it was, but it leaves its
  generation behind: the identifier, which no one will ever use again, stays in the attempt registry
  for the life of the server.\<close>

theorem failed_connect_leaves_generation:
  assumes "manager_ok m" "fresh_next m" "map_of (mg_factories m) ty = Some f"
    and "do_connect D (f config) = (Inl e, d1)"
  shows "let (r, m1) = manager_connect D ty config m; cid = mg_uuids m (mg_minted m)
     in r = Inl (Driver e) \<and> manager_ok m1 \<and> mg_entries m1 = mg_entries m
      \<and> mg_sessions m1 = mg_sessions m \<and> mg_drivers m1 = mg_drivers m
      \<and> mg_attempts m cid = None \<and> mg_attempts m1 cid = Some 2
      \<and> fst (manager_disconnect D cid m1) = Inr ()"
  using connect_driver_fails [OF assms] connect_ok [OF assms(1,2), of D ty config] fresh_id [OF assms(1,2)]
  by (simp add: manager_disconnect_def entry_get_def pair_simps)

theorem failed_connect_leaves_generation_witness:
  "let (r, m1) = manager_connect counting_ops ''counting'' (port_config 0) counting_manager
   in r = Inl (Driver (driver_error Connection ''refused'')) \<and> mg_attempts m1 0 = Some 2"
  using failed_connect_leaves_generation
    [of counting_manager "''counting''" cc_port counting_ops "port_config 0"]
  by (simp add: pair_simps)

end
