(* ===== verification/ManagerSteps.thy ===== *)
theory ManagerSteps
  imports Main Prelude Registry
begin

text \<open>
  The interleavings of \<open>ConnectionManager::connect\<close> and \<open>disconnect\<close>: every task is a program counter
  and every critical section or awaited driver call is one step of the relation \<open>mstep\<close>. A driver is
  its handle; the ghost sets say which drivers were created, which have an open connection and on
  which \<open>disconnect\<close> was called. The parameter of the relation says whether \<open>disconnect\<close> may be
  called with identifiers no \<open>connect\<close> has returned yet.
\<close>

section \<open>States and steps\<close>

datatype task_outcome = Connected_as uuid | Connect_failed | Was_superseded uuid | Disconnected

datatype task =
    Connecting uuid AttemptToken nat
  | Opened uuid AttemptToken nat
  | Checked uuid AttemptToken nat
  | Inserting uuid AttemptToken nat
  | Installed uuid nat "nat option"
  | Publishing uuid nat
  | Orphaned uuid nat
  | EntryRemoved uuid "nat option"
  | SessionRemoved uuid "nat option"
  | Forgotten uuid "nat option"
  | Finished task_outcome

record mstate =
  s_attempts :: generations
  s_sessions :: "nat sessions"
  s_entries :: "uuid \<Rightarrow> nat option"
  s_tasks :: "nat \<Rightarrow> task option"
  s_minted :: "uuid set"
  s_created :: "nat set"
  s_open :: "nat set"
  s_released :: "nat set"

definition mstate_init :: mstate where
  "mstate_init = \<lparr> s_attempts = registry_new, s_sessions = sessions_new, s_entries = Map.empty,
     s_tasks = Map.empty, s_minted = {}, s_created = {}, s_open = {}, s_released = {} \<rparr>"

definition published :: "mstate \<Rightarrow> uuid \<Rightarrow> bool" where
  "published s cid \<longleftrightarrow> (\<exists>t. s_tasks s t = Some (Finished (Connected_as cid)))"

text \<open>The session map's mutex is held from the second check to the insert.\<close>

definition sessions_free :: "mstate \<Rightarrow> bool" where
  "sessions_free s \<longleftrightarrow> (\<forall>t cid tok d. s_tasks s t \<noteq> Some (Inserting cid tok d))"

definition set_task :: "nat \<Rightarrow> task \<Rightarrow> mstate \<Rightarrow> mstate" where
  "set_task t T s = s \<lparr> s_tasks := (s_tasks s)(t \<mapsto> T) \<rparr>"

inductive mstep :: "bool \<Rightarrow> mstate \<Rightarrow> mstate \<Rightarrow> bool" for guess :: bool where
  connect_start: "s_tasks s t = None \<Longrightarrow> cid \<notin> s_minted s \<Longrightarrow> d \<notin> s_created s \<Longrightarrow>
    begin_attempt cid (s_attempts s) = (tok, gs) \<Longrightarrow>
    mstep guess s (set_task t (Connecting cid tok d) (s \<lparr> s_attempts := gs,
      s_minted := insert cid (s_minted s), s_created := insert d (s_created s) \<rparr>))"
| driver_fails: "s_tasks s t = Some (Connecting cid tok d) \<Longrightarrow>
    mstep guess s (set_task t (Finished Connect_failed)
      (s \<lparr> s_attempts := invalidate cid (s_attempts s) \<rparr>))"
| driver_opens: "s_tasks s t = Some (Connecting cid tok d) \<Longrightarrow>
    mstep guess s (set_task t (Opened cid tok d) (s \<lparr> s_open := insert d (s_open s) \<rparr>))"
| check_ok: "s_tasks s t = Some (Opened cid tok d) \<Longrightarrow> is_current (s_attempts s) tok \<Longrightarrow>
    mstep guess s (set_task t (Checked cid tok d) s)"
| check_stale: "s_tasks s t = Some (Opened cid tok d) \<Longrightarrow> \<not> is_current (s_attempts s) tok \<Longrightarrow>
    mstep guess s (set_task t (Orphaned cid d) s)"
| recheck_ok: "s_tasks s t = Some (Checked cid tok d) \<Longrightarrow> sessions_free s \<Longrightarrow>
    is_current (s_attempts s) tok \<Longrightarrow> mstep guess s (set_task t (Inserting cid tok d) s)"
| recheck_stale: "s_tasks s t = Some (Checked cid tok d) \<Longrightarrow> sessions_free s \<Longrightarrow>
    \<not> is_current (s_attempts s) tok \<Longrightarrow> mstep guess s (set_task t (Orphaned cid d) s)"
| insert_session: "s_tasks s t = Some (Inserting cid tok d) \<Longrightarrow>
    mstep guess s (set_task t (Installed cid d (s_sessions s cid))
      (s \<lparr> s_sessions := (s_sessions s)(cid \<mapsto> d) \<rparr>))"
| no_previous: "s_tasks s t = Some (Installed cid d None) \<Longrightarrow>
    mstep guess s (set_task t (Publishing cid d) s)"
| previous: "s_tasks s t = Some (Installed cid d (Some p)) \<Longrightarrow>
    mstep guess s (set_task t (Publishing cid d) (s \<lparr> s_released := insert p (s_released s) \<rparr>))"
| publish: "s_tasks s t = Some (Publishing cid d) \<Longrightarrow>
    mstep guess s (set_task t (Finished (Connected_as cid))
      (s \<lparr> s_entries := (s_entries s)(cid \<mapsto> d) \<rparr>))"
| orphan: "s_tasks s t = Some (Orphaned cid d) \<Longrightarrow>
    mstep guess s (set_task t (Finished (Was_superseded cid))
      (s \<lparr> s_released := insert d (s_released s) \<rparr>))"
| disconnect_start: "s_tasks s t = None \<Longrightarrow> guess \<or> published s cid \<Longrightarrow>
    mstep guess s (set_task t (EntryRemoved cid (s_entries s cid))
      (s \<lparr> s_entries := (s_entries s)(cid := None) \<rparr>))"
| disconnect_session: "s_tasks s t = Some (EntryRemoved cid e) \<Longrightarrow> sessions_free s \<Longrightarrow>
    mstep guess s (set_task t (SessionRemoved cid e)
      (s \<lparr> s_sessions := (s_sessions s)(cid := None) \<rparr>))"
| disconnect_forget: "s_tasks s t = Some (SessionRemoved cid e) \<Longrightarrow>
    mstep guess s (set_task t (Forgotten cid e) (s \<lparr> s_attempts := forget cid (s_attempts s) \<rparr>))"
| disconnect_driver: "s_tasks s t = Some (Forgotten cid (Some d)) \<Longrightarrow>
    mstep guess s (set_task t (Finished Disconnected) (s \<lparr> s_released := insert d (s_released s) \<rparr>))"
| disconnect_nothing: "s_tasks s t = Some (Forgotten cid None) \<Longrightarrow>
    mstep guess s (set_task t (Finished Disconnected) s)"

inductive reachable :: "bool \<Rightarrow> mstate \<Rightarrow> bool" for guess :: bool where
  reach_init: "reachable guess mstate_init"
| reach_step: "reachable guess s \<Longrightarrow> mstep guess s s' \<Longrightarrow> reachable guess s'"

definition quiescent :: "mstate \<Rightarrow> bool" where
  "quiescent s \<longleftrightarrow> (\<forall>t T. s_tasks s t = Some T \<longrightarrow> (\<exists>r. T = Finished r))"

section \<open>Who owns a driver\<close>

text \<open>The open driver a task answers for, and the identifier and driver of a connect that has not
  published yet.\<close>

fun task_holds :: "task \<Rightarrow> nat option" where
  "task_holds (Opened cid tok d) = Some d"
| "task_holds (Checked cid tok d) = Some d"
| "task_holds (Inserting cid tok d) = Some d"
| "task_holds (Installed cid d p) = Some d"
| "task_holds (Publishing cid d) = Some d"
| "task_holds (Orphaned cid d) = Some d"
| "task_holds (EntryRemoved cid e) = e"
| "task_holds (SessionRemoved cid e) = e"
| "task_holds (Forgotten cid e) = e"
| "task_holds _ = None"

fun connect_id :: "task \<Rightarrow> uuid option" where
  "connect_id (Connecting cid tok d) = Some cid"
| "connect_id (Opened cid tok d) = Some cid"
| "connect_id (Checked cid tok d) = Some cid"
| "connect_id (Inserting cid tok d) = Some cid"
| "connect_id (Installed cid d p) = Some cid"
| "connect_id (Publishing cid d) = Some cid"
| "connect_id _ = None"

fun before_insert :: "task \<Rightarrow> bool" where
  "before_insert (Connecting cid tok d) = True"
| "before_insert (Opened cid tok d) = True"
| "before_insert (Checked cid tok d) = True"
| "before_insert (Inserting cid tok d) = True"
| "before_insert _ = False"

datatype owner = Entry uuid | Task nat

definition holder :: "mstate \<Rightarrow> owner \<Rightarrow> nat option" where
  "holder s w = (case w of
     Entry cid \<Rightarrow> s_entries s cid
   | Task t \<Rightarrow> (case s_tasks s t of None \<Rightarrow> None | Some T \<Rightarrow> task_holds T))"

text \<open>Identifiers: at most one task is connecting under an identifier; until it publishes, the
  identifier has no entry, and until it inserts, no session; the session it inserts replaces none.\<close>

definition ids_ok :: "mstate \<Rightarrow> bool" where
  "ids_ok s \<longleftrightarrow>
     (\<forall>t t' T T' cid. s_tasks s t = Some T \<longrightarrow> s_tasks s t' = Some T' \<longrightarrow>
        connect_id T = Some cid \<longrightarrow> connect_id T' = Some cid \<longrightarrow> t = t')
   \<and> (\<forall>t T cid. s_tasks s t = Some T \<longrightarrow> connect_id T = Some cid \<longrightarrow>
        cid \<in> s_minted s \<and> s_entries s cid = None \<and> (before_insert T \<longrightarrow> s_sessions s cid = None))
   \<and> (\<forall>t cid d p. s_tasks s t = Some (Installed cid d p) \<longrightarrow> p = None)
   \<and> (\<forall>cid. s_sessions s cid \<noteq> None \<or> s_entries s cid \<noteq> None \<longrightarrow> cid \<in> s_minted s)"

text \<open>Drivers: every open driver that was not released has exactly one owner, and a driver that is
  still connecting belongs to the one task that created it.\<close>

definition drivers_ok :: "mstate \<Rightarrow> bool" where
  "drivers_ok s \<longleftrightarrow>
     (\<forall>w w' d. holder s w = Some d \<longrightarrow> holder s w' = Some d \<longrightarrow> w = w')
   \<and> (\<forall>d. (\<exists>w. holder s w = Some d) \<longleftrightarrow> d \<in> s_open s \<and> d \<notin> s_released s)
   \<and> s_open s \<subseteq> s_created s \<and> s_released s \<subseteq> s_created s
   \<and> (\<forall>t cid tok d. s_tasks s t = Some (Connecting cid tok d) \<longrightarrow>
        d \<notin> s_open s \<and> d \<in> s_created s \<and> d \<notin> s_released s)
   \<and> (\<forall>t t' cid tok d cid' tok'. s_tasks s t = Some (Connecting cid tok d) \<longrightarrow>
        s_tasks s t' = Some (Connecting cid' tok' d) \<longrightarrow> t = t')"

lemma set_task_fields [simp]:
  "s_tasks (set_task t T s) = (s_tasks s)(t \<mapsto> T)"
  "s_entries (set_task t T s) = s_entries s" "s_sessions (set_task t T s) = s_sessions s"
  "s_attempts (set_task t T s) = s_attempts s" "s_minted (set_task t T s) = s_minted s"
  "s_created (set_task t T s) = s_created s" "s_open (set_task t T s) = s_open s"
  "s_released (set_task t T s) = s_released s"
  by (simp_all add: set_task_def)

lemma holder_simps [simp]:
  "holder s (Entry cid) = s_entries s cid"
  "s_tasks s t = Some T \<Longrightarrow> holder s (Task t) = task_holds T"
  "s_tasks s t = None \<Longrightarrow> holder s (Task t) = None"
  by (simp_all add: holder_def)

lemma holder_set_task [simp]: "holder (set_task t T s) = (holder s)(Task t := task_holds T)"
  by (auto simp: holder_def fun_eq_iff split: owner.splits)

lemma holder_update [simp]:
  "holder (s \<lparr> s_attempts := a \<rparr>) = holder s" "holder (s \<lparr> s_sessions := b \<rparr>) = holder s"
  "holder (s \<lparr> s_minted := c \<rparr>) = holder s" "holder (s \<lparr> s_created := d \<rparr>) = holder s"
  "holder (s \<lparr> s_open := d \<rparr>) = holder s" "holder (s \<lparr> s_released := d \<rparr>) = holder s"
  "holder (s \<lparr> s_entries := (s_entries s)(cid := e) \<rparr>) = (holder s)(Entry cid := e)"
  by (auto simp: holder_def fun_eq_iff split: owner.splits)

lemma ids_ok_init: "ids_ok mstate_init"
  by (simp add: ids_ok_def mstate_init_def sessions_new_def)

lemma drivers_ok_init: "drivers_ok mstate_init"
  by (auto simp: drivers_ok_def mstate_init_def holder_def split: owner.splits)

text \<open>A step that only advances one task, and may drop entries and sessions.\<close>

lemma ids_keep:
  assumes ok: "ids_ok s" and t: "s_tasks s' = (s_tasks s)(t \<mapsto> T')"
    and c: "\<And>cid. connect_id T' = Some cid \<Longrightarrow> \<exists>T. s_tasks s t = Some T \<and> connect_id T = Some cid
        \<and> (before_insert T' \<longrightarrow> before_insert T)"
    and p: "\<And>cid d p. T' = Installed cid d p \<Longrightarrow> p = None"
    and m: "s_minted s' = s_minted s"
    and e: "\<And>cid. s_entries s' cid \<noteq> None \<Longrightarrow> s_entries s cid \<noteq> None"
    and ss: "\<And>cid. s_sessions s' cid \<noteq> None \<Longrightarrow> s_sessions s cid \<noteq> None"
  shows "ids_ok s'"
  unfolding ids_ok_def
proof (intro conjI allI impI)
  fix u u' U U' cid
  assume *: "s_tasks s' u = Some U" "s_tasks s' u' = Some U'" "connect_id U = Some cid"
    "connect_id U' = Some cid"
  have "\<exists>V. s_tasks s u = Some V \<and> connect_id V = Some cid" using * t c by (auto split: if_splits)
  moreover have "\<exists>V. s_tasks s u' = Some V \<and> connect_id V = Some cid"
    using * t c by (auto split: if_splits)
  ultimately show "u = u'" using ok unfolding ids_ok_def by blast
next
  fix u U cid
  assume *: "s_tasks s' u = Some U" "connect_id U = Some cid"
  then obtain V where V: "s_tasks s u = Some V" "connect_id V = Some cid"
    "before_insert U \<Longrightarrow> before_insert V" using t c by (auto split: if_splits)
  then have "cid \<in> s_minted s \<and> s_entries s cid = None \<and> (before_insert V \<longrightarrow> s_sessions s cid = None)"
    using ok unfolding ids_ok_def by blast
  then show "cid \<in> s_minted s'" "s_entries s' cid = None" "before_insert U \<Longrightarrow> s_sessions s' cid = None"
    using V(3) m e [of cid] ss [of cid] by blast+
next
  fix u cid d q
  assume "s_tasks s' u = Some (Installed cid d q)"
  then show "q = None" using t p ok unfolding ids_ok_def by (auto split: if_splits)
next
  fix cid
  assume "s_sessions s' cid \<noteq> None \<or> s_entries s' cid \<noteq> None"
  then have "s_sessions s cid \<noteq> None \<or> s_entries s cid \<noteq> None" using e ss by blast
  then show "cid \<in> s_minted s'" using m ok unfolding ids_ok_def by (metis (no_types))
qed

lemmas ids_keep_task = ids_keep [where s' = "set_task t T s1" and t = t and T' = T for t T s1]

lemma ids_connect:
  assumes "ids_ok s" "s_tasks s t = None" "cid \<notin> s_minted s"
    and "s_tasks s' = (s_tasks s)(t \<mapsto> Connecting cid tok d)" "s_minted s' = insert cid (s_minted s)"
    and "s_entries s' = s_entries s" "s_sessions s' = s_sessions s"
  shows "ids_ok s'"
proof -
  have "s_sessions s cid = None" "s_entries s cid = None"
    using assms(1,3) unfolding ids_ok_def by blast+
  moreover have "connect_id T \<noteq> Some cid" if "s_tasks s u = Some T" for u T
    using assms(1,3) that unfolding ids_ok_def by blast
  ultimately show ?thesis
    using assms(1) unfolding ids_ok_def assms(4-7) by (auto split: if_splits)
qed

lemma ids_others:
  assumes "ids_ok s" "s_tasks s t = Some T" "connect_id T = Some cid" "s_tasks s u = Some U" "u \<noteq> t"
  shows "connect_id U \<noteq> Some cid"
  using assms unfolding ids_ok_def by blast

lemma ids_insert:
  assumes "ids_ok s" "s_tasks s t = Some (Inserting cid tok d)"
    and "s_tasks s' = (s_tasks s)(t \<mapsto> Installed cid d (s_sessions s cid))"
    and "s_minted s' = s_minted s" "s_entries s' = s_entries s"
    and "s_sessions s' = (s_sessions s)(cid \<mapsto> d)"
  shows "ids_ok s'"
proof -
  have "s_sessions s cid = None" "s_entries s cid = None" "cid \<in> s_minted s"
    using assms(1,2) unfolding ids_ok_def by (metis before_insert.simps(4) connect_id.simps(4))+
  moreover have "connect_id T \<noteq> Some cid" if "s_tasks s u = Some T" "u \<noteq> t" for u T
    using ids_others [OF assms(1,2) _ that] by simp
  ultimately show ?thesis
    using assms(1) unfolding ids_ok_def assms(3-6) by (auto split: if_splits)
qed

lemma ids_publish:
  assumes "ids_ok s" "s_tasks s t = Some (Publishing cid d)"
    and "s_tasks s' = (s_tasks s)(t \<mapsto> Finished (Connected_as cid))"
    and "s_minted s' = s_minted s" "s_entries s' = (s_entries s)(cid \<mapsto> d)"
    and "s_sessions s' = s_sessions s"
  shows "ids_ok s'"
proof -
  have "cid \<in> s_minted s"
    using assms(1,2) unfolding ids_ok_def by (metis connect_id.simps(6))
  moreover have "connect_id T \<noteq> Some cid" if "s_tasks s u = Some T" "u \<noteq> t" for u T
    using ids_others [OF assms(1,2) _ that] by simp
  ultimately show ?thesis
    using assms(1) unfolding ids_ok_def assms(3-6) by (auto split: if_splits)
qed

lemma ids_step: "mstep guess s s' \<Longrightarrow> ids_ok s \<Longrightarrow> ids_ok s'"
proof (induction rule: mstep.induct)
  case (connect_start s t cid d tok gs)
  then show ?case by - (rule ids_connect [of s t cid _ tok d], simp_all)
next
  case (insert_session s t cid tok d)
  then show ?case by - (rule ids_insert [of s t cid tok d], simp_all)
next
  case (publish s t cid d)
  then show ?case by - (rule ids_publish [of s t cid d], simp_all)
qed (erule ids_keep_task; simp split: if_splits)+

subsection \<open>Drivers\<close>

lemma drivers_same:
  assumes "drivers_ok s" "holder s' = holder s" "s_open s' = s_open s" "s_released s' = s_released s"
    and "s_created s' = s_created s" "s_tasks s' = (s_tasks s)(t \<mapsto> T)" "connect_id T = None \<or> task_holds T \<noteq> None"
  shows "drivers_ok s'"
  using assms(1,7) unfolding drivers_ok_def assms(2-6) by (auto split: if_splits)

lemma drivers_created:
  assumes "drivers_ok s" "holder s' = holder s" "s_open s' = s_open s" "s_released s' = s_released s"
    and "s_created s' = insert d (s_created s)" "d \<notin> s_created s"
    and "s_tasks s' = (s_tasks s)(t \<mapsto> Connecting cid tok d)"
  shows "drivers_ok s'"
  using assms(1,6) unfolding drivers_ok_def assms(2-5,7) by (auto split: if_splits)

lemma drivers_opened:
  assumes "drivers_ok s" "s_tasks s t = Some (Connecting cid tok d)"
    and "holder s' = (holder s)(Task t := Some d)" "s_open s' = insert d (s_open s)"
    and "s_released s' = s_released s" "s_created s' = s_created s"
    and "s_tasks s' = (s_tasks s)(t \<mapsto> Opened cid tok d)"
  shows "drivers_ok s'"
proof -
  have "d \<notin> s_open s" "d \<in> s_created s" "d \<notin> s_released s"
    using assms(1,2) unfolding drivers_ok_def by blast+
  moreover have "holder s w \<noteq> Some d" for w
    using assms(1) \<open>d \<notin> s_open s\<close> unfolding drivers_ok_def by blast
  moreover have "d' \<noteq> d" if "s_tasks s u = Some (Connecting c k d')" "u \<noteq> t" for u c k d'
    using assms(1,2) that unfolding drivers_ok_def by blast
  moreover have "(\<exists>w. holder s' w = Some d') \<longleftrightarrow> (\<exists>w. holder s w = Some d') \<or> d' = d" for d'
    using assms(2) unfolding assms(3) by (metis fun_upd_apply holder_simps(2) option.distinct(1)
        option.inject task_holds.simps(10))
  ultimately show ?thesis
    using assms(1) unfolding drivers_ok_def assms(3-7) by (auto split: if_splits)
qed

lemma drivers_moved:
  assumes "drivers_ok s" "holder s' = (holder s)(w := None, w' := holder s w)"
    and "holder s w' = None" "w \<noteq> w'" "s_open s' = s_open s"
    and "s_released s' = s_released s" "s_created s' = s_created s"
    and "s_tasks s' = (s_tasks s)(t \<mapsto> T)" "connect_id T = None"
  shows "drivers_ok s'"
proof -
  have "(\<exists>v. holder s' v = Some d) \<longleftrightarrow> (\<exists>v. holder s v = Some d)" for d
    using assms(3,4) unfolding assms(2) by (metis fun_upd_apply option.distinct(1))
  moreover have "holder s' v = Some d \<Longrightarrow> holder s' v' = Some d \<Longrightarrow> v = v'" for v v' d
    using assms(1,3,4) unfolding assms(2) drivers_ok_def by (auto split: if_splits)
  ultimately show ?thesis
    using assms(1,9) unfolding drivers_ok_def assms(5-8) by (auto split: if_splits)
qed

lemma drivers_released:
  assumes "drivers_ok s" "holder s' = (holder s)(Task t := None)" "holder s (Task t) = Some d"
    and "s_open s' = s_open s" "s_released s' = insert d (s_released s)"
    and "s_created s' = s_created s" "s_tasks s' = (s_tasks s)(t \<mapsto> T)" "connect_id T = None"
  shows "drivers_ok s'"
proof -
  have d: "d \<in> s_open s" "d \<in> s_created s"
    using assms(1,3) unfolding drivers_ok_def by blast+
  have "(\<exists>v. holder s' v = Some d') \<longleftrightarrow> (\<exists>v. holder s v = Some d') \<and> d' \<noteq> d" for d'
    using assms(1,3) unfolding assms(2) drivers_ok_def by (metis fun_upd_apply option.distinct(1) option.inject)
  then show ?thesis
    using assms(1,8) d unfolding drivers_ok_def assms(2,4-7) by (auto split: if_splits)
qed

lemmas drivers_same_task = drivers_same [where s' = "set_task t T s1" and t = t and T = T for t T s1]

lemma installed_no_previous: "ids_ok s \<Longrightarrow> s_tasks s t \<noteq> Some (Installed cid d (Some p))"
  unfolding ids_ok_def by blast

lemma publishing_no_entry: "ids_ok s \<Longrightarrow> s_tasks s t = Some (Publishing cid d) \<Longrightarrow> s_entries s cid = None"
  unfolding ids_ok_def by (metis connect_id.simps(6))

lemma drivers_step: "mstep guess s s' \<Longrightarrow> ids_ok s \<Longrightarrow> drivers_ok s \<Longrightarrow> drivers_ok s'"
proof (induction rule: mstep.induct)
  case (connect_start s t cid d tok gs)
  then show ?case by - (rule drivers_created [of s _ d t cid tok], simp_all add: fun_upd_idem)
next
  case (driver_opens s t cid tok d)
  then show ?case by - (rule drivers_opened [of s t cid tok d], simp_all)
next
  case (publish s t cid d)
  then show ?case
    using publishing_no_entry [of s t cid d]
    by - (rule drivers_moved [of s _ "Task t" "Entry cid" t "Finished (Connected_as cid)"], simp_all add: fun_upd_twist)
next
  case (disconnect_start s t cid)
  then show ?case
    by - (rule drivers_moved [of s _ "Entry cid" "Task t" t "EntryRemoved cid (s_entries s cid)"], simp_all add: fun_upd_twist)
next
  case (orphan s t cid d)
  then show ?case by - (rule drivers_released [of s _ t d "Finished (Was_superseded cid)"], simp_all)
next
  case (disconnect_driver s t cid d)
  then show ?case by - (rule drivers_released [of s _ t d "Finished Disconnected"], simp_all)
next
  case (previous s t cid d p)
  then show ?case using installed_no_previous by blast
qed (erule drivers_same_task; simp add: fun_upd_idem)+

lemma reachable_ok: "reachable guess s \<Longrightarrow> ids_ok s \<and> drivers_ok s"
  by (induction rule: reachable.induct) (auto simp: ids_ok_init drivers_ok_init ids_step drivers_step)

lemma quiescent_holder: "quiescent s \<Longrightarrow> holder s (Task t) = None"
  by (cases "s_tasks s t") (fastforce simp: quiescent_def)+

lemma quiescent_owner:
  assumes "quiescent s"
  shows "(\<exists>w. holder s w = Some d) \<longleftrightarrow> (\<exists>cid. s_entries s cid = Some d)"
proof -
  have "\<exists>cid. s_entries s cid = Some d" if "holder s w = Some d" for w
    using that quiescent_holder [OF assms] by (cases w) auto
  then show ?thesis by (metis holder_simps(1))
qed

section \<open>The two maps\<close>

text \<open>When clients only disconnect identifiers a connect has returned to them, the session map and
  the entry map agree except while a task is between its two updates.\<close>

definition connecting :: "mstate \<Rightarrow> uuid \<Rightarrow> bool" where
  "connecting s cid \<longleftrightarrow> (\<exists>t T. s_tasks s t = Some T \<and> connect_id T = Some cid)"

definition maps_ok :: "mstate \<Rightarrow> bool" where
  "maps_ok s \<longleftrightarrow>
     (\<forall>cid d. s_entries s cid = Some d \<longrightarrow> s_sessions s cid = Some d)
   \<and> (\<forall>t cid d p. s_tasks s t = Some (Installed cid d p) \<or> s_tasks s t = Some (Publishing cid d) \<longrightarrow>
        s_sessions s cid = Some d)
   \<and> (\<forall>cid d. s_sessions s cid = Some d \<longrightarrow> s_entries s cid = Some d \<or> connecting s cid
        \<or> (\<exists>t e. s_tasks s t = Some (EntryRemoved cid e)))
   \<and> (\<forall>t cid e. s_tasks s t = Some (EntryRemoved cid e) \<longrightarrow>
        s_entries s cid = None \<and> cid \<in> s_minted s \<and> \<not> connecting s cid)
   \<and> (\<forall>cid. published s cid \<longrightarrow> cid \<in> s_minted s \<and> \<not> connecting s cid)"

lemma maps_ok_init: "maps_ok mstate_init"
  by (simp add: maps_ok_def mstate_init_def published_def sessions_new_def)

lemma maps_advance:
  assumes ok: "maps_ok s" and t: "s_tasks s' = (s_tasks s)(t \<mapsto> T')"
    and same: "s_entries s' = s_entries s" "s_sessions s' = s_sessions s" "s_minted s' = s_minted s"
    and c: "\<And>c. connecting s' c \<Longrightarrow> connecting s c"
    and c': "\<And>c. connecting s c \<Longrightarrow> s_sessions s c \<noteq> None \<Longrightarrow> connecting s' c"
    and p: "\<And>c. published s' c \<Longrightarrow> published s c"
    and new: "\<And>c e. T' \<noteq> EntryRemoved c e" and old: "\<And>c e. s_tasks s t \<noteq> Some (EntryRemoved c e)"
    and i: "\<And>c d p. T' = Installed c d p \<or> T' = Publishing c d \<Longrightarrow> s_sessions s c = Some d"
  shows "maps_ok s'"
proof -
  have er: "(\<exists>u e. s_tasks s' u = Some (EntryRemoved c e)) \<longleftrightarrow> (\<exists>u e. s_tasks s u = Some (EntryRemoved c e))" for c
    using new old t by (metis fun_upd_apply option.inject)
  have er': "s_tasks s u = Some (EntryRemoved c e)" if "s_tasks s' u = Some (EntryRemoved c e)" for u c e
    using that new t by (auto split: if_splits)
  have ip: "s_tasks s u = Some (Installed c d q) \<or> s_tasks s u = Some (Publishing c d) \<or> s_sessions s c = Some d"
    if "s_tasks s' u = Some (Installed c d q) \<or> s_tasks s' u = Some (Publishing c d)" for u c d q
    using that i t by (auto split: if_splits)
  show ?thesis
    unfolding maps_ok_def same er
  proof (intro conjI allI impI)
    fix u c d q
    assume "s_tasks s' u = Some (Installed c d q) \<or> s_tasks s' u = Some (Publishing c d)"
    then show "s_sessions s c = Some d" using ip ok unfolding maps_ok_def by blast
  next
    fix c d
    assume a: "s_sessions s c = Some d"
    then have "s_entries s c = Some d \<or> connecting s c \<or> (\<exists>u e. s_tasks s u = Some (EntryRemoved c e))"
      using ok unfolding maps_ok_def by blast
    then show "s_entries s c = Some d \<or> connecting s' c \<or> (\<exists>u e. s_tasks s u = Some (EntryRemoved c e))"
      using c' a by blast
  next
    fix u c e assume "s_tasks s' u = Some (EntryRemoved c e)"
    then have "s_entries s c = None \<and> c \<in> s_minted s \<and> \<not> connecting s c"
      using er' ok unfolding maps_ok_def by blast
    then show "s_entries s c = None" "c \<in> s_minted s" "\<not> connecting s' c" using c by blast+
  next
    fix c d assume "published s' c"
    then have "c \<in> s_minted s \<and> \<not> connecting s c" using p ok unfolding maps_ok_def by blast
    then show "c \<in> s_minted s" "\<not> connecting s' c" using c by blast+
  qed (use ok in \<open>auto simp: maps_ok_def\<close>)
qed

lemma connecting_set_task:
  assumes "ids_ok s" "s_tasks s1 = s_tasks s"
  shows "connecting (set_task t T s1) c \<longleftrightarrow> connect_id T = Some c
    \<or> (connecting s c \<and> (case s_tasks s t of None \<Rightarrow> True | Some U \<Rightarrow> connect_id U \<noteq> Some c))"
proof -
  have "connecting (set_task t T s1) c \<longleftrightarrow> connect_id T = Some c
      \<or> (\<exists>u U. u \<noteq> t \<and> s_tasks s u = Some U \<and> connect_id U = Some c)"
    using assms(2) by (auto simp: connecting_def)
  also have "\<dots> \<longleftrightarrow> connect_id T = Some c
      \<or> connecting s c \<and> (case s_tasks s t of None \<Rightarrow> True | Some U \<Rightarrow> connect_id U \<noteq> Some c)" (is "_ \<or> ?l \<longleftrightarrow> _ \<or> ?r")
  proof -
    have "?l \<longleftrightarrow> ?r"
    proof
      assume ?l
      then obtain u U where "u \<noteq> t" "s_tasks s u = Some U" "connect_id U = Some c" by blast
      then show ?r
        using ids_others [OF assms(1) _ _ \<open>s_tasks s u = Some U\<close> \<open>u \<noteq> t\<close>]
        by (auto simp: connecting_def split: option.split)
    next
      assume ?r
      then obtain u U where "s_tasks s u = Some U" "connect_id U = Some c"
        by (auto simp: connecting_def)
      moreover have "u \<noteq> t" using \<open>?r\<close> calculation by auto
      ultimately show ?l by blast
    qed
    then show ?thesis by simp
  qed
  finally show ?thesis .
qed

lemma published_set_task:
  "s_tasks s1 = s_tasks s \<Longrightarrow> (\<And>r. s_tasks s t \<noteq> Some (Finished r)) \<Longrightarrow>
   published (set_task t T s1) c \<longleftrightarrow> published s c \<or> T = Finished (Connected_as c)"
  unfolding published_def by (metis fun_upd_apply option.inject set_task_fields(1))

lemmas maps_advance_task = maps_advance [where s' = "set_task t T s1" and t = t and T' = T for t T s1]

lemma before_insert_no_session:
  "ids_ok s \<Longrightarrow> s_tasks s t = Some T \<Longrightarrow> connect_id T = Some cid \<Longrightarrow> before_insert T \<Longrightarrow> s_sessions s cid = None"
  unfolding ids_ok_def by blast

lemma connect_no_entry:
  "ids_ok s \<Longrightarrow> s_tasks s t = Some T \<Longrightarrow> connect_id T = Some cid \<Longrightarrow> s_entries s cid = None \<and> cid \<in> s_minted s"
  unfolding ids_ok_def by blast

lemma connectingI: "s_tasks s t = Some T \<Longrightarrow> connect_id T = Some cid \<Longrightarrow> connecting s cid"
  by (auto simp: connecting_def)

lemma maps_okD:
  assumes "maps_ok s"
  shows "s_entries s cid = Some d \<Longrightarrow> s_sessions s cid = Some d"
    "s_tasks s t = Some (Installed cid d p) \<Longrightarrow> s_sessions s cid = Some d"
    "s_tasks s t = Some (Publishing cid d) \<Longrightarrow> s_sessions s cid = Some d"
    "s_sessions s cid = Some d \<Longrightarrow> s_entries s cid = Some d \<or> connecting s cid
       \<or> (\<exists>t e. s_tasks s t = Some (EntryRemoved cid e))"
    "s_tasks s t = Some (EntryRemoved cid e) \<Longrightarrow> s_entries s cid = None \<and> cid \<in> s_minted s \<and> \<not> connecting s cid"
    "published s cid \<Longrightarrow> cid \<in> s_minted s \<and> \<not> connecting s cid"
  using assms unfolding maps_ok_def by blast+

lemma maps_okI:
  assumes "\<And>cid d. s_entries s cid = Some d \<Longrightarrow> s_sessions s cid = Some d"
    "\<And>t cid d p. s_tasks s t = Some (Installed cid d p) \<Longrightarrow> s_sessions s cid = Some d"
    "\<And>t cid d. s_tasks s t = Some (Publishing cid d) \<Longrightarrow> s_sessions s cid = Some d"
    "\<And>cid d. s_sessions s cid = Some d \<Longrightarrow> s_entries s cid \<noteq> Some d \<Longrightarrow> \<not> connecting s cid \<Longrightarrow>
       \<exists>t e. s_tasks s t = Some (EntryRemoved cid e)"
    "\<And>t cid e. s_tasks s t = Some (EntryRemoved cid e) \<Longrightarrow> s_entries s cid = None \<and> cid \<in> s_minted s \<and> \<not> connecting s cid"
    "\<And>cid. published s cid \<Longrightarrow> cid \<in> s_minted s \<and> \<not> connecting s cid"
  shows "maps_ok s"
  using assms unfolding maps_ok_def by blast

lemma maps_connect:
  assumes ok: "maps_ok s" and t: "s_tasks s t = None" and cid: "cid \<notin> s_minted s"
    and s': "s' = set_task t (Connecting cid tok d) (s \<lparr> s_attempts := gs, s_minted := insert cid (s_minted s),
           s_created := cr \<rparr>)" and ids: "ids_ok s"
  shows "maps_ok s'"
proof -
  have c: "connecting s' c \<longleftrightarrow> c = cid \<or> connecting s c" for c
    using t by (subst s', subst connecting_set_task [OF ids]) auto
  have p: "published s' c \<longleftrightarrow> published s c" for c
    using t by (subst s', subst published_set_task) auto
  show ?thesis
  proof (rule maps_okI)
    fix c d assume "s_sessions s' c = Some d" "s_entries s' c \<noteq> Some d" "\<not> connecting s' c"
    then obtain u e where "s_tasks s u = Some (EntryRemoved c e)"
      using maps_okD(4) [OF ok, of c d] c s' by auto
    then show "\<exists>u e. s_tasks s' u = Some (EntryRemoved c e)" using t s' by (intro exI [of _ u]) auto
  next
    fix u c e assume "s_tasks s' u = Some (EntryRemoved c e)"
    then have "s_tasks s u = Some (EntryRemoved c e)" by (auto simp: s' split: if_splits)
    then show "s_entries s' c = None \<and> c \<in> s_minted s' \<and> \<not> connecting s' c"
      using maps_okD(5) [OF ok] cid by (auto simp: c) (auto simp: s')
  next
    fix c assume "published s' c"
    then show "c \<in> s_minted s' \<and> \<not> connecting s' c"
      using maps_okD(6) [OF ok] cid by (auto simp: c p) (auto simp: s')
  qed (use maps_okD [OF ok] in \<open>auto simp: s' split: if_splits\<close>)
qed

lemma maps_insert:
  assumes ok: "maps_ok s" and ids: "ids_ok s" and t: "s_tasks s t = Some (Inserting cid tok d)"
    and s': "s' = set_task t (Installed cid d (s_sessions s cid)) (s \<lparr> s_sessions := (s_sessions s)(cid \<mapsto> d) \<rparr>)"
  shows "maps_ok s'"
proof -
  have n: "s_entries s cid = None" "connecting s cid"
    using connect_no_entry [OF ids t] connectingI [OF t] by auto
  have c: "connecting s' c \<longleftrightarrow> connecting s c" for c
    using t n by (subst s', subst connecting_set_task [OF ids]) auto
  have p: "published s' c \<longleftrightarrow> published s c" for c
    using t by (subst s', subst published_set_task) auto
  have o: "s_tasks s u \<noteq> Some (Installed cid d' q)" "s_tasks s u \<noteq> Some (Publishing cid d')" for u d' q
    using ids_others [OF ids t, of cid u] t by fastforce+
  show ?thesis
  proof (rule maps_okI)
    fix c d' assume "s_sessions s' c = Some d'" "s_entries s' c \<noteq> Some d'" "\<not> connecting s' c"
    then obtain u e where "s_tasks s u = Some (EntryRemoved c e)"
      using maps_okD(4) [OF ok, of c d'] c s' n by (auto split: if_splits)
    then show "\<exists>u e. s_tasks s' u = Some (EntryRemoved c e)" using t s' by (intro exI [of _ u]) auto
  next
    fix u c e assume "s_tasks s' u = Some (EntryRemoved c e)"
    then have "s_tasks s u = Some (EntryRemoved c e)" by (auto simp: s' split: if_splits)
    then show "s_entries s' c = None \<and> c \<in> s_minted s' \<and> \<not> connecting s' c"
      using maps_okD(5) [OF ok] by (auto simp: c) (auto simp: s')
  next
    fix c assume "published s' c"
    then show "c \<in> s_minted s' \<and> \<not> connecting s' c"
      using maps_okD(6) [OF ok] by (auto simp: c p) (auto simp: s')
  qed (use maps_okD [OF ok] o n in \<open>auto simp: s' split: if_splits\<close>)
qed

lemma maps_publish:
  assumes ok: "maps_ok s" and ids: "ids_ok s" and t: "s_tasks s t = Some (Publishing cid d)"
    and s': "s' = set_task t (Finished (Connected_as cid)) (s \<lparr> s_entries := (s_entries s)(cid \<mapsto> d) \<rparr>)"
  shows "maps_ok s'"
proof -
  have n: "cid \<in> s_minted s" "connecting s cid" "s_sessions s cid = Some d"
    using connect_no_entry [OF ids t] connectingI [OF t] maps_okD(3) [OF ok t] by auto
  have c: "connecting s' c \<longleftrightarrow> connecting s c \<and> c \<noteq> cid" for c
    using t n by (subst s', subst connecting_set_task [OF ids]) auto
  have p: "published s' c \<longleftrightarrow> published s c \<or> c = cid" for c
    using t by (subst s', subst published_set_task) auto
  show ?thesis
  proof (rule maps_okI)
    fix c d' assume "s_sessions s' c = Some d'" "s_entries s' c \<noteq> Some d'" "\<not> connecting s' c"
    then obtain u e where "s_tasks s u = Some (EntryRemoved c e)"
      using maps_okD(4) [OF ok, of c d'] c s' n by (auto split: if_splits)
    then show "\<exists>u e. s_tasks s' u = Some (EntryRemoved c e)" using t s' by (intro exI [of _ u]) auto
  next
    fix u c e assume "s_tasks s' u = Some (EntryRemoved c e)"
    then have "s_tasks s u = Some (EntryRemoved c e)" by (auto simp: s' split: if_splits)
    then show "s_entries s' c = None \<and> c \<in> s_minted s' \<and> \<not> connecting s' c"
      using maps_okD(5) [OF ok, of u c e] n by (auto simp: c) (auto simp: s')
  next
    fix c assume "published s' c"
    then show "c \<in> s_minted s' \<and> \<not> connecting s' c"
      using maps_okD(6) [OF ok, of c] n by (auto simp: c p) (auto simp: s')
  qed (use maps_okD [OF ok] n in \<open>auto simp: s' split: if_splits\<close>)
qed

lemma maps_disconnect_start:
  assumes ok: "maps_ok s" and ids: "ids_ok s" and t: "s_tasks s t = None" and pub: "published s cid"
    and s': "s' = set_task t (EntryRemoved cid e) (s \<lparr> s_entries := (s_entries s)(cid := None) \<rparr>)"
  shows "maps_ok s'"
proof -
  have n: "cid \<in> s_minted s" "\<not> connecting s cid" using maps_okD(6) [OF ok pub] by auto
  have c: "connecting s' c \<longleftrightarrow> connecting s c" for c
    using t n by (subst s', subst connecting_set_task [OF ids]) auto
  have p: "published s' c \<longleftrightarrow> published s c" for c
    using t by (subst s', subst published_set_task) auto
  show ?thesis
  proof (rule maps_okI)
    fix c d' assume a: "s_sessions s' c = Some d'" "s_entries s' c \<noteq> Some d'" "\<not> connecting s' c"
    show "\<exists>u e. s_tasks s' u = Some (EntryRemoved c e)"
    proof (cases "c = cid")
      case True
      then show ?thesis using s' by (intro exI [of _ t]) auto
    next
      case False
      then obtain u e where "s_tasks s u = Some (EntryRemoved c e)"
        using maps_okD(4) [OF ok, of c d'] c s' a by auto
      then show ?thesis using t s' by (intro exI [of _ u]) auto
    qed
  next
    fix u c e' assume "s_tasks s' u = Some (EntryRemoved c e')"
    then have "s_tasks s u = Some (EntryRemoved c e') \<or> c = cid" by (auto simp: s' split: if_splits)
    then show "s_entries s' c = None \<and> c \<in> s_minted s' \<and> \<not> connecting s' c"
      using maps_okD(5) [OF ok, of u c e'] n by (auto simp: c) (auto simp: s')
  next
    fix c assume "published s' c"
    then show "c \<in> s_minted s' \<and> \<not> connecting s' c"
      using maps_okD(6) [OF ok, of c] by (auto simp: c p) (auto simp: s')
  qed (use maps_okD [OF ok] in \<open>auto simp: s' split: if_splits\<close>)
qed

lemma maps_disconnect_session:
  assumes ok: "maps_ok s" and ids: "ids_ok s" and t: "s_tasks s t = Some (EntryRemoved cid e)"
    and s': "s' = set_task t (SessionRemoved cid e) (s \<lparr> s_sessions := (s_sessions s)(cid := None) \<rparr>)"
  shows "maps_ok s'"
proof -
  have n: "s_entries s cid = None" "\<not> connecting s cid" using maps_okD(5) [OF ok t] by auto
  have c: "connecting s' c \<longleftrightarrow> connecting s c" for c
    using t by (subst s', subst connecting_set_task [OF ids]) auto
  have p: "published s' c \<longleftrightarrow> published s c" for c
    using t by (subst s', subst published_set_task) auto
  have o: "s_tasks s u \<noteq> Some (Installed cid d' q)" "s_tasks s u \<noteq> Some (Publishing cid d')" for u d' q
    using n(2) connectingI [of s u _ cid] by fastforce+
  show ?thesis
  proof (rule maps_okI)
    fix c d' assume a: "s_sessions s' c = Some d'" "s_entries s' c \<noteq> Some d'" "\<not> connecting s' c"
    then have ne: "c \<noteq> cid" by (auto simp: s')
    then obtain u e' where u: "s_tasks s u = Some (EntryRemoved c e')"
      using maps_okD(4) [OF ok, of c d'] c s' a by auto
    then have "u \<noteq> t" using ne t by auto
    then show "\<exists>u e. s_tasks s' u = Some (EntryRemoved c e)" using u s' by (intro exI [of _ u]) auto
  next
    fix u c e' assume "s_tasks s' u = Some (EntryRemoved c e')"
    then have "s_tasks s u = Some (EntryRemoved c e')" by (auto simp: s' split: if_splits)
    then show "s_entries s' c = None \<and> c \<in> s_minted s' \<and> \<not> connecting s' c"
      using maps_okD(5) [OF ok, of u c e'] by (auto simp: c) (auto simp: s')
  next
    fix c assume "published s' c"
    then show "c \<in> s_minted s' \<and> \<not> connecting s' c"
      using maps_okD(6) [OF ok, of c] by (auto simp: c p) (auto simp: s')
  qed (use maps_okD [OF ok] o n in \<open>auto simp: s' split: if_splits\<close>)
qed

lemma maps_forward:
  assumes ok: "maps_ok s" and ids: "ids_ok s" and t: "s_tasks s t = Some T" "s_tasks s1 = s_tasks s"
    and same: "s_entries s1 = s_entries s" "s_sessions s1 = s_sessions s" "s_minted s1 = s_minted s"
    and old: "\<And>r. T \<noteq> Finished r" "\<And>c e. T \<noteq> EntryRemoved c e"
    and new: "\<And>c. T' \<noteq> Finished (Connected_as c)" "\<And>c e. T' \<noteq> EntryRemoved c e"
    and adv: "connect_id T' = connect_id T \<or> connect_id T' = None \<and> (connect_id T = None \<or> before_insert T)"
    and ins: "\<And>c d p. T' = Installed c d p \<or> T' = Publishing c d \<Longrightarrow> s_sessions s c = Some d"
  shows "maps_ok (set_task t T' s1)"
proof (rule maps_advance_task [OF ok])
  note c = connecting_set_task [OF ids t(2), of t T']
  fix c
  show "connecting (set_task t T' s1) c \<Longrightarrow> connecting s c"
    using adv connectingI [OF t(1), of c] by (auto simp: c)
  show "connecting s c \<Longrightarrow> s_sessions s c \<noteq> None \<Longrightarrow> connecting (set_task t T' s1) c"
    using adv before_insert_no_session [OF ids t(1), of c] t(1) by (auto simp: c)
  show "published (set_task t T' s1) c \<Longrightarrow> published s c"
    using published_set_task [OF t(2), of t T' c] old(1) new(1) t(1) by auto
qed (use t same old new ins in auto)

lemma maps_step: "mstep guess s s' \<Longrightarrow> \<not> guess \<Longrightarrow> ids_ok s \<Longrightarrow> maps_ok s \<Longrightarrow> maps_ok s'"
proof (induction rule: mstep.induct)
  case (connect_start s t cid d tok gs)
  then show ?case by - (rule maps_connect [OF _ _ _ refl], simp_all)
next
  case (insert_session s t cid tok d)
  then show ?case by - (rule maps_insert [OF _ _ _ refl], simp_all)
next
  case (publish s t cid d)
  then show ?case by - (rule maps_publish [OF _ _ _ refl], simp_all)
next
  case (disconnect_start s t cid)
  then show ?case by - (rule maps_disconnect_start [OF _ _ _ _ refl], simp_all)
next
  case (disconnect_session s t cid e)
  then show ?case by - (rule maps_disconnect_session [OF _ _ _ refl], simp_all)
next
  case (no_previous s t cid d)
  then show ?case using maps_okD(2) [of s t cid d None]
    by - (rule maps_forward, assumption, assumption, assumption, simp_all)
next
  case (previous s t cid d p)
  then show ?case using installed_no_previous by blast
qed (rule maps_forward, assumption, assumption, assumption, simp_all)+

lemma reachable_maps: "reachable False s \<Longrightarrow> maps_ok s"
  by (induction rule: reachable.induct) (auto simp: maps_ok_init maps_step reachable_ok)

section \<open>A concrete run\<close>

text \<open>One connect, from the first step to the last.\<close>

definition one_token :: AttemptToken where "one_token = \<lparr> connection_id = 7, generation = 1 \<rparr>"

definition at_step :: "task \<Rightarrow> (uuid \<Rightarrow> nat option) \<Rightarrow> (uuid \<Rightarrow> nat option) \<Rightarrow> nat set \<Rightarrow> mstate" where
  "at_step T ss es opened = \<lparr> s_attempts = [7 \<mapsto> 1], s_sessions = ss, s_entries = es, s_tasks = [0 \<mapsto> T],
     s_minted = {7}, s_created = {3}, s_open = opened, s_released = {} \<rparr>"

lemmas run_simps = at_step_def one_token_def set_task_def is_current_def sessions_free_def

lemma at_step_next: "mstep guess s s'' \<Longrightarrow> s'' = s' \<Longrightarrow> reachable guess s \<Longrightarrow> reachable guess s'"
  by (auto intro: reach_step)

lemma run_start: "reachable guess (at_step (Connecting 7 one_token 3) Map.empty Map.empty {})"
  by (rule at_step_next [OF connect_start [of _ 0 7 3 one_token "[7 \<mapsto> 1]"] _ reach_init])
    (simp_all add: mstate_init_def run_simps sessions_new_def begin_attempt_def next_generation_def
      registry_new_def AttemptToken_new_def)

lemma run_open: "reachable guess (at_step (Opened 7 one_token 3) Map.empty Map.empty {3})"
  by (rule at_step_next [OF driver_opens [of _ 0 7 one_token 3] _ run_start]) (simp_all add: run_simps)

lemma run_check: "reachable guess (at_step (Checked 7 one_token 3) Map.empty Map.empty {3})"
  by (rule at_step_next [OF check_ok [of _ 0 7 one_token 3] _ run_open]) (simp_all add: run_simps)

lemma run_recheck: "reachable guess (at_step (Inserting 7 one_token 3) Map.empty Map.empty {3})"
  by (rule at_step_next [OF recheck_ok [of _ 0 7 one_token 3] _ run_check]) (simp_all add: run_simps)

lemma run_insert: "reachable guess (at_step (Installed 7 3 None) [7 \<mapsto> 3] Map.empty {3})"
  by (rule at_step_next [OF insert_session [of _ 0 7 one_token 3] _ run_recheck]) (simp_all add: run_simps)

lemma run_publishing: "reachable guess (at_step (Publishing 7 3) [7 \<mapsto> 3] Map.empty {3})"
  by (rule at_step_next [OF no_previous [of _ 0 7 3] _ run_insert]) (simp_all add: run_simps)

lemma run_done: "reachable guess (at_step (Finished (Connected_as 7)) [7 \<mapsto> 3] [7 \<mapsto> 3] {3})"
  by (rule at_step_next [OF publish [of _ 0 7 3] _ run_publishing]) (simp_all add: run_simps)

lemma run_quiescent: "quiescent (at_step (Finished r) ss es opened)"
  by (auto simp: quiescent_def at_step_def split: if_splits)

section \<open>Properties\<close>

text \<open>C2. However connects and disconnects interleave, also when clients guess identifiers, once every
  task has finished the drivers that were opened and on which disconnect was not called are exactly
  those of the entry map, each under one identifier: no driver is leaked and none is lost.\<close>

theorem no_driver_leaked:
  assumes "reachable guess s" "quiescent s"
  shows "d \<in> s_open s \<and> d \<notin> s_released s \<longleftrightarrow> (\<exists>!cid. s_entries s cid = Some d)"
proof -
  have ok: "drivers_ok s" using reachable_ok [OF assms(1)] by simp
  have "d \<in> s_open s \<and> d \<notin> s_released s \<longleftrightarrow> (\<exists>cid. s_entries s cid = Some d)"
    using ok quiescent_owner [OF assms(2)] unfolding drivers_ok_def by metis
  moreover have "c = c'" if "s_entries s c = Some d" "s_entries s c' = Some d" for c c'
    using ok that unfolding drivers_ok_def by (metis holder_simps(1) owner.inject(1))
  ultimately show ?thesis by blast
qed

theorem no_driver_leaked_witness:
  "\<exists>!cid. s_entries (at_step (Finished (Connected_as 7)) [7 \<mapsto> 3] [7 \<mapsto> 3] {3}) cid = Some 3"
  using no_driver_leaked [OF run_done run_quiescent, of 3] by (simp add: at_step_def)

text \<open>When clients only disconnect identifiers that a connect has returned, the session map and
  the entry map hold the same drivers under the same identifiers whenever every task has finished.\<close>

theorem maps_in_lockstep:
  assumes "reachable False s" "quiescent s"
  shows "s_sessions s = s_entries s"
proof
  fix cid
  have ok: "maps_ok s" by (rule reachable_maps [OF assms(1)])
  have "\<not> connecting s cid" "\<And>t e. s_tasks s t \<noteq> Some (EntryRemoved cid e)"
    using assms(2) by (fastforce simp: quiescent_def connecting_def)+
  then show "s_sessions s cid = s_entries s cid"
    using maps_okD(1,4) [OF ok, of cid] by (metis not_None_eq)
qed

theorem maps_in_lockstep_witness:
  "s_sessions (at_step (Finished (Connected_as 7)) [7 \<mapsto> 3] [7 \<mapsto> 3] {3}) 7 = Some 3"
  using maps_in_lockstep [OF run_done run_quiescent] by (simp add: at_step_def)

end
