(* ===== verification/ManagerProgress.thy ===== *)
theory ManagerProgress
  imports Main Prelude Registry ManagerSteps
begin

text \<open>
  Progress of the connection manager's tasks, over the interleavings of \<open>ManagerSteps\<close>: as long as no
  new task starts, some task can always take a step, and only so many steps are possible before all
  have finished. The mutex of the session map never blocks everybody.
\<close>

section \<open>The steps a task has left\<close>

fun steps_left :: "task \<Rightarrow> nat" where
  "steps_left (Connecting cid tok d) = 6"
| "steps_left (Opened cid tok d) = 5"
| "steps_left (Checked cid tok d) = 4"
| "steps_left (Inserting cid tok d) = 3"
| "steps_left (Installed cid d p) = 2"
| "steps_left (Publishing cid d) = 1"
| "steps_left (Orphaned cid d) = 1"
| "steps_left (EntryRemoved cid e) = 3"
| "steps_left (SessionRemoved cid e) = 2"
| "steps_left (Forgotten cid e) = 1"
| "steps_left (Finished r) = 0"

definition task_work :: "mstate \<Rightarrow> nat \<Rightarrow> nat" where
  "task_work s t = (case s_tasks s t of None \<Rightarrow> 0 | Some T \<Rightarrow> steps_left T)"

definition work_left :: "mstate \<Rightarrow> nat" where
  "work_left s = (\<Sum>t\<in>dom (s_tasks s). task_work s t)"

text \<open>A step of a task that has started already.\<close>

definition advance :: "bool \<Rightarrow> mstate \<Rightarrow> mstate \<Rightarrow> bool" where
  "advance guess s s' \<longleftrightarrow> mstep guess s s' \<and> dom (s_tasks s') = dom (s_tasks s)"

lemma step_taskI:
  "s_tasks s1 = s_tasks s \<Longrightarrow> (case s_tasks s t of None \<Rightarrow> True | Some T \<Rightarrow> steps_left T' < steps_left T) \<Longrightarrow>
   \<exists>u U. s_tasks (set_task t T' s1) = (s_tasks s)(u \<mapsto> U) \<and>
     (case s_tasks s u of None \<Rightarrow> True | Some T \<Rightarrow> steps_left U < steps_left T)"
  by (rule exI [of _ t], rule exI [of _ T'], rule conjI) (simp only: set_task_fields, assumption)

lemma step_of_task:
  "mstep guess s s' \<Longrightarrow> \<exists>t T'. s_tasks s' = (s_tasks s)(t \<mapsto> T') \<and>
     (case s_tasks s t of None \<Rightarrow> True | Some T \<Rightarrow> steps_left T' < steps_left T)"
  by (induction rule: mstep.induct) (rule step_taskI; simp)+

lemma finite_tasks: "reachable guess s \<Longrightarrow> finite (dom (s_tasks s))"
proof (induction rule: reachable.induct)
  case reach_init
  then show ?case by (simp add: mstate_init_def)
next
  case (reach_step s s')
  then obtain t T' where "s_tasks s' = (s_tasks s)(t \<mapsto> T')" using step_of_task by blast
  then show ?case unfolding \<open>s_tasks s' = _\<close> dom_fun_upd using reach_step by simp
qed

lemma advance_works:
  assumes "finite (dom (s_tasks s))" "advance guess s s'"
  shows "work_left s' < work_left s"
proof -
  obtain t T' where t: "s_tasks s' = (s_tasks s)(t \<mapsto> T')"
    and r: "case s_tasks s t of None \<Rightarrow> True | Some T \<Rightarrow> steps_left T' < steps_left T"
    using step_of_task assms(2) unfolding advance_def by blast
  have "dom (s_tasks s') = dom (s_tasks s)" using assms(2) by (simp add: advance_def)
  then have "t \<in> dom (s_tasks s)" using t by auto
  then obtain T where T: "s_tasks s t = Some T" by blast
  have "(\<Sum>u\<in>dom (s_tasks s). task_work s' u) < (\<Sum>u\<in>dom (s_tasks s). task_work s u)"
  proof (rule sum_strict_mono_ex1 [OF assms(1)])
    show "\<forall>u\<in>dom (s_tasks s). task_work s' u \<le> task_work s u" using t r T by (simp add: task_work_def)
    show "\<exists>u\<in>dom (s_tasks s). task_work s' u < task_work s u" using t r T by (intro bexI [of _ t]) (simp_all add: task_work_def domI)
  qed
  then show ?thesis using \<open>dom (s_tasks s') = dom (s_tasks s)\<close> by (simp add: work_left_def)
qed

lemma advanceI: "mstep guess s (set_task t T' s1) \<Longrightarrow> s_tasks s1 = s_tasks s \<Longrightarrow> s_tasks s t = Some T \<Longrightarrow> \<exists>s'. advance guess s s'"
  by (intro exI [of _ "set_task t T' s1"]) (auto simp: advance_def)

text \<open>A task that is not finished can step, unless it waits for the mutex; and whoever holds the mutex
  can step.\<close>

lemma some_task_steps:
  assumes T: "s_tasks s t = Some T" and n: "steps_left T \<noteq> 0"
  shows "\<exists>s'. advance guess s s'"
proof (cases "sessions_free s")
  case False
  then obtain u cid tok d where "s_tasks s u = Some (Inserting cid tok d)" by (auto simp: sessions_free_def)
  then show ?thesis by - (rule advanceI [OF insert_session], simp_all)
next
  case free: True
  show ?thesis
  proof (cases T)
    case (Connecting cid tok d)
    then show ?thesis using T by - (rule advanceI [OF driver_opens], simp_all)
  next
    case (Opened cid tok d)
    then show ?thesis using T
      by (cases "is_current (s_attempts s) tok") (rule advanceI [OF check_ok] advanceI [OF check_stale], simp_all)+
  next
    case (Checked cid tok d)
    then show ?thesis using T free
      by (cases "is_current (s_attempts s) tok") (rule advanceI [OF recheck_ok] advanceI [OF recheck_stale], simp_all)+
  next
    case (Inserting cid tok d)
    then show ?thesis using T by - (rule advanceI [OF insert_session], simp_all)
  next
    case (Installed cid d p)
    then show ?thesis using T
      by (cases p) (rule advanceI [OF no_previous] advanceI [OF previous], simp_all)+
  next
    case (Publishing cid d)
    then show ?thesis using T by - (rule advanceI [OF publish], simp_all)
  next
    case (Orphaned cid d)
    then show ?thesis using T by - (rule advanceI [OF orphan], simp_all)
  next
    case (EntryRemoved cid e)
    then show ?thesis using T free by - (rule advanceI [OF disconnect_session], simp_all)
  next
    case (SessionRemoved cid e)
    then show ?thesis using T by - (rule advanceI [OF disconnect_forget], simp_all)
  next
    case (Forgotten cid e)
    then show ?thesis using T
      by (cases e) (rule advanceI [OF disconnect_nothing] advanceI [OF disconnect_driver], simp_all)+
  next
    case (Finished r)
    then show ?thesis using n by simp
  qed
qed

lemma steps_left_0: "steps_left T = 0 \<longleftrightarrow> (\<exists>r. T = Finished r)"
  by (cases T) auto

lemma advances_dom: "(advance guess ^^ n) s u \<Longrightarrow> dom (s_tasks u) = dom (s_tasks s)"
proof (induction n arbitrary: u)
  case (Suc n)
  then obtain v where "(advance guess ^^ n) s v" "advance guess v u" by auto
  then have "dom (s_tasks v) = dom (s_tasks s)" "dom (s_tasks u) = dom (s_tasks v)"
    using Suc.IH [of v] by (blast, simp add: advance_def)
  then show ?case by simp
qed simp

lemma advances_work:
  "(advance guess ^^ n) s s' \<Longrightarrow> finite (dom (s_tasks s)) \<Longrightarrow> n + work_left s' \<le> work_left s"
proof (induction n arbitrary: s')
  case 0
  then show ?case by simp
next
  case (Suc n)
  then obtain u where u: "(advance guess ^^ n) s u" "advance guess u s'" by auto
  have "dom (s_tasks u) = dom (s_tasks s)" by (rule advances_dom [OF u(1)])
  then have "finite (dom (s_tasks u))" using Suc.prems(2) by simp
  then show ?case using Suc.IH [OF u(1) Suc.prems(2)] advance_works [OF _ u(2)] by simp
qed

section \<open>Properties\<close>

text \<open>C18. Every connect and disconnect that has started comes to its end. From any reachable state, with
  no new task starting, the tasks take at most \<open>work_left\<close> steps in all (six for a connect, three
  for a disconnect, counted from where each is), whichever task goes next, and until all have finished
  some task can go on: neither a stale token nor the mutex held across the second check ever leaves
  them all waiting.\<close>

theorem all_tasks_finish:
  assumes "reachable guess s" "(advance guess ^^ n) s s'"
  shows "n \<le> work_left s \<and> (quiescent s' \<or> (\<exists>s''. advance guess s' s''))"
proof -
  have "n + work_left s' \<le> work_left s" by (rule advances_work [OF assms(2) finite_tasks [OF assms(1)]])
  moreover have "quiescent s' \<or> (\<exists>s''. advance guess s' s'')"
    using some_task_steps [of s' _ _ guess] steps_left_0 unfolding quiescent_def by blast
  ultimately show ?thesis by simp
qed

theorem all_tasks_finish_witness:
  "1 \<le> work_left (at_step (Opened 7 one_token 3) Map.empty Map.empty {3})
    \<and> (quiescent (at_step (Checked 7 one_token 3) Map.empty Map.empty {3})
       \<or> (\<exists>s''. advance False (at_step (Checked 7 one_token 3) Map.empty Map.empty {3}) s''))"
proof (rule all_tasks_finish)
  have "at_step (Checked 7 one_token 3) Map.empty Map.empty {3}
      = set_task 0 (Checked 7 one_token 3) (at_step (Opened 7 one_token 3) Map.empty Map.empty {3})"
    by (simp add: run_simps)
  moreover have "mstep False (at_step (Opened 7 one_token 3) Map.empty Map.empty {3})
      (set_task 0 (Checked 7 one_token 3) (at_step (Opened 7 one_token 3) Map.empty Map.empty {3}))"
    by (rule check_ok) (simp_all add: run_simps)
  moreover have "dom (s_tasks (at_step (Checked 7 one_token 3) Map.empty Map.empty {3}))
      = dom (s_tasks (at_step (Opened 7 one_token 3) Map.empty Map.empty {3}))"
    by (simp add: at_step_def)
  ultimately show "(advance False ^^ 1) (at_step (Opened 7 one_token 3) Map.empty Map.empty {3})
      (at_step (Checked 7 one_token 3) Map.empty Map.empty {3})"
    unfolding relpowp_1 advance_def by simp
qed (rule run_open)

end
