(* ===== verification/ManagerSpec.thy ===== *)
theory ManagerSpec
  imports Main Prelude Lib Core Registry Manager
begin

text \<open>
  What the connection manager promises its callers, and that it keeps it. The specification is a
  table from identifiers to connections: a connection's type, the time it was made and the driver
  itself. It knows nothing of attempts, generations, session maps, handles or a driver store; the
  manager of theory \<open>Manager\<close> is shown to refine it, call by call and for every sequence of calls.
\<close>

section \<open>The specification\<close>

record 'd connection =
  cn_type :: string
  cn_since :: nat
  cn_driver :: 'd

text \<open>The identifiers handed out so far, and the table.\<close>

type_synonym 'd table = "nat \<times> (uuid \<Rightarrow> 'd connection option)"

definition conn_summary :: "uuid \<Rightarrow> 'd connection \<Rightarrow> ConnectionSummary" where
  "conn_summary cid c = \<lparr> cs_connection_id = cid, cs_database_type = cn_type c,
     cs_connected_at_unix_ms = min (cn_since c) (2 ^ 64 - 1) \<rparr>"

text \<open>The factories, the identifiers to come and the clock are what the specification is relative to.\<close>

record 'd setting =
  st_factories :: "(string \<times> (ConnectionConfig \<Rightarrow> 'd)) list"
  st_uuids :: "nat \<Rightarrow> uuid"
  st_clock :: int

definition spec_connect ::
  "'d driver_ops \<Rightarrow> 'd setting \<Rightarrow> string \<Rightarrow> ConnectionConfig \<Rightarrow> 'd table \<Rightarrow> (ConnectionManagerError + uuid) \<times> 'd table" where
  "spec_connect D S ty config T = (case map_of (st_factories S) ty of
     None \<Rightarrow> (Inl (UnknownDatabaseType ty), T)
   | Some f \<Rightarrow> (case do_connect D (f config) of
       (Inl e, _) \<Rightarrow> (Inl (Driver e), (Suc (fst T), snd T))
     | (Inr _, d) \<Rightarrow> (Inr (st_uuids S (fst T)), (Suc (fst T), (snd T)(st_uuids S (fst T) \<mapsto>
         \<lparr> cn_type = ty, cn_since = nat (st_clock S), cn_driver = snd (do_apply_query_timeout D SERVER_SECS d) \<rparr>)))))"

definition spec_disconnect ::
  "'d driver_ops \<Rightarrow> uuid \<Rightarrow> 'd table \<Rightarrow> (ConnectionManagerError + unit) \<times> 'd table" where
  "spec_disconnect D cid T = (case snd T cid of
     None \<Rightarrow> (Inr (), T)
   | Some c \<Rightarrow> (map_err Driver (fst (do_disconnect D (cn_driver c))), (fst T, (snd T)(cid := None))))"

definition spec_call ::
  "uuid \<Rightarrow> ('d \<Rightarrow> 'a \<times> 'd) \<Rightarrow> 'd table \<Rightarrow> (ConnectionManagerError + 'a) \<times> 'd table" where
  "spec_call cid f T = (case snd T cid of
     None \<Rightarrow> (Inl (NotFound cid), T)
   | Some c \<Rightarrow> (Inr (fst (f (cn_driver c))), (fst T, (snd T)(cid \<mapsto> c \<lparr> cn_driver := snd (f (cn_driver c)) \<rparr>))))"

definition spec_status :: "uuid \<Rightarrow> 'd table \<Rightarrow> ConnectionManagerError + ConnectionSummary" where
  "spec_status cid T = ok_or (NotFound cid) (map_option (conn_summary cid) (snd T cid))"

definition spec_list :: "'d table \<Rightarrow> ConnectionSummary list" where
  "spec_list T = map (\<lambda>cid. conn_summary cid (the (snd T cid))) (sorted_list_of_set (dom (snd T)))"

section \<open>Sequences of calls\<close>

datatype (dead 'd, dead 'a) manager_call =
    CallConnect string ConnectionConfig
  | CallDisconnect uuid
  | CallDriver uuid "'d \<Rightarrow> 'a \<times> 'd"
  | CallStatus uuid
  | CallList

datatype 'a manager_reply =
    ReplyId "ConnectionManagerError + uuid"
  | ReplyUnit "ConnectionManagerError + unit"
  | ReplyDriver "ConnectionManagerError + 'a"
  | ReplyStatus "ConnectionManagerError + ConnectionSummary"
  | ReplyList "ConnectionSummary list"
  | NoDriver

text \<open>A call on a connection's driver is what the tools do: \<open>get\<close> the handle, then call a method on it.\<close>

definition via_handle ::
  "uuid \<Rightarrow> ('d \<Rightarrow> 'a \<times> 'd) \<Rightarrow> 'd manager \<Rightarrow> 'a manager_reply \<times> 'd manager" where
  "via_handle cid f m = (case manager_get cid m of
     Inl e \<Rightarrow> (ReplyDriver (Inl e), m)
   | Inr h \<Rightarrow> (case on_driver h f m of
       (None, m') \<Rightarrow> (NoDriver, m') | (Some x, m') \<Rightarrow> (ReplyDriver (Inr x), m')))"

definition manager_does ::
  "'d driver_ops \<Rightarrow> ('d, 'a) manager_call \<Rightarrow> 'd manager \<Rightarrow> 'a manager_reply \<times> 'd manager" where
  "manager_does D call m = (case call of
     CallConnect ty config \<Rightarrow> (let (r, m') = manager_connect D ty config m in (ReplyId r, m'))
   | CallDisconnect cid \<Rightarrow> (let (r, m') = manager_disconnect D cid m in (ReplyUnit r, m'))
   | CallDriver cid f \<Rightarrow> via_handle cid f m
   | CallStatus cid \<Rightarrow> (ReplyStatus (manager_status cid m), m)
   | CallList \<Rightarrow> (ReplyList (manager_list m), m))"

definition spec_does ::
  "'d driver_ops \<Rightarrow> 'd setting \<Rightarrow> ('d, 'a) manager_call \<Rightarrow> 'd table \<Rightarrow> 'a manager_reply \<times> 'd table" where
  "spec_does D S call T = (case call of
     CallConnect ty config \<Rightarrow> (let (r, T') = spec_connect D S ty config T in (ReplyId r, T'))
   | CallDisconnect cid \<Rightarrow> (let (r, T') = spec_disconnect D cid T in (ReplyUnit r, T'))
   | CallDriver cid f \<Rightarrow> (let (r, T') = spec_call cid f T in (ReplyDriver r, T'))
   | CallStatus cid \<Rightarrow> (ReplyStatus (spec_status cid T), T)
   | CallList \<Rightarrow> (ReplyList (spec_list T), T))"

fun run_calls :: "('c \<Rightarrow> 'm \<Rightarrow> 'r \<times> 'm) \<Rightarrow> 'c list \<Rightarrow> 'm \<Rightarrow> 'r list \<times> 'm" where
  "run_calls f [] m = ([], m)"
| "run_calls f (c # cs) m = (let (r, m1) = f c m; (rs, m2) = run_calls f cs m1 in (r # rs, m2))"

section \<open>The abstraction\<close>

definition abs_conn :: "'d manager \<Rightarrow> uuid \<Rightarrow> 'd connection option" where
  "abs_conn m cid = Option.bind (entry_get cid m) (\<lambda>e. map_option (\<lambda>d.
     \<lparr> cn_type = ce_database_type e, cn_since = ce_connected_at e, cn_driver = d \<rparr>) (mg_drivers m (ce_driver e)))"

definition abs_table :: "'d manager \<Rightarrow> 'd table" where
  "abs_table m = (mg_minted m, abs_conn m)"

definition abs_setting :: "'d manager \<Rightarrow> 'd setting" where
  "abs_setting m = \<lparr> st_factories = mg_factories m, st_uuids = mg_uuids m, st_clock = mg_clock m \<rparr>"

text \<open>The next \<open>n\<close> random identifiers do not repeat one another or an earlier one, and those the manager
  knows are among the ones it handed out.\<close>

definition ids_minted :: "nat \<Rightarrow> 'd manager \<Rightarrow> bool" where
  "ids_minted n m \<longleftrightarrow> inj_on (mg_uuids m) {..<mg_minted m + n}
     \<and> (\<forall>cid. bt_get (mg_entries m) cid \<noteq> None \<or> mg_attempts m cid \<noteq> None \<longrightarrow> cid \<in> mg_uuids m ` {..<mg_minted m})"

definition refines_ok :: "nat \<Rightarrow> 'd manager \<Rightarrow> bool" where
  "refines_ok n m \<longleftrightarrow> manager_ok m \<and> ids_minted n m"

lemma minted_fresh:
  assumes "refines_ok (Suc n) m"
  shows "fresh_next m"
proof -
  have "mg_uuids m (mg_minted m) \<notin> mg_uuids m ` {..<mg_minted m}"
    using assms by (auto simp: refines_ok_def ids_minted_def dest: inj_onD)
  then show ?thesis using assms unfolding refines_ok_def ids_minted_def fresh_next_def by blast
qed

lemma fixed_setting:
  "abs_setting (snd (manager_disconnect D cid m)) = abs_setting m"
  "abs_setting (snd (on_driver h f m)) = abs_setting m"
  by (simp_all add: abs_setting_def manager_disconnect_def on_driver_def pair_simps Let_def split: option.split)

lemma abs_conn_entry:
  "manager_ok m \<Longrightarrow> abs_conn m cid = None \<longleftrightarrow> entry_get cid m = None"
  by (cases "entry_get cid m") (auto simp: abs_conn_def manager_ok_def entry_get_def)

lemma entry_driver:
  assumes "manager_ok m" "entry_get cid m = Some e"
  obtains d where "mg_drivers m (ce_driver e) = Some d"
    "abs_conn m cid = Some \<lparr> cn_type = ce_database_type e, cn_since = ce_connected_at e, cn_driver = d \<rparr>"
proof -
  obtain d where "mg_drivers m (ce_driver e) = Some d"
    using assms unfolding manager_ok_def entry_get_def by blast
  then show ?thesis using that assms(2) by (simp add: abs_conn_def)
qed

text \<open>A change of the driver of one connection changes that connection only: no two share a driver.\<close>

lemma abs_conn_driver:
  assumes ok: "manager_ok m" and e: "entry_get cid m = Some e" and d: "mg_drivers m (ce_driver e) = Some d"
  shows "abs_conn (m \<lparr> mg_drivers := (mg_drivers m)(ce_driver e \<mapsto> d') \<rparr>)
    = (abs_conn m)(cid \<mapsto> \<lparr> cn_type = ce_database_type e, cn_since = ce_connected_at e, cn_driver = d' \<rparr>)"
proof
  fix c
  show "abs_conn (m \<lparr> mg_drivers := (mg_drivers m)(ce_driver e \<mapsto> d') \<rparr>) c
    = ((abs_conn m)(cid \<mapsto> \<lparr> cn_type = ce_database_type e, cn_since = ce_connected_at e, cn_driver = d' \<rparr>)) c"
  proof (cases "entry_get c m")
    case None
    then show ?thesis using e by (auto simp: abs_conn_def entry_get_def)
  next
    case (Some e2)
    have "c = cid" if "ce_driver e2 = ce_driver e"
      using ok e Some that unfolding manager_ok_def entry_get_def by metis
    then show ?thesis using e Some by (auto simp: abs_conn_def entry_get_def)
  qed
qed

lemma abs_conn_connected:
  assumes "manager_ok m"
  shows "abs_conn (connected_manager cid (mg_next m) ty d m)
    = (abs_conn m)(cid \<mapsto> \<lparr> cn_type = ty, cn_since = nat (mg_clock m), cn_driver = d \<rparr>)"
proof
  fix c
  have "ce_driver e \<noteq> mg_next m" if "entry_get c m = Some e" for e
    using assms that by (fastforce simp: manager_ok_def entry_get_def)
  then show "abs_conn (connected_manager cid (mg_next m) ty d m) c
      = ((abs_conn m)(cid \<mapsto> \<lparr> cn_type = ty, cn_since = nat (mg_clock m), cn_driver = d \<rparr>)) c"
    by (cases "entry_get c m") (auto simp: abs_conn_def entry_get_def connected_manager_def)
qed

lemma list_is_table:
  assumes "manager_ok m"
  shows "manager_list m = spec_list (abs_table m)"
proof -
  let ?es = "mg_entries m"
  have ok: "bt_ok ?es" using assms by (simp add: manager_ok_def)
  have get: "entry_get cid m = Some e" if "(cid, e) \<in> set ?es" for cid e
    using that bt_get_Some_in [OF ok] by (simp add: entry_get_def)
  have dom: "dom (abs_conn m) = set (map fst ?es)"
  proof -
    have "dom (abs_conn m) = dom (bt_get ?es)"
      using abs_conn_entry [OF assms] by (auto simp: entry_get_def dom_def)
    also have "\<dots> = set (map fst ?es)" by (simp add: bt_get_def fun_eq_iff dom_map_of_conv_image_fst [symmetric] dom_def)
    finally show ?thesis .
  qed
  have keys: "sorted_list_of_set (dom (abs_conn m)) = map fst ?es"
    unfolding dom using ok by (intro sorted_list_of_set.idem_if_sorted_distinct)
      (simp_all add: bt_ok_def strict_sorted_iff)
  have summary: "summary_from_entry (fst p) (snd p) = conn_summary (fst p) (the (abs_conn m (fst p)))" if "p \<in> set ?es" for p
  proof -
    have g: "entry_get (fst p) m = Some (snd p)" using get that by simp
    obtain d where "abs_conn m (fst p) = Some \<lparr> cn_type = ce_database_type (snd p), cn_since = ce_connected_at (snd p), cn_driver = d \<rparr>"
      by (rule entry_driver [OF assms g])
    then show ?thesis by (simp add: summary_from_entry_def conn_summary_def)
  qed
  have "sorted (map cs_connection_id (map (\<lambda>p. summary_from_entry (fst p) (snd p)) ?es))"
    using ok by (simp add: summary_from_entry_def comp_def bt_ok_def strict_sorted_iff)
  then have "manager_list m = map (\<lambda>p. summary_from_entry (fst p) (snd p)) ?es"
    by (simp add: manager_list_def split_def sort_key_id_if_sorted)
  also have "\<dots> = map (\<lambda>p. conn_summary (fst p) (the (abs_conn m (fst p)))) ?es"
    using summary by simp
  finally show ?thesis by (simp add: spec_list_def abs_table_def keys comp_def)
qed

lemma status_is_table: "manager_ok m \<Longrightarrow> manager_status cid m = spec_status cid (abs_table m)"
proof (cases "entry_get cid m")
  case None
  then show "manager_ok m \<Longrightarrow> ?thesis" using abs_conn_entry [of m cid] by (simp add: manager_status_def spec_status_def abs_table_def)
next
  case (Some e)
  assume ok: "manager_ok m"
  show ?thesis
    by (rule entry_driver [OF ok Some])
      (simp add: Some manager_status_def spec_status_def abs_table_def summary_from_entry_def conn_summary_def)
qed

text \<open>What every call keeps.\<close>

lemma ids_minted_weaken:
  assumes m: "ids_minted (Suc n) m" and u: "mg_uuids m' = mg_uuids m"
    and k: "mg_minted m \<le> mg_minted m'" "mg_minted m' \<le> Suc (mg_minted m)"
    and new: "\<And>cid. bt_get (mg_entries m') cid \<noteq> None \<or> mg_attempts m' cid \<noteq> None \<Longrightarrow>
        bt_get (mg_entries m) cid \<noteq> None \<or> mg_attempts m cid \<noteq> None \<or> (mg_minted m < mg_minted m' \<and> cid = mg_uuids m (mg_minted m))"
  shows "ids_minted n m'"
  unfolding ids_minted_def
proof (intro conjI allI impI)
  show "inj_on (mg_uuids m') {..<mg_minted m' + n}"
    unfolding u by (rule inj_on_subset [of _ "{..<mg_minted m + Suc n}"]) (use m k in \<open>auto simp: ids_minted_def\<close>)
next
  fix cid assume "bt_get (mg_entries m') cid \<noteq> None \<or> mg_attempts m' cid \<noteq> None"
  then consider "cid \<in> mg_uuids m ` {..<mg_minted m}" | "mg_minted m < mg_minted m'" "cid = mg_uuids m (mg_minted m)"
    using m new unfolding ids_minted_def by blast
  then show "cid \<in> mg_uuids m' ` {..<mg_minted m'}"
    by cases (use u k in auto)
qed

lemma connect_refines:
  assumes ok: "refines_ok (Suc n) m" and c: "manager_connect D ty config m = (r, m')"
  shows "spec_connect D (abs_setting m) ty config (abs_table m) = (r, abs_table m')
    \<and> refines_ok n m' \<and> abs_setting m' = abs_setting m"
proof -
  note mok = conjunct1 [OF ok [unfolded refines_ok_def]] and mint = conjunct2 [OF ok [unfolded refines_ok_def]]
  note fresh = minted_fresh [OF ok]
  have ok': "manager_ok m'" using connect_ok [OF mok fresh, of D ty config] c by simp
  show ?thesis
  proof (cases "map_of (mg_factories m) ty")
    case None
    have "ids_minted n m" by (rule ids_minted_weaken [OF mint]) auto
    then show ?thesis using None c mok by (auto simp: manager_connect_def spec_connect_def abs_setting_def refines_ok_def)
  next
    case (Some f)
    obtain x d where d: "do_connect D (f config) = (x, d)" by (rule prod.exhaust)
    show ?thesis
    proof (cases x)
      case (Inl e)
      note m' = connect_driver_fails [OF mok fresh Some d [unfolded Inl], unfolded c]
      have "ids_minted n m'" by (rule ids_minted_weaken [OF mint]) (use m' in \<open>auto split: if_splits\<close>)
      moreover have "abs_conn m' = abs_conn m" using m' by (auto simp: abs_conn_def entry_get_def fun_eq_iff)
      ultimately show ?thesis using m' ok' Some d Inl
        by (auto simp: spec_connect_def abs_setting_def abs_table_def refines_ok_def)
    next
      case (Inr u)
      note m' = connect_succeeds [OF mok fresh Some d [unfolded Inr], unfolded c]
      have "ids_minted n m'" by (rule ids_minted_weaken [OF mint]) (use m' in \<open>auto simp: connected_manager_def split: if_splits\<close>)
      then show ?thesis using m' ok' Some d Inr abs_conn_connected [OF mok]
        by (auto simp: spec_connect_def abs_setting_def abs_table_def refines_ok_def connected_manager_def)
    qed
  qed
qed

lemma disconnect_refines:
  assumes ok: "refines_ok (Suc n) m" and c: "manager_disconnect D cid m = (r, m')"
  shows "spec_disconnect D cid (abs_table m) = (r, abs_table m') \<and> refines_ok n m' \<and> abs_setting m' = abs_setting m"
proof -
  have mok: "manager_ok m" and mint: "ids_minted (Suc n) m" using ok by (simp_all add: refines_ok_def)
  have m': "m' = snd (manager_disconnect D cid m)" using c by simp
  have ok': "manager_ok m'" unfolding m' by (rule disconnect_ok [OF mok])
  have mint': "ids_minted n m'"
    by (rule ids_minted_weaken [OF mint]) (auto simp: m' disconnect_maps forget_def split: if_splits)
  have "spec_disconnect D cid (abs_table m) = (r, abs_table m')"
  proof (cases "entry_get cid m")
    case None
    then have "abs_conn m cid = None" "abs_conn m' = abs_conn m"
      using abs_conn_entry [OF mok] c by (auto simp: manager_disconnect_def abs_conn_def entry_get_def fun_eq_iff)
    then show ?thesis using None c by (auto simp: spec_disconnect_def abs_table_def manager_disconnect_def)
  next
    case (Some e)
    obtain d where d: "mg_drivers m (ce_driver e) = Some d"
      "abs_conn m cid = Some \<lparr> cn_type = ce_database_type e, cn_since = ce_connected_at e, cn_driver = d \<rparr>"
      by (rule entry_driver [OF mok Some])
    have "abs_conn m' c = ((abs_conn m)(cid := None)) c" for c
    proof (cases "entry_get c m")
      case None
      then show ?thesis using m' by (simp add: abs_conn_def entry_get_def disconnect_maps)
    next
      case (Some e2)
      have "ce_driver e2 \<noteq> ce_driver e" if "c \<noteq> cid"
        using mok \<open>entry_get cid m = Some e\<close> Some that unfolding manager_ok_def entry_get_def by metis
      then show ?thesis using c Some \<open>entry_get cid m = Some e\<close> d(1)
        by (auto simp: abs_conn_def entry_get_def manager_disconnect_def on_driver_def pair_simps)
    qed
    then have "abs_conn m' = (abs_conn m)(cid := None)" ..
    then show ?thesis using c Some d
      by (auto simp: spec_disconnect_def abs_table_def manager_disconnect_def on_driver_def pair_simps)
  qed
  then show ?thesis using ok' mint' fixed_setting(1) [of D cid m] m' by (simp add: refines_ok_def)
qed

lemma call_refines:
  assumes ok: "refines_ok (Suc n) m"
  shows "fst (via_handle cid f m) = ReplyDriver (fst (spec_call cid f (abs_table m)))
    \<and> abs_table (snd (via_handle cid f m)) = snd (spec_call cid f (abs_table m))
    \<and> refines_ok n (snd (via_handle cid f m)) \<and> abs_setting (snd (via_handle cid f m)) = abs_setting m"
proof -
  have mok: "manager_ok m" and mint: "ids_minted (Suc n) m" using ok by (simp_all add: refines_ok_def)
  show ?thesis
  proof (cases "entry_get cid m")
    case None
    have "ids_minted n m" by (rule ids_minted_weaken [OF mint]) auto
    then show ?thesis using None mok abs_conn_entry [OF mok, of cid]
      by (simp add: via_handle_def manager_get_def spec_call_def abs_table_def refines_ok_def)
  next
    case (Some e)
    obtain d where d: "mg_drivers m (ce_driver e) = Some d"
      "abs_conn m cid = Some \<lparr> cn_type = ce_database_type e, cn_since = ce_connected_at e, cn_driver = d \<rparr>"
      by (rule entry_driver [OF mok Some])
    let ?m' = "m \<lparr> mg_drivers := (mg_drivers m)(ce_driver e \<mapsto> snd (f d)) \<rparr>"
    have v: "via_handle cid f m = (ReplyDriver (Inr (fst (f d))), ?m')"
      using Some d(1) by (simp add: via_handle_def manager_get_def on_driver_def pair_simps)
    have "manager_ok ?m'" by (rule manager_ok_fields [OF mok]) auto
    moreover have "ids_minted n ?m'" by (rule ids_minted_weaken [OF mint]) auto
    ultimately show ?thesis
      using v d(2) abs_conn_driver [OF mok Some d(1), of "snd (f d)"]
      by (simp add: spec_call_def abs_table_def refines_ok_def abs_setting_def)
  qed
qed

lemma does_refines:
  assumes "refines_ok (Suc n) m" "manager_does D call m = (r, m')"
  shows "spec_does D (abs_setting m) call (abs_table m) = (r, abs_table m') \<and> refines_ok n m' \<and> abs_setting m' = abs_setting m"
proof -
  have weak: "ids_minted n m"
    by (rule ids_minted_weaken [OF conjunct2 [OF assms(1) [unfolded refines_ok_def]]]) auto
  show ?thesis
  proof (cases call)
    case (CallConnect ty config)
    obtain x y where "manager_connect D ty config m = (x, y)" by (rule prod.exhaust)
    then show ?thesis using connect_refines [OF assms(1)] assms(2) CallConnect by (auto simp: manager_does_def spec_does_def)
  next
    case (CallDisconnect cid)
    obtain x y where "manager_disconnect D cid m = (x, y)" by (rule prod.exhaust)
    then show ?thesis using disconnect_refines [OF assms(1)] assms(2) CallDisconnect by (auto simp: manager_does_def spec_does_def)
  next
    case (CallDriver cid f)
    then show ?thesis using call_refines [OF assms(1), of cid f] assms(2) by (auto simp: manager_does_def spec_does_def pair_simps)
  next
    case (CallStatus cid)
    then show ?thesis using status_is_table [of m cid] weak assms by (auto simp: manager_does_def spec_does_def refines_ok_def)
  next
    case CallList
    then show ?thesis using list_is_table [of m] weak assms by (auto simp: manager_does_def spec_does_def refines_ok_def)
  qed
qed

section \<open>Properties\<close>

text \<open>C3. The connection manager is its specification: for any sequence of connects, disconnects, calls on a
  connection's driver, status requests and listings, every reply is the one the table of connections
  gives, and the manager's maps, sessions, attempts and handles still represent that table at the end.
  The random identifiers drawn on the way are assumed not to repeat.\<close>

theorem manager_refines_table:
  assumes "refines_ok (length calls) m"
  shows "run_calls (spec_does D (abs_setting m)) calls (abs_table m)
    = (fst (run_calls (manager_does D) calls m), abs_table (snd (run_calls (manager_does D) calls m)))"
  using assms
proof (induction calls arbitrary: m)
  case Nil
  then show ?case by simp
next
  case (Cons c cs)
  obtain r m1 where d: "manager_does D c m = (r, m1)" by (rule prod.exhaust)
  have s: "spec_does D (abs_setting m) c (abs_table m) = (r, abs_table m1)" "refines_ok (length cs) m1" "abs_setting m1 = abs_setting m"
    using does_refines [of "length cs", OF _ d] Cons.prems by simp_all
  then show ?case using Cons.IH [OF s(2)] d by (simp add: pair_simps)
qed

theorem manager_refines_table_witness:
  "run_calls (spec_does counting_ops (abs_setting counting_manager))
      [CallConnect ''counting'' (port_config 5), CallDriver 0 (\<lambda>d. (d, d + 10)), CallDisconnect 0, CallList] (abs_table counting_manager)
    = (fst (run_calls (manager_does counting_ops)
        [CallConnect ''counting'' (port_config 5), CallDriver 0 (\<lambda>d. (d, d + 10)), CallDisconnect 0, CallList] counting_manager),
       abs_table (snd (run_calls (manager_does counting_ops)
        [CallConnect ''counting'' (port_config 5), CallDriver 0 (\<lambda>d. (d, d + 10)), CallDisconnect 0, CallList] counting_manager)))"
proof (rule manager_refines_table)
  have "inj_on (word_of_nat :: nat \<Rightarrow> uuid) {..<Suc (Suc (Suc (Suc 0)))}"
    by (rule inj_onI) (simp add: word_of_nat_eq_iff take_bit_nat_eq_self)
  then show "refines_ok (length [CallConnect ''counting'' (port_config 5), CallDriver 0 (\<lambda>d. (d, d + 10)), CallDisconnect 0, CallList :: (nat, nat) manager_call]) counting_manager"
    by (simp add: refines_ok_def ids_minted_def) (simp add: counting_simps)
qed

end
