(* ===== verification/Tools.thy ===== *)
theory Tools
  imports Main Prelude Lib Core McpServer Profiles Manager
begin

text \<open>
  The tools of \<open>connections/src/tools\<close>: their argument structs, schemas and calls over the state
  they share, the connection manager and the profile manager. A tool call takes the arguments and
  the state and returns the reply with the new state, so it is a \<open>tool_call\<close> of theory \<open>McpServer\<close>.
\<close>

section \<open>The state the tools share\<close>

text \<open>The clock is the one \<open>save\<close> reads.\<close>

record ('d, 's) world =
  w_manager :: "'d manager"
  w_profiles :: "'s profile_manager"
  w_now :: nat

definition with_manager :: "('d manager \<Rightarrow> 'a \<times> 'd manager) \<Rightarrow> ('d, 's) world \<Rightarrow> 'a \<times> ('d, 's) world" where
  "with_manager f w = (let (x, m) = f (w_manager w) in (x, w \<lparr> w_manager := m \<rparr>))"

definition with_profiles_do ::
  "('s profile_manager \<Rightarrow> 'a \<times> 's profile_manager) \<Rightarrow> ('d, 's) world \<Rightarrow> 'a \<times> ('d, 's) world" where
  "with_profiles_do f w = (let (x, p) = f (w_profiles w) in (x, w \<lparr> w_profiles := p \<rparr>))"

section \<open>Support\<close>

definition parse_arguments :: "lib \<Rightarrow> string \<Rightarrow> (json \<Rightarrow> 'a option) \<Rightarrow> json option \<Rightarrow> McpToolError + 'a" where
  "parse_arguments L ty de args = res_bind (ok_or (InvalidArguments ''missing arguments'') args)
     (\<lambda>v. map_err InvalidArguments (from_value L ty de v))"

definition parse_connection_id :: "lib \<Rightarrow> string \<Rightarrow> McpToolError + uuid" where
  "parse_connection_id L raw = ok_or (InvalidArguments (''invalid connection_id: '' @ lib_uuid_err L raw))
     (lib_uuid_parse L raw)"

definition map_manager_error :: "lib \<Rightarrow> ConnectionManagerError \<Rightarrow> McpToolError" where
  "map_manager_error L e = Failed (case e of
     ConnectionManagerError.NotFound cid \<Rightarrow> ''no such connection: '' @ lib_uuid_show L cid
   | UnknownDatabaseType ty \<Rightarrow> ''unknown database type: '' @ ty
   | Superseded cid \<Rightarrow> ''connection attempt for '' @ lib_uuid_show L cid
       @ '' was superseded by a newer attempt''
   | Driver d \<Rightarrow> de_message d)"

definition backstop_message :: string where
  "backstop_message = ''query exceeded the '' @ show_nat CLIENT_BACKSTOP_SECS @
     ''s client-side timeout and was cancelled; this connection's link may be unstable, or the query itself may be missing an index''"

text \<open>A method of the connection's driver, after the lookup.\<close>

definition call_driver ::
  "lib \<Rightarrow> uuid \<Rightarrow> ('d \<Rightarrow> 'a dres \<times> 'd) \<Rightarrow> 'd manager \<Rightarrow> (McpToolError + 'a) \<times> 'd manager" where
  "call_driver L cid f m = (case manager_get cid m of
     Inl e \<Rightarrow> (Inl (map_manager_error L e), m)
   | Inr h \<Rightarrow> (case on_driver h f m of
       (Some r, m1) \<Rightarrow> (map_err (\<lambda>e. Failed (de_message e)) r, m1)
     | (None, m1) \<Rightarrow> (Inl (map_manager_error L (ConnectionManagerError.NotFound cid)), m1)))"

definition run_user_query ::
  "lib \<Rightarrow> 'd driver_ops \<Rightarrow> uuid \<Rightarrow> string \<Rightarrow> CellValue list option \<Rightarrow> nat option \<Rightarrow> 'd manager
   \<Rightarrow> (McpToolError + QueryResult) \<times> 'd manager" where
  "run_user_query L D cid query ps cap m = call_driver L cid
     (\<lambda>d. case do_execute_user_query D query cap ps d of
        (Some r, d1) \<Rightarrow> (r, d1)
      | (None, d1) \<Rightarrow> (let (_, d2) = do_cancel_query D d1
           in (Inl (driver_error Timeout backstop_message), d2))) m"

section \<open>Arguments\<close>

definition opt_str :: "fields \<Rightarrow> string \<Rightarrow> string option option" where
  "opt_str fs n = def_field fs n (de_option de_string) None"

record ConnectArgs =
  ca_profile_name :: "string option"
  ca_database_type :: "string option"
  ca_host :: "string option"
  ca_port :: "nat option"
  ca_username :: "string option"
  ca_password :: "string option"
  ca_database :: "string option"
  ca_ssl_mode :: "string option"
  ca_read_only :: "bool option"

definition de_connect_args :: "json \<Rightarrow> ConnectArgs option" where
  "de_connect_args v = do {
     fs \<leftarrow> de_fields [''profile_name'', ''database_type'', ''host'', ''port'', ''username'',
       ''password'', ''database'', ''ssl_mode'', ''read_only''] v;
     pn \<leftarrow> opt_str fs ''profile_name'';
     ty \<leftarrow> opt_str fs ''database_type'';
     host \<leftarrow> opt_str fs ''host'';
     port \<leftarrow> def_field fs ''port'' (de_option (de_unsigned 16)) None;
     user \<leftarrow> opt_str fs ''username'';
     pw \<leftarrow> opt_str fs ''password'';
     db \<leftarrow> opt_str fs ''database'';
     ssl \<leftarrow> opt_str fs ''ssl_mode'';
     ro \<leftarrow> def_field fs ''read_only'' (de_option de_bool) None;
     Some \<lparr> ca_profile_name = pn, ca_database_type = ty, ca_host = host, ca_port = port,
       ca_username = user, ca_password = pw, ca_database = db, ca_ssl_mode = ssl, ca_read_only = ro \<rparr> }"

record ExecuteQueryArgs =
  ea_connection_id :: string
  ea_query :: string
  ea_parameters :: "string option list option"
  ea_row_cap :: "nat option"

definition de_execute_query_args :: "json \<Rightarrow> ExecuteQueryArgs option" where
  "de_execute_query_args v = do {
     fs \<leftarrow> de_fields [''connection_id'', ''query'', ''parameters'', ''row_cap''] v;
     cid \<leftarrow> req_field fs ''connection_id'' de_string;
     q \<leftarrow> req_field fs ''query'' de_string;
     ps \<leftarrow> def_field fs ''parameters'' (de_option (de_vec (de_option de_string))) None;
     cap \<leftarrow> def_field fs ''row_cap'' (de_option (de_unsigned 64)) None;
     Some \<lparr> ea_connection_id = cid, ea_query = q, ea_parameters = ps, ea_row_cap = cap \<rparr> }"

text \<open>The structs whose one field is the connection's identifier.\<close>

definition de_connection_id_args :: "json \<Rightarrow> string option" where
  "de_connection_id_args v = do {
     fs \<leftarrow> de_fields [''connection_id''] v;
     req_field fs ''connection_id'' de_string }"

definition de_list_tables_args :: "json \<Rightarrow> (string \<times> string option) option" where
  "de_list_tables_args v = do {
     fs \<leftarrow> de_fields [''connection_id'', ''schema''] v;
     cid \<leftarrow> req_field fs ''connection_id'' de_string;
     schema \<leftarrow> opt_str fs ''schema'';
     Some (cid, schema) }"

definition de_describe_table_args :: "json \<Rightarrow> (string \<times> string \<times> string option) option" where
  "de_describe_table_args v = do {
     fs \<leftarrow> de_fields [''connection_id'', ''table'', ''schema''] v;
     cid \<leftarrow> req_field fs ''connection_id'' de_string;
     table \<leftarrow> req_field fs ''table'' de_string;
     schema \<leftarrow> opt_str fs ''schema'';
     Some (cid, table, schema) }"

record SaveConnectionProfileArgs =
  sa_name :: string
  sa_database_type :: string
  sa_host :: string
  sa_port :: nat
  sa_username :: string
  sa_password :: "string option"
  sa_database :: "string option"
  sa_ssl_mode :: "string option"
  sa_read_only :: "bool option"

definition de_save_args :: "json \<Rightarrow> SaveConnectionProfileArgs option" where
  "de_save_args v = do {
     fs \<leftarrow> de_fields [''name'', ''database_type'', ''host'', ''port'', ''username'', ''password'',
       ''database'', ''ssl_mode'', ''read_only''] v;
     name \<leftarrow> req_field fs ''name'' de_string;
     ty \<leftarrow> req_field fs ''database_type'' de_string;
     host \<leftarrow> req_field fs ''host'' de_string;
     port \<leftarrow> req_field fs ''port'' (de_unsigned 16);
     user \<leftarrow> req_field fs ''username'' de_string;
     pw \<leftarrow> opt_str fs ''password'';
     db \<leftarrow> opt_str fs ''database'';
     ssl \<leftarrow> opt_str fs ''ssl_mode'';
     ro \<leftarrow> def_field fs ''read_only'' (de_option de_bool) None;
     Some \<lparr> sa_name = name, sa_database_type = ty, sa_host = host, sa_port = port,
       sa_username = user, sa_password = pw, sa_database = db, sa_ssl_mode = ssl, sa_read_only = ro \<rparr> }"

definition de_name_args :: "json \<Rightarrow> string option" where
  "de_name_args v = do {
     fs \<leftarrow> de_fields [''name''] v;
     req_field fs ''name'' de_string }"

section \<open>Schemas\<close>

definition ty_string :: json where
  "ty_string = json_obj [(''type'', JString ''string'')]"

definition described :: "string \<Rightarrow> string \<Rightarrow> json" where
  "described ty text = json_obj [(''type'', JString ty), (''description'', JString text)]"

definition object_schema :: "(string \<times> json) list \<Rightarrow> string list \<Rightarrow> json" where
  "object_schema props required = json_obj ([(''type'', JString ''object''), (''properties'', json_obj props)]
     @ (if required = [] then [] else [(''required'', json_strs required)])
     @ [(''additionalProperties'', JBool False)])"

definition port_schema :: json where
  "port_schema = json_obj [(''type'', JString ''integer''), (''minimum'', json_nat 0),
     (''maximum'', json_nat 65535)]"

definition ssl_mode_schema :: json where
  "ssl_mode_schema = json_obj [(''type'', JString ''string''),
     (''enum'', json_strs [''disabled'', ''preferred'', ''required'', ''verify_ca'', ''verify_identity'']),
     (''description'', JString ''Defaults to verify_identity when omitted.'')]"

definition connect_schema :: json where
  \<open>connect_schema = json_obj [(''type'', JString ''object''),
     (''properties'', json_obj [
        (''profile_name'', described ''string'' ''Name of a profile saved via save_connection_profile. Cannot be combined with database_type/host/port/username/password/database.''),
        (''database_type'', described ''string'' ''Driver id the connection manager was registered under, e.g. "PostgreSQL". Required when profile_name is not given.''),
        (''host'', ty_string), (''port'', port_schema), (''username'', ty_string),
        (''password'', ty_string), (''database'', ty_string), (''ssl_mode'', ssl_mode_schema),
        (''read_only'', described ''boolean'' ''When true, the connection rejects any write the underlying engine can be made to refuse. Only applies to the ad-hoc credential path; a profile_name connection uses the read_only value saved on that profile. Defaults to false.'')]),
     (''oneOf'', JArray [json_obj [(''required'', json_strs [''profile_name''])],
        json_obj [(''required'', json_strs [''database_type'', ''host'', ''port'', ''username''])]]),
     (''additionalProperties'', JBool False)]\<close>

definition query_schema :: json where
  "query_schema = object_schema [(''connection_id'', ty_string), (''query'', ty_string),
     (''parameters'', json_obj [(''type'', JString ''array''),
        (''items'', json_obj [(''type'', json_strs [''string'', ''null''])]),
        (''description'', JString ''Bound parameters in order. null binds SQL NULL; a string binds a text value. Binary parameters are not supported through this tool.'')]),
     (''row_cap'', json_obj [(''type'', JString ''integer''), (''minimum'', json_nat 0)])]
     [''connection_id'', ''query'']"

definition connection_id_schema :: json where
  "connection_id_schema = object_schema [(''connection_id'', ty_string)] [''connection_id'']"

definition no_arguments_schema :: json where
  "no_arguments_schema = object_schema [] []"

definition list_tables_schema :: json where
  "list_tables_schema = object_schema [(''connection_id'', ty_string), (''schema'', ty_string)] [''connection_id'']"

definition describe_table_schema :: json where
  "describe_table_schema = object_schema
     [(''connection_id'', ty_string), (''table'', ty_string), (''schema'', ty_string)]
     [''connection_id'', ''table'']"

definition save_schema :: json where
  \<open>save_schema = object_schema [
     (''name'', described ''string'' ''Unique name for this profile, e.g. "prod-db". Saving again with the same name updates it.''),
     (''database_type'', described ''string'' ''Driver id the connection manager was registered under, e.g. "PostgreSQL".''),
     (''host'', ty_string), (''port'', port_schema), (''username'', ty_string),
     (''password'', described ''string'' ''Stored encrypted-at-rest. Omit on an update to keep the existing password unchanged.''),
     (''database'', ty_string), (''ssl_mode'', ssl_mode_schema),
     (''read_only'', described ''boolean'' ''When true, connections opened via this profile reject any write the underlying engine can be made to refuse. Omit on an update to keep the currently stored value unchanged; defaults to false for a brand new profile.'')]
     [''name'', ''database_type'', ''host'', ''port'', ''username'']\<close>

definition delete_schema :: json where
  "delete_schema = object_schema [(''name'', ty_string)] [''name'']"

section \<open>connect\<close>

definition parse_ssl_mode :: "string option \<Rightarrow> McpToolError + SslMode" where
  "parse_ssl_mode raw = (case raw of
     None \<Rightarrow> Inr VerifyIdentity
   | Some s \<Rightarrow> (if s = ''disabled'' then Inr Disabled
      else if s = ''preferred'' then Inr Preferred
      else if s = ''required'' then Inr Required
      else if s = ''verify_ca'' then Inr VerifyCa
      else if s = ''verify_identity'' then Inr VerifyIdentity
      else Inl (InvalidArguments (''unrecognized ssl_mode: '' @ s))))"

definition required_arg :: "string \<Rightarrow> 'a option \<Rightarrow> McpToolError + 'a" where
  "required_arg n x = ok_or (InvalidArguments (n @ '' is required when profile_name is not given'')) x"

definition ad_hoc_config :: "ConnectArgs \<Rightarrow> McpToolError + string \<times> ConnectionConfig" where
  "ad_hoc_config a =
     res_bind (required_arg ''database_type'' (ca_database_type a)) (\<lambda>ty.
     res_bind (required_arg ''host'' (ca_host a)) (\<lambda>host.
     res_bind (required_arg ''port'' (ca_port a)) (\<lambda>port.
     res_bind (required_arg ''username'' (ca_username a)) (\<lambda>user.
     res_bind (parse_ssl_mode (ca_ssl_mode a)) (\<lambda>ssl.
       Inr (ty, \<lparr> cc_host = host, cc_port = port, cc_username = user, cc_password = ca_password a,
         cc_database = ca_database a, cc_ssl = SslConfig_default \<lparr> ssl_mode := Some ssl \<rparr>,
         cc_read_only = (case ca_read_only a of None \<Rightarrow> False | Some b \<Rightarrow> b),
         cc_additional_fields = [] \<rparr>))))))"

definition only_profile_name :: "ConnectArgs \<Rightarrow> bool" where
  "only_profile_name a \<longleftrightarrow> ca_database_type a = None \<and> ca_host a = None \<and> ca_port a = None
     \<and> ca_username a = None \<and> ca_password a = None \<and> ca_database a = None \<and> ca_ssl_mode a = None
     \<and> ca_read_only a = None"

definition profile_conflict :: string where
  "profile_conflict = ''profile_name cannot be combined with database_type/host/port/username/password/database/ssl_mode/read_only''"

definition profiles_disabled :: string where
  "profiles_disabled = ''connection profiles are not enabled on this server (set DB_HEADLESS_MASTER_KEY to enable save_connection_profile)''"

text \<open>Which database and configuration a call asks for; the flag says whether the tool was built
  with a profile manager.\<close>

definition connect_request ::
  "lib \<Rightarrow> 's secret_ops \<Rightarrow> bool \<Rightarrow> ConnectArgs \<Rightarrow> ('d, 's) world
   \<Rightarrow> (McpToolError + string \<times> ConnectionConfig) \<times> ('d, 's) world" where
  "connect_request L SO enabled a w = (case ca_profile_name a of
     None \<Rightarrow> (ad_hoc_config a, w)
   | Some name \<Rightarrow>
       if \<not> only_profile_name a then (Inl (InvalidArguments profile_conflict), w)
       else if \<not> enabled then (Inl (Failed profiles_disabled), w)
       else (let (r, w1) = with_profiles_do (profile_resolve L SO name) w
             in (map_err (\<lambda>e. Failed (profile_error_text e))
                   (res_map (\<lambda>p. (rp_database_type p, rp_config p)) r), w1)))"

definition connect_call ::
  "lib \<Rightarrow> 'd driver_ops \<Rightarrow> 's secret_ops \<Rightarrow> bool \<Rightarrow> ('d, 's) world tool_call" where
  "connect_call L D SO enabled args w = (case parse_arguments L ''ConnectArgs'' de_connect_args args of
     Inl e \<Rightarrow> (Inl e, w)
   | Inr a \<Rightarrow> (case connect_request L SO enabled a w of
       (Inl e, w1) \<Rightarrow> (Inl e, w1)
     | (Inr (ty, config), w1) \<Rightarrow>
         (let (r, w2) = with_manager (manager_connect D ty config) w1
          in (map_err (map_manager_error L)
               (res_map (\<lambda>cid. json_obj [(''connection_id'', json_uuid L cid)]) r), w2))))"

section \<open>Queries and catalogue\<close>

definition to_cell_value :: "string option \<Rightarrow> CellValue" where
  "to_cell_value a = (case a of Some t \<Rightarrow> CText t | None \<Rightarrow> CNull)"

text \<open>The common start of the tools that name a connection, and what follows with its identifier.\<close>

definition with_connection ::
  "lib \<Rightarrow> string \<Rightarrow> (json \<Rightarrow> 'a option) \<Rightarrow> ('a \<Rightarrow> string) \<Rightarrow> json option
   \<Rightarrow> ('a \<Rightarrow> uuid \<Rightarrow> 'w \<Rightarrow> (McpToolError + json) \<times> 'w) \<Rightarrow> 'w \<Rightarrow> (McpToolError + json) \<times> 'w" where
  "with_connection L ty de raw args f w = (case parse_arguments L ty de args of
     Inl e \<Rightarrow> (Inl e, w)
   | Inr a \<Rightarrow> (case parse_connection_id L (raw a) of
       Inl e \<Rightarrow> (Inl e, w)
     | Inr cid \<Rightarrow> f a cid w))"

definition query_tool_call ::
  "lib \<Rightarrow> 'd driver_ops \<Rightarrow> string \<Rightarrow> (QueryResult \<Rightarrow> json) \<Rightarrow> ('d, 's) world tool_call" where
  "query_tool_call L D ty reply args = with_connection L ty de_execute_query_args ea_connection_id args
     (\<lambda>a cid w.
        (let ps = map_option (map to_cell_value) (ea_parameters a);
             (r, w1) = with_manager (run_user_query L D cid (ea_query a) ps (ea_row_cap a)) w
         in (res_map reply r, w1)))"

definition execute_query_call :: "lib \<Rightarrow> 'd driver_ops \<Rightarrow> ('d, 's) world tool_call" where
  "execute_query_call L D = query_tool_call L D ''ExecuteQueryArgs'' ser_query_result"

definition disconnect_call :: "lib \<Rightarrow> 'd driver_ops \<Rightarrow> ('d, 's) world tool_call" where
  "disconnect_call L D args = with_connection L ''DisconnectArgs'' de_connection_id_args id args
     (\<lambda>_ cid w.
        (let (r, w1) = with_manager (manager_disconnect D cid) w
         in (map_err (map_manager_error L) (res_map (\<lambda>_. json_obj
               [(''connection_id'', json_uuid L cid), (''disconnected'', JBool True)]) r), w1)))"

definition ser_summary :: "lib \<Rightarrow> ConnectionSummary \<Rightarrow> json" where
  "ser_summary L c = json_obj [(''connection_id'', json_uuid L (cs_connection_id c)),
     (''database_type'', JString (cs_database_type c)),
     (''connected_at_unix_ms'', json_nat (cs_connected_at_unix_ms c))]"

definition list_connections_call :: "lib \<Rightarrow> ('d, 's) world tool_call" where
  "list_connections_call L args w =
     (Inr (json_obj [(''connections'', JArray (map (ser_summary L) (manager_list (w_manager w))))]), w)"

definition get_connection_status_call :: "lib \<Rightarrow> ('d, 's) world tool_call" where
  "get_connection_status_call L args = with_connection L ''GetConnectionStatusArgs'' de_connection_id_args id args
     (\<lambda>_ cid w. (map_err (map_manager_error L) (res_map (ser_summary L) (manager_status cid (w_manager w))), w))"

definition list_databases_call :: "lib \<Rightarrow> 'd driver_ops \<Rightarrow> ('d, 's) world tool_call" where
  "list_databases_call L D args = with_connection L ''ListDatabasesArgs'' de_connection_id_args id args
     (\<lambda>_ cid w. (let (r, w1) = with_manager (call_driver L cid (do_fetch_databases D)) w
       in (res_map (\<lambda>xs. json_obj [(''databases'', json_strs xs)]) r, w1)))"

definition list_tables_call :: "lib \<Rightarrow> 'd driver_ops \<Rightarrow> ('d, 's) world tool_call" where
  "list_tables_call L D args = with_connection L ''ListTablesArgs'' de_list_tables_args fst args
     (\<lambda>a cid w. (let (r, w1) = with_manager (call_driver L cid (do_fetch_tables D (snd a))) w
       in (res_map (\<lambda>ts. json_obj [(''tables'', JArray (map ser_table_info ts))]) r, w1)))"

text \<open>A driver without schemas is not asked for them.\<close>

definition fetch_schemas_if :: "'d driver_ops \<Rightarrow> 'd \<Rightarrow> string list dres \<times> 'd" where
  "fetch_schemas_if D d = (if do_supports_schemas D d then do_fetch_schemas D d else (Inr [], d))"

definition list_schemas_call :: "lib \<Rightarrow> 'd driver_ops \<Rightarrow> ('d, 's) world tool_call" where
  "list_schemas_call L D args = with_connection L ''ListSchemasArgs'' de_connection_id_args id args
     (\<lambda>_ cid w. (let (r, w1) = with_manager (call_driver L cid (fetch_schemas_if D)) w
       in (res_map (\<lambda>xs. json_obj [(''schemas'', json_strs xs)]) r, w1)))"

definition describe_table_call :: "lib \<Rightarrow> 'd driver_ops \<Rightarrow> ('d, 's) world tool_call" where
  "describe_table_call L D args = with_connection L ''DescribeTableArgs'' de_describe_table_args fst args
     (\<lambda>a cid w. (let (r, w1) = with_manager
           (call_driver L cid (do_fetch_table_metadata D (fst (snd a)) (snd (snd a)))) w
       in (res_map ser_table_metadata r, w1)))"

section \<open>Profiles\<close>

definition save_parse_ssl_mode :: "string option \<Rightarrow> McpToolError + SslMode option" where
  "save_parse_ssl_mode raw = (case raw of
     None \<Rightarrow> Inr (Some VerifyIdentity)
   | Some s \<Rightarrow> (if s = ''disabled'' then Inr (Some Disabled)
      else if s = ''preferred'' then Inr (Some Preferred)
      else if s = ''required'' then Inr (Some Required)
      else if s = ''verify_ca'' then Inr (Some VerifyCa)
      else if s = ''verify_identity'' then Inr (Some VerifyIdentity)
      else Inl (InvalidArguments (''unrecognized ssl_mode: '' @ s))))"

definition save_params :: "SaveConnectionProfileArgs \<Rightarrow> SslMode option \<Rightarrow> SaveProfileParams" where
  "save_params a ssl = \<lparr> sp_name = sa_name a, sp_database_type = sa_database_type a, sp_host = sa_host a,
     sp_port = sa_port a, sp_username = sa_username a, sp_password = sa_password a,
     sp_database = sa_database a, sp_ssl_mode = ssl, sp_read_only = sa_read_only a \<rparr>"

definition save_connection_profile_call :: "lib \<Rightarrow> 's secret_ops \<Rightarrow> ('d, 's) world tool_call" where
  "save_connection_profile_call L SO args w =
     (case res_bind (parse_arguments L ''SaveConnectionProfileArgs'' de_save_args args)
         (\<lambda>a. res_map (\<lambda>ssl. (a, ssl)) (save_parse_ssl_mode (sa_ssl_mode a))) of
        Inl e \<Rightarrow> (Inl e, w)
      | Inr (a, ssl) \<Rightarrow>
          (let (r, w1) = with_profiles_do (profile_save L SO (save_params a ssl) (w_now w)) w
           in (map_err (\<lambda>e. Failed (profile_error_text e)) (res_map (\<lambda>_. json_obj
                [(''name'', JString (sa_name a)), (''saved'', JBool True)]) r), w1)))"

definition list_connection_profiles_call :: "lib \<Rightarrow> ('d, 's) world tool_call" where
  "list_connection_profiles_call L args w =
     (let (r, w1) = with_profiles_do (profile_list L) w
      in (map_err (\<lambda>e. Failed (profile_error_text e))
           (res_map (\<lambda>ps. json_obj [(''profiles'', JArray (map (json_value \<circ> ser_profile) ps))]) r), w1))"

definition delete_error :: "ProfileError \<Rightarrow> McpToolError" where
  "delete_error e = Failed (case e of
     ProfileError.NotFound n \<Rightarrow> ''no such connection profile: '' @ n
   | other \<Rightarrow> profile_error_text other)"

definition delete_connection_profile_call :: "lib \<Rightarrow> 's secret_ops \<Rightarrow> ('d, 's) world tool_call" where
  "delete_connection_profile_call L SO args w =
     (case parse_arguments L ''DeleteConnectionProfileArgs'' de_name_args args of
        Inl e \<Rightarrow> (Inl e, w)
      | Inr name \<Rightarrow>
          (let (r, w1) = with_profiles_do (profile_delete L SO name) w
           in (map_err delete_error (res_map (\<lambda>_. json_obj
                [(''name'', JString name), (''deleted'', JBool True)]) r), w1)))"

section \<open>The tools\<close>

text \<open>Name, description, schema and call of each tool, as its \<open>impl McpTool\<close> has them.\<close>

definition connect_tool :: "lib \<Rightarrow> 'd driver_ops \<Rightarrow> 's secret_ops \<Rightarrow> bool \<Rightarrow> ('d, 's) world tool" where
  "connect_tool L D SO enabled = \<lparr> tool_name = ''connect'',
     tool_description = ''Opens a new database connection and returns its connection_id. Pass profile_name to use credentials saved via save_connection_profile, or pass database_type/host/port/username/password directly for a one-off connection.'',
     tool_schema = connect_schema, tool_run = connect_call L D SO enabled \<rparr>"

definition disconnect_tool :: "lib \<Rightarrow> 'd driver_ops \<Rightarrow> ('d, 's) world tool" where
  "disconnect_tool L D = \<lparr> tool_name = ''disconnect'', tool_description = ''Closes a live connection.'',
     tool_schema = connection_id_schema, tool_run = disconnect_call L D \<rparr>"

definition execute_query_tool :: "lib \<Rightarrow> 'd driver_ops \<Rightarrow> ('d, 's) world tool" where
  "execute_query_tool L D = \<lparr> tool_name = ''execute_query'',
     tool_description = ''Executes a SQL query against a live connection and returns the result set.'',
     tool_schema = query_schema, tool_run = execute_query_call L D \<rparr>"

definition list_connections_tool :: "lib \<Rightarrow> ('d, 's) world tool" where
  "list_connections_tool L = \<lparr> tool_name = ''list_connections'',
     tool_description = ''Lists every connection currently held open by this server.'',
     tool_schema = no_arguments_schema, tool_run = list_connections_call L \<rparr>"

definition get_connection_status_tool :: "lib \<Rightarrow> ('d, 's) world tool" where
  "get_connection_status_tool L = \<lparr> tool_name = ''get_connection_status'',
     tool_description = ''Returns the status of a single connection by id.'',
     tool_schema = connection_id_schema, tool_run = get_connection_status_call L \<rparr>"

definition list_databases_tool :: "lib \<Rightarrow> 'd driver_ops \<Rightarrow> ('d, 's) world tool" where
  "list_databases_tool L D = \<lparr> tool_name = ''list_databases'',
     tool_description = ''Lists databases visible on a live connection.'',
     tool_schema = connection_id_schema, tool_run = list_databases_call L D \<rparr>"

definition list_tables_tool :: "lib \<Rightarrow> 'd driver_ops \<Rightarrow> ('d, 's) world tool" where
  "list_tables_tool L D = \<lparr> tool_name = ''list_tables'',
     tool_description = ''Lists tables (and views) visible on a live connection, optionally scoped to a schema.'',
     tool_schema = list_tables_schema, tool_run = list_tables_call L D \<rparr>"

definition list_schemas_tool :: "lib \<Rightarrow> 'd driver_ops \<Rightarrow> ('d, 's) world tool" where
  "list_schemas_tool L D = \<lparr> tool_name = ''list_schemas'',
     tool_description = ''Lists schemas visible on a live connection. Returns an empty list for a driver that does not support schemas.'',
     tool_schema = connection_id_schema, tool_run = list_schemas_call L D \<rparr>"

definition describe_table_tool :: "lib \<Rightarrow> 'd driver_ops \<Rightarrow> ('d, 's) world tool" where
  "describe_table_tool L D = \<lparr> tool_name = ''describe_table'',
     tool_description = ''Returns columns, indexes, foreign keys, and triggers for a table.'',
     tool_schema = describe_table_schema, tool_run = describe_table_call L D \<rparr>"

definition save_connection_profile_tool :: "lib \<Rightarrow> 's secret_ops \<Rightarrow> ('d, 's) world tool" where
  "save_connection_profile_tool L SO = \<lparr> tool_name = ''save_connection_profile'',
     tool_description = ''Saves database credentials once under a name. Use '' @ [BACKTICK] @ ''connect'' @ [BACKTICK] @ '' with profile_name afterward instead of passing the password again.'',
     tool_schema = save_schema, tool_run = save_connection_profile_call L SO \<rparr>"

definition list_connection_profiles_tool :: "lib \<Rightarrow> ('d, 's) world tool" where
  "list_connection_profiles_tool L = \<lparr> tool_name = ''list_connection_profiles'',
     tool_description = ''Lists saved connection profiles (name, host, database_type, etc). Never includes passwords.'',
     tool_schema = no_arguments_schema, tool_run = list_connection_profiles_call L \<rparr>"

definition delete_connection_profile_tool :: "lib \<Rightarrow> 's secret_ops \<Rightarrow> ('d, 's) world tool" where
  "delete_connection_profile_tool L SO = \<lparr> tool_name = ''delete_connection_profile'',
     tool_description = ''Deletes a saved connection profile and its stored password.'',
     tool_schema = delete_schema, tool_run = delete_connection_profile_call L SO \<rparr>"

lemmas tool_defs = connect_tool_def disconnect_tool_def execute_query_tool_def list_connections_tool_def
  get_connection_status_tool_def list_databases_tool_def list_tables_tool_def list_schemas_tool_def
  describe_table_tool_def save_connection_profile_tool_def list_connection_profiles_tool_def
  delete_connection_profile_tool_def

lemma tool_names [simp]:
  "tool_name (connect_tool L D SO enabled) = ''connect''" "tool_name (disconnect_tool L D) = ''disconnect''"
  "tool_name (execute_query_tool L D) = ''execute_query''"
  "tool_name (list_connections_tool L) = ''list_connections''"
  "tool_name (get_connection_status_tool L) = ''get_connection_status''"
  "tool_name (list_databases_tool L D) = ''list_databases''"
  "tool_name (list_tables_tool L D) = ''list_tables''"
  "tool_name (list_schemas_tool L D) = ''list_schemas''"
  "tool_name (describe_table_tool L D) = ''describe_table''"
  "tool_name (save_connection_profile_tool L SO) = ''save_connection_profile''"
  "tool_name (list_connection_profiles_tool L) = ''list_connection_profiles''"
  "tool_name (delete_connection_profile_tool L SO) = ''delete_connection_profile''"
  by (simp_all add: tool_defs)

section \<open>Lemmas\<close>

lemma ok_or_case: "ok_or e x = (case x of None \<Rightarrow> Inl e | Some y \<Rightarrow> Inr y)"
  by (simp add: ok_or_def)

lemma parse_ssl_mode_named: "parse_ssl_mode (Some s) = ok_or (InvalidArguments (''unrecognized ssl_mode: '' @ s))
    (map_of ssl_mode_names s)"
  by (simp add: parse_ssl_mode_def ssl_mode_names_def)

lemma ad_hoc_Inr:
  "ad_hoc_config a = Inr (ty, c) \<longleftrightarrow> (\<exists>host port user ssl. ca_database_type a = Some ty \<and> ca_host a = Some host
     \<and> ca_port a = Some port \<and> ca_username a = Some user \<and> parse_ssl_mode (ca_ssl_mode a) = Inr ssl
     \<and> c = \<lparr> cc_host = host, cc_port = port, cc_username = user, cc_password = ca_password a,
         cc_database = ca_database a, cc_ssl = SslConfig_default \<lparr> ssl_mode := Some ssl \<rparr>,
         cc_read_only = (case ca_read_only a of None \<Rightarrow> False | Some b \<Rightarrow> b),
         cc_additional_fields = [] \<rparr>)"
  by (auto simp: ad_hoc_config_def required_arg_def)

lemma parse_id_shown [simp]: "uuid_codec L \<Longrightarrow> parse_connection_id L (lib_uuid_show L cid) = Inr cid"
  by (simp add: parse_connection_id_def uuid_codec_def)

definition id_args :: "lib \<Rightarrow> uuid \<Rightarrow> json" where
  "id_args L cid = json_obj [(''connection_id'', json_uuid L cid)]"

definition query_args :: "lib \<Rightarrow> uuid \<Rightarrow> string \<Rightarrow> json" where
  "query_args L cid q = json_obj [(''connection_id'', json_uuid L cid), (''query'', JString q)]"

lemma de_id_args [simp]: "de_connection_id_args (id_args L cid) = Some (lib_uuid_show L cid)"
  by (simp add: de_connection_id_args_def id_args_def json_uuid_def de_simps)

lemma de_query_args [simp]: "de_execute_query_args (query_args L cid q) =
    Some \<lparr> ea_connection_id = lib_uuid_show L cid, ea_query = q, ea_parameters = None, ea_row_cap = None \<rparr>"
  by (simp add: de_execute_query_args_def query_args_def json_uuid_def de_simps)

lemma parse_arguments_Some: "de v = Some a \<Longrightarrow> parse_arguments L ty de (Some v) = Inr a"
  by (simp add: parse_arguments_def from_value_def)

text \<open>A query on a connection of a well-formed manager.\<close>

definition query_result :: "'d driver_ops \<Rightarrow> string \<Rightarrow> nat option \<Rightarrow> CellValue list option \<Rightarrow> 'd
    \<Rightarrow> (McpToolError + QueryResult) \<times> 'd" where
  "query_result D q cap ps d = (case do_execute_user_query D q cap ps d of
     (Some r, d1) \<Rightarrow> (map_err (\<lambda>e. Failed (de_message e)) r, d1)
   | (None, d1) \<Rightarrow> (Inl (Failed backstop_message), snd (do_cancel_query D d1)))"

lemma run_user_query_found:
  assumes "entry_get cid m = Some e" "ce_driver e = h" "mg_drivers m h = Some d"
  shows "run_user_query L D cid q ps cap m = (fst (query_result D q cap ps d),
     m \<lparr> mg_drivers := (mg_drivers m)(h \<mapsto> snd (query_result D q cap ps d)) \<rparr>)"
  using assms
  by (simp add: run_user_query_def call_driver_def manager_get_def on_driver_def query_result_def
      pair_simps driver_error_def split: option.split prod.split)

lemma run_user_query_unknown:
  "entry_get cid m = None \<Longrightarrow>
   run_user_query L D cid q ps cap m = (Inl (Failed (''no such connection: '' @ lib_uuid_show L cid)), m)"
  by (simp add: run_user_query_def call_driver_def manager_get_def map_manager_error_def)

lemma manager_ok_driver:
  assumes "manager_ok m" "entry_get cid m = Some e"
  obtains d where "mg_drivers m (ce_driver e) = Some d"
  using assms by (fastforce simp: manager_ok_def entry_get_def)

text \<open>A state for the witnesses: the counting driver and empty profile files.\<close>

definition demo_world :: "(nat, file_store) world" where
  "demo_world = \<lparr> w_manager = counting_manager, w_profiles = ref_manager, w_now = 5 \<rparr>"

definition demo_connect_args :: json where
  "demo_connect_args = json_obj [(''database_type'', JString ''counting''), (''host'', JString ''h''),
     (''port'', json_nat 5), (''username'', JString ''u'')]"

definition demo_config :: ConnectionConfig where
  "demo_config = (port_config 5) \<lparr> cc_ssl := SslConfig_default \<lparr> ssl_mode := Some VerifyIdentity \<rparr> \<rparr>"

definition demo_connect_record :: ConnectArgs where
  "demo_connect_record = \<lparr> ca_profile_name = None, ca_database_type = Some ''counting'',
     ca_host = Some ''h'', ca_port = Some 5, ca_username = Some ''u'', ca_password = None,
     ca_database = None, ca_ssl_mode = None, ca_read_only = None \<rparr>"

lemma demo_args [simp]: "de_connect_args demo_connect_args = Some demo_connect_record"
  by (simp add: de_connect_args_def demo_connect_args_def demo_connect_record_def opt_str_def de_simps
      de_option_def json_nat_def de_unsigned_def)

lemma demo_ad_hoc [simp]: "ad_hoc_config demo_connect_record = Inr (''counting'', demo_config)"
  "ca_profile_name demo_connect_record = None"
  by (simp_all add: ad_hoc_config_def required_arg_def demo_connect_record_def parse_ssl_mode_def
      demo_config_def port_config_def)

lemma demo_world_fields [simp]: "w_manager demo_world = counting_manager" "w_profiles demo_world = ref_manager"
  "w_now demo_world = 5"
  by (simp_all add: demo_world_def)

lemma ref_uuid_codec [simp]: "uuid_codec ref_lib"
  using ref_lib_ok by (simp add: lib_ok_def)

lemma demo_driver [simp]: "do_connect counting_ops (cc_port demo_config) = (Inr (), 6)"
  by (simp add: demo_config_def counting_ops_def port_config_def)

section \<open>Properties\<close>

text \<open>What \<open>connect\<close> opens is what the caller asked for. Without a profile name the four required
  fields and the password arrive unchanged, the connection is read-only only if asked for, and the
  certificate check is the strictest unless the call names a mode, which is then the one used. With a
  profile name no other field may be given, the server must have profiles enabled, and the stored
  profile is used. Neither way changes a connection.\<close>

theorem connect_request_faithful:
  "let (r, w1) = connect_request L SO enabled a w
   in w_manager w1 = w_manager w \<and> (case r of Inl _ \<Rightarrow> True | Inr (ty, c) \<Rightarrow> (case ca_profile_name a of
        None \<Rightarrow> ca_database_type a = Some ty \<and> ca_host a = Some (cc_host c) \<and> ca_port a = Some (cc_port c)
          \<and> ca_username a = Some (cc_username c) \<and> ca_password a = cc_password c
          \<and> ca_database a = cc_database c \<and> (cc_read_only c \<longleftrightarrow> ca_read_only a = Some True)
          \<and> ssl_mode (cc_ssl c) = (case ca_ssl_mode a of None \<Rightarrow> Some VerifyIdentity
               | Some s \<Rightarrow> map_of ssl_mode_names s)
          \<and> ssl_mode (cc_ssl c) \<noteq> None \<and> w1 = w
      | Some name \<Rightarrow> enabled \<and> only_profile_name a
          \<and> fst (profile_resolve L SO name (w_profiles w)) = Inr \<lparr> rp_database_type = ty, rp_config = c \<rparr>))"
proof (cases "ca_profile_name a")
  case None
  show ?thesis
  proof (cases "ad_hoc_config a")
    case (Inl e)
    then show ?thesis using None by (simp add: connect_request_def)
  next
    case (Inr p)
    obtain ty c where "p = (ty, c)" by fastforce
    then show ?thesis
      using None Inr ad_hoc_Inr [of a ty c]
      by (auto simp: connect_request_def parse_ssl_mode_named parse_ssl_mode_def [of None] split: option.splits)
  qed
next
  case (Some name)
  then show ?thesis
    by (cases "fst (profile_resolve L SO name (w_profiles w))")
      (auto simp: connect_request_def with_profiles_do_def pair_simps)
qed

text \<open>C4. The life of a connection through the tools. The identifier \<open>connect\<close> replies with is the one
  \<open>execute_query\<close> accepts: the query reaches the driver that was opened, and its result, its error or the
  backstop's message is the reply. After \<open>disconnect\<close> the identifier is unknown to \<open>execute_query\<close> and
  \<open>get_connection_status\<close>. The other connections and the profiles are as before.\<close>

theorem connect_query_disconnect:
  assumes "uuid_codec L" "manager_ok (w_manager w)" "fresh_next (w_manager w)"
    and "de_connect_args v = Some a" "ad_hoc_config a = Inr (ty, config)" "ca_profile_name a = None"
    and "map_of (mg_factories (w_manager w)) ty = Some f" "do_connect D (f config) = (Inr (), d1)"
  shows "let cid = mg_uuids (w_manager w) (mg_minted (w_manager w));
             d2 = snd (do_apply_query_timeout D 30 d1);
             (r1, w1) = connect_call L D SO enabled (Some v) w;
             (r2, w2) = execute_query_call L D (Some (query_args L cid q)) w1;
             (r3, w3) = disconnect_call L D (Some (id_args L cid)) w2;
             (r4, w4) = execute_query_call L D (Some (query_args L cid q)) w3;
             (r5, w5) = get_connection_status_call L (Some (id_args L cid)) w4;
             gone = Inl (Failed (''no such connection: '' @ lib_uuid_show L cid))
     in r1 = Inr (id_args L cid)
      \<and> r2 = res_map ser_query_result (fst (query_result D q None None d2))
      \<and> r4 = gone \<and> r5 = gone
      \<and> mg_entries (w_manager w5) = bt_remove cid (bt_insert cid
          \<lparr> ce_driver = mg_next (w_manager w), ce_database_type = ty,
            ce_connected_at = nat (mg_clock (w_manager w)) \<rparr> (mg_entries (w_manager w)))
      \<and> w_profiles w5 = w_profiles w"
proof -
  let ?m = "w_manager w"
  let ?c = "mg_uuids ?m (mg_minted ?m)"
  let ?d2 = "snd (do_apply_query_timeout D 30 d1)"
  let ?m1 = "connected_manager ?c (mg_next ?m) ty ?d2 ?m"
  let ?m2 = "?m1 \<lparr> mg_drivers := (mg_drivers ?m1)(mg_next ?m \<mapsto> snd (query_result D q None None ?d2)) \<rparr>"
  let ?m3 = "snd (manager_disconnect D ?c ?m2)"
  have c: "manager_connect D ty config ?m = (Inr ?c, ?m1)"
    using connect_succeeds [OF assms(2,3,7,8)] by (simp add: SERVER_SECS_def)
  have 1: "connect_call L D SO enabled (Some v) w = (Inr (id_args L ?c), w \<lparr> w_manager := ?m1 \<rparr>)"
    using assms(4-6) c
    by (simp add: connect_call_def parse_arguments_Some connect_request_def with_manager_def id_args_def)
  have "run_user_query L D ?c q None None ?m1 = (fst (query_result D q None None ?d2), ?m2)"
    by (rule run_user_query_found [of ?c _ "\<lparr> ce_driver = mg_next ?m, ce_database_type = ty,
          ce_connected_at = nat (mg_clock ?m) \<rparr>"]) (simp_all add: entry_get_def connected_manager_def)
  then have 2: "execute_query_call L D (Some (query_args L ?c q)) (w \<lparr> w_manager := ?m1 \<rparr>) =
      (res_map ser_query_result (fst (query_result D q None None ?d2)), w \<lparr> w_manager := ?m2 \<rparr>)"
    using assms(1)
    by (simp add: execute_query_call_def query_tool_call_def with_connection_def parse_arguments_Some
        with_manager_def)
  have 3: "snd (disconnect_call L D (Some (id_args L ?c)) (w \<lparr> w_manager := ?m2 \<rparr>)) = w \<lparr> w_manager := ?m3 \<rparr>"
    using assms(1)
    by (simp add: disconnect_call_def with_connection_def parse_arguments_Some with_manager_def pair_simps)
  have e3: "entry_get ?c ?m3 = None" by (simp add: entry_get_def disconnect_maps)
  then have 4: "execute_query_call L D (Some (query_args L ?c q)) (w \<lparr> w_manager := ?m3 \<rparr>) =
      (Inl (Failed (''no such connection: '' @ lib_uuid_show L ?c)), w \<lparr> w_manager := ?m3 \<rparr>)"
    using assms(1)
    by (simp add: execute_query_call_def query_tool_call_def with_connection_def parse_arguments_Some
        with_manager_def run_user_query_unknown)
  have 5: "get_connection_status_call L (Some (id_args L ?c)) (w \<lparr> w_manager := ?m3 \<rparr>) =
      (Inl (Failed (''no such connection: '' @ lib_uuid_show L ?c)), w \<lparr> w_manager := ?m3 \<rparr>)"
    using assms(1) e3
    by (simp add: get_connection_status_call_def with_connection_def parse_arguments_Some
        manager_status_def map_manager_error_def)
  show ?thesis
    using 3 by (simp add: 1 2 4 5 pair_simps disconnect_maps) (simp add: connected_manager_def)
qed

theorem connect_query_disconnect_witness:
  "let (r1, w1) = connect_call ref_lib counting_ops (file_ops ref_lib) False (Some demo_connect_args) demo_world;
       (r2, w2) = execute_query_call ref_lib counting_ops (Some (query_args ref_lib 0 ''SELECT 1'')) w1
   in r1 = Inr (id_args ref_lib 0)
     \<and> r2 = res_map ser_query_result (fst (query_result counting_ops ''SELECT 1'' None None 7))"
  using connect_query_disconnect [of ref_lib demo_world demo_connect_args demo_connect_record "''counting''"
      demo_config cc_port counting_ops 6 "file_ops ref_lib" False "''SELECT 1''"]
  by (simp add: pair_simps)

text \<open>C25. Credentials are given once. After \<open>save_connection_profile\<close> succeeds, \<open>connect\<close> with only the
  profile's name hands the driver factory the saved fields with the saved password, read back from the
  encrypted store, under the strictest certificate check unless the save named another; the reply is
  what connecting with that configuration replies.\<close>

theorem save_then_connect:
  assumes "ready L (w_profiles w)" "de_save_args v = Some a" "save_parse_ssl_mode (sa_ssl_mode a) = Inr ssl"
    and "params_ok (save_params a ssl) (w_now w)" "sa_password a = Some pw"
  shows "let (r1, w1) = save_connection_profile_call L (file_ops L) (Some v) w;
             (r2, w2) = connect_call L D (file_ops L) True
                (Some (json_obj [(''profile_name'', JString (sa_name a))])) w1;
             config = \<lparr> cc_host = sa_host a, cc_port = sa_port a, cc_username = sa_username a,
                cc_password = Some pw, cc_database = sa_database a,
                cc_ssl = SslConfig_default \<lparr> ssl_mode := ssl \<rparr>,
                cc_read_only = (case sa_read_only a of Some b \<Rightarrow> b
                  | None \<Rightarrow> (case manager_profiles L (w_profiles w) (sa_name a) of
                       None \<Rightarrow> False | Some p \<Rightarrow> cp_read_only p)),
                cc_additional_fields = [] \<rparr>;
             (r3, m3) = manager_connect D (sa_database_type a) config (w_manager w)
     in r1 = Inr (json_obj [(''name'', JString (sa_name a)), (''saved'', JBool True)])
      \<and> ssl \<noteq> None
      \<and> w_manager w2 = m3
      \<and> r2 = map_err (map_manager_error L) (res_map (\<lambda>cid. json_obj [(''connection_id'', json_uuid L cid)]) r3)"
proof -
  let ?p = "save_params a ssl"
  have ne: "sa_name a \<noteq> []" using assms(4) by (simp add: params_ok_def save_params_def)
  obtain m1 where s: "profile_save L (file_ops L) ?p (w_now w) (w_profiles w) = (Inr (), m1)"
    and m1: "ready L m1"
      "manager_profiles L m1 = (manager_profiles L (w_profiles w))(sp_name ?p \<mapsto> save_profile ?p
          (manager_profiles L (w_profiles w) (sp_name ?p))
          (saved_has_password ?p (manager_profiles L (w_profiles w) (sp_name ?p))) (w_now w))"
      "secret_contents L (pm_secrets m1) = (case sp_password ?p of
          None \<Rightarrow> secret_contents L (pm_secrets (w_profiles w))
        | Some pw \<Rightarrow> (secret_contents L (pm_secrets (w_profiles w)))(secret_key (sp_name ?p) \<mapsto> pw))"
    using save_file [OF assms(1,4) assms(4) assms(4)] by blast
  have ssl: "ssl \<noteq> None"
    using assms(3) by (auto simp: save_parse_ssl_mode_def split: option.splits if_splits)
  have args: "de_connect_args (json_obj [(''profile_name'', JString n)]) = Some \<lparr> ca_profile_name = Some n,
      ca_database_type = None, ca_host = None, ca_port = None, ca_username = None, ca_password = None,
      ca_database = None, ca_ssl_mode = None, ca_read_only = None \<rparr>" for n
    by (simp add: de_connect_args_def opt_str_def de_simps de_option_def)
  have 1: "save_connection_profile_call L (file_ops L) (Some v) w =
      (Inr (json_obj [(''name'', JString (sa_name a)), (''saved'', JBool True)]), w \<lparr> w_profiles := m1 \<rparr>)"
    using s assms(2,3) by (simp add: save_connection_profile_call_def parse_arguments_Some with_profiles_do_def)
  obtain m2 where 2: "profile_resolve L (file_ops L) (sa_name a) m1 = (Inr \<lparr> rp_database_type = sa_database_type a,
      rp_config = \<lparr> cc_host = sa_host a, cc_port = sa_port a, cc_username = sa_username a,
        cc_password = Some pw, cc_database = sa_database a,
        cc_ssl = SslConfig_default \<lparr> ssl_mode := ssl \<rparr>,
        cc_read_only = (case sa_read_only a of Some b \<Rightarrow> b
          | None \<Rightarrow> (case manager_profiles L (w_profiles w) (sa_name a) of
               None \<Rightarrow> False | Some p \<Rightarrow> cp_read_only p)),
        cc_additional_fields = [] \<rparr> \<rparr>, m2)"
    using resolve_file [OF m1(1) ne] m1(2,3) assms(5)
    by (auto simp: save_params_def save_profile_def profile_config_def)
  show ?thesis
    using ssl by (simp add: 1 connect_call_def parse_arguments_Some args connect_request_def
        only_profile_name_def with_profiles_do_def 2 with_manager_def pair_simps)
qed

definition demo_save_args :: json where
  "demo_save_args = json_obj [(''name'', JString ''prod''), (''database_type'', JString ''counting''),
     (''host'', JString ''h''), (''port'', json_nat 5), (''username'', JString ''u''),
     (''password'', JString ''pw'')]"

definition demo_save_record :: SaveConnectionProfileArgs where
  "demo_save_record = \<lparr> sa_name = ''prod'', sa_database_type = ''counting'', sa_host = ''h'', sa_port = 5,
     sa_username = ''u'', sa_password = Some ''pw'', sa_database = None, sa_ssl_mode = None,
     sa_read_only = None \<rparr>"

lemma demo_save_facts [simp]:
  "de_save_args demo_save_args = Some demo_save_record"
  "save_parse_ssl_mode (sa_ssl_mode demo_save_record) = Inr (Some VerifyIdentity)"
  "params_ok (save_params demo_save_record (Some VerifyIdentity)) 5"
  "sa_password demo_save_record = Some ''pw''" "sa_name demo_save_record = ''prod''"
  "sa_database_type demo_save_record = ''counting''" "sa_port demo_save_record = 5"
  by (simp_all add: de_save_args_def demo_save_args_def demo_save_record_def opt_str_def de_simps
      de_option_def json_nat_def de_unsigned_def save_parse_ssl_mode_def params_ok_def save_params_def
      is_utf8_def valid_utf8_ascii is_ascii_def char_code_def)

theorem save_then_connect_witness:
  "let (r1, w1) = save_connection_profile_call ref_lib (file_ops ref_lib) (Some demo_save_args) demo_world;
       (r2, w2) = connect_call ref_lib counting_ops (file_ops ref_lib) True
          (Some (json_obj [(''profile_name'', JString ''prod'')])) w1
   in r2 = Inr (id_args ref_lib 0)"
proof -
  have "fst (manager_connect counting_ops ''counting'' c counting_manager) = Inr 0" if "cc_port c = 5" for c
  proof -
    have "do_connect counting_ops (cc_port c) = (Inr (), 6)"
      using that by (simp add: counting_ops_def)
    from connect_succeeds [OF counting_manager_ok counting_factory this] show ?thesis by simp
  qed
  then show ?thesis
    using save_then_connect [of ref_lib demo_world demo_save_args demo_save_record "Some VerifyIdentity" "''pw''"
        counting_ops]
    by (simp add: pair_simps id_args_def)
qed

text \<open>C36. The profile tools do not leak the password. Two saves that differ only in the password they give,
  over any secret store that accepts both, reply the same, leave the same profile file (which is plain
  JSON) and every other part of the state outside the secret store, and list the same profiles
  afterwards.\<close>

theorem save_hides_password:
  assumes "de_save_args v = Some (a \<lparr> sa_password := Some pw \<rparr>)"
    and "de_save_args v' = Some (a \<lparr> sa_password := Some pw' \<rparr>)"
    and "fst (so_set SO (secret_key (sa_name a)) pw (pm_secrets (w_profiles w))) = Inr ()"
    and "fst (so_set SO (secret_key (sa_name a)) pw' (pm_secrets (w_profiles w))) = Inr ()"
  shows "let (r, w1) = save_connection_profile_call L SO (Some v) w;
             (r', w1') = save_connection_profile_call L SO (Some v') w
     in r' = r \<and> w_manager w1' = w_manager w1 \<and> w_now w1' = w_now w1
      \<and> pm_metadata (w_profiles w1') = pm_metadata (w_profiles w1)
      \<and> fst (list_connection_profiles_call L None w1') = fst (list_connection_profiles_call L None w1)"
proof (cases "save_parse_ssl_mode (sa_ssl_mode a)")
  case (Inl e)
  then show ?thesis
    using assms(1,2) by (simp add: save_connection_profile_call_def parse_arguments_Some)
next
  case (Inr ssl)
  define p where "p = save_params a ssl"
  have params: "save_params (a \<lparr> sa_password := Some x \<rparr>) ssl = p \<lparr> sp_password := Some x \<rparr>" for x
    by (simp add: p_def save_params_def)
  have name: "sa_name a = sp_name p" by (simp add: p_def save_params_def)
  have saved: "save_profile (p \<lparr> sp_password := x \<rparr>) = save_profile p" for x
    by (simp add: save_profile_def fun_eq_iff)
  have "fst (profile_save L SO (p \<lparr> sp_password := Some pw' \<rparr>) t m) = fst (profile_save L SO (p \<lparr> sp_password := Some pw \<rparr>) t m)
      \<and> pm_metadata (snd (profile_save L SO (p \<lparr> sp_password := Some pw' \<rparr>) t m)) =
        pm_metadata (snd (profile_save L SO (p \<lparr> sp_password := Some pw \<rparr>) t m))"
    if "pm_secrets m = pm_secrets (w_profiles w)" for t m
    using assms(3,4) that unfolding name
    by (simp add: profile_save_def save_lookup_def save_password_def save_commit_def pair_simps saved
        split: sum.split)
  from this [of "w_profiles w" "w_now w"] show ?thesis
    using assms(1,2) Inr
    by (simp add: save_connection_profile_call_def parse_arguments_Some with_profiles_do_def pair_simps
        params name list_connection_profiles_call_def profile_list_def)
qed

definition other_save_args :: json where
  "other_save_args = json_obj [(''name'', JString ''prod''), (''database_type'', JString ''counting''),
     (''host'', JString ''h''), (''port'', json_nat 5), (''username'', JString ''u''),
     (''password'', JString ''qx'')]"

lemma other_save_facts:
  "de_save_args demo_save_args = Some (demo_save_record \<lparr> sa_password := Some ''pw'' \<rparr>)"
  "de_save_args other_save_args = Some (demo_save_record \<lparr> sa_password := Some ''qx'' \<rparr>)"
  by (simp_all add: de_save_args_def other_save_args_def demo_save_args_def demo_save_record_def
      opt_str_def de_simps de_option_def json_nat_def de_unsigned_def)

lemma file_set_accepts:
  "list_all is_ascii n \<Longrightarrow> list_all is_ascii pw \<Longrightarrow>
   fst (so_set (file_ops ref_lib) (secret_key n) pw (pm_secrets (w_profiles demo_world))) = Inr ()"
  using renc.set_healthy [of ref_lib empty_store "secret_key n" pw]
  by (auto simp: file_ops_def ref_manager_def secret_key_utf8)

theorem save_hides_password_witness:
  "fst (save_connection_profile_call ref_lib (file_ops ref_lib) (Some other_save_args) demo_world) =
   fst (save_connection_profile_call ref_lib (file_ops ref_lib) (Some demo_save_args) demo_world)"
  using save_hides_password [OF other_save_facts file_set_accepts file_set_accepts, of ref_lib]
  by (simp add: pair_simps is_ascii_def char_code_def)

end
