(* ===== verification/Export.thy ===== *)
theory Export
  imports Main Prelude Lib Core McpServer Manager Tools
begin

text \<open>
  \<open>connections/src/tools/export_query_jsonl.rs\<close>: the result set of a query as JSON Lines, each cell
  rendered as the JSON value its column's type name and its text agree on.
\<close>

section \<open>Types\<close>

datatype TypeClass = BooleanClass | IntegerClass | FloatClass | StringClass

text \<open>The wrappers of ClickHouse are peeled off as long as there is one.\<close>

definition unwrap_once :: "string \<Rightarrow> string option" where
  "unwrap_once t =
     (case (case strip_prefix ''nullable('' t of Some r \<Rightarrow> Some r
            | None \<Rightarrow> strip_prefix ''lowcardinality('' t) of
        None \<Rightarrow> None
      | Some inner \<Rightarrow> strip_suffix '')'' inner)"

lemma unwrap_once_shorter: "unwrap_once t = Some r \<Longrightarrow> length (trim r) < length t"
  using length_trim [of r]
  by (auto simp: unwrap_once_def strip_prefix_Some strip_suffix_Some split: option.splits)

function unwrap_wrappers :: "string \<Rightarrow> string" where
  "unwrap_wrappers t = (case unwrap_once t of None \<Rightarrow> t | Some inner \<Rightarrow> unwrap_wrappers (trim inner))"
  by pat_completeness auto
termination
  by (relation "measure length") (simp_all add: unwrap_once_shorter)

declare unwrap_wrappers.simps [simp del]

definition is_float :: "string \<Rightarrow> bool" where
  "is_float t \<longleftrightarrow> t \<in> set [''real'', ''double'', ''double precision''] \<or> prefix ''float'' t"

definition integer_names :: "string list" where
  "integer_names = [''int2'', ''int4'', ''int8'', ''smallint'', ''integer'', ''int'', ''bigint'', ''serial'',
     ''serial2'', ''serial4'', ''serial8'', ''smallserial'', ''bigserial'', ''oid'']"

definition is_integer :: "string \<Rightarrow> bool" where
  "is_integer t \<longleftrightarrow> t \<in> set integer_names
     \<or> list_ex (\<lambda>p. case strip_prefix p t of None \<Rightarrow> False
          | Some rest \<Rightarrow> rest \<noteq> [] \<and> list_all is_ascii_digit rest) [''int'', ''uint'']"

definition classify :: "string \<Rightarrow> TypeClass" where
  "classify type_name =
     (let t = unwrap_wrappers (to_ascii_lowercase (trim type_name)) in
      if t = ''bool'' \<or> t = ''boolean'' then BooleanClass
      else if contains ''decimal'' t \<or> contains ''numeric'' t then StringClass
      else if is_float t then FloatClass
      else if is_integer t then IntegerClass
      else StringClass)"

section \<open>Cells\<close>

definition parse_bool :: "string \<Rightarrow> bool option" where
  "parse_bool text =
     (let t = to_ascii_lowercase (trim text) in
      if t \<in> set [''t'', ''true'', ''1'', ''yes'', ''y''] then Some True
      else if t \<in> set [''f'', ''false'', ''0'', ''no'', ''n''] then Some False
      else None)"

text \<open>\<open>Number::from_f64\<close> refuses the numbers whose exponent is all ones: infinities and NaN.\<close>

definition from_f64 :: "u64 \<Rightarrow> jnum option" where
  "from_f64 w = (if and (drop_bit 52 w) 0x7FF = 0x7FF then None else Some (JFloat w))"

definition coerce_text :: "lib \<Rightarrow> string \<Rightarrow> string \<Rightarrow> json" where
  "coerce_text L text type_name = (case classify type_name of
     BooleanClass \<Rightarrow> (case parse_bool text of Some b \<Rightarrow> JBool b | None \<Rightarrow> JString text)
   | IntegerClass \<Rightarrow> (case parse_i64 text of Some i \<Rightarrow> json_i64 i
        | None \<Rightarrow> (case parse_unsigned 64 text of Some n \<Rightarrow> json_nat n | None \<Rightarrow> JString text))
   | FloatClass \<Rightarrow> (case lib_f64_parse L text of
        Some f \<Rightarrow> (case from_f64 f of Some n \<Rightarrow> JNumber n | None \<Rightarrow> JString text)
      | None \<Rightarrow> JString text)
   | StringClass \<Rightarrow> JString text)"

definition hex_encode :: "byte list \<Rightarrow> string" where
  "hex_encode bs = BSLASH # CHR ''x'' # concat (map (\<lambda>b. hex2 (unat b)) bs)"

definition cell_to_json :: "lib \<Rightarrow> CellValue \<Rightarrow> string \<Rightarrow> json" where
  "cell_to_json L cell type_name = (case cell of
     CNull \<Rightarrow> JNull
   | CBytes bs \<Rightarrow> JString (hex_encode bs)
   | CText t \<Rightarrow> coerce_text L t type_name)"

section \<open>Rows\<close>

definition get_or_empty :: "string list \<Rightarrow> nat \<Rightarrow> string" where
  "get_or_empty xs i = (if i < length xs then xs ! i else [])"

text \<open>The loop over the cells of a row: each but the first is preceded by a comma.\<close>

fun render_cells :: "lib \<Rightarrow> QueryResult \<Rightarrow> nat \<Rightarrow> CellValue list \<Rightarrow> string" where
  "render_cells L r i [] = []"
| "render_cells L r i (c # cs) =
     (if i > 0 then '','' else [])
     @ lib_render L (JString (get_or_empty (qr_columns r) i)) @ '':''
     @ lib_render L (cell_to_json L c (get_or_empty (qr_column_type_names r) i))
     @ render_cells L r (Suc i) cs"

definition render_row :: "lib \<Rightarrow> QueryResult \<Rightarrow> CellValue list \<Rightarrow> string" where
  "render_row L r row = ''{'' @ render_cells L r 0 row @ ''}''"

definition render_jsonl :: "lib \<Rightarrow> QueryResult \<Rightarrow> string" where
  "render_jsonl L r = concat (map (\<lambda>row. render_row L r row @ [LF]) (qr_rows r))"

definition export_reply :: "lib \<Rightarrow> QueryResult \<Rightarrow> json" where
  "export_reply L r = json_obj [(''jsonl'', JString (render_jsonl L r)),
     (''row_count'', json_nat (length (qr_rows r))), (''columns'', json_strs (qr_columns r)),
     (''column_type_names'', json_strs (qr_column_type_names r)),
     (''truncated'', JBool (qr_is_truncated r))]"

definition export_query_jsonl_call :: "lib \<Rightarrow> 'd driver_ops \<Rightarrow> ('d, 's) world tool_call" where
  "export_query_jsonl_call L D = query_tool_call L D ''ExportQueryJsonlArgs'' (export_reply L)"

definition export_query_jsonl_tool :: "lib \<Rightarrow> 'd driver_ops \<Rightarrow> ('d, 's) world tool" where
  "export_query_jsonl_tool L D = \<lparr> tool_name = ''export_query_jsonl'',
     tool_description = ''Runs a SQL query against a live connection and returns the result set as JSON Lines (one JSON object per row), preserving numeric/boolean/null types that CSV would flatten to strings.'',
     tool_schema = query_schema, tool_run = export_query_jsonl_call L D \<rparr>"

lemma export_tool_name [simp]: "tool_name (export_query_jsonl_tool L D) = ''export_query_jsonl''"
  by (simp add: export_query_jsonl_tool_def)

section \<open>Lemmas\<close>

lemma render_cells_join:
  "render_cells L r i cs = (if i > 0 \<and> cs \<noteq> [] then '','' else []) @
     join_with '','' (map (\<lambda>(j, c). lib_render L (JString (get_or_empty (qr_columns r) j)) @ '':''
        @ lib_render L (cell_to_json L c (get_or_empty (qr_column_type_names r) j)))
      (zip [i..<i + length cs] cs))"
proof (induction cs arbitrary: i)
  case (Cons c cs)
  have "[i..<i + length (c # cs)] = i # [Suc i..<Suc i + length cs]"
    by (simp add: upt_conv_Cons del: upt_Suc)
  then show ?case
    using Cons.IH [of "Suc i"] by (cases cs) (simp_all add: upt_conv_Cons del: upt_Suc)
qed simp

text \<open>Compact JSON has no line feed outside strings and escapes those inside.\<close>

definition one_line :: "lib \<Rightarrow> bool" where
  "one_line L \<longleftrightarrow> (\<forall>v. LF \<notin> set (lib_render L v))"

lemma render_cells_no_lf: "one_line L \<Longrightarrow> LF \<notin> set (render_cells L r i cs)"
  by (induction cs arbitrary: i) (auto simp: one_line_def)

lemma split_lines:
  "(\<And>x. x \<in> set xs \<Longrightarrow> LF \<notin> set (f x)) \<Longrightarrow>
   split_on LF (concat (map (\<lambda>x. f x @ [LF]) xs)) = map f xs @ [[]]"
proof (induction xs)
  case (Cons x xs)
  then show ?case using split_on_append_sep [of LF "f x" "concat (map (\<lambda>x. f x @ [LF]) xs)"] by simp
qed simp

text \<open>Case folding and trimming commute: no white space scalar contains a letter.\<close>

lemma ascii_lower_code:
  "char_code (ascii_lower c) = (if 65 \<le> char_code c \<and> char_code c \<le> 90 then char_code c + 32 else char_code c)"
  by (simp add: ascii_lower_def)

lemma is_ws_lower: "is_ws_scalar (map ascii_lower s) = is_ws_scalar s"
proof -
  have *: "char_code (ascii_lower c) = k \<longleftrightarrow> char_code c = k"
    if "k < 65 \<or> 122 < k" for c k
    using that by (auto simp: ascii_lower_code)
  have **: "char_code (ascii_lower c) \<le> 13 \<longleftrightarrow> char_code c \<le> 13"
    "9 \<le> char_code (ascii_lower c) \<longleftrightarrow> 9 \<le> char_code c"
    "128 \<le> char_code (ascii_lower c) \<longleftrightarrow> 128 \<le> char_code c"
    "char_code (ascii_lower c) \<le> 138 \<longleftrightarrow> char_code c \<le> 138" for c
    by (auto simp: ascii_lower_code)
  show ?thesis by (auto simp: is_ws_scalar_def * ** split: list.splits)
qed

lemma ws_len_lower [simp]: "ws_len (map ascii_lower s) = ws_len s"
  by (simp add: ws_len_def take_map is_ws_lower)

lemma ws_len_end_lower [simp]: "ws_len_end (map ascii_lower s) = ws_len_end s"
  by (simp add: ws_len_end_def drop_map is_ws_lower)

lemma trim_start_lower: "trim_start (map ascii_lower s) = map ascii_lower (trim_start s)"
proof (induction s rule: trim_start.induct)
  case (1 s)
  show ?case
  proof (cases "ws_len s = 0")
    case False
    then show ?thesis
      using 1 by (subst trim_start.simps, subst (2) trim_start.simps) (simp add: drop_map)
  qed (simp add: trim_start.simps)
qed

lemma trim_end_lower: "trim_end (map ascii_lower s) = map ascii_lower (trim_end s)"
proof (induction s rule: trim_end.induct)
  case (1 s)
  show ?case
  proof (cases "ws_len_end s = 0")
    case False
    then show ?thesis
      using 1 by (subst trim_end.simps, subst (2) trim_end.simps) (simp add: take_map)
  qed (simp add: trim_end.simps)
qed

lemma trim_lower: "trim (to_ascii_lowercase s) = to_ascii_lowercase (trim s)"
  by (simp add: trim_def to_ascii_lowercase_def trim_start_lower trim_end_lower)

definition nullable :: "string \<Rightarrow> string" where
  "nullable t = ''Nullable('' @ t @ '')''"

lemma trim_nullable: "trim (nullable t) = nullable t"
proof -
  have "ws_len (nullable t) = 0"
    by (simp add: ws_len_def nullable_def is_ws_scalar_def char_code_def)
  moreover have "ws_len_end (r @ '')'') = 0" if len: "3 \<le> length r" for r
  proof -
    obtain r1 b where 1: "r = r1 @ [b]" using len by (cases r rule: rev_cases) auto
    moreover obtain r' a where "r1 = r' @ [a]" using len 1 by (cases r1 rule: rev_cases) auto
    ultimately have "r = r' @ [a, b]" by simp
    then show ?thesis
      by (simp add: ws_len_end_def is_ws_scalar_def char_code_def)
  qed
  from this [of "''Nullable('' @ t"] have "ws_len_end (nullable t) = 0" by (simp add: nullable_def)
  ultimately show ?thesis by (simp add: trim_def trim_start.simps trim_end.simps)
qed

lemma unwrap_nullable: "unwrap_wrappers (to_ascii_lowercase (nullable t)) =
    unwrap_wrappers (to_ascii_lowercase (trim t))"
proof -
  have "to_ascii_lowercase (nullable t) = ''nullable('' @ to_ascii_lowercase t @ '')''"
    by (simp add: to_ascii_lowercase_def nullable_def ascii_lower_def char_code_def char_of_def
        bit_Suc_0_iff)
  then have "unwrap_once (to_ascii_lowercase (nullable t)) = Some (to_ascii_lowercase t)"
    by (simp add: unwrap_once_def strip_prefix_def strip_suffix_def suffix_def)
  then show ?thesis by (subst unwrap_wrappers.simps) (simp add: trim_lower)
qed

lemma classify_nullable: "classify (nullable t) = classify t"
  by (simp add: classify_def trim_nullable unwrap_nullable)

text \<open>The reference library with every value rendered in hexadecimal digits.\<close>

definition line_lib :: lib where
  "line_lib = ref_lib \<lparr> lib_render := \<lambda>v. concat (map (\<lambda>c. hex2 (char_code c)) (put_json v)) \<rparr>"

lemma hex_digit_not_lf: "d < 16 \<Longrightarrow> hex_digit d \<noteq> LF"
proof
  assume d: "d < 16" "hex_digit d = LF"
  then have "char_code (hex_digit d) = char_code LF" by simp
  then show False using d(1) by (simp add: hex_digit_def char_code_char_of split: if_splits)
      (simp_all add: char_code_def)
qed

lemma line_lib_ok: "one_line line_lib"
  by (auto simp: one_line_def line_lib_def hex2_def hex_digit_not_lf dest: sym)

section \<open>Properties\<close>

text \<open>C39. One object per line, in column order. Split at line feeds, an export is exactly one line for
  every row of the result and nothing after the last line feed; the line of a row is the object whose
  members are the row's cells in column order, each key the column's name and each value the cell as
  its type renders it; the reported row count is the number of lines.\<close>

theorem export_one_line_per_row:
  assumes "one_line L"
  shows "split_on LF (render_jsonl L r) =
      map (\<lambda>row. ''{'' @ join_with '','' (map (\<lambda>(j, c). lib_render L (JString (get_or_empty (qr_columns r) j))
            @ '':'' @ lib_render L (cell_to_json L c (get_or_empty (qr_column_type_names r) j)))
          (zip [0..<length row] row)) @ ''}'') (qr_rows r) @ [[]]
    \<and> json_get (export_reply L r) ''row_count'' =
        Some (json_nat (length (split_on LF (render_jsonl L r)) - 1))"
proof -
  have "LF \<notin> set (render_row L r row)" for row
    using render_cells_no_lf [OF assms, of r 0 row] by (simp add: render_row_def)
  then have "split_on LF (render_jsonl L r) = map (render_row L r) (qr_rows r) @ [[]]"
    by (simp add: render_jsonl_def split_lines)
  moreover have "render_row L r row = ''{'' @ join_with '','' (map (\<lambda>(j, c).
        lib_render L (JString (get_or_empty (qr_columns r) j)) @ '':''
          @ lib_render L (cell_to_json L c (get_or_empty (qr_column_type_names r) j)))
      (zip [0..<length row] row)) @ ''}''" for row
    using render_cells_join [of L r 0 row] by (simp add: render_row_def)
  ultimately show ?thesis by (simp add: export_reply_def json_get_obj)
qed

theorem export_one_line_per_row_witness:
  "length (split_on LF (render_jsonl line_lib (QueryResult_empty \<lparr> qr_columns := [''a'', ''b''],
      qr_column_type_names := [''int4'', ''text''], qr_rows := [[CText ''1'', CNull], [CNull, CText [LF]]] \<rparr>))) = 3"
  using export_one_line_per_row [OF line_lib_ok, of "QueryResult_empty \<lparr> qr_columns := [''a'', ''b''],
      qr_column_type_names := [''int4'', ''text''], qr_rows := [[CText ''1'', CNull], [CNull, CText [LF]]] \<rparr>"]
  by simp

text \<open>Typing never invents data. A text cell is exported as its own text, or as a boolean, an integer
  or a finite number that its column's type calls for and that the text denotes; decimals stay text,
  and a column that may be null is typed like the one that may not.\<close>

theorem coerce_text_sound:
  "(case coerce_text L text ty of
      JString t \<Rightarrow> t = text
    | JBool b \<Rightarrow> classify ty = BooleanClass \<and> parse_bool text = Some b
    | JNumber (PosInt w) \<Rightarrow> classify ty = IntegerClass
        \<and> (parse_i64 text = Some (uint w) \<or> parse_unsigned 64 text = Some (unat w))
    | JNumber (NegInt i) \<Rightarrow> classify ty = IntegerClass \<and> parse_i64 text = Some i \<and> i < 0
    | JNumber (JFloat f) \<Rightarrow> classify ty = FloatClass \<and> lib_f64_parse L text = Some f
        \<and> and (drop_bit 52 f) 0x7FF \<noteq> 0x7FF
    | _ \<Rightarrow> False)
   \<and> coerce_text L text ''Decimal(18, 4)'' = JString text
   \<and> coerce_text L text (nullable ty) = coerce_text L text ty"
proof -
  have i: "uint (word_of_int i :: u64) = i" if "parse_i64 text = Some i" "0 \<le> i" for i
    using that by (auto simp: parse_i64_def in_i64_def uint_word_of_int split: list.splits option.splits if_splits)
  have n: "unat (word_of_nat n :: u64) = n" if "parse_unsigned 64 text = Some n" for n
    using that by (auto simp: parse_unsigned_def unat_of_nat split: option.splits if_splits)
  have "classify ''Decimal(18, 4)'' = StringClass"
    by code_simp
  then show ?thesis
    by (auto simp: coerce_text_def classify_nullable json_i64_def json_nat_def from_f64_def i n
        split: TypeClass.splits option.splits)
qed

end
