(* ===== verification/Server.thy ===== *)
theory Server
  imports Main Prelude Lib Core McpServer Http Secrets Profiles Manager Tools Export
begin

text \<open>
  \<open>server/src/main.rs\<close>: how the program is put together. The environment is a function from variable
  names; the process' arguments and files are arguments. Which transport runs, with which session and
  configuration, or why the program does not start, is the value of \<open>startup\<close>.
\<close>

section \<open>The environment\<close>

definition DEFAULT_HTTP_BIND :: string where
  "DEFAULT_HTTP_BIND = ''127.0.0.1:8787''"

definition DEFAULT_RATE_LIMIT_PER_MINUTE :: nat where
  "DEFAULT_RATE_LIMIT_PER_MINUTE = 120"

definition SERVER_MASTER_KEY_ENV_VAR :: string where
  "SERVER_MASTER_KEY_ENV_VAR = ''DB_HEADLESS_MASTER_KEY''"

definition DATA_DIR_ENV_VAR :: string where
  "DATA_DIR_ENV_VAR = ''DB_HEADLESS_DATA_DIR''"

definition DEFAULT_DATA_DIR :: string where
  "DEFAULT_DATA_DIR = ''.''"

text \<open>\<open>sv_addr\<close> is the parser of socket addresses (its error's text, or the address), \<open>sv_files\<close> the
  file of a path, \<open>sv_nonces\<close> the random generator.\<close>

record server_env =
  sv_var :: "string \<Rightarrow> env_var"
  sv_addr :: "string \<Rightarrow> string + string"
  sv_files :: "string \<Rightarrow> filesys"
  sv_nonces :: "nat \<Rightarrow> byte list"

definition is_err :: "env_var \<Rightarrow> bool" where
  "is_err v \<longleftrightarrow> (case v of EnvValue _ \<Rightarrow> False | _ \<Rightarrow> True)"

definition env_or :: "string \<Rightarrow> env_var \<Rightarrow> string" where
  "env_or d v = (case v of EnvValue s \<Rightarrow> s | _ \<Rightarrow> d)"

text \<open>\<open>Path::join\<close> with a relative name.\<close>

definition path_join :: "string \<Rightarrow> string \<Rightarrow> string" where
  "path_join dir n = (if dir = [] \<or> last dir = CHR ''/'' then dir @ n else dir @ ''/'' @ n)"

text \<open>\<open>str::parse::<u32>\<close> with the text of its error: a step looks at the digit before it looks at the
  overflow.\<close>

fun u32_digits :: "nat \<Rightarrow> string \<Rightarrow> string + nat" where
  "u32_digits acc [] = Inr acc"
| "u32_digits acc (c # cs) =
     (if \<not> is_ascii_digit c then Inl ''invalid digit found in string''
      else let v = acc * 10 + (char_code c - 48) in
        if 2 ^ 32 \<le> v then Inl ''number too large to fit in target type'' else u32_digits v cs)"

definition parse_u32 :: "string \<Rightarrow> string + nat" where
  "parse_u32 s = (case s of
     [] \<Rightarrow> Inl ''cannot parse integer from empty string''
   | c # cs \<Rightarrow> if c = CHR ''+'' then
        (if cs = [] then Inl ''invalid digit found in string'' else u32_digits 0 cs)
      else u32_digits 0 s)"

section \<open>The parts\<close>

definition build_profile_manager :: "lib \<Rightarrow> server_env \<Rightarrow> string + file_store profile_manager option" where
  "build_profile_manager L E =
     (if is_err (sv_var E SERVER_MASTER_KEY_ENV_VAR) then Inr None
      else let data_dir = env_or DEFAULT_DATA_DIR (sv_var E DATA_DIR_ENV_VAR);
               secrets_path = path_join data_dir ''secrets.json'';
               profiles_path = path_join data_dir ''profiles.json''
           in res_map (\<lambda>store. Some \<lparr> pm_metadata = metadata_new (sv_files E profiles_path), pm_secrets = store \<rparr>)
               (map_err (\<lambda>e. ''failed to initialize connection profile secret store: '' @ secret_error_text e)
                 (store_from_env L (sv_files E secrets_path) (sv_nonces E)
                   (sv_var E SERVER_MASTER_KEY_ENV_VAR))))"

definition build_http_config :: "lib \<Rightarrow> server_env \<Rightarrow> string + HttpTransportConfig" where
  "build_http_config L E = (case sv_var E ''DB_HEADLESS_MCP_TOKEN'' of
     EnvValue token \<Rightarrow>
       if token = [] then Inl ''DB_HEADLESS_MCP_TOKEN must not be empty''
       else res_bind
         (case sv_var E ''DB_HEADLESS_MCP_BIND'' of
            EnvValue v \<Rightarrow> map_err (\<lambda>e. ''DB_HEADLESS_MCP_BIND='' @ lib_debug L v @ '' is not a valid address: '' @ e)
              (sv_addr E v)
          | _ \<Rightarrow> Inr DEFAULT_HTTP_BIND)
         (\<lambda>bind. res_map (\<lambda>rate. \<lparr> hc_bind_addr = bind, hc_bearer_token = token, hc_rate_limit_per_minute = rate \<rparr>)
           (case sv_var E ''DB_HEADLESS_MCP_RATE_LIMIT'' of
              EnvValue v \<Rightarrow> map_err (\<lambda>e. ''DB_HEADLESS_MCP_RATE_LIMIT='' @ lib_debug L v @ '' is not a valid number: '' @ e)
                (parse_u32 v)
            | _ \<Rightarrow> Inr DEFAULT_RATE_LIMIT_PER_MINUTE))
   | _ \<Rightarrow> Inl ''DB_HEADLESS_MCP_TOKEN must be set to run the HTTP transport; refusing to start an unauthenticated server'')"

text \<open>The three driver factories are arguments, as is the generator of connection identifiers.\<close>

record 'd factories =
  fa_postgres :: "ConnectionConfig \<Rightarrow> 'd"
  fa_redis :: "ConnectionConfig \<Rightarrow> 'd"
  fa_clickhouse :: "ConnectionConfig \<Rightarrow> 'd"

definition build_connection_manager :: "'d factories \<Rightarrow> (nat \<Rightarrow> uuid) \<Rightarrow> 'd manager" where
  "build_connection_manager F uuids =
     register_driver_factory ''ClickHouse'' (fa_clickhouse F)
       (register_driver_factory ''Redis'' (fa_redis F)
         (register_driver_factory ''PostgreSQL'' (fa_postgres F) (manager_new uuids)))"

definition build_tools :: "lib \<Rightarrow> 'd driver_ops \<Rightarrow> 's secret_ops \<Rightarrow> bool \<Rightarrow> ('d, 's) world tool list" where
  "build_tools L D SO enabled =
     [ping_tool, echo_tool, connect_tool L D SO enabled, disconnect_tool L D, execute_query_tool L D,
      export_query_jsonl_tool L D, list_databases_tool L D, list_schemas_tool L D, list_tables_tool L D,
      describe_table_tool L D, list_connections_tool L, get_connection_status_tool L]
     @ (if enabled then [save_connection_profile_tool L SO, list_connection_profiles_tool L,
          delete_connection_profile_tool L SO] else [])"

text \<open>Without profiles no tool reaches the profile manager of the state, which is then \<open>idle\<close>.\<close>

definition build_session ::
  "lib \<Rightarrow> 'd driver_ops \<Rightarrow> 's secret_ops \<Rightarrow> 'd factories \<Rightarrow> (nat \<Rightarrow> uuid) \<Rightarrow> 's profile_manager
   \<Rightarrow> 's profile_manager option \<Rightarrow> ('d, 's) world McpSession" where
  "build_session L D SO F uuids idle profiles =
     session_new (registry_of (build_tools L D SO (profiles \<noteq> None)))
       \<lparr> w_manager = build_connection_manager F uuids,
         w_profiles = (case profiles of None \<Rightarrow> idle | Some p \<Rightarrow> p), w_now = 0 \<rparr>"

datatype transport = HttpTransport HttpTransportConfig | StdioTransport

definition startup ::
  "lib \<Rightarrow> 'd driver_ops \<Rightarrow> 'd factories \<Rightarrow> (nat \<Rightarrow> uuid) \<Rightarrow> file_store profile_manager \<Rightarrow> server_env \<Rightarrow> string list
   \<Rightarrow> string + ('d, file_store) world McpSession \<times> transport" where
  "startup L D F uuids idle E args =
     res_bind (build_profile_manager L E) (\<lambda>profiles.
       let session = build_session L D (file_ops L) F uuids idle profiles in
       if ''--http'' \<in> set args
       then res_map (\<lambda>config. (session, HttpTransport config)) (build_http_config L E)
       else Inr (session, StdioTransport))"

section \<open>Lemmas\<close>

lemma parse_digits_mono: "parse_digits acc s = Some n \<Longrightarrow> acc \<le> n"
proof (induction s arbitrary: acc)
  case (Cons c s)
  then have "acc * 10 + (char_code c - 48) \<le> n" by (auto split: if_splits)
  then show ?case by linarith
qed simp

lemma u32_digits_Inr: "acc < 2 ^ 32 \<Longrightarrow> u32_digits acc s = Inr n \<longleftrightarrow> parse_digits acc s = Some n \<and> n < 2 ^ 32"
proof (induction s arbitrary: acc)
  case (Cons c s)
  let ?v = "acc * 10 + (char_code c - 48)"
  show ?case
    using Cons.IH [of ?v] parse_digits_mono [of ?v s n] by (auto simp: Let_def)
qed auto

lemma parse_u32_Inr: "parse_u32 s = Inr n \<longleftrightarrow> parse_unsigned 32 s = Some n"
proof -
  have z: "u32_digits 0 r = Inr n \<longleftrightarrow> parse_digits 0 r = Some n \<and> n < 2 ^ 32" for r
    by (rule u32_digits_Inr) simp
  show ?thesis
    by (auto simp: parse_u32_def parse_unsigned_def parse_nat_def z
        simp del: u32_digits.simps parse_digits.simps split: list.splits option.splits)
qed

definition base_tool_names :: "string list" where
  "base_tool_names = [''connect'', ''describe_table'', ''disconnect'', ''echo'', ''execute_query'',
     ''export_query_jsonl'', ''get_connection_status'', ''list_connections'', ''list_databases'',
     ''list_schemas'', ''list_tables'', ''ping'']"

definition all_tool_names :: "string list" where
  "all_tool_names = [''connect'', ''delete_connection_profile'', ''describe_table'', ''disconnect'', ''echo'',
     ''execute_query'', ''export_query_jsonl'', ''get_connection_status'', ''list_connection_profiles'',
     ''list_connections'', ''list_databases'', ''list_schemas'', ''list_tables'', ''ping'',
     ''save_connection_profile'']"

lemma base_names_sorted: "sorted_wrt (<) base_tool_names" "sorted_wrt (<) all_tool_names"
  unfolding base_tool_names_def all_tool_names_def by code_simp+

definition registered_names :: "string list" where
  "registered_names = [''ping'', ''echo'', ''connect'', ''disconnect'', ''execute_query'', ''export_query_jsonl'',
     ''list_databases'', ''list_schemas'', ''list_tables'', ''describe_table'', ''list_connections'',
     ''get_connection_status'']"

definition registered_profile_names :: "string list" where
  "registered_profile_names = [''save_connection_profile'', ''list_connection_profiles'', ''delete_connection_profile'']"

lemma registered_sorted:
  "sort registered_names = base_tool_names"
  "sort (registered_names @ registered_profile_names) = all_tool_names"
  unfolding registered_names_def registered_profile_names_def base_tool_names_def all_tool_names_def
  by code_simp+

lemma build_tools_names:
  "map tool_name (build_tools L D SO enabled) = registered_names @ (if enabled then registered_profile_names else [])"
  by (simp add: build_tools_def registered_names_def registered_profile_names_def ping_tool_def echo_tool_def)

lemma listed_names:
  assumes "sort (map tool_name ts) = ns" "sorted_wrt (<) ns"
  shows "map td_name (descriptors (registry_of ts)) = ns"
proof -
  have "set (map td_name (descriptors (registry_of ts))) = set ns"
    using assms(1) unfolding descriptor_names_set by (metis list.set_map set_sort)
  then show ?thesis
    using descriptors_sorted [of ts] assms(2)
    by (metis strict_sorted_equal)
qed

lemma descriptors_built:
  "map td_name (descriptors (ms_registry (build_session L D SO F uuids idle profiles))) =
     (if profiles = None then base_tool_names else all_tool_names)"
  using listed_names [of "build_tools L D SO False"] listed_names [of "build_tools L D SO True"]
    registered_sorted base_names_sorted
  by (simp add: build_session_def session_new_def build_tools_names)

lemma descriptors_fold:
  "map td_name (descriptors r) = ns \<Longrightarrow> distinct (map fst r) \<Longrightarrow>
   (\<And>k t. (k, t) \<in> set r \<Longrightarrow> tool_name t = k) \<Longrightarrow> set ns = dom (map_of r)"
  by (force simp: descriptors_def descriptor_def dom_map_of_conv_image_fst)

lemma known_tools:
  "map_of (ms_registry (build_session L D SO F uuids idle profiles)) n \<noteq> None \<longleftrightarrow>
     n \<in> set (if profiles = None then base_tool_names else all_tool_names)"
proof -
  let ?r = "ms_registry (build_session L D SO F uuids idle profiles)"
  have r: "?r = registry_of (build_tools L D SO (profiles \<noteq> None))"
    by (simp add: build_session_def session_new_def)
  have "set (if profiles = None then base_tool_names else all_tool_names) = dom (map_of ?r)"
    using descriptors_built
    by (rule descriptors_fold) (auto simp: r registry_of_distinct registry_keys_are_names)
  then show ?thesis by auto
qed

section \<open>Properties\<close>

text \<open>What a started server offers. \<open>tools/list\<close> of an initialized session names exactly the twelve
  tools, or the fifteen when profiles are enabled, in the order of their names; exactly those names are
  known to \<open>tools/call\<close>; and the process starts with profiles exactly when the master key variable
  holds a usable key.\<close>

theorem tools_offered:
  "let s = build_session L D SO F uuids idle profiles;
       names = (if profiles = None then base_tool_names else all_tool_names)
   in res_map (\<lambda>v. case json_get v ''tools'' of
          Some (JArray ts) \<Rightarrow> map (\<lambda>t. json_get t ''name'') ts | _ \<Rightarrow> []) (handle_tools_list (s \<lparr> ms_initialized := True \<rparr>))
        = Inr (map (\<lambda>n. Some (JString n)) names)
      \<and> (fst (registry_call (ms_registry s) n args w) = Inl (UnknownTool n) \<longleftrightarrow> n \<notin> set names)"
proof -
  let ?s = "build_session L D SO F uuids idle profiles"
  have n: "json_get (ser_descriptor d) ''name'' = Some (JString (td_name d))" for d
    by (simp add: ser_descriptor_def json_get_obj)
  have "map (\<lambda>t. json_get t ''name'') (map ser_descriptor (descriptors (ms_registry ?s))) =
      map (\<lambda>n. Some (JString n)) (map td_name (descriptors (ms_registry ?s)))"
    by (simp add: n)
  then have "map (\<lambda>t. json_get t ''name'') (map ser_descriptor (descriptors (ms_registry ?s))) =
      map (\<lambda>n. Some (JString n)) (if profiles = None then base_tool_names else all_tool_names)"
    by (simp only: descriptors_built)
  moreover have "fst (registry_call (ms_registry ?s) n args w) = Inl (UnknownTool n) \<longleftrightarrow> map_of (ms_registry ?s) n = None"
    by (auto simp: registry_call_def map_err_def pair_simps split: option.splits sum.splits)
  moreover have "map_of (ms_registry ?s) n = None \<longleftrightarrow> n \<notin> set (if profiles = None then base_tool_names else all_tool_names)"
    using known_tools [of L D SO F uuids idle profiles n] by blast
  ultimately show ?thesis
    by (simp add: handle_tools_list_def require_initialized_def json_get_obj Let_def comp_def)
qed

text \<open>The HTTP transport never runs without a token: whenever the process starts with \<open>--http\<close>, the
  token variable held a non-empty string, and that string is the one the transport compares with; in
  every other case the process does not start. The rate limit is 120 unless a number below 2^32 was
  given.\<close>

theorem http_needs_token:
  "case startup L D F uuids idle E args of
     Inl _ \<Rightarrow> True
   | Inr (s, t) \<Rightarrow> (case t of
        StdioTransport \<Rightarrow> ''--http'' \<notin> set args
      | HttpTransport c \<Rightarrow> sv_var E ''DB_HEADLESS_MCP_TOKEN'' = EnvValue (hc_bearer_token c)
          \<and> hc_bearer_token c \<noteq> []
          \<and> (case sv_var E ''DB_HEADLESS_MCP_RATE_LIMIT'' of
               EnvValue v \<Rightarrow> parse_unsigned 32 v = Some (hc_rate_limit_per_minute c)
             | _ \<Rightarrow> hc_rate_limit_per_minute c = 120))"
proof -
  have "case build_http_config L E of Inl _ \<Rightarrow> True
      | Inr c \<Rightarrow> sv_var E ''DB_HEADLESS_MCP_TOKEN'' = EnvValue (hc_bearer_token c)
          \<and> hc_bearer_token c \<noteq> []
          \<and> (case sv_var E ''DB_HEADLESS_MCP_RATE_LIMIT'' of
               EnvValue v \<Rightarrow> parse_unsigned 32 v = Some (hc_rate_limit_per_minute c)
             | _ \<Rightarrow> hc_rate_limit_per_minute c = 120)"
    by (auto simp: build_http_config_def parse_u32_Inr DEFAULT_RATE_LIMIT_PER_MINUTE_def
        split: sum.split env_var.splits)
  then show ?thesis
    by (cases "build_profile_manager L E"; cases "build_http_config L E") (auto simp: startup_def Let_def)
qed

text \<open>A master key that is present but not Unicode does not stop the process: profile storage is
  silently off, as if the variable were unset, where a present key that is not 64 hexadecimal digits
  is refused.\<close>

theorem unreadable_key_disables_profiles:
  "(if sv_var E ''DB_HEADLESS_MASTER_KEY'' = NotUnicode then build_profile_manager L E = Inr None else True)
   \<and> (case sv_var E ''DB_HEADLESS_MASTER_KEY'' of
        EnvValue raw \<Rightarrow> (is_ok (build_profile_manager L E) \<longleftrightarrow> is_ok (master_key_from_hex L raw))
      | _ \<Rightarrow> True)"
  by (auto simp: build_profile_manager_def is_err_def SERVER_MASTER_KEY_ENV_VAR_def store_from_env_def
      master_key_from_env_def res_map_def map_err_def is_ok_def Let_def split: env_var.splits sum.splits)

end
