(* ===== verification/Effects.thy ===== *)
theory Effects
  imports Main Prelude Lib Core
begin

text \<open>
  Fallible operations on a state, as the drivers compose them: \<open>?\<close> after an awaited call is
  \<open>op_bind\<close>, a pure result \<open>op_lift\<close>. What every operation of a composition keeps, the composition
  keeps (collection \<open>keeps_intros\<close>), which is how the drivers' invariants are proved; \<open>yields\<close> is the
  same for the values of the operations that succeed. The last section has what the streams share.
\<close>

named_theorems keeps_intros \<open>what the combinators keep\<close>

type_synonym ('w, 'a) op = "'w \<Rightarrow> 'a dres \<times> 'w"

definition op_lift :: "'a dres \<Rightarrow> ('w, 'a) op" where
  "op_lift r w = (r, w)"

definition op_bind :: "('w, 'a) op \<Rightarrow> ('a \<Rightarrow> ('w, 'b) op) \<Rightarrow> ('w, 'b) op" where
  "op_bind m f w = (case m w of (Inl e, w1) \<Rightarrow> (Inl e, w1) | (Inr x, w1) \<Rightarrow> f x w1)"

definition op_map :: "('a \<Rightarrow> 'b) \<Rightarrow> ('w, 'a) op \<Rightarrow> ('w, 'b) op" where
  "op_map f m w = (let (r, w1) = m w in (res_map f r, w1))"

text \<open>An operation followed by a change of the state on every way out, as a guard's \<open>drop\<close> does.\<close>

definition op_finally :: "('w, 'a) op \<Rightarrow> ('w \<Rightarrow> 'w) \<Rightarrow> ('w, 'a) op" where
  "op_finally m g w = (let (r, w1) = m w in (r, g w1))"

text \<open>The state itself, and an update of it.\<close>

definition op_with :: "('w \<Rightarrow> ('w, 'a) op) \<Rightarrow> ('w, 'a) op" where
  "op_with f w = f w w"

definition op_update :: "('w \<Rightarrow> 'w) \<Rightarrow> ('w, unit) op" where
  "op_update g w = (Inr (), g w)"

lemma op_lift_apply [simp]: "op_lift r w = (r, w)"
  by (simp add: op_lift_def)

lemma op_bind_lift [simp]: "op_bind (op_lift (Inr x)) f = f x" "op_bind (op_lift (Inl e)) f = op_lift (Inl e)"
  by (simp_all add: fun_eq_iff op_bind_def)

lemma op_with_apply [simp]: "op_with f w = f w w"
  by (simp add: op_with_def)

lemma op_update_apply [simp]: "op_update g w = (Inr (), g w)"
  by (simp add: op_update_def)

lemma op_bind_Inr: "m w = (Inr x, w1) \<Longrightarrow> op_bind m f w = f x w1"
  by (simp add: op_bind_def)

lemma op_bind_Inl: "m w = (Inl e, w1) \<Longrightarrow> op_bind m f w = (Inl e, w1)"
  by (simp add: op_bind_def)

lemma op_bind_result_Inr:
  "op_bind m f w = (Inr y, w2) \<longleftrightarrow> (\<exists>x w1. m w = (Inr x, w1) \<and> f x w1 = (Inr y, w2))"
  by (auto simp: op_bind_def split: prod.split sum.split)

section \<open>What operations keep\<close>

definition keeps :: "('w \<Rightarrow> bool) \<Rightarrow> ('w, 'a) op \<Rightarrow> bool" where
  "keeps I m \<longleftrightarrow> (\<forall>w. I w \<longrightarrow> I (snd (m w)))"

lemma keepsI: "(\<And>w. I w \<Longrightarrow> I (snd (m w))) \<Longrightarrow> keeps I m"
  by (simp add: keeps_def)

lemma keepsD: "keeps I m \<Longrightarrow> I w \<Longrightarrow> I (snd (m w))"
  by (simp add: keeps_def)

lemma keeps_result: "keeps I m \<Longrightarrow> I w \<Longrightarrow> m w = (r, w1) \<Longrightarrow> I w1"
  by (metis keepsD snd_conv)

lemma keeps_lift [keeps_intros]: "keeps I (op_lift r)"
  by (simp add: keeps_def)

lemma keeps_bind [keeps_intros]: "keeps I m \<Longrightarrow> (\<And>x. keeps I (f x)) \<Longrightarrow> keeps I (op_bind m f)"
  by (rule keepsI) (auto simp: op_bind_def keeps_def split: prod.split sum.split dest: spec)

lemma keeps_map [keeps_intros]: "keeps I m \<Longrightarrow> keeps I (op_map f m)"
  by (auto simp: keeps_def op_map_def pair_simps)

lemma keeps_finally [keeps_intros]: "keeps I m \<Longrightarrow> (\<And>w. I w \<Longrightarrow> I (g w)) \<Longrightarrow> keeps I (op_finally m g)"
  by (auto simp: keeps_def op_finally_def pair_simps)

lemma keeps_update [keeps_intros]: "(\<And>w. I w \<Longrightarrow> I (g w)) \<Longrightarrow> keeps I (op_update g)"
  by (simp add: keeps_def)

lemma keeps_with: "(\<And>w. I w \<Longrightarrow> keeps I (f w)) \<Longrightarrow> keeps I (op_with f)"
  by (simp add: keeps_def)

section \<open>What operations yield\<close>

definition yields :: "('a \<Rightarrow> bool) \<Rightarrow> ('w, 'a) op \<Rightarrow> bool" where
  "yields P m \<longleftrightarrow> (\<forall>w x w1. m w = (Inr x, w1) \<longrightarrow> P x)"

lemma yieldsI: "(\<And>w x w1. m w = (Inr x, w1) \<Longrightarrow> P x) \<Longrightarrow> yields P m"
  by (simp add: yields_def)

lemma yieldsD: "yields P m \<Longrightarrow> m w = (Inr x, w1) \<Longrightarrow> P x"
  unfolding yields_def by blast

lemma yields_fst: "yields P m \<Longrightarrow> fst (m w) = Inr x \<Longrightarrow> P x"
  unfolding yields_def by (metis prod.collapse)

lemma yields_mono: "yields Q m \<Longrightarrow> (\<And>x. Q x \<Longrightarrow> P x) \<Longrightarrow> yields P m"
  unfolding yields_def by blast

lemma yields_lift: "(\<And>x. r = Inr x \<Longrightarrow> P x) \<Longrightarrow> yields P (op_lift r)"
  by (rule yieldsI) simp

lemma yields_bind: "yields Q m \<Longrightarrow> (\<And>x. Q x \<Longrightarrow> yields P (f x)) \<Longrightarrow> yields P (op_bind m f)"
  by (rule yieldsI) (auto simp: op_bind_result_Inr dest: yieldsD)

lemma yields_map: "yields (\<lambda>x. P (f x)) m \<Longrightarrow> yields P (op_map f m)"
  by (rule yieldsI) (auto simp: op_map_def pair_simps dest: yields_fst)

lemma yields_finally: "yields P m \<Longrightarrow> yields P (op_finally m g)"
  by (rule yieldsI) (auto simp: op_finally_def pair_simps dest: yields_fst)

lemma yields_with: "(\<And>w. yields P (f w)) \<Longrightarrow> yields P (op_with f)"
  by (rule yieldsI) (auto dest: yieldsD)

section \<open>The rows of a stream\<close>

definition streamed_rows :: "StreamElement list \<Rightarrow> CellValue list list" where
  "streamed_rows es = concat (map (\<lambda>e. case e of Rows rs \<Rightarrow> rs | Header _ \<Rightarrow> []) es)"

lemma streamed_rows_simps [simp]:
  "streamed_rows [] = []" "streamed_rows (Header h # es) = streamed_rows es"
  "streamed_rows (Rows rs # es) = rs @ streamed_rows es" "streamed_rows (xs @ ys) = streamed_rows xs @ streamed_rows ys"
  by (simp_all add: streamed_rows_def)

end
