(* ===== verification/Quoting.thy ===== *)
theory Quoting
  imports Main Prelude
begin

text \<open>
  What the SQL drivers share: quoting by doubling, with the contract both their \<open>ident.rs\<close> files
  promise (a quoted name can hold anything and stays one token), and the search for a substring.
\<close>

section \<open>Doubling\<close>

text \<open>The loop of \<open>quote_ident\<close> and \<open>quote_literal\<close>: every character, a quote preceded by another.\<close>

definition double_char :: "char \<Rightarrow> string \<Rightarrow> string" where
  "double_char q s = concat (map (\<lambda>c. if c = q then [q, c] else [c]) s)"

text \<open>How a reader of the language takes a quoted token apart, after its opening quote: the contents
  and the rest of the text.\<close>

fun read_quoted :: "char \<Rightarrow> string \<Rightarrow> (string \<times> string) option" where
  "read_quoted q [] = None"
| "read_quoted q (c # cs) =
     (if c \<noteq> q then map_option (\<lambda>(a, r). (c # a, r)) (read_quoted q cs)
      else case cs of
        [] \<Rightarrow> Some ([], [])
      | e # cs' \<Rightarrow> if e = q then map_option (\<lambda>(a, r). (q # a, r)) (read_quoted q cs') else Some ([], e # cs'))"

lemma double_char_simps [simp]:
  "double_char q [] = []" "double_char q (c # s) = (if c = q then q # q # double_char q s else c # double_char q s)"
  by (simp_all add: double_char_def)

lemma read_double_char:
  "rest = [] \<or> hd rest \<noteq> q \<Longrightarrow> read_quoted q (double_char q s @ q # rest) = Some (s, rest)"
proof (induction s)
  case Nil
  then show ?case by (cases rest) auto
qed simp

section \<open>The contract\<close>

text \<open>\<open>quote\<close> puts a name into SQL text; \<open>mark\<close> is the quote character of the dialect.\<close>

locale quoting =
  fixes mark :: char and quote :: "string \<Rightarrow> string"
  assumes quote_opens: "quote s = mark # double_char mark s @ [mark]"
begin

lemma quote_read: "rest = [] \<or> hd rest \<noteq> mark \<Longrightarrow> read_quoted mark (tl (quote s @ rest)) = Some (s, rest)"
  using read_double_char [of rest mark s] by (simp add: quote_opens)

lemma quote_hd: "hd (quote s) = mark" "quote s \<noteq> []"
  by (simp_all add: quote_opens)

lemma quote_inj: "quote s = quote t \<Longrightarrow> s = t"
  using quote_read [of "[]" s] quote_read [of "[]" t] by simp

text \<open>Two texts that splice one name each and go on with something that is no quote are equal only
  when the names and the rests are.\<close>

lemma quote_unique:
  assumes "quote s @ r = quote t @ r'" "r = [] \<or> hd r \<noteq> mark" "r' = [] \<or> hd r' \<noteq> mark"
  shows "s = t \<and> r = r'"
proof -
  have "Some (s, r) = Some (t, r')"
    unfolding quote_read [OF assms(2), of s, symmetric] quote_read [OF assms(3), of t, symmetric] assms(1) ..
  then show ?thesis by simp
qed

end

section \<open>Searching\<close>

text \<open>\<open>str::find\<close> of a string.\<close>

fun find_str :: "string \<Rightarrow> string \<Rightarrow> nat option" where
  "find_str p [] = (if p = [] then Some 0 else None)"
| "find_str p (x # xs) = (if prefix p (x # xs) then Some 0 else map_option Suc (find_str p xs))"

lemma find_str_Some: "find_str p s = Some i \<Longrightarrow> i \<le> length s \<and> prefix p (drop i s)"
  by (induction s arbitrary: i) (auto split: if_splits)

lemma find_str_None: "find_str p s = None \<longleftrightarrow> \<not> sublist p s"
  by (induction s) (auto simp: sublist_Cons_right)

text \<open>The first occurrence is found where the text before it, with the needle's first bytes, has none.\<close>

lemma find_str_first:
  assumes "p \<noteq> []" "\<And>i. i < length c \<Longrightarrow> \<not> prefix p (drop i (c @ p @ r))"
  shows "find_str p (c @ p @ r) = Some (length c)"
  using assms(2)
proof (induction c)
  case Nil
  then show ?case using assms(1) by (cases p) auto
next
  case (Cons x c)
  have "\<not> prefix p ((x # c) @ p @ r)" using Cons.prems [of 0] by simp
  moreover have "find_str p (c @ p @ r) = Some (length c)"
    using Cons.IH Cons.prems [of "Suc _"] by simp
  ultimately show ?case by simp
qed

end
