(* ===== verification/Redis.thy ===== *)
theory Redis
  imports Main Prelude Lib Core
begin

text \<open>
  The pure parts of \<open>driver-redis/src\<close>: the command line (\<open>command.rs\<close>), reply conversion
  (\<open>convert.rs\<close>), connection settings (\<open>config.rs\<close>), errors and pseudo-tables. The client library is
  not in the repository: a reply is the library's value type as the code matches on it, a command is
  the list of its arguments' bytes.
\<close>

section \<open>Replies and errors of the client library\<close>

text \<open>A big number is its decimal text, a server error its \<open>{:?}\<close> text.\<close>

datatype redis_value =
    Nil
  | RInt int
  | BulkString "byte list"
  | RArray "redis_value list"
  | RSet "redis_value list"
  | RMap "(redis_value \<times> redis_value) list"
  | Attribute redis_value
  | Push "redis_value list"
  | SimpleString string
  | Okay
  | RDouble u64
  | RBoolean bool
  | VerbatimString string
  | BigNumber string
  | ServerError string

datatype redis_error_kind = AuthenticationFailed | IoError | OtherKind

record RedisError =
  re_kind :: redis_error_kind
  re_text :: string
  re_code :: "string option"
  re_detail :: "string option"

definition redis_map_error :: "RedisError \<Rightarrow> DriverErrorKind \<Rightarrow> DriverError" where
  "redis_map_error e fallback =
     (let kind = (case re_kind e of AuthenticationFailed \<Rightarrow> Auth | IoError \<Rightarrow> Connection | OtherKind \<Rightarrow> fallback);
          d = driver_error kind (re_text e);
          d1 = (case re_code e of None \<Rightarrow> d | Some c \<Rightarrow> with_code c d)
      in case re_detail e of None \<Rightarrow> d1 | Some t \<Rightarrow> with_detail t d1)"

definition map_connect_error :: "RedisError \<Rightarrow> DriverError" where
  "map_connect_error e = redis_map_error e Connection"

definition map_query_error :: "RedisError \<Rightarrow> DriverError" where
  "map_query_error e = redis_map_error e Query"

section \<open>The command line\<close>

definition PLACEHOLDER :: string where
  "PLACEHOLDER = ''?''"

definition READ_ONLY_COMMANDS :: "string list" where
  "READ_ONLY_COMMANDS = [''GET'', ''MGET'', ''GETRANGE'', ''STRLEN'', ''SUBSTR'',
     ''HGET'', ''HGETALL'', ''HMGET'', ''HKEYS'', ''HVALS'', ''HLEN'', ''HSTRLEN'', ''HEXISTS'',
     ''HRANDFIELD'', ''HSCAN'', ''LRANGE'', ''LLEN'', ''LINDEX'', ''LPOS'',
     ''SMEMBERS'', ''SISMEMBER'', ''SMISMEMBER'', ''SCARD'', ''SRANDMEMBER'', ''SSCAN'', ''SINTER'',
     ''SUNION'', ''SDIFF'', ''ZRANGE'', ''ZRANGEBYSCORE'', ''ZRANGEBYLEX'', ''ZREVRANGE'',
     ''ZREVRANGEBYSCORE'', ''ZREVRANGEBYLEX'', ''ZSCORE'', ''ZMSCORE'', ''ZCARD'', ''ZCOUNT'',
     ''ZLEXCOUNT'', ''ZRANK'', ''ZREVRANK'', ''ZSCAN'', ''ZRANDMEMBER'',
     ''XRANGE'', ''XREVRANGE'', ''XLEN'', ''XREAD'', ''XINFO'',
     ''EXISTS'', ''TYPE'', ''TTL'', ''PTTL'', ''EXPIRETIME'', ''PEXPIRETIME'', ''KEYS'', ''SCAN'',
     ''DBSIZE'', ''RANDOMKEY'', ''DUMP'', ''OBJECT'', ''BITCOUNT'', ''BITPOS'', ''GETBIT'',
     ''PING'', ''ECHO'', ''TIME'', ''COMMAND'', ''INFO'', ''MEMORY'']"

text \<open>The loop of \<open>tokenize\<close>: the tokens so far, the current token, whether there is one, and the rest
  of the input. A quote reads up to the next one of its kind.\<close>

function tokenize_loop ::
  "string list \<Rightarrow> string \<Rightarrow> bool \<Rightarrow> string \<Rightarrow> DriverError + string list" where
  "tokenize_loop tokens current has [] = Inr (if has then tokens @ [current] else tokens)"
| "tokenize_loop tokens current has (c # cs) =
     (if ws_len (c # cs) > 0 then
        (if has then tokenize_loop (tokens @ [current]) [] False (drop (ws_len (c # cs)) (c # cs))
         else tokenize_loop tokens current False (drop (ws_len (c # cs)) (c # cs)))
      else if c = DQUOTE \<or> c = SQUOTE then
        (case find_char c cs of
           None \<Rightarrow> Inl (driver_error Query (''unterminated '' @ [c] @ '' quote in Redis command''))
         | Some i \<Rightarrow> tokenize_loop tokens (current @ take i cs) True (drop (Suc i) cs))
      else tokenize_loop tokens (current @ [c]) True cs)"
  by pat_completeness auto
termination
  by (relation "measure (\<lambda>(_, _, _, s). length s)") auto

definition tokenize :: "string \<Rightarrow> DriverError + string list" where
  "tokenize input = tokenize_loop [] [] False input"

definition empty_command :: DriverError where
  "empty_command = driver_error Query ''empty Redis command''"

definition require_read_only :: "lib \<Rightarrow> string \<Rightarrow> DriverError + unit" where
  "require_read_only L query = res_bind (tokenize query) (\<lambda>tokens. (case tokens of
     [] \<Rightarrow> Inl empty_command
   | t # ts \<Rightarrow>
       if to_uppercase L t \<in> set READ_ONLY_COMMANDS then Inr ()
       else Inl (driver_error Query (''read-only connection: command '' @ [SQUOTE] @ to_uppercase L t
         @ [SQUOTE] @ '' is not permitted''))))"

type_synonym redis_cmd = "byte list list"

definition bind_parameter :: "redis_cmd \<Rightarrow> CellValue \<Rightarrow> DriverError + redis_cmd" where
  "bind_parameter cmd value = (case value of
     CNull \<Rightarrow> Inl (driver_error Query ''Redis command arguments cannot be null'')
   | CText s \<Rightarrow> Inr (cmd @ [as_bytes s])
   | CBytes b \<Rightarrow> Inr (cmd @ [b]))"

definition not_enough_parameters :: DriverError where
  "not_enough_parameters = driver_error Query (''not enough bound parameters for the '' @ [BACKTICK]
     @ ''?'' @ [BACKTICK] @ '' placeholders in this command'')"

text \<open>The loop over the tokens after the command's name, with the parameters not used yet.\<close>

fun bind_tokens :: "redis_cmd \<Rightarrow> string list \<Rightarrow> CellValue list \<Rightarrow> DriverError + redis_cmd" where
  "bind_tokens cmd [] ps = Inr cmd"
| "bind_tokens cmd (t # ts) ps =
     (if t = PLACEHOLDER then (case ps of
        [] \<Rightarrow> Inl not_enough_parameters
      | p # ps' \<Rightarrow> res_bind (bind_parameter cmd p) (\<lambda>cmd'. bind_tokens cmd' ts ps'))
      else bind_tokens (cmd @ [as_bytes t]) ts ps)"

definition build_command :: "lib \<Rightarrow> string list \<Rightarrow> CellValue list option \<Rightarrow> DriverError + redis_cmd" where
  "build_command L tokens parameters = (case tokens of
     [] \<Rightarrow> Inl empty_command
   | t # ts \<Rightarrow> bind_tokens [as_bytes (to_uppercase L t)] ts (case parameters of None \<Rightarrow> [] | Some ps \<Rightarrow> ps))"

section \<open>Replies as cells and JSON\<close>

definition bytes_to_text :: "byte list \<Rightarrow> string" where
  "bytes_to_text bs = from_utf8_lossy bs"

definition json_f64 :: "u64 \<Rightarrow> json" where
  "json_f64 w = (if and (drop_bit 52 w) 0x7FF = 0x7FF then JNull else JNumber (JFloat w))"

definition bool_text :: "bool \<Rightarrow> string" where
  "bool_text b = (if b then ''true'' else ''false'')"

text \<open>The key of a map: its text, or the text of its JSON (the plain function \<open>j\<close>).\<close>

definition json_key :: "lib \<Rightarrow> (redis_value \<Rightarrow> json) \<Rightarrow> redis_value \<Rightarrow> string" where
  "json_key L j v = (case v of
     BulkString bs \<Rightarrow> bytes_to_text bs | SimpleString s \<Rightarrow> s | _ \<Rightarrow> lib_render L (j v))"

fun value_to_json :: "lib \<Rightarrow> redis_value \<Rightarrow> json" where
  "value_to_json L Nil = JNull"
| "value_to_json L (RInt i) = json_i64 i"
| "value_to_json L (BulkString bs) = JString (bytes_to_text bs)"
| "value_to_json L (SimpleString s) = JString s"
| "value_to_json L Okay = JString ''OK''"
| "value_to_json L (RArray vs) = JArray (map (value_to_json L) vs)"
| "value_to_json L (RSet vs) = JArray (map (value_to_json L) vs)"
| "value_to_json L (RMap ps) = json_obj (map (\<lambda>p.
     ((case fst p of BulkString bs \<Rightarrow> bytes_to_text bs | SimpleString s \<Rightarrow> s
       | _ \<Rightarrow> lib_render L (value_to_json L (fst p))), value_to_json L (snd p))) ps)"
| "value_to_json L (Attribute v) = value_to_json L v"
| "value_to_json L (RDouble d) = json_f64 d"
| "value_to_json L (RBoolean b) = JBool b"
| "value_to_json L (VerbatimString s) = JString s"
| "value_to_json L (BigNumber n) = JString n"
| "value_to_json L (Push vs) = JArray (map (value_to_json L) vs)"
| "value_to_json L (ServerError e) = JString e"

definition value_to_cell :: "lib \<Rightarrow> redis_value \<Rightarrow> CellValue" where
  "value_to_cell L v = (case v of
     Nil \<Rightarrow> CNull
   | RInt i \<Rightarrow> CText (show_int i)
   | BulkString bs \<Rightarrow> CText (bytes_to_text bs)
   | SimpleString s \<Rightarrow> CText s
   | Okay \<Rightarrow> CText ''OK''
   | RDouble d \<Rightarrow> CText (lib_f64_show L d)
   | RBoolean b \<Rightarrow> CText (bool_text b)
   | VerbatimString s \<Rightarrow> CText s
   | BigNumber n \<Rightarrow> CText n
   | ServerError e \<Rightarrow> CText e
   | _ \<Rightarrow> CText (lib_render L (value_to_json L v)))"

fun pair_up :: "'a list \<Rightarrow> ('a \<times> 'a) list" where
  "pair_up (x # y # zs) = (x, y) # pair_up zs"
| "pair_up _ = []"

definition flat_pairs :: "redis_value \<Rightarrow> (redis_value \<times> redis_value) list" where
  "flat_pairs v = (case v of RMap ps \<Rightarrow> ps | RArray vs \<Rightarrow> pair_up vs | RSet vs \<Rightarrow> pair_up vs | _ \<Rightarrow> [])"

definition array_items :: "redis_value \<Rightarrow> redis_value list" where
  "array_items v = (case v of RArray vs \<Rightarrow> vs | RSet vs \<Rightarrow> vs | Nil \<Rightarrow> [] | _ \<Rightarrow> [v])"

section \<open>Results\<close>

definition value_result :: "string \<Rightarrow> CellValue list list \<Rightarrow> QueryResult" where
  "value_result column rows = QueryResult_empty \<lparr> qr_columns := [column], qr_column_type_names := [''text''],
     qr_rows := rows, qr_rows_affected := word_of_nat (length rows) \<rparr>"

definition value_to_query_result :: "lib \<Rightarrow> redis_value \<Rightarrow> QueryResult" where
  "value_to_query_result L v = (case v of
     RArray vs \<Rightarrow> value_result ''value'' (map (\<lambda>x. [value_to_cell L x]) vs)
   | RSet vs \<Rightarrow> value_result ''value'' (map (\<lambda>x. [value_to_cell L x]) vs)
   | RMap ps \<Rightarrow> value_result ''value'' (map (\<lambda>(k, x). [CText (lib_render L (json_obj
        [(''key'', value_to_json L k), (''value'', value_to_json L x)]))]) ps)
   | _ \<Rightarrow> value_result ''result'' [[value_to_cell L v]])"

definition query_cap :: "nat option \<Rightarrow> nat" where
  "query_cap row_cap = min (case row_cap of None \<Rightarrow> EMERGENCY_MAX | Some n \<Rightarrow> n) EMERGENCY_MAX"

definition apply_cap :: "nat \<Rightarrow> QueryResult \<Rightarrow> QueryResult" where
  "apply_cap cap r =
     (let r1 = (if length (qr_rows r) > cap then r \<lparr> qr_rows := take cap (qr_rows r), qr_is_truncated := True \<rparr> else r)
      in r1 \<lparr> qr_rows_affected := word_of_nat (length (qr_rows r1)) \<rparr>)"

section \<open>Pseudo-tables\<close>

definition PSEUDO_TABLES :: "string list" where
  "PSEUDO_TABLES = [''string'', ''hash'', ''list'', ''set'', ''zset'', ''stream'']"

definition PSEUDO_TABLE_COMMENT :: string where
  "PSEUDO_TABLE_COMMENT = ''Redis pseudo-table: a synthetic view over one Redis data type, not a real schema object.''"

definition DEFAULT_DATABASE_COUNT :: int where
  "DEFAULT_DATABASE_COUNT = 16"

definition unknown_pseudo_table :: "lib \<Rightarrow> string \<Rightarrow> DriverError" where
  "unknown_pseudo_table L n = driver_error Query (''unknown Redis pseudo-table '' @ lib_debug L n
     @ ''; expected one of string, hash, list, set, zset, stream'')"

definition validate_pseudo_table :: "lib \<Rightarrow> string \<Rightarrow> DriverError + unit" where
  "validate_pseudo_table L n = (if n \<in> set PSEUDO_TABLES then Inr () else Inl (unknown_pseudo_table L n))"

definition pseudo_table_info :: "string \<Rightarrow> TableInfo" where
  "pseudo_table_info n = \<lparr> ti_name = n, ti_schema = None, ti_kind = Table,
     ti_comment = Some PSEUDO_TABLE_COMMENT, ti_row_count_estimate = None \<rparr>"

definition redis_fetch_tables :: "TableInfo list" where
  "redis_fetch_tables = map pseudo_table_info PSEUDO_TABLES"

definition text_column :: "string \<Rightarrow> ColumnInfo" where
  "text_column n = \<lparr> ci_name = n, ci_data_type = ''text'', ci_is_nullable = False,
     ci_is_primary_key = False, ci_default_value = None, ci_extra = None, ci_charset = None,
     ci_collation = None, ci_comment = None, ci_identity_kind = None, ci_is_generated = False,
     ci_allowed_values = None \<rparr>"

definition columns_for :: "lib \<Rightarrow> string \<Rightarrow> DriverError + ColumnInfo list" where
  "columns_for L table = res_map (map text_column)
     (if table = ''string'' then Inr [''key'', ''value'']
      else if table = ''hash'' then Inr [''key'', ''field'', ''value'']
      else if table = ''list'' then Inr [''key'', ''index'', ''value'']
      else if table = ''set'' then Inr [''key'', ''member'']
      else if table = ''zset'' then Inr [''key'', ''member'', ''score'']
      else if table = ''stream'' then Inr [''key'', ''id'', ''fields'']
      else Inl (unknown_pseudo_table L table))"

definition database_count_from_value :: "redis_value \<Rightarrow> int option" where
  "database_count_from_value v = (case v of
     BulkString bs \<Rightarrow> Option.bind (from_utf8 bs) (\<lambda>s. parse_i64 (trim s))
   | SimpleString s \<Rightarrow> parse_i64 (trim s)
   | RInt i \<Rightarrow> Some i
   | _ \<Rightarrow> None)"

fun find_map :: "('a \<Rightarrow> 'b option) \<Rightarrow> 'a list \<Rightarrow> 'b option" where
  "find_map f [] = None"
| "find_map f (x # xs) = (case f x of None \<Rightarrow> find_map f xs | Some y \<Rightarrow> Some y)"

definition configured_count :: "redis_value \<Rightarrow> int option" where
  "configured_count v = (case v of
     RArray (_ # x # _) \<Rightarrow> database_count_from_value x
   | RSet (_ # x # _) \<Rightarrow> database_count_from_value x
   | RMap ps \<Rightarrow> find_map (\<lambda>(_, x). database_count_from_value x) ps
   | _ \<Rightarrow> None)"

definition database_names :: "int option \<Rightarrow> string list" where
  "database_names c = map show_nat [0..<nat (case c of None \<Rightarrow> DEFAULT_DATABASE_COUNT | Some n \<Rightarrow> n)]"

section \<open>Connection settings\<close>

definition parse_db_index :: "lib \<Rightarrow> string option \<Rightarrow> DriverError + int" where
  "parse_db_index L database = (case map_option trim database of
     None \<Rightarrow> Inr 0
   | Some s \<Rightarrow> if s = [] then Inr 0 else ok_or (driver_error Query
        (''Redis database must be a numeric index, got '' @ lib_debug L s)) (parse_i64 s))"

text \<open>An address is plain, or TLS with or without certificate verification.\<close>

datatype redis_addr = Tcp string nat | TcpTls string nat bool

record redis_info =
  ri_addr :: redis_addr
  ri_db :: int
  ri_username :: "string option"
  ri_password :: "string option"

definition redis_address :: "ConnectionConfig \<Rightarrow> redis_addr" where
  "redis_address c = (case ssl_mode (cc_ssl c) of
     Some Disabled \<Rightarrow> Tcp (cc_host c) (cc_port c)
   | Some Preferred \<Rightarrow> TcpTls (cc_host c) (cc_port c) True
   | Some Required \<Rightarrow> TcpTls (cc_host c) (cc_port c) True
   | _ \<Rightarrow> TcpTls (cc_host c) (cc_port c) False)"

definition build_connection_info :: "lib \<Rightarrow> ConnectionConfig \<Rightarrow> DriverError + redis_info" where
  "build_connection_info L c = res_map (\<lambda>db. \<lparr> ri_addr = redis_address c, ri_db = db,
       ri_username = (if cc_username c = [] then None else Some (cc_username c)),
       ri_password = cc_password c \<rparr>) (parse_db_index L (cc_database c))"

section \<open>Lemmas\<close>

lemma ws_len_ascii: "is_ascii c \<Longrightarrow> ws_len (c # cs) = (if is_ws_scalar [c] then 1 else 0)"
  by (cases cs; cases "tl cs") (auto simp: ws_len_def is_ws_scalar_def is_ascii_def)

definition dquoted :: "string \<Rightarrow> string" where
  "dquoted t = DQUOTE # t @ [DQUOTE]"

lemma tokenize_dquoted:
  assumes "DQUOTE \<notin> set t"
  shows "tokenize_loop tokens current has (dquoted t @ rest) = tokenize_loop tokens (current @ t) True rest"
proof -
  have "ws_len (DQUOTE # r) = 0" for r
    by (simp add: ws_len_ascii is_ascii_def is_ws_scalar_def char_code_def)
  then show ?thesis
    using find_char_append_sep [OF assms, of rest] by (simp add: dquoted_def)
qed

lemma ws_len_space [simp]: "ws_len (CHR '' '' # r) = 1"
  by (simp add: ws_len_ascii is_ascii_def is_ws_scalar_def char_code_def)

lemma tokenize_quoted_list:
  assumes "\<And>t. t \<in> set ts \<Longrightarrow> DQUOTE \<notin> set t"
  shows "tokenize_loop tokens [] False (join_with '' '' (map dquoted ts)) = Inr (tokens @ ts)"
  using assms
proof (induction ts arbitrary: tokens rule: induct_list012)
  case (2 t)
  then show ?case using tokenize_dquoted [of t tokens "[]" False "[]"] by simp
next
  case (3 t u ts)
  then show ?case
    using tokenize_dquoted [of t tokens "[]" False "'' '' @ join_with '' '' (map dquoted (u # ts))"] by simp
qed simp

lemma bind_parameter_Inr: "bind_parameter cmd v = Inr cmd' \<longleftrightarrow> v \<noteq> CNull \<and> cmd' = cmd @ [cell_bytes v]"
  by (cases v) (auto simp: bind_parameter_def cell_bytes_def)

definition bound_argument :: "string list \<Rightarrow> CellValue list \<Rightarrow> nat \<Rightarrow> byte list" where
  "bound_argument ts ps i = (if ts ! i = PLACEHOLDER
     then cell_bytes (ps ! length (filter ((=) PLACEHOLDER) (take i ts))) else as_bytes (ts ! i))"

lemma bind_tokens_args:
  "bind_tokens cmd ts ps = Inr cmd' \<Longrightarrow> cmd' = cmd @ map (bound_argument ts ps) [0..<length ts]"
proof (induction cmd ts ps arbitrary: cmd' rule: bind_tokens.induct)
  case (2 cmd t ts ps)
  have up: "[0..<length (t # ts)] = 0 # map Suc [0..<length ts]"
    by (simp add: map_Suc_upt upt_conv_Cons del: upt_Suc)
  show ?case
  proof (cases "t = PLACEHOLDER")
    case True
    with "2.prems" obtain p ps' where ps: "ps = p # ps'" "p \<noteq> CNull"
      "bind_tokens (cmd @ [cell_bytes p]) ts ps' = Inr cmd'"
      by (auto simp: bind_parameter_Inr split: list.splits)
    have "bind_parameter cmd p = Inr (cmd @ [cell_bytes p])" using ps(2) by (simp add: bind_parameter_Inr)
    then have "cmd' = (cmd @ [cell_bytes p]) @ map (bound_argument ts ps') [0..<length ts]"
      using "2.IH"(1) [OF True ps(1)] ps(3) by blast
    then show ?thesis
      unfolding up using True ps(1) by (simp add: bound_argument_def comp_def)
  next
    case False
    then have "cmd' = (cmd @ [as_bytes t]) @ map (bound_argument ts ps) [0..<length ts]"
      using 2 by simp
    then show ?thesis
      unfolding up using False by (simp add: bound_argument_def comp_def)
  qed
qed simp

section \<open>Properties\<close>

text \<open>Any list of arguments can be written as one command line: quoted and joined with blanks, it is
  tokenized back to the same arguments, whatever blanks or commands they contain.\<close>

theorem redis_quoting_roundtrip:
  assumes "\<And>t. t \<in> set ts \<Longrightarrow> DQUOTE \<notin> set t"
  shows "tokenize (join_with '' '' (map dquoted ts)) = Inr ts"
  using tokenize_quoted_list [of ts "[]"] assms by (simp add: tokenize_def)

theorem redis_quoting_roundtrip_witness:
  "tokenize (join_with '' '' (map dquoted [''SET'', ''k'', ''a b; DEL k''])) = Inr [''SET'', ''k'', ''a b; DEL k'']"
  by (rule redis_quoting_roundtrip) auto

text \<open>C17. A bound value cannot become more than one argument or a command. When a command is built, its
  name is the first token and it has exactly as many arguments as the line has further tokens; each
  placeholder's argument is the bytes of its parameter, in order, and every other argument the bytes
  of its token.\<close>

theorem redis_arguments_stay_apart:
  assumes "build_command L (t # ts) (Some ps) = Inr cmd"
  shows "cmd = as_bytes (to_uppercase L t) # map (bound_argument ts ps) [0..<length ts]"
  using assms bind_tokens_args [of "[as_bytes (to_uppercase L t)]" ts ps cmd]
  by (simp add: build_command_def)

theorem redis_arguments_stay_apart_witness:
  "build_command plain_lib [''set'', ''?'', ''v''] (Some [CText ''k; FLUSHALL'']) =
     Inr [as_bytes ''SET'', as_bytes ''k; FLUSHALL'', as_bytes ''v'']"
proof -
  let ?ts = "[''?'', ''v'']"
  let ?ps = "[CText ''k; FLUSHALL'']"
  have u: "to_uppercase plain_lib ''set'' = ''SET''"
    by (simp add: to_uppercase_def is_ascii_def char_code_def ascii_upper_def char_of_def bit_Suc_0_iff)
  have b: "build_command plain_lib (''set'' # ?ts) (Some ?ps) =
      Inr ([as_bytes (to_uppercase plain_lib ''set'')] @ [as_bytes ''k; FLUSHALL'', as_bytes ''v''])"
    by (simp add: build_command_def PLACEHOLDER_def bind_parameter_def)
  from redis_arguments_stay_apart [OF b] b show ?thesis by (simp only: u append.simps)
qed

text \<open>A question mark in quotes is a placeholder too: tokens do not keep their quotes, so a command
  line cannot pass the text \<open>?\<close> as an argument except as a bound parameter.\<close>

theorem quoted_placeholder_is_bound:
  "tokenize (''SET k '' @ dquoted ''?'') = tokenize ''SET k ?''
   \<and> tokenize (''SET k '' @ dquoted ''?'') = Inr [''SET'', ''k'', PLACEHOLDER]
   \<and> build_command L [''SET'', ''k'', PLACEHOLDER] None = Inl not_enough_parameters
   \<and> build_command L [''SET'', ''k'', PLACEHOLDER] (Some [CText v]) =
       Inr [as_bytes (to_uppercase L ''SET''), as_bytes ''k'', as_bytes v]"
proof -
  have "tokenize (''SET k '' @ dquoted ''?'') = Inr [''SET'', ''k'', ''?'']"
    "tokenize ''SET k ?'' = Inr [''SET'', ''k'', ''?'']"
    by (simp_all add: tokenize_def dquoted_def ws_len_ascii is_ascii_def is_ws_scalar_def char_code_def)
  then show ?thesis by (simp add: build_command_def PLACEHOLDER_def bind_parameter_def)
qed

end
