(* ===== verification/RedisDriver.thy ===== *)
theory RedisDriver
  imports Main Prelude Lib Core Redis
begin

text \<open>
  The effects of \<open>driver-redis/src\<close>: building a client (\<open>config.rs\<close>), the driver object and its
  operations (\<open>driver.rs\<close>), queries (\<open>query.rs\<close>), schema queries (\<open>schema.rs\<close>) and streaming
  (\<open>stream.rs\<close>). What the client library does with the server is a record of functions on the
  server's state, so the commands sent are visible as calls of \<open>rv_query\<close>.
\<close>

section \<open>The client library and the server\<close>

text \<open>\<open>rv_client\<close> builds a client from the settings and the root certificate (absent: the library
  opens it without TLS settings), \<open>rv_connect\<close> opens a connection of it, \<open>rv_query\<close> sends one command,
  \<open>rv_int\<close> and \<open>rv_scan\<close> are the conversions of a reply to an integer and to a cursor with keys,
  \<open>rv_file\<close> reads a file.\<close>

record ('cl, 'c, 's) redis_env =
  rv_client :: "redis_info \<Rightarrow> byte list option option \<Rightarrow> RedisError + 'cl"
  rv_connect :: "'cl \<Rightarrow> 's \<Rightarrow> (RedisError + 'c) \<times> 's"
  rv_query :: "'c \<Rightarrow> redis_cmd \<Rightarrow> 's \<Rightarrow> (RedisError + redis_value) \<times> 's"
  rv_int :: "redis_value \<Rightarrow> RedisError + int"
  rv_scan :: "redis_value \<Rightarrow> RedisError + u64 \<times> byte list list"
  rv_file :: "string \<Rightarrow> string + byte list"

definition root_cert_pem :: "('cl, 'c, 's) redis_env \<Rightarrow> ConnectionConfig \<Rightarrow> DriverError + byte list option" where
  "root_cert_pem E c = (case ca_path (cc_ssl c) of
     None \<Rightarrow> Inr None
   | Some p \<Rightarrow> map_err (\<lambda>e. driver_error Connection (''failed to read ssl.ca_path '' @ p @ '': '' @ e))
       (res_map Some (rv_file E p)))"

definition build_client ::
  "lib \<Rightarrow> ('cl, 'c, 's) redis_env \<Rightarrow> ConnectionConfig \<Rightarrow> int option \<Rightarrow> DriverError + 'cl" where
  "build_client L E c db_override =
     res_bind (build_connection_info L c) (\<lambda>info0.
       let info = (case db_override of None \<Rightarrow> info0 | Some db \<Rightarrow> info0 \<lparr> ri_db := db \<rparr>)
       in if ssl_mode (cc_ssl c) = Some Disabled then map_err map_connect_error (rv_client E info None)
          else res_bind (if ssl_mode (cc_ssl c) = Some Preferred \<or> ssl_mode (cc_ssl c) = Some Required
                         then Inr None else root_cert_pem E c)
            (\<lambda>pem. map_err map_connect_error (rv_client E info (Some pem))))"

section \<open>The driver object\<close>

record 'c RedisDriver =
  rd_config :: ConnectionConfig
  rd_connection :: "'c option"
  rd_client_id :: "int option"

definition redis_driver_new :: "ConnectionConfig \<Rightarrow> 'c RedisDriver" where
  "redis_driver_new c = \<lparr> rd_config = c, rd_connection = None, rd_client_id = None \<rparr>"

definition not_connected_error :: DriverError where
  "not_connected_error = driver_error Connection ''not connected''"

definition rd_manager :: "'c RedisDriver \<Rightarrow> DriverError + 'c" where
  "rd_manager d = ok_or not_connected_error (rd_connection d)"

text \<open>An operation on the connection and the server, when connected.\<close>

definition with_redis :: "'c RedisDriver \<Rightarrow> ('c \<Rightarrow> 's \<Rightarrow> 'a dres \<times> 's) \<Rightarrow> 's \<Rightarrow> 'a dres \<times> 's" where
  "with_redis d f s = (case rd_manager d of Inl e \<Rightarrow> (Inl e, s) | Inr c \<Rightarrow> f c s)"

definition send :: "('cl, 'c, 's) redis_env \<Rightarrow> (RedisError \<Rightarrow> DriverError) \<Rightarrow> 'c \<Rightarrow> string list \<Rightarrow> 's
    \<Rightarrow> redis_value dres \<times> 's" where
  "send E f c args s = (let (r, s1) = rv_query E c (map as_bytes args) s in (map_err f r, s1))"

definition redis_establish ::
  "lib \<Rightarrow> ('cl, 'c, 's) redis_env \<Rightarrow> 'c RedisDriver \<Rightarrow> int option \<Rightarrow> 's \<Rightarrow> ('c \<times> int) dres \<times> 's" where
  "redis_establish L E d db_override s = (case build_client L E (rd_config d) db_override of
     Inl e \<Rightarrow> (Inl e, s)
   | Inr client \<Rightarrow> (case rv_connect E client s of
       (Inl e, s1) \<Rightarrow> (Inl (map_connect_error e), s1)
     | (Inr c, s1) \<Rightarrow>
         (let (r, s2) = send E map_connect_error c [''CLIENT'', ''ID''] s1
          in (res_bind r (\<lambda>v. map_err map_connect_error (res_map (Pair c) (rv_int E v))), s2))))"

definition adopt :: "'c \<Rightarrow> int \<Rightarrow> 'c RedisDriver \<Rightarrow> 'c RedisDriver" where
  "adopt c client_id d = d \<lparr> rd_connection := Some c, rd_client_id := Some client_id \<rparr>"

definition redis_connect ::
  "lib \<Rightarrow> ('cl, 'c, 's) redis_env \<Rightarrow> 'c RedisDriver \<Rightarrow> 's \<Rightarrow> unit dres \<times> 'c RedisDriver \<times> 's" where
  "redis_connect L E d s = (case redis_establish L E d None s of
     (Inl e, s1) \<Rightarrow> (Inl e, d, s1)
   | (Inr (c, i), s1) \<Rightarrow> (Inr (), adopt c i d, s1))"

definition redis_disconnect :: "'c RedisDriver \<Rightarrow> unit dres \<times> 'c RedisDriver" where
  "redis_disconnect d = (Inr (), d \<lparr> rd_connection := None, rd_client_id := None \<rparr>)"

definition redis_switch_database ::
  "lib \<Rightarrow> ('cl, 'c, 's) redis_env \<Rightarrow> string \<Rightarrow> 'c RedisDriver \<Rightarrow> 's \<Rightarrow> unit dres \<times> 'c RedisDriver \<times> 's" where
  "redis_switch_database L E database d s = (case parse_db_index L (Some database) of
     Inl e \<Rightarrow> (Inl e, d, s)
   | Inr db \<Rightarrow> (case redis_establish L E d (Some db) s of
       (Inl e, s1) \<Rightarrow> (Inl e, d, s1)
     | (Inr (c, i), s1) \<Rightarrow> (Inr (), adopt c i d, s1)))"

definition redis_ping :: "('cl, 'c, 's) redis_env \<Rightarrow> 'c RedisDriver \<Rightarrow> 's \<Rightarrow> unit dres \<times> 's" where
  "redis_ping E d = with_redis d (\<lambda>c s. let (r, s1) = send E map_query_error c [''PING''] s in (res_map (\<lambda>_. ()) r, s1))"

text \<open>\<open>cancel_query\<close> starts a task that kills the cached client over a connection of its own; the task
  is \<open>redis_kill_client\<close>.\<close>

definition redis_cancel_query :: "'c RedisDriver \<Rightarrow> int dres" where
  "redis_cancel_query d = ok_or not_connected_error (rd_client_id d)"

definition redis_kill_client ::
  "lib \<Rightarrow> ('cl, 'c, 's) redis_env \<Rightarrow> ConnectionConfig \<Rightarrow> int \<Rightarrow> 's \<Rightarrow> unit dres \<times> 's" where
  "redis_kill_client L E config client_id s = (case build_client L E config None of
     Inl e \<Rightarrow> (Inl e, s)
   | Inr client \<Rightarrow> (case rv_connect E client s of
       (Inl e, s1) \<Rightarrow> (Inl (map_connect_error e), s1)
     | (Inr c, s1) \<Rightarrow>
         (let (r, s2) = send E map_query_error c [''CLIENT'', ''KILL'', ''ID'', show_int client_id] s1
          in (res_map (\<lambda>_. ()) r, s2))))"

text \<open>The method with what its task does; the task's error is only logged.\<close>

definition redis_cancel_task ::
  "lib \<Rightarrow> ('cl, 'c, 's) redis_env \<Rightarrow> 'c RedisDriver \<Rightarrow> 's \<Rightarrow> unit dres \<times> 's" where
  "redis_cancel_task L E d s = (case redis_cancel_query d of
     Inl e \<Rightarrow> (Inl e, s)
   | Inr i \<Rightarrow> (Inr (), snd (redis_kill_client L E (rd_config d) i s)))"

definition unsupported_transaction_error :: DriverError where
  "unsupported_transaction_error = driver_error Query ''Redis transactions are not supported through this interface yet''"

definition fixed_database_pool_error :: "string \<Rightarrow> DriverError" where
  "fixed_database_pool_error verb = driver_error Query (''Redis's numbered databases are a fixed pool sized by the server's ''
     @ [BACKTICK] @ ''databases'' @ [BACKTICK] @ '' config directive (which requires a server restart to resize); there is no per-connection way to ''
     @ verb @ '' one'')"

definition redis_keepalive :: KeepalivePosture where
  "redis_keepalive = NotSupported ''redis-rs 0.27 exposes no TCP keepalive control; commands here are sub-millisecond request/response with no silent in-flight window, and ConnectionManager transparently reconnects a culled connection on the next command''"

section \<open>Queries\<close>

text \<open>The elapsed time is an argument.\<close>

definition redis_execute_parameterized ::
  "lib \<Rightarrow> ('cl, 'c, 's) redis_env \<Rightarrow> nat \<times> nat \<Rightarrow> string \<Rightarrow> CellValue list \<Rightarrow> 'c \<Rightarrow> 's \<Rightarrow> QueryResult dres \<times> 's" where
  "redis_execute_parameterized L E elapsed query ps c s =
     (case res_bind (tokenize query) (\<lambda>tokens. build_command L tokens (Some ps)) of
        Inl e \<Rightarrow> (Inl e, s)
      | Inr cmd \<Rightarrow> (let (r, s1) = rv_query E c cmd s
           in (res_map (\<lambda>v. (value_to_query_result L v) \<lparr> qr_execution_time := elapsed \<rparr>) (map_err map_query_error r), s1)))"

definition redis_execute_user_query ::
  "lib \<Rightarrow> ('cl, 'c, 's) redis_env \<Rightarrow> nat \<times> nat \<Rightarrow> string \<Rightarrow> nat option \<Rightarrow> CellValue list option \<Rightarrow> bool \<Rightarrow> 'c \<Rightarrow> 's
   \<Rightarrow> QueryResult dres \<times> 's" where
  "redis_execute_user_query L E elapsed query row_cap ps read_only c s =
     (case (if read_only then require_read_only L query else Inr ()) of
        Inl e \<Rightarrow> (Inl e, s)
      | Inr _ \<Rightarrow> (let (r, s1) = redis_execute_parameterized L E elapsed query (case ps of None \<Rightarrow> [] | Some xs \<Rightarrow> xs) c s
           in (res_map (apply_cap (query_cap row_cap)) r, s1)))"

definition redis_user_query ::
  "lib \<Rightarrow> ('cl, 'c, 's) redis_env \<Rightarrow> nat \<times> nat \<Rightarrow> string \<Rightarrow> nat option \<Rightarrow> CellValue list option \<Rightarrow> 'c RedisDriver \<Rightarrow> 's
   \<Rightarrow> QueryResult dres \<times> 's" where
  "redis_user_query L E elapsed query row_cap ps d =
     with_redis d (redis_execute_user_query L E elapsed query row_cap ps (cc_read_only (rd_config d)))"

definition redis_execute ::
  "lib \<Rightarrow> ('cl, 'c, 's) redis_env \<Rightarrow> nat \<times> nat \<Rightarrow> string \<Rightarrow> 'c RedisDriver \<Rightarrow> 's \<Rightarrow> QueryResult dres \<times> 's" where
  "redis_execute L E elapsed query d = with_redis d (redis_execute_parameterized L E elapsed query [])"

section \<open>Schema\<close>

definition redis_tables :: "'c RedisDriver \<Rightarrow> TableInfo list dres" where
  "redis_tables d = res_map (\<lambda>_. redis_fetch_tables) (rd_manager d)"

definition redis_fetch_columns :: "lib \<Rightarrow> string \<Rightarrow> 'c RedisDriver \<Rightarrow> ColumnInfo list dres" where
  "redis_fetch_columns L table d = res_bind (rd_manager d) (\<lambda>_. columns_for L table)"

definition redis_fetch_table_metadata :: "lib \<Rightarrow> string \<Rightarrow> 'c RedisDriver \<Rightarrow> TableMetadata dres" where
  "redis_fetch_table_metadata L table d = res_map (\<lambda>cols. \<lparr> tm_info = pseudo_table_info table,
     tm_columns = cols, tm_indexes = [], tm_foreign_keys = [], tm_triggers = [] \<rparr>) (redis_fetch_columns L table d)"

definition redis_fetch_databases :: "('cl, 'c, 's) redis_env \<Rightarrow> 'c RedisDriver \<Rightarrow> 's \<Rightarrow> string list dres \<times> 's" where
  "redis_fetch_databases E d = with_redis d (\<lambda>c s.
     let (r, s1) = rv_query E c (map as_bytes [''CONFIG'', ''GET'', ''databases'']) s
     in (Inr (database_names (case r of Inl _ \<Rightarrow> None | Inr v \<Rightarrow> configured_count v)), s1))"

definition redis_fetch_database_metadata :: "string \<Rightarrow> 'c RedisDriver \<Rightarrow> DatabaseMetadata dres" where
  "redis_fetch_database_metadata n d = res_map (\<lambda>_. \<lparr> dm_name = n, dm_schemas = [], dm_size_bytes = None \<rparr>) (rd_manager d)"

definition redis_fetch_table_ddl :: "'c RedisDriver \<Rightarrow> string dres" where
  "redis_fetch_table_ddl d = res_bind (rd_manager d) (\<lambda>_. Inl (driver_error Query
     ''DDL is not applicable to Redis: pseudo-tables are a browsing convenience over a data type, not real schema objects with a definition to reconstruct''))"

definition redis_fetch_view_definition :: "'c RedisDriver \<Rightarrow> string dres" where
  "redis_fetch_view_definition d = res_bind (rd_manager d) (\<lambda>_. Inl (driver_error Query
     ''views are not applicable to Redis''))"

section \<open>Streaming\<close>

definition DEFAULT_SCAN_COUNT :: nat where
  "DEFAULT_SCAN_COUNT = 500"

record ScanSpec =
  ss_table :: string
  ss_pattern :: string
  ss_count :: nat

text \<open>The loop over the clauses.\<close>

function scan_clauses :: "lib \<Rightarrow> ScanSpec \<Rightarrow> string list \<Rightarrow> DriverError + ScanSpec" where
  "scan_clauses L spec [] = Inr spec"
| "scan_clauses L spec (t # ts) =
     (if to_uppercase L t = ''MATCH'' then (case ts of
        [] \<Rightarrow> Inl (driver_error Query ''MATCH requires a pattern argument'')
      | v # ts' \<Rightarrow> scan_clauses L (spec \<lparr> ss_pattern := v \<rparr>) ts')
      else if to_uppercase L t = ''COUNT'' then (case ts of
        [] \<Rightarrow> Inl (driver_error Query ''COUNT requires a numeric argument'')
      | v # ts' \<Rightarrow> (case parse_unsigned 64 v of
          None \<Rightarrow> Inl (driver_error Query (''COUNT must be a positive integer, got '' @ lib_debug L v))
        | Some n \<Rightarrow> scan_clauses L (spec \<lparr> ss_count := n \<rparr>) ts'))
      else Inl (driver_error Query (''unrecognized stream_rows clause '' @ lib_debug L (to_uppercase L t)
        @ ''; expected MATCH or COUNT'')))"
  by pat_completeness auto
termination
  by (relation "measure (\<lambda>(_, _, ts). length ts)") auto

definition parse_scan_spec :: "lib \<Rightarrow> string \<Rightarrow> DriverError + ScanSpec" where
  "parse_scan_spec L query = res_bind (tokenize query) (\<lambda>tokens. (case tokens of
     [] \<Rightarrow> Inl (driver_error Query ''stream_rows requires a pseudo-table name (string, hash, list, set, zset, or stream)'')
   | t # rest \<Rightarrow> (let table = to_lowercase L t in
       res_bind (validate_pseudo_table L table) (\<lambda>_.
         scan_clauses L \<lparr> ss_table = table, ss_pattern = ''*'', ss_count = DEFAULT_SCAN_COUNT \<rparr> rest))))"

definition number_rows :: "(nat \<Rightarrow> 'a \<Rightarrow> 'b) \<Rightarrow> 'a list \<Rightarrow> 'b list" where
  "number_rows f xs = map (\<lambda>(i, x). f i x) (zip [0..<length xs] xs)"

definition stream_entry_row :: "lib \<Rightarrow> string \<Rightarrow> redis_value \<Rightarrow> CellValue list" where
  "stream_entry_row L key_text entry =
     (let items = array_items entry;
          ident = (case items of [] \<Rightarrow> CNull | x # _ \<Rightarrow> value_to_cell L x);
          fields = (case items of _ # y # _ \<Rightarrow> y | _ \<Rightarrow> RArray [])
      in [CText key_text, ident, CText (lib_render L (json_obj
           (map (\<lambda>(k, v). (json_key L (value_to_json L) k, value_to_json L v)) (flat_pairs fields))))])"

text \<open>The command that reads a key of a type, and the rows made of its reply.\<close>

definition key_command :: "string \<Rightarrow> byte list \<Rightarrow> redis_cmd option" where
  "key_command table key =
     (if table = ''string'' then Some [as_bytes ''GET'', key]
      else if table = ''hash'' then Some [as_bytes ''HGETALL'', key]
      else if table = ''list'' then Some [as_bytes ''LRANGE'', key, as_bytes ''0'', as_bytes ''-1'']
      else if table = ''set'' then Some [as_bytes ''SMEMBERS'', key]
      else if table = ''zset'' then Some [as_bytes ''ZRANGE'', key, as_bytes ''0'', as_bytes ''-1'', as_bytes ''WITHSCORES'']
      else if table = ''stream'' then Some [as_bytes ''XRANGE'', key, as_bytes ''-'', as_bytes ''+'']
      else None)"

definition key_rows :: "lib \<Rightarrow> string \<Rightarrow> string \<Rightarrow> redis_value \<Rightarrow> CellValue list list" where
  "key_rows L table key_text v =
     (let cell = value_to_cell L; k = CText key_text in
      if table = ''string'' then [[k, cell v]]
      else if table = ''hash'' \<or> table = ''zset'' then map (\<lambda>(a, b). [k, cell a, cell b]) (flat_pairs v)
      else if table = ''list'' then number_rows (\<lambda>i x. [k, CText (show_nat i), cell x]) (array_items v)
      else if table = ''set'' then map (\<lambda>x. [k, cell x]) (array_items v)
      else map (stream_entry_row L key_text) (array_items v))"

definition fetch_rows_for_key ::
  "lib \<Rightarrow> ('cl, 'c, 's) redis_env \<Rightarrow> 'c \<Rightarrow> string \<Rightarrow> byte list \<Rightarrow> string \<Rightarrow> 's \<Rightarrow> CellValue list list dres \<times> 's" where
  "fetch_rows_for_key L E c table key key_text s = (case key_command table key of
     None \<Rightarrow> (Inl (unknown_pseudo_table L table), s)
   | Some cmd \<Rightarrow> (let (r, s1) = rv_query E c cmd s in (res_map (key_rows L table key_text) (map_err map_query_error r), s1)))"

text \<open>The rows of the keys of one page; the first failing key ends it.\<close>

fun fetch_batch ::
  "lib \<Rightarrow> ('cl, 'c, 's) redis_env \<Rightarrow> 'c \<Rightarrow> string \<Rightarrow> byte list list \<Rightarrow> 's \<Rightarrow> CellValue list list dres \<times> 's" where
  "fetch_batch L E c table [] s = (Inr [], s)"
| "fetch_batch L E c table (k # ks) s = (case fetch_rows_for_key L E c table k (bytes_to_text k) s of
     (Inl e, s1) \<Rightarrow> (Inl e, s1)
   | (Inr rows, s1) \<Rightarrow> (let (r, s2) = fetch_batch L E c table ks s1 in (res_map (\<lambda>more. rows @ more) r, s2)))"

definition scan_command :: "ScanSpec \<Rightarrow> u64 \<Rightarrow> redis_cmd" where
  "scan_command spec cursor = map as_bytes [''SCAN'', show_nat (unat cursor), ''MATCH'', ss_pattern spec,
     ''COUNT'', show_nat (ss_count spec), ''TYPE'', ss_table spec]"

text \<open>A stream is the elements it yielded and how it ended. The loop need not end, so it has fuel:
  \<open>None\<close> is a stream that is still going.\<close>

fun scan_loop ::
  "lib \<Rightarrow> ('cl, 'c, 's) redis_env \<Rightarrow> 'c \<Rightarrow> ScanSpec \<Rightarrow> nat \<Rightarrow> u64 \<Rightarrow> nat \<Rightarrow> 's \<Rightarrow> StreamElement list \<times> unit dres option \<times> 's" where
  "scan_loop L E c spec 0 cursor sofar s = ([], None, s)"
| "scan_loop L E c spec (Suc n) cursor sofar s =
     (if sofar \<ge> EMERGENCY_MAX then ([], Some (Inr ()), s)
      else case rv_query E c (scan_command spec cursor) s of
        (Inl e, s1) \<Rightarrow> ([], Some (Inl (map_query_error e)), s1)
      | (Inr v, s1) \<Rightarrow> (case rv_scan E v of
          Inl e \<Rightarrow> ([], Some (Inl (map_query_error e)), s1)
        | Inr (next_cursor, keys) \<Rightarrow> (case fetch_batch L E c (ss_table spec) keys s1 of
            (Inl e, s2) \<Rightarrow> ([], Some (Inl e), s2)
          | (Inr rows, s2) \<Rightarrow>
              (let batch = (if sofar + length rows > EMERGENCY_MAX then take (EMERGENCY_MAX - sofar) rows else rows);
                   sofar' = sofar + length batch;
                   out = (if batch = [] then [] else [Rows batch])
               in if sofar' \<ge> EMERGENCY_MAX \<or> next_cursor = 0 then (out, Some (Inr ()), s2)
                  else let (more, r, s3) = scan_loop L E c spec n next_cursor sofar' s2 in (out @ more, r, s3)))))"

definition redis_stream_rows ::
  "lib \<Rightarrow> ('cl, 'c, 's) redis_env \<Rightarrow> nat \<Rightarrow> string \<Rightarrow> 'c RedisDriver \<Rightarrow> 's \<Rightarrow> StreamElement list \<times> unit dres option \<times> 's" where
  "redis_stream_rows L E fuel query d s = (case parse_scan_spec L query of
     Inl e \<Rightarrow> ([], Some (Inl e), s)
   | Inr spec \<Rightarrow> (case rd_manager d of
       Inl e \<Rightarrow> ([], Some (Inl e), s)
     | Inr c \<Rightarrow> (case columns_for L (ss_table spec) of
         Inl e \<Rightarrow> ([], Some (Inl e), s)
       | Inr cols \<Rightarrow>
           (let (out, r, s1) = scan_loop L E c spec fuel 0 0 s
            in (Header \<lparr> sh_columns = map ci_name cols, sh_column_type_names = map ci_data_type cols \<rparr> # out, r, s1)))))"

section \<open>Lemmas\<close>

lemma require_read_only_Inr:
  "require_read_only L q = Inr () \<longleftrightarrow> (\<exists>t ts. tokenize q = Inr (t # ts) \<and> to_uppercase L t \<in> set READ_ONLY_COMMANDS)"
proof (cases "tokenize q")
  case (Inr ts)
  then show ?thesis by (cases ts) (auto simp: require_read_only_def)
qed (simp add: require_read_only_def)

lemma build_command_verb: "build_command L (t # ts) ps = Inr cmd \<Longrightarrow> \<exists>args. cmd = as_bytes (to_uppercase L t) # args"
  using bind_tokens_args [of "[as_bytes (to_uppercase L t)]" ts "case ps of None \<Rightarrow> [] | Some xs \<Rightarrow> xs" cmd]
  by (auto simp: build_command_def)

lemma apply_cap_rows [simp]: "qr_rows (apply_cap cap r) = take cap (qr_rows r)"
  by (simp add: apply_cap_def Let_def)

definition rows_in :: "StreamElement list \<Rightarrow> nat" where
  "rows_in es = sum_list (map (\<lambda>e. case e of Header _ \<Rightarrow> 0 | Rows rs \<Rightarrow> length rs) es)"

lemma rows_in_simps [simp]: "rows_in [] = 0" "rows_in (Header h # es) = rows_in es"
  "rows_in (Rows rs # es) = length rs + rows_in es" "rows_in (es @ fs) = rows_in es + rows_in fs"
  by (simp_all add: rows_in_def)

definition nonempty_rows :: "StreamElement \<Rightarrow> bool" where
  "nonempty_rows e = (case e of Header _ \<Rightarrow> False | Rows rs \<Rightarrow> rs \<noteq> [])"

lemma scan_loop_bounded:
  assumes "sofar \<le> EMERGENCY_MAX" "scan_loop L E c spec n cursor sofar s = (es, r, s')"
  shows "sofar + rows_in es \<le> EMERGENCY_MAX \<and> list_all nonempty_rows es"
  using assms
proof (induction n arbitrary: cursor sofar s es r s')
  case (Suc n)
  show ?case
  proof (cases "sofar \<ge> EMERGENCY_MAX")
    case True
    then show ?thesis using Suc.prems by auto
  next
    case False
    obtain q s1 where q: "rv_query E c (scan_command spec cursor) s = (q, s1)" by fastforce
    show ?thesis
    proof (cases q)
      case (Inl e)
      then show ?thesis using Suc.prems q False by auto
    next
      case (Inr v)
      show ?thesis
      proof (cases "rv_scan E v")
        case (Inl e)
        then show ?thesis using Suc.prems q Inr False by auto
      next
        case scan: (Inr p)
        obtain nxt keys where p: "p = (nxt, keys)" by fastforce
        obtain b s2 where b: "fetch_batch L E c (ss_table spec) keys s1 = (b, s2)" by fastforce
        show ?thesis
        proof (cases b)
          case (Inl e)
          then show ?thesis using Suc.prems q Inr scan p b False by auto
        next
          case rows: (Inr rows)
          define batch where "batch = (if sofar + length rows > EMERGENCY_MAX then take (EMERGENCY_MAX - sofar) rows else rows)"
          have le: "sofar + length batch \<le> EMERGENCY_MAX" using Suc.prems(1) by (auto simp: batch_def)
          define out where "out = (if batch = [] then [] else [Rows batch])"
          have out: "rows_in out = length batch" "list_all nonempty_rows out"
            by (auto simp: out_def nonempty_rows_def)
          obtain es2 r2 s3 where rec: "scan_loop L E c spec n nxt (sofar + length batch) s2 = (es2, r2, s3)"
            by (metis prod_cases3)
          have "es = out \<or> es = out @ es2"
            using Suc.prems(2) q Inr scan p b rows rec False
            by (auto simp: Let_def batch_def [symmetric] out_def [symmetric] split: if_splits)
          then show ?thesis
            using out le Suc.IH [OF le rec] by auto
        qed
      qed
    qed
  qed
qed simp

lemma redis_query_gate:
  assumes "cc_read_only (rd_config d)"
  shows "let (r, s1) = redis_user_query L E elapsed q cap ps d s
     in (s1 = s \<and> is_ok r = False)
      \<or> (\<exists>c verb args. rd_connection d = Some c \<and> verb \<in> set READ_ONLY_COMMANDS
           \<and> s1 = snd (rv_query E c (as_bytes verb # args) s))"
proof (cases "rd_connection d")
  case None
  then show ?thesis by (simp add: redis_user_query_def with_redis_def rd_manager_def)
next
  case (Some c)
  show ?thesis
  proof (cases "require_read_only L q")
    case (Inl e)
    then show ?thesis using Some assms
      by (simp add: redis_user_query_def with_redis_def rd_manager_def redis_execute_user_query_def)
  next
    case (Inr u)
    then obtain t ts where t: "tokenize q = Inr (t # ts)" "to_uppercase L t \<in> set READ_ONLY_COMMANDS"
      using require_read_only_Inr [of L q] by auto
    let ?ps = "case ps of None \<Rightarrow> [] | Some xs \<Rightarrow> xs"
    show ?thesis
    proof (cases "build_command L (t # ts) (Some ?ps)")
      case (Inl e)
      then show ?thesis using Some assms Inr t
        by (simp add: redis_user_query_def with_redis_def rd_manager_def redis_execute_user_query_def
            redis_execute_parameterized_def)
    next
      case cmd: (Inr cmd)
      obtain args where args: "cmd = as_bytes (to_uppercase L t) # args"
        using build_command_verb [OF cmd] by blast
      have "snd (redis_user_query L E elapsed q cap ps d s) = snd (rv_query E c cmd s)"
        using Some assms Inr t cmd
        by (simp add: redis_user_query_def with_redis_def rd_manager_def redis_execute_user_query_def
            redis_execute_parameterized_def pair_simps)
      then show ?thesis using Some t(2) args by (auto simp: pair_simps)
    qed
  qed
qed

section \<open>Properties\<close>

text \<open>A read-only connection sends no write. Whatever the command line and the parameters, a user query
  on a driver configured read-only either fails without a command being sent, or sends exactly one
  command whose name is on the list of read-only commands.\<close>

theorem redis_read_only_gate:
  assumes "cc_read_only (rd_config d)"
  shows "let (r, s1) = redis_user_query L E elapsed q cap ps d s
     in (s1 = s \<and> is_ok r = False)
      \<or> (\<exists>c verb args. rd_connection d = Some c \<and> verb \<in> set READ_ONLY_COMMANDS
           \<and> s1 = snd (rv_query E c (as_bytes verb # args) s))"
  by (rule redis_query_gate [OF assms])

text \<open>A server for the witness: it logs the commands and answers everything with OK.\<close>

definition logging_env :: "(unit, unit, redis_cmd list) redis_env" where
  "logging_env = \<lparr> rv_client = (\<lambda>_ _. Inr ()), rv_connect = (\<lambda>_ s. (Inr (), s)),
     rv_query = (\<lambda>_ cmd s. (Inr Okay, s @ [cmd])), rv_int = (\<lambda>_. Inr 1), rv_scan = (\<lambda>_. Inr (0, [])),
     rv_file = (\<lambda>_. Inl ''not found'') \<rparr>"

definition read_only_driver :: "unit RedisDriver" where
  "read_only_driver = adopt () 1 (redis_driver_new \<lparr> cc_host = ''h'', cc_port = 6379, cc_username = [],
     cc_password = None, cc_database = None, cc_ssl = SslConfig_default, cc_read_only = True,
     cc_additional_fields = [] \<rparr>)"

theorem redis_read_only_gate_witness:
  "let (r, s1) = redis_user_query plain_lib logging_env (0, 0) ''FLUSHALL'' None None read_only_driver []
     in (s1 = [] \<and> is_ok r = False)
      \<or> (\<exists>c verb args. rd_connection read_only_driver = Some c \<and> verb \<in> set READ_ONLY_COMMANDS
           \<and> s1 = snd (rv_query logging_env c (as_bytes verb # args) []))"
  by (rule redis_read_only_gate) (simp add: read_only_driver_def adopt_def redis_driver_new_def)

text \<open>A stream stays bounded. However long the server keeps it going, a stream begins with the header
  of its table, every later element is a non-empty batch, and all batches together hold at most five
  million rows; a query that is not a scan yields nothing and fails.\<close>

theorem redis_stream_bounded:
  "case redis_stream_rows L E fuel q d s of
     ([], r, _) \<Rightarrow> (case r of Some (Inl e) \<Rightarrow> True | _ \<Rightarrow> False)
   | (h # es, r, _) \<Rightarrow> (case h of Rows _ \<Rightarrow> False | Header hdr \<Rightarrow>
        res_map (map ci_name) (res_bind (parse_scan_spec L q) (\<lambda>sp. columns_for L (ss_table sp))) = Inr (sh_columns hdr))
       \<and> list_all nonempty_rows es \<and> rows_in es \<le> 5000000"
proof (cases "parse_scan_spec L q")
  case (Inl e)
  then show ?thesis by (simp add: redis_stream_rows_def)
next
  case (Inr spec)
  show ?thesis
  proof (cases "rd_manager d")
    case (Inl e)
    then show ?thesis using Inr by (simp add: redis_stream_rows_def)
  next
    case c: (Inr c)
    show ?thesis
    proof (cases "columns_for L (ss_table spec)")
      case (Inl e)
      then show ?thesis using Inr c by (simp add: redis_stream_rows_def)
    next
      case cols: (Inr cols)
      obtain es r s1 where l: "scan_loop L E c spec fuel 0 0 s = (es, r, s1)" by (metis prod_cases3)
      from scan_loop_bounded [OF _ l] show ?thesis
        using Inr c cols l by (simp add: redis_stream_rows_def EMERGENCY_MAX_def)
    qed
  qed
qed

end
