(* ===== verification/RedisScan.thy ===== *)
theory RedisScan
  imports Main Prelude Lib Core Effects Redis RedisDriver
begin

text \<open>
  The stream of \<open>driver-redis/src/stream.rs\<close> against what a scan promises. Redis hands out its keys in
  pages, each with the cursor of the next one, and the cursor 0 after the last. On a server that does so
  the stream ends, and it yields the rows of every key of every page, in their order, up to the cap.
\<close>

section \<open>A server that is scanned\<close>

text \<open>The verbs of the commands a stream sends.\<close>

definition stream_verbs :: "byte list list" where
  "stream_verbs = map as_bytes [''SCAN'', ''GET'', ''HGETALL'', ''LRANGE'', ''SMEMBERS'', ''ZRANGE'', ''XRANGE'']"

text \<open>As long as \<open>I\<close> holds, such a command keeps it and is answered by \<open>ans\<close>.\<close>

definition serves :: "('cl, 'c, 's) redis_env \<Rightarrow> 'c \<Rightarrow> ('s \<Rightarrow> bool) \<Rightarrow> (redis_cmd \<Rightarrow> RedisError + redis_value) \<Rightarrow> bool" where
  "serves E c I ans \<longleftrightarrow> (\<forall>s verb args. I s \<and> verb \<in> set stream_verbs \<longrightarrow>
     fst (rv_query E c (verb # args) s) = ans (verb # args) \<and> I (snd (rv_query E c (verb # args) s)))"

lemma servesD:
  "serves E c I ans \<Longrightarrow> I s \<Longrightarrow> verb \<in> set stream_verbs \<Longrightarrow>
     \<exists>s1. rv_query E c (verb # args) s = (ans (verb # args), s1) \<and> I s1"
  unfolding serves_def by (metis prod.collapse)

text \<open>The pages from a cursor on; only the last one comes with the cursor 0.\<close>

fun scan_pages ::
  "('cl, 'c, 's) redis_env \<Rightarrow> (redis_cmd \<Rightarrow> RedisError + redis_value) \<Rightarrow> ScanSpec \<Rightarrow> u64 \<Rightarrow> byte list list list \<Rightarrow> bool" where
  "scan_pages E ans spec cursor [] = False"
| "scan_pages E ans spec cursor (keys # pages) = (case res_bind (ans (scan_command spec cursor)) (rv_scan E) of
     Inl e \<Rightarrow> False
   | Inr (next_cursor, ks) \<Rightarrow> ks = keys \<and>
       (if next_cursor = 0 then pages = [] else scan_pages E ans spec next_cursor pages))"

definition key_answer :: "(redis_cmd \<Rightarrow> RedisError + redis_value) \<Rightarrow> string \<Rightarrow> byte list \<Rightarrow> redis_value option" where
  "key_answer ans table key = (case key_command table key of
     None \<Rightarrow> None | Some cmd \<Rightarrow> (case ans cmd of Inl e \<Rightarrow> None | Inr v \<Rightarrow> Some v))"

definition rows_of_key :: "lib \<Rightarrow> (redis_cmd \<Rightarrow> RedisError + redis_value) \<Rightarrow> string \<Rightarrow> byte list \<Rightarrow> CellValue list list" where
  "rows_of_key L ans table key = (case key_answer ans table key of
     None \<Rightarrow> [] | Some v \<Rightarrow> key_rows L table (bytes_to_text key) v)"

definition rows_of_pages ::
  "lib \<Rightarrow> (redis_cmd \<Rightarrow> RedisError + redis_value) \<Rightarrow> string \<Rightarrow> byte list list list \<Rightarrow> CellValue list list" where
  "rows_of_pages L ans table pages = concat (map (rows_of_key L ans table) (concat pages))"

lemma rows_of_pages_simps [simp]:
  "rows_of_pages L ans table [] = []"
  "rows_of_pages L ans table (keys # pages) = concat (map (rows_of_key L ans table) keys) @ rows_of_pages L ans table pages"
  by (simp_all add: rows_of_pages_def)

section \<open>Lemmas\<close>

lemma key_command_verb: "key_command table key = Some cmd \<Longrightarrow> \<exists>verb args. cmd = verb # args \<and> verb \<in> set stream_verbs"
  by (auto simp: key_command_def stream_verbs_def split: if_splits)

lemma scan_command_verb: "\<exists>verb args. scan_command spec cursor = verb # args \<and> verb \<in> set stream_verbs"
  by (simp add: scan_command_def stream_verbs_def)

lemma fetch_rows_for_key_served:
  assumes "serves E c I ans" "I s" "key_answer ans table key \<noteq> None"
  shows "\<exists>s1. fetch_rows_for_key L E c table key (bytes_to_text key) s = (Inr (rows_of_key L ans table key), s1) \<and> I s1"
proof -
  obtain cmd v where k: "key_command table key = Some cmd" "ans cmd = Inr v"
    using assms(3) by (auto simp: key_answer_def split: option.splits sum.splits)
  obtain verb args where cmd: "cmd = verb # args" "verb \<in> set stream_verbs" using key_command_verb [OF k(1)] by blast
  obtain s1 where "rv_query E c cmd s = (ans cmd, s1)" "I s1" using servesD [OF assms(1,2) cmd(2)] cmd(1) by blast
  then show ?thesis using k by (simp add: fetch_rows_for_key_def rows_of_key_def key_answer_def map_err_def)
qed

lemma fetch_batch_served:
  assumes "serves E c I ans" "I s" "\<And>key. key \<in> set keys \<Longrightarrow> key_answer ans table key \<noteq> None"
  shows "\<exists>s1. fetch_batch L E c table keys s = (Inr (concat (map (rows_of_key L ans table) keys)), s1) \<and> I s1"
  using assms(2,3)
proof (induction keys arbitrary: s)
  case (Cons k ks)
  obtain s1 where k: "fetch_rows_for_key L E c table k (bytes_to_text k) s = (Inr (rows_of_key L ans table k), s1)" "I s1"
    using fetch_rows_for_key_served [OF assms(1) Cons.prems(1), of table k L] Cons.prems(2) by auto
  obtain s2 where "fetch_batch L E c table ks s1 = (Inr (concat (map (rows_of_key L ans table) ks)), s2)" "I s2"
    using Cons.IH [OF k(2)] Cons.prems(2) by auto
  then show ?case using k(1) by simp
qed simp

text \<open>A page, and what the loop does with it.\<close>

lemma scan_page_served:
  assumes "serves E c I ans" "I s" "scan_pages E ans spec cursor (keys # pages)"
    and "\<And>key. key \<in> set keys \<Longrightarrow> key_answer ans (ss_table spec) key \<noteq> None"
  obtains v next_cursor s1 s2 where
    "rv_query E c (scan_command spec cursor) s = (Inr v, s1)" "rv_scan E v = Inr (next_cursor, keys)"
    "fetch_batch L E c (ss_table spec) keys s1 = (Inr (concat (map (rows_of_key L ans (ss_table spec)) keys)), s2)"
    "I s2" "if next_cursor = 0 then pages = [] else scan_pages E ans spec next_cursor pages"
proof -
  obtain v next_cursor where v: "ans (scan_command spec cursor) = Inr v" "rv_scan E v = Inr (next_cursor, keys)"
      "if next_cursor = 0 then pages = [] else scan_pages E ans spec next_cursor pages"
    using assms(3) by (auto simp: res_bind_def split: sum.splits)
  obtain verb args where cmd: "scan_command spec cursor = verb # args" "verb \<in> set stream_verbs"
    using scan_command_verb by blast
  obtain s1 where s1: "rv_query E c (scan_command spec cursor) s = (Inr v, s1)" "I s1"
    using servesD [OF assms(1,2) cmd(2), of args] cmd(1) v(1) by auto
  obtain s2 where "fetch_batch L E c (ss_table spec) keys s1 = (Inr (concat (map (rows_of_key L ans (ss_table spec)) keys)), s2)" "I s2"
    using fetch_batch_served [OF assms(1) s1(2) assms(4)] by blast
  then show ?thesis using that s1(1) v(2,3) by blast
qed

lemma scan_loop_served:
  assumes "serves E c I ans"
    and "scan_pages E ans spec cursor pages" "\<And>key. key \<in> set (concat pages) \<Longrightarrow> key_answer ans (ss_table spec) key \<noteq> None"
    and "I s" "length pages \<le> fuel" "sofar \<le> EMERGENCY_MAX"
  shows "\<exists>out s1. scan_loop L E c spec fuel cursor sofar s = (out, Some (Inr ()), s1) \<and> I s1
    \<and> streamed_rows out = take (EMERGENCY_MAX - sofar) (rows_of_pages L ans (ss_table spec) pages)"
  using assms(2-)
proof (induction pages arbitrary: cursor s fuel sofar)
  case (Cons keys pages)
  obtain n where n: "fuel = Suc n" "length pages \<le> n" using Cons.prems(4) by (cases fuel) auto
  show ?case
  proof (cases "sofar = EMERGENCY_MAX")
    case True
    then show ?thesis using Cons.prems(3) n by simp
  next
    case False
    define rows where "rows = concat (map (rows_of_key L ans (ss_table spec)) keys)"
    define batch where "batch = take (EMERGENCY_MAX - sofar) rows"
    define out where "out = (if batch = [] then [] else [Rows batch])"
    obtain v next_cursor s1 s2 where page:
      "rv_query E c (scan_command spec cursor) s = (Inr v, s1)" "rv_scan E v = Inr (next_cursor, keys)"
      "fetch_batch L E c (ss_table spec) keys s1 = (Inr rows, s2)" "I s2"
      "if next_cursor = 0 then pages = [] else scan_pages E ans spec next_cursor pages"
      using scan_page_served [OF assms(1) Cons.prems(3,1), of L] Cons.prems(2) unfolding rows_def by (metis UnCI concat.simps(2) set_append)
    have batch: "(if sofar + length rows > EMERGENCY_MAX then take (EMERGENCY_MAX - sofar) rows else rows) = batch"
      by (auto simp: batch_def)
    have out: "streamed_rows out = batch" by (simp add: out_def)
    have loop: "scan_loop L E c spec fuel cursor sofar s =
        (if sofar + length batch \<ge> EMERGENCY_MAX \<or> next_cursor = 0 then (out, Some (Inr ()), s2)
         else let (more, r, s3) = scan_loop L E c spec n next_cursor (sofar + length batch) s2 in (out @ more, r, s3))"
      using False Cons.prems(5) n page(1-3) by (simp add: Let_def batch out_def)
    show ?thesis
    proof (cases "sofar + length batch \<ge> EMERGENCY_MAX \<or> next_cursor = 0")
      case True
      have "next_cursor = 0 \<longrightarrow> rows_of_pages L ans (ss_table spec) pages = []" using page(5) by auto
      moreover have "sofar + length batch \<ge> EMERGENCY_MAX \<longrightarrow> length rows \<ge> EMERGENCY_MAX - sofar"
        by (auto simp: batch_def)
      ultimately have "batch = take (EMERGENCY_MAX - sofar) (rows @ rows_of_pages L ans (ss_table spec) pages)"
        using True by (auto simp: batch_def)
      then show ?thesis using True loop out page(4) by (simp add: rows_def)
    next
      case more: False
      then have all: "batch = rows" "take (EMERGENCY_MAX - sofar) rows = rows" "length rows \<le> EMERGENCY_MAX - sofar"
        by (auto simp: batch_def)
      have "scan_pages E ans spec next_cursor pages" using more page(5) by simp
      from Cons.IH [OF this _ page(4) n(2), of "sofar + length batch"] Cons.prems(2) more
      obtain rest s3 where "scan_loop L E c spec n next_cursor (sofar + length batch) s2 = (rest, Some (Inr ()), s3)" "I s3"
          "streamed_rows rest = take (EMERGENCY_MAX - (sofar + length batch)) (rows_of_pages L ans (ss_table spec) pages)"
        by auto
      then show ?thesis using more loop out all by (simp add: rows_def [symmetric] diff_diff_left)
    qed
  qed
qed simp

lemma scan_clauses_table: "scan_clauses L spec ts = Inr spec1 \<Longrightarrow> ss_table spec1 = ss_table spec"
  by (induction L spec ts rule: scan_clauses.induct) (auto split: if_splits list.splits option.splits)

lemma parse_scan_spec_table:
  assumes "parse_scan_spec L q = Inr spec"
  shows "ss_table spec \<in> set PSEUDO_TABLES"
  using assms scan_clauses_table [of L _ _ spec]
  by (fastforce simp: parse_scan_spec_def validate_pseudo_table_def Let_def res_bind_def split: sum.splits list.splits if_splits)

lemma columns_for_pseudo_table: "table \<in> set PSEUDO_TABLES \<Longrightarrow> \<exists>cols. columns_for L table = Inr cols"
  by (auto simp: PSEUDO_TABLES_def columns_for_def)

section \<open>Properties\<close>

text \<open>C24. A stream yields what is scanned. When the server hands its keys out in pages until the cursor 0 and
  answers for each of them, and the commands of the stream keep it so, the stream ends well after as
  many pages at most; its rows are the rows of the keys of the pages, in their order, the first five
  million of them, under a header; and it has sent the server nothing but these commands.\<close>

theorem redis_scan_exact:
  assumes spec: "parse_scan_spec L q = Inr spec" and c: "rd_connection d = Some c"
    and server: "serves E c I ans" "I s" "scan_pages E ans spec 0 pages"
    and keys: "\<And>key. key \<in> set (concat pages) \<Longrightarrow> key_answer ans (ss_table spec) key \<noteq> None"
    and fuel: "length pages \<le> fuel"
  shows "\<exists>hdr out s1. redis_stream_rows L E fuel q d s = (Header hdr # out, Some (Inr ()), s1) \<and> I s1
    \<and> streamed_rows out = take 5000000 (rows_of_pages L ans (ss_table spec) pages)"
proof -
  obtain cols where "columns_for L (ss_table spec) = Inr cols"
    using columns_for_pseudo_table [OF parse_scan_spec_table [OF spec]] by blast
  moreover obtain out s1 where "scan_loop L E c spec fuel 0 0 s = (out, Some (Inr ()), s1)" "I s1"
      "streamed_rows out = take 5000000 (rows_of_pages L ans (ss_table spec) pages)"
    using scan_loop_served [OF server(1,3) keys server(2) fuel, of 0 L] by (auto simp: EMERGENCY_MAX_def)
  ultimately show ?thesis using spec c by (simp add: redis_stream_rows_def rd_manager_def)
qed

text \<open>Two lists in two pages.\<close>

definition two_pages :: "redis_cmd \<Rightarrow> RedisError + redis_value" where
  "two_pages cmd =
     (if hd cmd = as_bytes ''SCAN'' then Inr (if cmd ! 1 = as_bytes ''0'' then RInt 7 else RInt 0)
      else Inr (RArray [BulkString (as_bytes ''a''), BulkString (as_bytes ''b'')]))"

definition paged_env :: "(unit, unit, redis_cmd list) redis_env" where
  "paged_env = \<lparr> rv_client = (\<lambda>_ _. Inr ()), rv_connect = (\<lambda>_ s. (Inr (), s)),
     rv_query = (\<lambda>_ cmd s. (two_pages cmd, s @ [cmd])), rv_int = (\<lambda>_. Inr 1),
     rv_scan = (\<lambda>v. Inr (if v = RInt 7 then (7, [as_bytes ''k'']) else (0, [as_bytes ''l'']))),
     rv_file = (\<lambda>_. Inl ''not found'') \<rparr>"

abbreviation only_stream_verbs :: "redis_cmd list \<Rightarrow> bool" where
  "only_stream_verbs s \<equiv> (\<forall>cmd\<in>set s. hd cmd \<in> set stream_verbs)"

definition listing :: ScanSpec where
  "listing = \<lparr> ss_table = ''list'', ss_pattern = ''*'', ss_count = 500 \<rparr>"

lemma parse_listing: "parse_scan_spec plain_lib ''list'' = Inr listing"
  by code_simp

lemma listing_pages: "scan_pages paged_env two_pages listing 0 [[as_bytes ''k''], [as_bytes ''l'']]"
  by code_simp

lemma listing_keys: "key \<in> set (concat [[as_bytes ''k''], [as_bytes ''l'']]) \<Longrightarrow> key_answer two_pages (ss_table listing) key \<noteq> None"
  by (auto simp: key_answer_def key_command_def listing_def two_pages_def)

theorem redis_scan_exact_witness:
  "\<exists>hdr out s1. redis_stream_rows plain_lib paged_env 2 ''list'' read_only_driver [] = (Header hdr # out, Some (Inr ()), s1)
    \<and> only_stream_verbs s1
    \<and> streamed_rows out = take 5000000 (rows_of_pages plain_lib two_pages (ss_table listing) [[as_bytes ''k''], [as_bytes ''l'']])"
proof (rule redis_scan_exact [where c = "()" and E = paged_env, OF parse_listing _ _ _ listing_pages listing_keys])
  show "serves paged_env () only_stream_verbs two_pages" by (auto simp: serves_def paged_env_def)
qed (simp_all add: read_only_driver_def adopt_def redis_driver_new_def)

end
