(* ===== verification/Clickhouse.thy ===== *)
theory Clickhouse
  imports Main Prelude Lib Core Quoting
begin

text \<open>
  The pure parts of \<open>driver-clickhouse/src\<close>: parameter rewriting (\<open>params.rs\<close>), the tab separated
  format (\<open>tsv.rs\<close>), the statement heuristic (\<open>statement.rs\<close>), quoting (\<open>ident.rs\<close>), JSON rows
  (\<open>jsonl.rs\<close>), error mapping (\<open>error.rs\<close>), the summary header (\<open>request.rs\<close>), address and user
  name (\<open>tls.rs\<close>) and the helpers of \<open>schema.rs\<close>.
\<close>

section \<open>Parameters\<close>

definition placeholder_expr :: "nat \<Rightarrow> string" where
  "placeholder_expr n = ''unhex({p'' @ show_nat n @ '':String})''"

text \<open>The loop of \<open>rewrite_question_marks\<close>: the output, the two flags, the count and the rest of the
  input; a byte is read ahead where the code peeks or takes a second character.\<close>

fun rewrite_loop :: "string \<Rightarrow> bool \<Rightarrow> bool \<Rightarrow> nat \<Rightarrow> string \<Rightarrow> string \<times> nat" where
  "rewrite_loop out sq bt n [] = (out, n)"
| "rewrite_loop out sq bt n (c # cs) =
     (if sq then
        (if c = BSLASH then (case cs of
             [] \<Rightarrow> (out @ [c], n)
           | e # cs' \<Rightarrow> rewrite_loop (out @ [c, e]) sq bt n cs')
         else if c = SQUOTE then (case cs of
             [] \<Rightarrow> (out @ [c], n)
           | e # cs' \<Rightarrow> if e = SQUOTE then rewrite_loop (out @ [c, e]) sq bt n cs'
                       else rewrite_loop (out @ [c]) False bt n (e # cs'))
         else rewrite_loop (out @ [c]) sq bt n cs)
      else if bt then
        (if c = BACKTICK then (case cs of
             [] \<Rightarrow> (out @ [c], n)
           | e # cs' \<Rightarrow> if e = BACKTICK then rewrite_loop (out @ [c, e]) sq bt n cs'
                       else rewrite_loop (out @ [c]) sq False n (e # cs'))
         else rewrite_loop (out @ [c]) sq bt n cs)
      else if c = SQUOTE then rewrite_loop (out @ [c]) True bt n cs
      else if c = BACKTICK then rewrite_loop (out @ [c]) sq True n cs
      else if c = CHR ''?'' then rewrite_loop (out @ placeholder_expr (n + 1)) sq bt (n + 1) cs
      else rewrite_loop (out @ [c]) sq bt n cs)"

definition rewrite_question_marks :: "string \<Rightarrow> string \<times> nat" where
  "rewrite_question_marks sql = rewrite_loop [] False False 0 sql"

definition to_hex :: "byte list \<Rightarrow> string" where
  "to_hex bs = concat (map (\<lambda>b. hex2 (unat b)) bs)"

definition null_parameter :: DriverError where
  "null_parameter = driver_error Query (''binding a NULL parameter is not supported yet: ClickHouse HTTP named parameters are typed (this driver types every placeholder as ''
     @ [BACKTICK] @ ''String'' @ [BACKTICK] @ ''), and making a placeholder correctly Nullable requires type information this driver does not have'')"

definition param_key :: "nat \<Rightarrow> string" where
  "param_key index = ''param_p'' @ show_nat (index + 1)"

definition param_pair :: "nat \<Rightarrow> CellValue \<Rightarrow> DriverError + string \<times> string" where
  "param_pair index v = (case v of
     CText t \<Rightarrow> Inr (param_key index, to_hex (as_bytes t))
   | CBytes b \<Rightarrow> Inr (param_key index, to_hex b)
   | CNull \<Rightarrow> Inl null_parameter)"

definition build_param_query_pairs :: "CellValue list \<Rightarrow> DriverError + (string \<times> string) list" where
  "build_param_query_pairs vs = res_collect (map (\<lambda>(i, v). param_pair i v) (zip [0..<length vs] vs))"

section \<open>Tab separated values\<close>

definition unescape_char :: "char \<Rightarrow> char" where
  "unescape_char c = (if c = CHR ''t'' then TAB else if c = CHR ''n'' then LF else if c = CHR ''r'' then CR
     else if c = CHR ''0'' then NUL else if c = CHR ''b'' then CHR 0x08 else if c = CHR ''f'' then CHR 0x0C
     else if c = CHR ''a'' then CHR 0x07 else if c = CHR ''v'' then CHR 0x0B else c)"

fun unescape_text :: "string \<Rightarrow> string" where
  "unescape_text [] = []"
| "unescape_text (c # cs) =
     (if c \<noteq> BSLASH then c # unescape_text cs
      else case cs of [] \<Rightarrow> [BSLASH] | e # cs' \<Rightarrow> unescape_char e # unescape_text cs')"

definition tsv_null :: string where
  "tsv_null = [BSLASH, CHR ''N'']"

definition parse_data_cell :: "string \<Rightarrow> CellValue" where
  "parse_data_cell raw = (if raw = tsv_null then CNull else CText (unescape_text raw))"

definition split_lines :: "string \<Rightarrow> string list" where
  "split_lines body = (let ls = split_on LF body in if last ls = [] then butlast ls else ls)"

definition header_mismatch :: DriverError where
  "header_mismatch = driver_error Protocol ''TabSeparatedWithNamesAndTypes header had a mismatched number of names and types''"

definition parse_header_line :: "string \<Rightarrow> string list" where
  "parse_header_line l = map unescape_text (split_on TAB l)"

definition nth_line :: "string list \<Rightarrow> nat \<Rightarrow> string" where
  "nth_line ls i = (if i < length ls then ls ! i else [])"

definition parse_header :: "string \<Rightarrow> DriverError + string list \<times> string list" where
  "parse_header body =
     (let ls = split_lines body;
          columns = parse_header_line (nth_line ls 0);
          types = parse_header_line (nth_line ls 1)
      in if length columns \<noteq> length types then Inl header_mismatch else Inr (columns, types))"

definition parse_full :: "string \<Rightarrow> DriverError + string list \<times> string list \<times> CellValue list list" where
  "parse_full body =
     (if body = [] then Inr ([], [], [])
      else let ls = split_lines body in
        if length ls < 2 then Inl (driver_error Protocol ''TabSeparatedWithNamesAndTypes response was missing its header lines'')
        else let columns = parse_header_line (ls ! 0); types = parse_header_line (ls ! 1) in
          if length columns \<noteq> length types then Inl header_mismatch
          else Inr (columns, types, map (\<lambda>l. map parse_data_cell (split_on TAB l)) (drop 2 ls)))"

section \<open>Which statements return rows\<close>

function skip_whitespace_and_comments :: "string \<Rightarrow> string" where
  "skip_whitespace_and_comments rest =
     (let trimmed = trim_start rest in
      case strip_prefix ''--'' trimmed of
        Some after \<Rightarrow> skip_whitespace_and_comments
          (case find_char LF after of Some i \<Rightarrow> drop (i + 1) after | None \<Rightarrow> [])
      | None \<Rightarrow> (case strip_prefix ''/*'' trimmed of
          Some after \<Rightarrow> skip_whitespace_and_comments
            (case find_str ''*/'' after of Some i \<Rightarrow> drop (i + 2) after | None \<Rightarrow> [])
        | None \<Rightarrow> trimmed))"
  by pat_completeness auto
termination
proof (relation "measure length")
  fix rest trimmed after
  assume t: "trimmed = trim_start rest" and p: "strip_prefix ''--'' trimmed = Some after"
  have "length (trim_start rest) \<le> length rest" by (rule length_trim_start)
  then have "length after < length rest" using t p by (simp add: strip_prefix_Some)
  then show "(case find_char LF after of None \<Rightarrow> [] | Some i \<Rightarrow> drop (i + 1) after, rest) \<in> measure length"
    by (auto split: option.split)
next
  fix rest trimmed after
  assume t: "trimmed = trim_start rest" and p: "strip_prefix ''/*'' trimmed = Some after"
  have "length (trim_start rest) \<le> length rest" by (rule length_trim_start)
  then have "length after < length rest" using t p by (simp add: strip_prefix_Some)
  then show "(case find_str ''*/'' after of None \<Rightarrow> [] | Some i \<Rightarrow> drop (i + 2) after, rest) \<in> measure length"
    by (auto split: option.split)
qed simp

declare skip_whitespace_and_comments.simps [simp del]

text \<open>\<open>char::is_alphanumeric\<close> of the first scalar of a string.\<close>

definition starts_alphanumeric :: "lib \<Rightarrow> string \<Rightarrow> bool" where
  "starts_alphanumeric L s = (case s of [] \<Rightarrow> False
     | c # _ \<Rightarrow> if is_ascii c then is_ascii_alphanumeric c else lib_alphanumeric L s)"

definition starts_with_keyword :: "lib \<Rightarrow> string \<Rightarrow> string \<Rightarrow> bool" where
  "starts_with_keyword L text keyword =
     (if length text < length keyword then False
      else if \<not> eq_ignore_ascii_case (take (length keyword) text) keyword then False
      else case drop (length keyword) text of
        [] \<Rightarrow> True
      | c # cs \<Rightarrow> \<not> (starts_alphanumeric L (c # cs) \<or> c = CHR ''_''))"

definition ROW_RETURNING_KEYWORDS :: "string list" where
  "ROW_RETURNING_KEYWORDS = [''SELECT'', ''WITH'', ''SHOW'', ''DESCRIBE'', ''DESC'', ''EXPLAIN'']"

definition is_row_returning_statement :: "lib \<Rightarrow> string \<Rightarrow> bool" where
  "is_row_returning_statement L sql =
     list_ex (starts_with_keyword L (skip_whitespace_and_comments sql)) ROW_RETURNING_KEYWORDS"

section \<open>Quoting\<close>

definition ch_quote_ident :: "string \<Rightarrow> string" where
  "ch_quote_ident name = [BACKTICK] @ double_char BACKTICK name @ [BACKTICK]"

definition ch_quote_literal :: "string \<Rightarrow> string" where
  "ch_quote_literal v = [SQUOTE] @ double_char SQUOTE v @ [SQUOTE]"

section \<open>JSON rows\<close>

definition json_value_to_cell :: "lib \<Rightarrow> json option \<Rightarrow> CellValue" where
  "json_value_to_cell L v = (case v of
     None \<Rightarrow> CNull | Some JNull \<Rightarrow> CNull | Some (JString t) \<Rightarrow> CText t | Some x \<Rightarrow> CText (lib_render L x))"

definition parse_row :: "lib \<Rightarrow> string \<Rightarrow> string list \<Rightarrow> DriverError + CellValue list" where
  "parse_row L line columns =
     res_bind (map_err (\<lambda>e. driver_error Protocol (''failed to parse a JSONEachRow line: '' @ e)) (lib_parse L (as_bytes line)))
       (\<lambda>v. case v of
          JObject m \<Rightarrow> Inr (map (\<lambda>c. json_value_to_cell L (bt_get m c)) columns)
        | _ \<Rightarrow> Inl (driver_error Protocol ''a JSONEachRow line was not a JSON object''))"

section \<open>Errors and responses of the HTTP client\<close>

datatype reqwest_kind = IsTimeout | IsConnect | IsOther

record reqwest_error =
  rq_kind :: reqwest_kind
  rq_text :: string

definition map_reqwest_error :: "reqwest_error \<Rightarrow> DriverError" where
  "map_reqwest_error e = driver_error
     (case rq_kind e of IsTimeout \<Rightarrow> Timeout | IsConnect \<Rightarrow> Connection | IsOther \<Rightarrow> Protocol) (rq_text e)"

definition extract_exception_code :: "string \<Rightarrow> string option" where
  "extract_exception_code body = (case strip_prefix ''Code: '' (trim body) of
     None \<Rightarrow> None
   | Some rest \<Rightarrow> (let digits = takeWhile is_ascii_digit rest in if digits = [] then None else Some digits))"

text \<open>A status is its number and its \<open>Display\<close> text.\<close>

definition map_http_error :: "nat \<times> string \<Rightarrow> string \<Rightarrow> DriverError" where
  "map_http_error status body =
     (let kind = (if fst status = 401 \<or> fst status = 403 then Auth else Query);
          message = (if trim body = [] then ''ClickHouse request failed with HTTP status '' @ snd status else trim body);
          e = driver_error kind message
      in case extract_exception_code body of None \<Rightarrow> e | Some code \<Rightarrow> with_code code e)"

text \<open>A response: its status, the summary header when present and readable as text, and the body as
  the chunks \<open>bytes_stream\<close> yields.\<close>

record http_response =
  hr_status :: "nat \<times> string"
  hr_summary :: "string option"
  hr_body :: "(reqwest_error + byte list) list"

definition is_success :: "nat \<times> string \<Rightarrow> bool" where
  "is_success status \<longleftrightarrow> 200 \<le> fst status \<and> fst status < 300"

text \<open>\<open>Response::text\<close>: the whole body, with what is not UTF-8 replaced.\<close>

definition response_text :: "http_response \<Rightarrow> reqwest_error + string" where
  "response_text r = res_map (\<lambda>bs. from_utf8_lossy (concat bs)) (res_collect (hr_body r))"

definition extract_summary :: "lib \<Rightarrow> http_response \<Rightarrow> string option option" where
  "extract_summary L r = Option.bind (hr_summary r) (\<lambda>t.
     case from_slice L ''ClickHouseSummary'' (\<lambda>v. Option.bind (de_fields [''written_rows''] v)
        (\<lambda>fs. def_field fs ''written_rows'' (de_option de_string) None)) (as_bytes t) of
       Inl _ \<Rightarrow> None | Inr w \<Rightarrow> Some w)"

definition written_rows :: "string option \<Rightarrow> nat option" where
  "written_rows w = Option.bind w (parse_unsigned 64)"

section \<open>Address and user\<close>

definition resolve_scheme :: "ConnectionConfig \<Rightarrow> string" where
  "resolve_scheme c = (if ssl_mode (cc_ssl c) = Some Disabled then ''http'' else ''https'')"

definition resolve_base_url :: "ConnectionConfig \<Rightarrow> string" where
  "resolve_base_url c = resolve_scheme c @ ''://'' @ cc_host c @ '':'' @ show_nat (cc_port c)"

definition resolve_username :: "ConnectionConfig \<Rightarrow> string" where
  "resolve_username c = (if cc_username c = [] then ''default'' else cc_username c)"

section \<open>Cells of introspection results\<close>

definition missing_column :: "string \<Rightarrow> DriverError" where
  "missing_column column = driver_error Internal (''a schema-introspection query result was missing column '' @ [DQUOTE] @ column @ [DQUOTE])"

definition unexpected_cell_kind :: "string \<Rightarrow> DriverError" where
  "unexpected_cell_kind column = driver_error Internal (''column '' @ [DQUOTE] @ column @ [DQUOTE]
     @ '' in a schema-introspection query result had an unexpected value kind'')"

definition row_get :: "CellValue list \<Rightarrow> nat \<Rightarrow> CellValue option" where
  "row_get row idx = (if idx < length row then Some (row ! idx) else None)"

definition cell_text :: "CellValue list \<Rightarrow> nat \<Rightarrow> string \<Rightarrow> string dres" where
  "cell_text row idx column = (case row_get row idx of
     Some (CText t) \<Rightarrow> Inr t
   | Some CNull \<Rightarrow> Inr []
   | Some (CBytes _) \<Rightarrow> Inl (unexpected_cell_kind column)
   | None \<Rightarrow> Inl (missing_column column))"

definition cell_opt_text :: "CellValue list \<Rightarrow> nat \<Rightarrow> string \<Rightarrow> string option dres" where
  "cell_opt_text row idx column = (case row_get row idx of
     Some (CText t) \<Rightarrow> Inr (if t = [] then None else Some t)
   | Some CNull \<Rightarrow> Inr None
   | Some (CBytes _) \<Rightarrow> Inl (unexpected_cell_kind column)
   | None \<Rightarrow> Inl (missing_column column))"

definition cell_bool :: "CellValue list \<Rightarrow> nat \<Rightarrow> string \<Rightarrow> bool dres" where
  "cell_bool row idx column = res_map (\<lambda>t. t = ''1'') (cell_text row idx column)"

definition cell_opt_parsed :: "(string \<Rightarrow> 'a option) \<Rightarrow> CellValue list \<Rightarrow> nat \<Rightarrow> string \<Rightarrow> 'a option dres" where
  "cell_opt_parsed parse row idx column = res_bind (cell_opt_text row idx column) (\<lambda>t. (case t of
     None \<Rightarrow> Inr None
   | Some s \<Rightarrow> ok_or (unexpected_cell_kind column) (map_option Some (parse s))))"

definition cell_opt_i64 :: "CellValue list \<Rightarrow> nat \<Rightarrow> string \<Rightarrow> int option dres" where
  "cell_opt_i64 = cell_opt_parsed parse_i64"

definition cell_opt_u64 :: "CellValue list \<Rightarrow> nat \<Rightarrow> string \<Rightarrow> nat option dres" where
  "cell_opt_u64 = cell_opt_parsed (parse_unsigned 64)"

text \<open>The loop of \<open>split_top_level_commas\<close>; the nesting depth may go below 0.\<close>

fun split_commas_loop :: "string list \<Rightarrow> int \<Rightarrow> string \<Rightarrow> string \<Rightarrow> string list" where
  "split_commas_loop parts depth current [] =
     (if trim current = [] then parts else parts @ [trim current])"
| "split_commas_loop parts depth current (c # cs) =
     (if c = CHR ''('' then split_commas_loop parts (depth + 1) (current @ [c]) cs
      else if c = CHR '')'' then split_commas_loop parts (depth - 1) (current @ [c]) cs
      else if c = CHR '','' \<and> depth = 0 then split_commas_loop (parts @ [trim current]) depth [] cs
      else split_commas_loop parts depth (current @ [c]) cs)"

definition split_top_level_commas :: "string \<Rightarrow> string list" where
  "split_top_level_commas s = split_commas_loop [] 0 [] s"

definition unwrap_nullable :: "string \<Rightarrow> string" where
  "unwrap_nullable t = (case Option.bind (strip_prefix ''Nullable('' t) (strip_suffix '')'') of
     Some s \<Rightarrow> s | None \<Rightarrow> t)"

text \<open>The loop over an enum's body: outside a label, everything up to a quote is skipped.\<close>

function enum_labels_loop :: "string \<Rightarrow> string list" where
  "enum_labels_loop [] = []"
| "enum_labels_loop (c # cs) =
     (if c \<noteq> SQUOTE then enum_labels_loop cs
      else takeWhile ((\<noteq>) SQUOTE) cs # enum_labels_loop (tl (dropWhile ((\<noteq>) SQUOTE) cs)))"
  by pat_completeness auto
termination
  by (relation "measure length") (auto simp: less_Suc_eq_le intro: order.trans [OF diff_le_self length_dropWhile_le])

definition parse_enum_labels :: "string \<Rightarrow> string list option" where
  "parse_enum_labels type_name =
     (let inner = unwrap_nullable type_name;
          after = (case strip_prefix ''Enum8('' inner of Some r \<Rightarrow> Some r | None \<Rightarrow> strip_prefix ''Enum16('' inner)
      in Option.bind (Option.bind after (strip_suffix '')'')) (\<lambda>body.
           let labels = enum_labels_loop body in if labels = [] then None else Some labels))"

definition table_kind_from_engine :: "string \<Rightarrow> TableKind" where
  "table_kind_from_engine engine = (if engine = ''View'' then View
     else if engine = ''MaterializedView'' then MaterializedView else Table)"


section \<open>Lemmas: placeholders\<close>

text \<open>A reference for the rewriting: a four-state lexer of SQL text. A doubled quote closes and opens
  again, so it needs no look-ahead. A question mark is a placeholder when the text before it leaves
  the lexer outside quotes; its number is how many placeholders come before it, plus one.\<close>

datatype sql_mode = Outside | InQuote | InEscape | InTick

definition lex_step :: "sql_mode \<Rightarrow> char \<Rightarrow> sql_mode" where
  "lex_step m c = (case m of
     Outside \<Rightarrow> if c = SQUOTE then InQuote else if c = BACKTICK then InTick else Outside
   | InQuote \<Rightarrow> if c = BSLASH then InEscape else if c = SQUOTE then Outside else InQuote
   | InEscape \<Rightarrow> InQuote
   | InTick \<Rightarrow> if c = BACKTICK then Outside else InTick)"

definition placeholder_at :: "sql_mode \<Rightarrow> string \<Rightarrow> nat \<Rightarrow> bool" where
  "placeholder_at m s i \<longleftrightarrow> s ! i = CHR ''?'' \<and> foldl lex_step m (take i s) = Outside"

definition placeholders_before :: "sql_mode \<Rightarrow> string \<Rightarrow> nat \<Rightarrow> nat" where
  "placeholders_before m s i = length (filter (placeholder_at m s) [0..<i])"

definition expansion :: "sql_mode \<Rightarrow> nat \<Rightarrow> string \<Rightarrow> nat \<Rightarrow> string" where
  "expansion m n s i = (if placeholder_at m s i then placeholder_expr (n + placeholders_before m s i + 1) else [s ! i])"

definition expand :: "sql_mode \<Rightarrow> nat \<Rightarrow> string \<Rightarrow> string \<times> nat" where
  "expand m n s = (concat (map (expansion m n s) [0..<length s]), n + placeholders_before m s (length s))"

lemma upt_Suc_map: "[0..<Suc n] = 0 # map Suc [0..<n]"
  by (simp add: map_Suc_upt upt_conv_Cons del: upt_Suc)

lemma placeholder_at_Suc [simp]: "placeholder_at m (c # s) (Suc i) = placeholder_at (lex_step m c) s i"
  by (simp add: placeholder_at_def)

lemma placeholder_at_0 [simp]: "placeholder_at m (c # s) 0 \<longleftrightarrow> c = CHR ''?'' \<and> m = Outside"
  by (simp add: placeholder_at_def)

lemma placeholders_before_Suc: "placeholders_before m (c # s) (Suc i) =
    (if c = CHR ''?'' \<and> m = Outside then 1 else 0) + placeholders_before (lex_step m c) s i"
  unfolding placeholders_before_def upt_Suc_map by (simp add: filter_map comp_def)

lemma expand_Nil [simp]: "expand m n [] = ([], n)"
  by (simp add: expand_def placeholders_before_def)

lemma expand_Cons: "expand m n (c # s) =
    (let k = (if c = CHR ''?'' \<and> m = Outside then 1 else 0); (t, n') = expand (lex_step m c) (n + k) s
     in ((if k = 1 then placeholder_expr (n + 1) else [c]) @ t, n'))"
proof -
  let ?k = "if c = CHR ''?'' \<and> m = Outside then 1 else 0 :: nat"
  have "expansion m n (c # s) (Suc i) = expansion (lex_step m c) (n + ?k) s i" for i
    by (simp add: expansion_def placeholders_before_Suc)
  moreover have "expansion m n (c # s) 0 = (if ?k = 1 then placeholder_expr (n + 1) else [c])"
    by (simp add: expansion_def placeholders_before_def)
  ultimately show ?thesis
    unfolding expand_def length_Cons upt_Suc_map by (simp add: comp_def placeholders_before_Suc)
qed

definition mode_of :: "bool \<Rightarrow> bool \<Rightarrow> sql_mode" where
  "mode_of sq bt = (if sq then InQuote else if bt then InTick else Outside)"

lemma rewrite_loop_expand:
  "\<not> (sq \<and> bt) \<Longrightarrow> rewrite_loop out sq bt n s =
     (out @ fst (expand (mode_of sq bt) n s), snd (expand (mode_of sq bt) n s))"
proof (induction out sq bt n s rule: rewrite_loop.induct)
  case (2 out sq bt n c cs)
  have m: "mode_of True False = InQuote" "mode_of False True = InTick" "mode_of False False = Outside"
    by (simp_all add: mode_of_def)
  note E = expand_Cons lex_step_def split_def Let_def m
  consider "sq" "\<not> bt" "c = BSLASH" | "sq" "\<not> bt" "c = SQUOTE" | "sq" "\<not> bt" "c \<noteq> BSLASH" "c \<noteq> SQUOTE"
    | "\<not> sq" "bt" "c = BACKTICK" | "\<not> sq" "bt" "c \<noteq> BACKTICK" | "\<not> sq" "\<not> bt"
    using "2.prems" by blast
  then show ?case
  proof cases
    case 1 with 2 show ?thesis by (cases cs) (simp_all add: E)
  next
    case 2
    show ?thesis
    proof (cases cs)
      case (Cons e cs')
      with 2 "2.IH" show ?thesis by (cases "e = SQUOTE") (simp_all add: E)
    qed (simp add: 2 E)
  next
    case 3 with 2 show ?thesis by (simp add: E)
  next
    case 4
    show ?thesis
    proof (cases cs)
      case (Cons e cs')
      with 4 "2.IH" show ?thesis by (cases "e = BACKTICK") (simp_all add: E)
    qed (simp add: 4 E)
  next
    case 5 with 2 show ?thesis by (simp add: E)
  next
    case 6
    consider "c = SQUOTE" | "c = BACKTICK" | "c = CHR ''?''" | "c \<notin> {SQUOTE, BACKTICK, CHR ''?''}" by blast
    then show ?thesis using 6 2 by cases (simp_all add: E)
  qed
qed simp

lemma hex2_values: "n < 256 \<Longrightarrow>
    hex_value (hex2 n ! 0) = Some (n div 16) \<and> hex_value (hex2 n ! 1) = Some (n mod 16)"
  by (simp add: hex2_def less_mult_imp_div_less)

text \<open>What the function \<open>unhex\<close> of the server makes of a string of digits.\<close>

fun unhex :: "string \<Rightarrow> byte list option" where
  "unhex [] = Some []"
| "unhex [c] = None"
| "unhex (a # b # s) = (case (hex_value a, hex_value b, unhex s) of
     (Some x, Some y, Some bs) \<Rightarrow> Some (word_of_nat (16 * x + y) # bs) | _ \<Rightarrow> None)"

lemma unhex_to_hex [simp]: "unhex (to_hex bs) = Some bs"
proof (induction bs)
  case (Cons b bs)
  have b: "unat b < 256" using unsigned_less [of b] by simp
  have "to_hex (b # bs) = hex2 (unat b) ! 0 # hex2 (unat b) ! 1 # to_hex bs"
    by (simp add: to_hex_def hex2_def)
  then show ?case using hex2_values [OF b] Cons by simp
qed (simp add: to_hex_def)

lemma show_nat_inj [simp]: "show_nat m = show_nat n \<longleftrightarrow> m = n"
  by (metis option.inject parse_nat_show_nat)

lemma param_pair_Inr: "param_pair i v = Inr p \<longleftrightarrow> v \<noteq> CNull \<and> p = (param_key i, to_hex (cell_bytes v))"
  by (cases v) (auto simp: param_pair_def cell_bytes_def)

lemma build_pairs_Inr:
  "build_param_query_pairs vs = Inr ps \<longleftrightarrow> CNull \<notin> set vs
     \<and> ps = map (\<lambda>i. (param_key i, to_hex (cell_bytes (vs ! i)))) [0..<length vs]"
proof -
  have z: "zip [0..<length vs] vs = map (\<lambda>i. (i, vs ! i)) [0..<length vs]"
    by (rule nth_equalityI) simp_all
  have m: "map (\<lambda>(i, v). param_pair i v) (zip [0..<length vs] vs) = map (\<lambda>i. param_pair i (vs ! i)) [0..<length vs]"
    by (simp add: z comp_def)
  show ?thesis
  proof
    assume "build_param_query_pairs vs = Inr ps"
    then have e: "map (\<lambda>i. param_pair i (vs ! i)) [0..<length vs] = map Inr ps"
      by (simp only: build_param_query_pairs_def m res_collect_Inr_iff)
    then have l: "length ps = length vs" by (metis length_map length_upt diff_zero)
    have "\<And>i. i < length vs \<Longrightarrow> param_pair i (vs ! i) = Inr (ps ! i)"
      using arg_cong [OF e, of "\<lambda>xs. xs ! _"] l by (metis (no_types, lifting) add_0 diff_zero length_upt nth_map nth_upt)
    then have p: "\<And>i. i < length vs \<Longrightarrow> vs ! i \<noteq> CNull \<and> ps ! i = (param_key i, to_hex (cell_bytes (vs ! i)))"
      by (simp add: param_pair_Inr)
    then show "CNull \<notin> set vs \<and> ps = map (\<lambda>i. (param_key i, to_hex (cell_bytes (vs ! i)))) [0..<length vs]"
      using l by (auto simp: in_set_conv_nth intro: nth_equalityI)
  next
    assume a: "CNull \<notin> set vs \<and> ps = map (\<lambda>i. (param_key i, to_hex (cell_bytes (vs ! i)))) [0..<length vs]"
    then have "\<And>i. i < length vs \<Longrightarrow> param_pair i (vs ! i) = Inr (param_key i, to_hex (cell_bytes (vs ! i)))"
      by (auto simp: param_pair_Inr in_set_conv_nth)
    then show "build_param_query_pairs vs = Inr ps"
      using a by (simp add: build_param_query_pairs_def m res_collect_Inr_iff comp_def)
  qed
qed


section \<open>Lemmas: quoting\<close>

interpretation ch_ident: quoting BACKTICK ch_quote_ident
  by unfold_locales (simp add: ch_quote_ident_def)

interpretation ch_literal: quoting SQUOTE ch_quote_literal
  by unfold_locales (simp add: ch_quote_literal_def)

section \<open>Lemmas: tab separated values\<close>

text \<open>The server's side of the format: what is escaped, a cell, a line and a body.\<close>

definition escape_char :: "char \<Rightarrow> string" where
  "escape_char c = (if c = TAB then [BSLASH, CHR ''t''] else if c = LF then [BSLASH, CHR ''n'']
     else if c = CR then [BSLASH, CHR ''r''] else if c = NUL then [BSLASH, CHR ''0'']
     else if c = CHR 0x08 then [BSLASH, CHR ''b''] else if c = CHR 0x0C then [BSLASH, CHR ''f'']
     else if c = SQUOTE then [BSLASH, SQUOTE] else if c = BSLASH then [BSLASH, BSLASH] else [c])"

definition escape_text :: "string \<Rightarrow> string" where
  "escape_text s = concat (map escape_char s)"

definition tsv_cell :: "CellValue \<Rightarrow> string" where
  "tsv_cell v = (case v of CNull \<Rightarrow> tsv_null | CText t \<Rightarrow> escape_text t | CBytes b \<Rightarrow> [])"

definition tsv_line :: "string list \<Rightarrow> string" where
  "tsv_line cells = join_with [TAB] cells @ [LF]"

definition tsv_body :: "string list \<Rightarrow> string list \<Rightarrow> CellValue list list \<Rightarrow> string" where
  "tsv_body columns types rows = concat (map tsv_line
     (map escape_text columns # map escape_text types # map (map tsv_cell) rows))"

lemma escape_text_simps [simp]: "escape_text [] = []" "escape_text (c # s) = escape_char c @ escape_text s"
  by (simp_all add: escape_text_def)

lemma unescape_escape_char: "unescape_text (escape_char c @ s) = c # unescape_text s"
  by (simp add: escape_char_def unescape_char_def)

lemma unescape_escape [simp]: "unescape_text (escape_text s) = s"
  by (induction s) (simp_all add: unescape_escape_char)

lemma escape_char_clean: "c' \<in> set (escape_char c) \<Longrightarrow> c' \<noteq> TAB \<and> c' \<noteq> LF"
  by (auto simp: escape_char_def split: if_splits)

lemma escape_text_clean: "TAB \<notin> set (escape_text s)" "LF \<notin> set (escape_text s)"
  using escape_char_clean by (force simp: escape_text_def)+

lemma tsv_cell_clean: "TAB \<notin> set (tsv_cell v)" "LF \<notin> set (tsv_cell v)"
  using escape_text_clean by (cases v; simp add: tsv_cell_def tsv_null_def)+

lemma escape_text_not_null: "escape_text s \<noteq> tsv_null"
proof (cases s)
  case (Cons c t)
  then show ?thesis by (auto simp: tsv_null_def escape_char_def)
qed (simp add: tsv_null_def)

lemma parse_tsv_cell: "\<not> (\<exists>b. v = CBytes b) \<Longrightarrow> parse_data_cell (tsv_cell v) = v"
  by (cases v) (auto simp: tsv_cell_def parse_data_cell_def escape_text_not_null)

lemma join_with_no_sep: "(\<And>p. p \<in> set ps \<Longrightarrow> c \<notin> set p) \<Longrightarrow> c \<noteq> d \<Longrightarrow> c \<notin> set (join_with [d] ps)"
  by (induction "[d]" ps rule: join_with.induct) auto

lemma split_on_lines:
  "(\<And>l. l \<in> set ls \<Longrightarrow> LF \<notin> set l) \<Longrightarrow> split_on LF (concat (map (\<lambda>l. l @ [LF]) ls)) = ls @ [[]]"
  by (induction ls) (simp_all add: split_on_append_sep)

lemma split_tsv_lines:
  assumes "\<And>cells c. cells \<in> set css \<Longrightarrow> c \<in> set cells \<Longrightarrow> TAB \<notin> set c \<and> LF \<notin> set c"
  shows "split_lines (concat (map tsv_line css)) = map (join_with [TAB]) css"
proof -
  have "LF \<notin> set (join_with [TAB] cells)" if "cells \<in> set css" for cells
    using assms [OF that] by (intro join_with_no_sep) auto
  then have "split_on LF (concat (map (\<lambda>l. l @ [LF]) (map (join_with [TAB]) css))) = map (join_with [TAB]) css @ [[]]"
    by (intro split_on_lines) auto
  moreover have "map tsv_line css = map (\<lambda>l. l @ [LF]) (map (join_with [TAB]) css)"
    by (simp add: tsv_line_def)
  ultimately have "split_on LF (concat (map tsv_line css)) = map (join_with [TAB]) css @ [[]]"
    by (simp only:)
  then show ?thesis by (simp add: split_lines_def)
qed

lemma parse_header_line_escaped:
  "cs \<noteq> [] \<Longrightarrow> parse_header_line (join_with [TAB] (map escape_text cs)) = cs"
  by (subst parse_header_line_def, subst split_join_with) (auto simp: escape_text_clean comp_def)

lemma split_tsv_row:
  "r \<noteq> [] \<Longrightarrow> split_on TAB (join_with [TAB] (map tsv_cell r)) = map tsv_cell r"
  by (rule split_join_with) (auto simp: tsv_cell_clean)

section \<open>Lemmas: the statement heuristic\<close>

lemma skip_line_comment:
  assumes "LF \<notin> set c"
  shows "skip_whitespace_and_comments (''--'' @ c @ LF # s) = skip_whitespace_and_comments s"
proof -
  have "trim_start (''--'' @ c @ LF # s) = ''--'' @ c @ LF # s"
    by (subst trim_start.simps) (simp add: ws_len_def is_ws_scalar_def char_code_def split: list.split)
  moreover have "strip_prefix ''--'' (''--'' @ c @ LF # s) = Some (c @ LF # s)"
    by (rule strip_prefix_append)
  ultimately show ?thesis
    by (subst skip_whitespace_and_comments.simps) (simp add: find_char_append_sep [OF assms])
qed

lemma skip_block_comment:
  assumes "\<And>i. i < length c \<Longrightarrow> \<not> prefix ''*/'' (drop i (c @ ''*/'' @ s))"
  shows "skip_whitespace_and_comments (''/*'' @ c @ ''*/'' @ s) = skip_whitespace_and_comments s"
proof -
  have "trim_start (''/*'' @ c @ ''*/'' @ s) = ''/*'' @ c @ ''*/'' @ s"
    by (subst trim_start.simps) (simp add: ws_len_def is_ws_scalar_def char_code_def split: list.split)
  moreover have "strip_prefix ''/*'' (''/*'' @ c @ ''*/'' @ s) = Some (c @ ''*/'' @ s)"
    by (rule strip_prefix_append)
  moreover have "strip_prefix ''--'' (''/*'' @ c @ ''*/'' @ s) = None"
    by (simp add: strip_prefix_def)
  moreover have "find_str ''*/'' (c @ ''*/'' @ s) = Some (length c)"
    by (rule find_str_first) (use assms in auto)
  ultimately show ?thesis
    by (subst skip_whitespace_and_comments.simps) simp
qed

lemma skip_space: "skip_whitespace_and_comments (CHR '' '' # s) = skip_whitespace_and_comments s"
proof -
  have "trim_start (CHR '' '' # s) = trim_start s"
    by (subst trim_start.simps) (simp add: ws_len_def is_ws_scalar_def char_code_def)
  then show ?thesis
    by (subst (1 2) skip_whitespace_and_comments.simps) simp
qed

lemma trim_start_done: "ws_len (trim_start s) = 0"
  by (induction s rule: trim_start.induct) (subst trim_start.simps, simp)

lemma skip_stops: "let r = skip_whitespace_and_comments s
   in ws_len r = 0 \<and> strip_prefix ''--'' r = None \<and> strip_prefix ''/*'' r = None"
proof (induction s rule: skip_whitespace_and_comments.induct)
  case (1 s)
  show ?case
  proof (cases "strip_prefix ''--'' (trim_start s)")
    case (Some a)
    then show ?thesis using 1(2) [OF refl Some]
      by (subst skip_whitespace_and_comments.simps) simp
  next
    case n: None
    show ?thesis
    proof (cases "strip_prefix ''/*'' (trim_start s)")
      case (Some a)
      then show ?thesis using 1(1) [OF refl n Some] n
        by (subst skip_whitespace_and_comments.simps) simp
    next
      case None
      then show ?thesis using n trim_start_done
        by (subst skip_whitespace_and_comments.simps) simp
    qed
  qed
qed


section \<open>Lemmas: enum labels\<close>

definition enum_entry :: "string \<times> int \<Rightarrow> string" where
  "enum_entry e = [SQUOTE] @ fst e @ [SQUOTE] @ '' = '' @ show_int (snd e)"

lemma enum_labels_skip: "SQUOTE \<notin> set s \<Longrightarrow> enum_labels_loop (s @ r) = enum_labels_loop r"
  by (induction s) auto

lemma enum_labels_label:
  assumes "SQUOTE \<notin> set l"
  shows "enum_labels_loop (SQUOTE # l @ SQUOTE # r) = l # enum_labels_loop r"
proof -
  have "takeWhile ((\<noteq>) SQUOTE) (l @ SQUOTE # r) = l" "dropWhile ((\<noteq>) SQUOTE) (l @ SQUOTE # r) = SQUOTE # r"
    using assms by (induction l) auto
  then show ?thesis by simp
qed

lemma show_int_no_quote: "SQUOTE \<notin> set (show_int i)"
  using show_nat_digits [of SQUOTE] by (auto simp: show_int_def is_ascii_digit_def char_code_def)

lemma enum_labels_entries:
  assumes "\<And>e. e \<in> set es \<Longrightarrow> SQUOTE \<notin> set (fst e)"
  shows "enum_labels_loop (join_with '', '' (map enum_entry es)) = map fst es"
  using assms
proof (induction es rule: induct_list012)
  case (2 e)
  then show ?case
    using enum_labels_label [of "fst e" "'' = '' @ show_int (snd e)"]
      enum_labels_skip [of "'' = '' @ show_int (snd e)" "[]"] show_int_no_quote
    by (simp add: enum_entry_def)
next
  case (3 e e' es)
  let ?rest = "join_with '', '' (map enum_entry (e' # es))"
  have "enum_labels_loop (join_with '', '' (map enum_entry (e # e' # es)))
      = enum_labels_loop (SQUOTE # fst e @ SQUOTE # ('' = '' @ show_int (snd e) @ '', '') @ ?rest)"
    by (simp add: enum_entry_def)
  also have "\<dots> = fst e # enum_labels_loop (('' = '' @ show_int (snd e) @ '', '') @ ?rest)"
    using 3(3) by (intro enum_labels_label) simp
  also have "enum_labels_loop (('' = '' @ show_int (snd e) @ '', '') @ ?rest) = enum_labels_loop ?rest"
    using show_int_no_quote by (intro enum_labels_skip) auto
  finally show ?case using 3 by simp
qed simp

section \<open>Properties\<close>

text \<open>C14. Parameters are bound where the SQL text says, and nowhere else. Rewriting puts the n-th typed
  parameter for the n-th question mark that a four-state lexer finds outside single quotes and
  backticks, keeps every other character in its place, and reports how many there are.\<close>

theorem rewrite_exact:
  "rewrite_question_marks sql =
     (concat (map (\<lambda>i. if placeholder_at Outside sql i
                      then placeholder_expr (placeholders_before Outside sql i + 1) else [sql ! i]) [0..<length sql]),
      placeholders_before Outside sql (length sql))"
  using rewrite_loop_expand [of False False "[]" 0 sql]
  by (simp add: rewrite_question_marks_def expand_def expansion_def [abs_def] mode_of_def cong: if_cong)

text \<open>C29. What the server writes is what the driver reads. A body in the tab separated format, whatever
  tabs, line ends, quotes and backslashes its texts contain, is parsed back to its columns, types and
  rows, and a missing value stays apart from the two-character text that denotes it.\<close>

theorem tsv_roundtrip:
  assumes "columns \<noteq> []" "length types = length columns"
    and "\<And>r. r \<in> set rows \<Longrightarrow> r \<noteq> []" "\<And>r b. r \<in> set rows \<Longrightarrow> CBytes b \<notin> set r"
  shows "parse_full (tsv_body columns types rows) = Inr (columns, types, rows)"
proof -
  let ?css = "map escape_text columns # map escape_text types # map (map tsv_cell) rows"
  have ls: "split_lines (tsv_body columns types rows) = map (join_with [TAB]) ?css"
    unfolding tsv_body_def using escape_text_clean tsv_cell_clean
    by (intro split_tsv_lines) auto
  have ne: "tsv_body columns types rows \<noteq> []"
    by (simp add: tsv_body_def tsv_line_def)
  have "types \<noteq> []" using assms(1,2) by auto
  moreover have "map (\<lambda>l. map parse_data_cell (split_on TAB l)) (map (\<lambda>r. join_with [TAB] (map tsv_cell r)) rows) = rows"
  proof (unfold map_map, rule map_idI)
    fix r assume r: "r \<in> set rows"
    then have "map parse_data_cell (map tsv_cell r) = r"
      using assms(4) [OF r] by (auto intro!: map_idI parse_tsv_cell)
    then show "((\<lambda>l. map parse_data_cell (split_on TAB l)) \<circ> (\<lambda>r. join_with [TAB] (map tsv_cell r))) r = r"
      using split_tsv_row [OF assms(3) [OF r]] by simp
  qed
  ultimately show ?thesis
    using ne ls assms(1,2) by (simp add: parse_full_def parse_header_line_escaped comp_def)
qed

theorem tsv_roundtrip_witness:
  "parse_full (tsv_body [''a'', ''b''] [''String'', ''String''] [[CNull, CText [BSLASH, CHR ''N'']], [CText [TAB], CText []]])
     = Inr ([''a'', ''b''], [''String'', ''String''], [[CNull, CText [BSLASH, CHR ''N'']], [CText [TAB], CText []]])"
  by (rule tsv_roundtrip) auto

text \<open>Leading blanks and comments do not change how a statement is run, and the classified text never
  starts with one.\<close>

theorem comments_do_not_matter:
  "is_row_returning_statement L (CHR '' '' # sql) = is_row_returning_statement L sql
   \<and> (LF \<notin> set c \<longrightarrow> is_row_returning_statement L (''--'' @ c @ LF # sql) = is_row_returning_statement L sql)
   \<and> ((\<forall>i<length d. \<not> prefix ''*/'' (drop i (d @ ''*/'' @ sql))) \<longrightarrow>
        is_row_returning_statement L (''/*'' @ d @ ''*/'' @ sql) = is_row_returning_statement L sql)
   \<and> ws_len (skip_whitespace_and_comments sql) = 0
   \<and> strip_prefix ''--'' (skip_whitespace_and_comments sql) = None
   \<and> strip_prefix ''/*'' (skip_whitespace_and_comments sql) = None"
  using skip_space [of sql] skip_line_comment [of c sql] skip_block_comment [of d sql] skip_stops [of sql]
  by (simp add: is_row_returning_statement_def Let_def)

text \<open>A database name can hold anything: the token spliced into SQL text is read back as that name
  and the text after it is untouched, so a name cannot end its own quotes.\<close>

theorem ch_ident_stays_one_token:
  assumes "rest = [] \<or> hd rest \<noteq> BACKTICK"
  shows "read_quoted BACKTICK (tl (ch_quote_ident name @ rest)) = Some (name, rest)"
  by (rule ch_ident.quote_read [OF assms])

text \<open>The labels of an enum type are read off its name.\<close>

theorem enum_labels_exact:
  assumes "es \<noteq> []" "\<And>e. e \<in> set es \<Longrightarrow> SQUOTE \<notin> set (fst e)"
  shows "parse_enum_labels (''Enum8('' @ join_with '', '' (map enum_entry es) @ '')'') = Some (map fst es)
    \<and> parse_enum_labels (''Nullable(Enum8('' @ join_with '', '' (map enum_entry es) @ ''))'') = Some (map fst es)"
proof -
  let ?body = "join_with '', '' (map enum_entry es)"
  let ?inner = "''Enum8('' @ ?body @ '')''"
  have u: "unwrap_nullable ?inner = ?inner"
    by (simp add: unwrap_nullable_def strip_prefix_def)
  have "''Nullable('' @ ?inner @ '')'' = ''Nullable('' @ (?inner @ '')'')" by simp
  then have n: "unwrap_nullable (''Nullable('' @ ?inner @ '')'') = ?inner"
    unfolding unwrap_nullable_def strip_prefix_append
    using strip_suffix_Some [of "'')''" "?inner @ '')''" ?inner] by simp
  have "parse_enum_labels t = Some (map fst es)" if "unwrap_nullable t = ?inner" for t
    using that assms enum_labels_entries [of es] strip_suffix_Some [of "'')''" "?body @ '')''" ?body]
    strip_prefix_append [of "''Enum8(''" "?body @ '')''"]
    by (simp add: parse_enum_labels_def)
  with u n show ?thesis by simp
qed

end
