(* ===== verification/ClickhouseDriver.thy ===== *)
theory ClickhouseDriver
  imports Main Prelude Lib Core Quoting Effects Clickhouse
begin

text \<open>
  The effects of \<open>driver-clickhouse/src\<close>: requests (\<open>request.rs\<close>), building the HTTP client
  (\<open>tls.rs\<close>), the driver object (\<open>driver.rs\<close>), queries (\<open>query.rs\<close>), introspection (\<open>schema.rs\<close>) and
  streaming (\<open>stream.rs\<close>). The HTTP client and the server are a record of functions on the server's
  state; every request the driver sends is an argument of \<open>he_send\<close>.
\<close>

section \<open>The HTTP client\<close>

record http_request =
  rq_url :: string
  rq_user :: string
  rq_pass :: "string option"
  rq_params :: "(string \<times> string) list"
  rq_body :: string

text \<open>\<open>he_file\<close> reads a file, \<open>he_cert\<close> is the error of a PEM text that is no certificate, \<open>he_client\<close>
  builds a client that trusts the built-in roots or the given certificate only, \<open>he_query_id\<close> draws an
  identifier, \<open>he_send\<close> sends a request and returns the response or why there was none.\<close>

record ('cl, 's) http_env =
  he_file :: "string \<Rightarrow> string + byte list"
  he_cert :: "byte list \<Rightarrow> string option"
  he_client :: "byte list option \<Rightarrow> string + 'cl"
  he_query_id :: "'s \<Rightarrow> string \<times> 's"
  he_send :: "'cl \<Rightarrow> http_request \<Rightarrow> 's \<Rightarrow> (reqwest_error + http_response) \<times> 's"

definition ca_certificate :: "('cl, 's) http_env \<Rightarrow> ConnectionConfig \<Rightarrow> DriverError + byte list option" where
  "ca_certificate E c =
     (if ssl_mode (cc_ssl c) \<noteq> Some VerifyCa then Inr None
      else res_bind (ok_or (driver_error Connection ''ssl.mode = verify_ca requires ssl.ca_path to be set'') (ca_path (cc_ssl c)))
        (\<lambda>p. res_bind (map_err (\<lambda>e. driver_error Connection (''failed to read ssl.ca_path '' @ p @ '': '' @ e)) (he_file E p))
          (\<lambda>pem. case he_cert E pem of
             Some e \<Rightarrow> Inl (driver_error Connection (''ssl.ca_path did not contain a valid PEM certificate: '' @ e))
           | None \<Rightarrow> Inr (Some pem))))"

definition build_http_client :: "('cl, 's) http_env \<Rightarrow> ConnectionConfig \<Rightarrow> DriverError + 'cl" where
  "build_http_client E c = res_bind (ca_certificate E c)
     (\<lambda>cert. map_err (\<lambda>e. driver_error Connection (''failed to build the ClickHouse HTTP client: '' @ e)) (he_client E cert))"

section \<open>The driver object\<close>

record 'cl ConnectedClient =
  cn_client :: 'cl
  cn_base_url :: string

record 'cl CancelContext =
  cx_client :: 'cl
  cx_base_url :: string
  cx_username :: string
  cx_password :: "string option"

record 'cl ChDriver =
  cd_config :: ConnectionConfig
  cd_client :: "'cl ConnectedClient option"
  cd_current_database :: string
  cd_server_version :: "string option"
  cd_active_query_id :: "string option"
  cd_query_timeout :: "nat option"
  cd_cancel_context :: "'cl CancelContext option"

definition ch_new :: "ConnectionConfig \<Rightarrow> 'cl ChDriver" where
  "ch_new c = \<lparr> cd_config = c, cd_client = None, cd_current_database = ''default'', cd_server_version = None,
     cd_active_query_id = None, cd_query_timeout = None, cd_cancel_context = None \<rparr>"

definition ch_not_connected :: DriverError where
  "ch_not_connected = driver_error Connection ''not connected''"

text \<open>An operation works on the driver and the server.\<close>

type_synonym ('cl, 's) ch_world = "'cl ChDriver \<times> 's"

definition on_drv :: "('cl ChDriver \<Rightarrow> 'cl ChDriver) \<Rightarrow> ('cl, 's) ch_world \<Rightarrow> ('cl, 's) ch_world" where
  "on_drv g w = (g (fst w), snd w)"

definition clear_active_query_id :: "string \<Rightarrow> 'cl ChDriver \<Rightarrow> 'cl ChDriver" where
  "clear_active_query_id qid d = (if cd_active_query_id d = Some qid then d \<lparr> cd_active_query_id := None \<rparr> else d)"

definition http_send :: "('cl, 's) http_env \<Rightarrow> 'cl \<Rightarrow> http_request \<Rightarrow> 's \<Rightarrow> http_response dres \<times> 's" where
  "http_send E cl rq s = (case he_send E cl rq s of
     (Inl e, s1) \<Rightarrow> (Inl (map_reqwest_error e), s1)
   | (Inr resp, s1) \<Rightarrow>
       (if is_success (hr_status resp) then Inr resp
        else Inl (map_http_error (hr_status resp) (case response_text resp of Inl _ \<Rightarrow> [] | Inr t \<Rightarrow> t)), s1))"

definition request_params :: "'cl ChDriver \<Rightarrow> string \<Rightarrow> (string \<times> string) list \<Rightarrow> (string \<times> string) list" where
  "request_params d qid extra =
     [(''database'', cd_current_database d), (''query_id'', qid)]
     @ (case cd_query_timeout d of None \<Rightarrow> [] | Some n \<Rightarrow> [(''max_execution_time'', show_nat n)])
     @ (if cc_read_only (cd_config d) then [(''readonly'', ''1'')] else [])
     @ extra"

definition driver_request ::
  "'cl ChDriver \<Rightarrow> 'cl ConnectedClient \<Rightarrow> string \<Rightarrow> string \<Rightarrow> (string \<times> string) list \<Rightarrow> http_request" where
  "driver_request d cn qid body extra = \<lparr> rq_url = cn_base_url cn @ ''/'', rq_user = resolve_username (cd_config d),
     rq_pass = cc_password (cd_config d), rq_params = request_params d qid extra, rq_body = body \<rparr>"

text \<open>A sent request is in flight until its guard is dropped; the guard is the query's identifier.\<close>

definition send_request ::
  "('cl, 's) http_env \<Rightarrow> 'cl ConnectedClient \<Rightarrow> string \<Rightarrow> (string \<times> string) list
   \<Rightarrow> (('cl, 's) ch_world, http_response \<times> string) op" where
  "send_request E cn body extra w =
     (let (qid, s1) = he_query_id E (snd w);
          d1 = (fst w) \<lparr> cd_active_query_id := Some qid \<rparr>
      in case http_send E (cn_client cn) (driver_request d1 cn qid body extra) s1 of
           (Inl e, s2) \<Rightarrow> (Inl e, (clear_active_query_id qid d1, s2))
         | (Inr resp, s2) \<Rightarrow> (Inr (resp, qid), (d1, s2)))"

text \<open>What is done with the response, under the guard.\<close>

definition with_request ::
  "('cl, 's) http_env \<Rightarrow> 'cl ConnectedClient \<Rightarrow> string \<Rightarrow> (string \<times> string) list \<Rightarrow> (http_response \<Rightarrow> 'a dres)
   \<Rightarrow> (('cl, 's) ch_world, 'a) op" where
  "with_request E cn body extra f = op_bind (send_request E cn body extra)
     (\<lambda>(resp, qid). op_finally (op_lift (f resp)) (on_drv (clear_active_query_id qid)))"

text \<open>Every method first takes the connected client.\<close>

definition with_client :: "('cl ConnectedClient \<Rightarrow> (('cl, 's) ch_world, 'a) op) \<Rightarrow> (('cl, 's) ch_world, 'a) op" where
  "with_client f = op_with (\<lambda>w. op_bind (op_lift (ok_or ch_not_connected (cd_client (fst w)))) f)"

section \<open>Buffered queries\<close>

definition tsv_format_params :: "(string \<times> string) list" where
  "tsv_format_params = [(''default_format'', ''TabSeparatedWithNamesAndTypes''), (''wait_end_of_query'', ''1'')]"

definition parameter_count_mismatch :: "nat \<Rightarrow> nat \<Rightarrow> DriverError" where
  "parameter_count_mismatch expected actual = driver_error Query (''query has '' @ show_nat expected @ '' '' @ [BACKTICK]
     @ ''?'' @ [BACKTICK] @ '' placeholder(s) but '' @ show_nat actual @ '' parameter(s) were supplied'')"

record TsvOutcome =
  to_columns :: "string list"
  to_column_type_names :: "string list"
  to_rows :: "CellValue list list"
  to_written_rows :: "nat option"

definition tsv_outcome :: "lib \<Rightarrow> http_response \<Rightarrow> TsvOutcome dres" where
  "tsv_outcome L resp = res_bind (map_err map_reqwest_error (response_text resp)) (\<lambda>body.
     res_map (\<lambda>(columns, types, rows). \<lparr> to_columns = columns, to_column_type_names = types, to_rows = rows,
        to_written_rows = Option.bind (extract_summary L resp) written_rows \<rparr>) (parse_full body))"

definition run_tsv ::
  "lib \<Rightarrow> ('cl, 's) http_env \<Rightarrow> 'cl ConnectedClient \<Rightarrow> string \<Rightarrow> (('cl, 's) ch_world, TsvOutcome) op" where
  "run_tsv L E cn sql = with_request E cn sql tsv_format_params (tsv_outcome L)"

text \<open>The rewritten statement with the pairs that bind its parameters.\<close>

definition bind_parameters :: "string \<Rightarrow> CellValue list \<Rightarrow> (string \<times> (string \<times> string) list) dres" where
  "bind_parameters sql ps =
     (let (rewritten, n) = rewrite_question_marks sql
      in if n \<noteq> length ps then Inl (parameter_count_mismatch n (length ps))
         else res_map (Pair rewritten) (build_param_query_pairs ps))"

definition run_tsv_parameterized ::
  "lib \<Rightarrow> ('cl, 's) http_env \<Rightarrow> 'cl ConnectedClient \<Rightarrow> string \<Rightarrow> CellValue list \<Rightarrow> (('cl, 's) ch_world, TsvOutcome) op" where
  "run_tsv_parameterized L E cn sql ps = op_bind (op_lift (bind_parameters sql ps))
     (\<lambda>(rewritten, pairs). with_request E cn rewritten (tsv_format_params @ pairs) (tsv_outcome L))"

definition rows_affected_from :: "TsvOutcome \<Rightarrow> u64" where
  "rows_affected_from o1 = word_of_nat
     (if to_columns o1 = [] \<and> to_rows o1 = [] then (case to_written_rows o1 of None \<Rightarrow> 0 | Some n \<Rightarrow> n)
      else length (to_rows o1))"

definition outcome_result :: "nat \<times> nat \<Rightarrow> bool \<Rightarrow> TsvOutcome \<Rightarrow> QueryResult" where
  "outcome_result elapsed truncated o1 = \<lparr> qr_columns = to_columns o1, qr_column_type_names = to_column_type_names o1,
     qr_rows = to_rows o1, qr_rows_affected = rows_affected_from o1, qr_execution_time = elapsed,
     qr_is_truncated = truncated, qr_status_message = None, qr_column_meta = None \<rparr>"

definition ch_execute ::
  "lib \<Rightarrow> ('cl, 's) http_env \<Rightarrow> nat \<times> nat \<Rightarrow> string \<Rightarrow> (('cl, 's) ch_world, QueryResult) op" where
  "ch_execute L E elapsed sql = with_client (\<lambda>cn. op_map (outcome_result elapsed False) (run_tsv L E cn sql))"

definition ch_execute_parameterized ::
  "lib \<Rightarrow> ('cl, 's) http_env \<Rightarrow> nat \<times> nat \<Rightarrow> string \<Rightarrow> CellValue list \<Rightarrow> (('cl, 's) ch_world, QueryResult) op" where
  "ch_execute_parameterized L E elapsed sql ps =
     with_client (\<lambda>cn. op_map (outcome_result elapsed False) (run_tsv_parameterized L E cn sql ps))"

section \<open>Capped user queries\<close>

definition ch_cap :: "nat option \<Rightarrow> nat" where
  "ch_cap row_cap = min (case row_cap of None \<Rightarrow> EMERGENCY_MAX | Some n \<Rightarrow> n) EMERGENCY_MAX"

definition capped_outcome :: "nat \<Rightarrow> TsvOutcome \<Rightarrow> TsvOutcome" where
  "capped_outcome cap o1 = (if length (to_rows o1) > cap then o1 \<lparr> to_rows := take cap (to_rows o1) \<rparr> else o1)"

definition capped_buffered ::
  "lib \<Rightarrow> ('cl, 's) http_env \<Rightarrow> nat \<times> nat \<Rightarrow> 'cl ConnectedClient \<Rightarrow> string \<Rightarrow> nat option \<Rightarrow> CellValue list option
   \<Rightarrow> (('cl, 's) ch_world, QueryResult) op" where
  "capped_buffered L E elapsed cn sql row_cap ps =
     op_map (\<lambda>o1. outcome_result elapsed (length (to_rows o1) > ch_cap row_cap) (capped_outcome (ch_cap row_cap) o1))
       (case ps of Some vs \<Rightarrow> run_tsv_parameterized L E cn sql vs | None \<Rightarrow> run_tsv L E cn sql)"

definition probe_sql :: "string \<Rightarrow> string" where
  "probe_sql sql = ''SELECT * FROM ('' @ sql @ '') LIMIT 0 FORMAT TabSeparatedWithNamesAndTypes''"

definition fetch_probe_header ::
  "('cl, 's) http_env \<Rightarrow> 'cl ConnectedClient \<Rightarrow> string \<Rightarrow> (string \<times> string) list \<Rightarrow> (('cl, 's) ch_world, StreamHeader) op" where
  "fetch_probe_header E cn sql extra = with_request E cn (probe_sql sql) extra (\<lambda>resp.
     res_bind (map_err map_reqwest_error (response_text resp)) (\<lambda>body.
       res_map (\<lambda>(columns, types). \<lparr> sh_columns = columns, sh_column_type_names = types \<rparr>) (parse_header body)))"

text \<open>The inner loop: the complete lines of the buffer. It returns the rows, the rest of the buffer and
  whether the cap was reached.\<close>

function drain_lines ::
  "lib \<Rightarrow> string list \<Rightarrow> nat \<Rightarrow> CellValue list list \<Rightarrow> string \<Rightarrow> (CellValue list list \<times> string \<times> bool) dres" where
  "drain_lines L columns cap rows buffer = (case find_char LF buffer of
     None \<Rightarrow> Inr (rows, buffer, False)
   | Some i \<Rightarrow>
       if trim (take i buffer) = [] then drain_lines L columns cap rows (drop (i + 1) buffer)
       else (case parse_row L (take i buffer) columns of
         Inl e \<Rightarrow> Inl e
       | Inr row \<Rightarrow> if length (rows @ [row]) \<ge> cap then Inr (rows @ [row], drop (i + 1) buffer, True)
                   else drain_lines L columns cap (rows @ [row]) (drop (i + 1) buffer)))"
  by pat_completeness auto
termination
  by (relation "measure (\<lambda>(_, _, _, _, b). length b)") (auto dest: find_char_Some)

declare drain_lines.simps [simp del]

text \<open>The outer loop over the chunks of the body; each is decoded on its own.\<close>

fun read_chunks ::
  "lib \<Rightarrow> string list \<Rightarrow> nat \<Rightarrow> CellValue list list \<Rightarrow> string \<Rightarrow> (reqwest_error + byte list) list
   \<Rightarrow> (CellValue list list \<times> string \<times> bool) dres" where
  "read_chunks L columns cap rows buffer [] = Inr (rows, buffer, False)"
| "read_chunks L columns cap rows buffer (Inl e # cs) = Inl (map_reqwest_error e)"
| "read_chunks L columns cap rows buffer (Inr bs # cs) =
     (case drain_lines L columns cap rows (buffer @ from_utf8_lossy bs) of
        Inl e \<Rightarrow> Inl e
      | Inr (rows1, buffer1, full) \<Rightarrow>
          if full then Inr (rows1, buffer1, True) else read_chunks L columns cap rows1 buffer1 cs)"

definition read_json_rows ::
  "lib \<Rightarrow> string list \<Rightarrow> nat \<Rightarrow> (reqwest_error + byte list) list \<Rightarrow> (CellValue list list \<times> bool) dres" where
  "read_json_rows L columns cap chunks = res_bind (read_chunks L columns cap [] [] chunks)
     (\<lambda>(rows, buffer, truncated).
        if \<not> truncated \<and> trim buffer \<noteq> [] then res_map (\<lambda>row. (rows @ [row], truncated)) (parse_row L buffer columns)
        else Inr (rows, truncated))"

definition stream_result :: "nat \<times> nat \<Rightarrow> StreamHeader \<Rightarrow> CellValue list list \<times> bool \<Rightarrow> QueryResult" where
  "stream_result elapsed h p = \<lparr> qr_columns = sh_columns h, qr_column_type_names = sh_column_type_names h,
     qr_rows = fst p, qr_rows_affected = word_of_nat (length (fst p)), qr_execution_time = elapsed,
     qr_is_truncated = snd p, qr_status_message = None, qr_column_meta = None \<rparr>"

definition capped_streaming ::
  "lib \<Rightarrow> ('cl, 's) http_env \<Rightarrow> nat \<times> nat \<Rightarrow> 'cl ConnectedClient \<Rightarrow> string \<Rightarrow> nat option \<Rightarrow> CellValue list option
   \<Rightarrow> (('cl, 's) ch_world, QueryResult) op" where
  "capped_streaming L E elapsed cn sql row_cap ps =
     op_bind (op_lift (case ps of Some vs \<Rightarrow> bind_parameters sql vs | None \<Rightarrow> Inr (sql, []))) (\<lambda>(rewritten, pairs).
     op_bind (fetch_probe_header E cn rewritten pairs) (\<lambda>header.
       with_request E cn rewritten ((''default_format'', ''JSONEachRow'') # pairs) (\<lambda>resp.
         res_map (stream_result elapsed header) (read_json_rows L (sh_columns header) (ch_cap row_cap) (hr_body resp)))))"

definition execute_user_query_capped ::
  "lib \<Rightarrow> ('cl, 's) http_env \<Rightarrow> nat \<times> nat \<Rightarrow> 'cl ConnectedClient \<Rightarrow> string \<Rightarrow> nat option \<Rightarrow> CellValue list option
   \<Rightarrow> (('cl, 's) ch_world, QueryResult) op" where
  "execute_user_query_capped L E elapsed cn sql row_cap ps =
     (if is_row_returning_statement L sql then capped_streaming L E elapsed cn sql row_cap ps
      else capped_buffered L E elapsed cn sql row_cap ps)"

definition ch_execute_user_query ::
  "lib \<Rightarrow> ('cl, 's) http_env \<Rightarrow> nat \<times> nat \<Rightarrow> string \<Rightarrow> nat option \<Rightarrow> CellValue list option \<Rightarrow> (('cl, 's) ch_world, QueryResult) op" where
  "ch_execute_user_query L E elapsed sql row_cap ps =
     with_client (\<lambda>cn. execute_user_query_capped L E elapsed cn sql row_cap ps)"


section \<open>Introspection\<close>

text \<open>A query with bound names whose rows are read one by one; the first row that cannot be read ends it.\<close>

definition rows_via ::
  "lib \<Rightarrow> ('cl, 's) http_env \<Rightarrow> 'cl ConnectedClient \<Rightarrow> string \<Rightarrow> string list \<Rightarrow> (CellValue list \<Rightarrow> 'a dres)
   \<Rightarrow> (('cl, 's) ch_world, 'a list) op" where
  "rows_via L E cn sql names f = op_bind (run_tsv_parameterized L E cn sql (map CText names))
     (\<lambda>o1. op_lift (res_collect (map f (to_rows o1))))"

definition ch_fetch_databases :: "lib \<Rightarrow> ('cl, 's) http_env \<Rightarrow> (('cl, 's) ch_world, string list) op" where
  "ch_fetch_databases L E = with_client (\<lambda>cn.
     op_bind (run_tsv L E cn ''SELECT name FROM system.databases ORDER BY name'')
       (\<lambda>o1. op_lift (res_collect (map (\<lambda>row. cell_text row 0 ''name'') (to_rows o1)))))"

definition ch_table_info :: "string \<Rightarrow> CellValue list \<Rightarrow> TableInfo dres" where
  "ch_table_info database row =
     res_bind (cell_text row 0 ''name'') (\<lambda>name.
     res_bind (cell_text row 1 ''engine'') (\<lambda>engine.
     res_bind (cell_opt_text row 2 ''comment'') (\<lambda>comment.
     res_bind (cell_opt_i64 row 3 ''total_rows'') (\<lambda>estimate.
       Inr \<lparr> ti_name = name, ti_schema = Some database, ti_kind = table_kind_from_engine engine,
             ti_comment = comment, ti_row_count_estimate = estimate \<rparr>))))"

definition ch_tables_in ::
  "lib \<Rightarrow> ('cl, 's) http_env \<Rightarrow> 'cl ConnectedClient \<Rightarrow> string \<Rightarrow> (('cl, 's) ch_world, TableInfo list) op" where
  "ch_tables_in L E cn database = rows_via L E cn
     ''SELECT name, engine, comment, total_rows FROM system.tables WHERE database = ? ORDER BY name''
     [database] (ch_table_info database)"

definition ch_column_info :: "CellValue list \<Rightarrow> ColumnInfo dres" where
  "ch_column_info row =
     res_bind (cell_text row 0 ''name'') (\<lambda>name.
     res_bind (cell_text row 1 ''type'') (\<lambda>data_type.
     res_bind (cell_text row 2 ''default_kind'') (\<lambda>default_kind.
     res_bind (cell_opt_text row 3 ''default_expression'') (\<lambda>default_expression.
     res_bind (cell_opt_text row 4 ''comment'') (\<lambda>comment.
     res_bind (cell_bool row 5 ''is_in_primary_key'') (\<lambda>primary.
       Inr \<lparr> ci_name = name, ci_data_type = data_type, ci_is_nullable = prefix ''Nullable('' data_type,
             ci_is_primary_key = primary, ci_default_value = default_expression, ci_extra = None,
             ci_charset = None, ci_collation = None, ci_comment = comment, ci_identity_kind = None,
             ci_is_generated = (default_kind = ''MATERIALIZED'' \<or> default_kind = ''ALIAS''),
             ci_allowed_values = parse_enum_labels data_type \<rparr>))))))"

definition ch_columns_of ::
  "lib \<Rightarrow> ('cl, 's) http_env \<Rightarrow> 'cl ConnectedClient \<Rightarrow> string \<Rightarrow> string \<Rightarrow> (('cl, 's) ch_world, ColumnInfo list) op" where
  "ch_columns_of L E cn table database = rows_via L E cn
     ''SELECT name, type, default_kind, default_expression, comment, is_in_primary_key FROM system.columns WHERE database = ? AND table = ? ORDER BY position''
     [database, table] ch_column_info"

definition primary_key_index :: "CellValue list list \<Rightarrow> IndexInfo list dres" where
  "primary_key_index rows = (case rows of
     [] \<Rightarrow> Inr []
   | row # _ \<Rightarrow> res_map (\<lambda>key. if trim key = [] then []
        else [\<lparr> ii_name = ''primary_key'', ii_columns = split_top_level_commas key, ii_is_unique = False,
               ii_is_primary = True, ii_method = Some ''ORDER BY'' \<rparr>]) (cell_text row 0 ''primary_key''))"

definition skip_index :: "CellValue list \<Rightarrow> IndexInfo dres" where
  "skip_index row =
     res_bind (cell_text row 0 ''name'') (\<lambda>name.
     res_bind (cell_text row 1 ''type'') (\<lambda>index_type.
     res_bind (cell_text row 2 ''expr'') (\<lambda>expr.
       Inr \<lparr> ii_name = name, ii_columns = [expr], ii_is_unique = False, ii_is_primary = False,
             ii_method = Some index_type \<rparr>)))"

definition ch_indexes_of ::
  "lib \<Rightarrow> ('cl, 's) http_env \<Rightarrow> 'cl ConnectedClient \<Rightarrow> string \<Rightarrow> string \<Rightarrow> (('cl, 's) ch_world, IndexInfo list) op" where
  "ch_indexes_of L E cn table database =
     op_bind (op_bind (run_tsv_parameterized L E cn
         ''SELECT primary_key FROM system.tables WHERE database = ? AND name = ?'' [CText database, CText table])
         (\<lambda>o1. op_lift (primary_key_index (to_rows o1)))) (\<lambda>primary.
     op_map (\<lambda>skips. primary @ skips) (rows_via L E cn
       ''SELECT name, type, expr FROM system.data_skipping_indices WHERE database = ? AND table = ? ORDER BY name''
       [database, table] skip_index))"

definition not_found :: "string \<Rightarrow> string \<Rightarrow> string \<Rightarrow> DriverError" where
  "not_found what database name = driver_error Query (what @ '' '' @ [DQUOTE] @ database @ [DQUOTE] @ ''.'' @ [DQUOTE]
     @ name @ [DQUOTE] @ '' was not found'')"

definition ch_create_query_of ::
  "lib \<Rightarrow> ('cl, 's) http_env \<Rightarrow> 'cl ConnectedClient \<Rightarrow> string \<Rightarrow> string \<Rightarrow> (('cl, 's) ch_world, string) op" where
  "ch_create_query_of L E cn name database = op_bind (run_tsv_parameterized L E cn
      ''SELECT create_table_query FROM system.tables WHERE database = ? AND name = ?'' [CText database, CText name])
     (\<lambda>o1. op_lift (case to_rows o1 of
        [] \<Rightarrow> Inl (not_found ''table or view'' database name)
      | row # _ \<Rightarrow> cell_text row 0 ''create_table_query''))"

definition ch_table_metadata_of ::
  "lib \<Rightarrow> ('cl, 's) http_env \<Rightarrow> 'cl ConnectedClient \<Rightarrow> string \<Rightarrow> string \<Rightarrow> (('cl, 's) ch_world, TableMetadata) op" where
  "ch_table_metadata_of L E cn table database =
     op_bind (op_bind (run_tsv_parameterized L E cn
         ''SELECT name, engine, comment, total_rows FROM system.tables WHERE database = ? AND name = ?'' [CText database, CText table])
         (\<lambda>o1. op_lift (case to_rows o1 of
            [] \<Rightarrow> Inl (not_found ''table'' database table)
          | row # _ \<Rightarrow> ch_table_info database row))) (\<lambda>info.
     op_bind (ch_columns_of L E cn table database) (\<lambda>columns.
     op_map (\<lambda>indexes. \<lparr> tm_info = info, tm_columns = columns, tm_indexes = indexes, tm_foreign_keys = [],
        tm_triggers = [] \<rparr>) (ch_indexes_of L E cn table database)))"

text \<open>A method with an optional schema works in the current database without one.\<close>

definition in_database ::
  "string option \<Rightarrow> ('cl ConnectedClient \<Rightarrow> string \<Rightarrow> (('cl, 's) ch_world, 'a) op) \<Rightarrow> (('cl, 's) ch_world, 'a) op" where
  "in_database schema f = with_client (\<lambda>cn. op_with (\<lambda>w.
     f cn (case schema of Some n \<Rightarrow> n | None \<Rightarrow> cd_current_database (fst w))))"

definition ch_fetch_tables :: "lib \<Rightarrow> ('cl, 's) http_env \<Rightarrow> string option \<Rightarrow> (('cl, 's) ch_world, TableInfo list) op" where
  "ch_fetch_tables L E schema = in_database schema (ch_tables_in L E)"

definition ch_fetch_columns ::
  "lib \<Rightarrow> ('cl, 's) http_env \<Rightarrow> string \<Rightarrow> string option \<Rightarrow> (('cl, 's) ch_world, ColumnInfo list) op" where
  "ch_fetch_columns L E table schema = in_database schema (\<lambda>cn. ch_columns_of L E cn table)"

definition ch_fetch_indexes ::
  "lib \<Rightarrow> ('cl, 's) http_env \<Rightarrow> string \<Rightarrow> string option \<Rightarrow> (('cl, 's) ch_world, IndexInfo list) op" where
  "ch_fetch_indexes L E table schema = in_database schema (\<lambda>cn. ch_indexes_of L E cn table)"

definition ch_fetch_foreign_keys :: "(('cl, 's) ch_world, ForeignKeyInfo list) op" where
  "ch_fetch_foreign_keys = op_lift (Inr [])"

definition ch_fetch_table_ddl ::
  "lib \<Rightarrow> ('cl, 's) http_env \<Rightarrow> string \<Rightarrow> string option \<Rightarrow> (('cl, 's) ch_world, string) op" where
  "ch_fetch_table_ddl L E table schema = in_database schema (\<lambda>cn. ch_create_query_of L E cn table)"

definition ch_fetch_view_definition ::
  "lib \<Rightarrow> ('cl, 's) http_env \<Rightarrow> string \<Rightarrow> string option \<Rightarrow> (('cl, 's) ch_world, string) op" where
  "ch_fetch_view_definition L E view schema = in_database schema (\<lambda>cn. ch_create_query_of L E cn view)"

definition ch_fetch_table_metadata ::
  "lib \<Rightarrow> ('cl, 's) http_env \<Rightarrow> string \<Rightarrow> string option \<Rightarrow> (('cl, 's) ch_world, TableMetadata) op" where
  "ch_fetch_table_metadata L E table schema = in_database schema (\<lambda>cn. ch_table_metadata_of L E cn table)"

text \<open>The size is left out when it cannot be had.\<close>

definition size_of_outcome :: "TsvOutcome dres \<Rightarrow> nat option" where
  "size_of_outcome r = (case r of
     Inl _ \<Rightarrow> None
   | Inr o1 \<Rightarrow> (case to_rows o1 of [] \<Rightarrow> None
      | row # _ \<Rightarrow> (case cell_opt_u64 row 0 ''bytes_on_disk'' of Inl _ \<Rightarrow> None | Inr n \<Rightarrow> n)))"

definition ch_fetch_database_metadata ::
  "lib \<Rightarrow> ('cl, 's) http_env \<Rightarrow> string \<Rightarrow> (('cl, 's) ch_world, DatabaseMetadata) op" where
  "ch_fetch_database_metadata L E database = with_client (\<lambda>cn w.
     let (r, w1) = run_tsv_parameterized L E cn
           ''SELECT sum(bytes_on_disk) FROM system.parts WHERE database = ? AND active'' [CText database] w
     in (Inr \<lparr> dm_name = database, dm_schemas = [], dm_size_bytes = size_of_outcome r \<rparr>, w1))"

definition validate_database_exists ::
  "lib \<Rightarrow> ('cl, 's) http_env \<Rightarrow> 'cl ConnectedClient \<Rightarrow> string \<Rightarrow> (('cl, 's) ch_world, unit) op" where
  "validate_database_exists L E cn database = op_bind (run_tsv_parameterized L E cn
      ''SELECT 1 FROM system.databases WHERE name = ?'' [CText database])
     (\<lambda>o1. op_lift (if to_rows o1 = [] then Inl (driver_error Query (''database '' @ [DQUOTE] @ database @ [DQUOTE] @ '' does not exist''))
        else Inr ()))"

definition ch_create_database ::
  "lib \<Rightarrow> ('cl, 's) http_env \<Rightarrow> CreateDatabaseRequest \<Rightarrow> (('cl, 's) ch_world, unit) op" where
  "ch_create_database L E req = with_client (\<lambda>cn.
     op_map (\<lambda>_. ()) (run_tsv L E cn (''CREATE DATABASE '' @ ch_quote_ident (cd_name req))))"

definition ch_drop_database :: "lib \<Rightarrow> ('cl, 's) http_env \<Rightarrow> string \<Rightarrow> (('cl, 's) ch_world, unit) op" where
  "ch_drop_database L E name = with_client (\<lambda>cn.
     op_map (\<lambda>_. ()) (run_tsv L E cn (''DROP DATABASE '' @ ch_quote_ident name)))"

definition set_current_database :: "string \<Rightarrow> 'cl ChDriver \<Rightarrow> 'cl ChDriver" where
  "set_current_database database d = d \<lparr> cd_current_database := database \<rparr>"

definition ch_switch_database :: "lib \<Rightarrow> ('cl, 's) http_env \<Rightarrow> string \<Rightarrow> (('cl, 's) ch_world, unit) op" where
  "ch_switch_database L E database = with_client (\<lambda>cn.
     op_bind (validate_database_exists L E cn database)
       (\<lambda>_. op_update (on_drv (set_current_database database))))"

section \<open>Connecting and cancelling\<close>

definition version_of :: "string list \<times> string list \<times> CellValue list list \<Rightarrow> string option" where
  "version_of parsed = (case snd (snd parsed) of (cell # _) # _ \<Rightarrow> as_text cell | _ \<Rightarrow> None)"

definition probe_request :: "ConnectionConfig \<Rightarrow> http_request" where
  "probe_request c = \<lparr> rq_url = resolve_base_url c @ ''/'', rq_user = resolve_username c, rq_pass = cc_password c,
     rq_params = [(''database'', case cc_database c of Some n \<Rightarrow> n | None \<Rightarrow> ''default''),
       (''default_format'', ''TabSeparatedWithNamesAndTypes''), (''wait_end_of_query'', ''1'')],
     rq_body = ''SELECT version()'' \<rparr>"

definition ch_adopt :: "'cl \<Rightarrow> string option \<Rightarrow> 'cl ChDriver \<Rightarrow> 'cl ChDriver" where
  "ch_adopt cl version d = (let c = cd_config d in d \<lparr>
     cd_current_database := (case cc_database c of Some n \<Rightarrow> n | None \<Rightarrow> ''default''),
     cd_server_version := version,
     cd_cancel_context := Some \<lparr> cx_client = cl, cx_base_url = resolve_base_url c, cx_username = resolve_username c,
        cx_password = cc_password c \<rparr>,
     cd_client := Some \<lparr> cn_client = cl, cn_base_url = resolve_base_url c \<rparr> \<rparr>)"

definition ch_connect :: "('cl, 's) http_env \<Rightarrow> (('cl, 's) ch_world, unit) op" where
  "ch_connect E w =
     (let c = cd_config (fst w) in case build_http_client E c of
        Inl e \<Rightarrow> (Inl e, w)
      | Inr cl \<Rightarrow> (case http_send E cl (probe_request c) (snd w) of
          (Inl e, s1) \<Rightarrow> (Inl e, (fst w, s1))
        | (Inr resp, s1) \<Rightarrow>
            (case res_bind (map_err map_reqwest_error (response_text resp)) parse_full of
               Inl e \<Rightarrow> (Inl e, (fst w, s1))
             | Inr parsed \<Rightarrow> (Inr (), (ch_adopt cl (version_of parsed) (fst w), s1)))))"

definition ch_disconnect :: "(('cl, 's) ch_world, unit) op" where
  "ch_disconnect = op_update (on_drv (\<lambda>d. set_current_database ''default'' (d \<lparr> cd_client := None,
     cd_server_version := None, cd_active_query_id := None, cd_cancel_context := None \<rparr>)))"

definition ch_apply_query_timeout :: "nat \<Rightarrow> (('cl, 's) ch_world, unit) op" where
  "ch_apply_query_timeout seconds = op_update (on_drv (\<lambda>d. d \<lparr> cd_query_timeout := Some seconds \<rparr>))"

text \<open>\<open>cancel_query\<close> reads the two slots and starts a task that sends one request; the task's client and
  request are its result, nothing when no query is in flight.\<close>

definition kill_request :: "'cl CancelContext \<Rightarrow> string \<Rightarrow> http_request" where
  "kill_request cx qid = \<lparr> rq_url = cx_base_url cx @ ''/'', rq_user = cx_username cx, rq_pass = cx_password cx,
     rq_params = [], rq_body = ''KILL QUERY WHERE query_id = '' @ ch_quote_literal qid @ '' SYNC'' \<rparr>"

definition ch_cancel_query :: "'cl ChDriver \<Rightarrow> ('cl \<times> http_request) option" where
  "ch_cancel_query d = (case (cd_cancel_context d, cd_active_query_id d) of
     (Some cx, Some qid) \<Rightarrow> Some (cx_client cx, kill_request cx qid) | _ \<Rightarrow> None)"

text \<open>The method with what its task does; the task's error is only logged.\<close>

definition ch_cancel_task :: "('cl, 's) http_env \<Rightarrow> (('cl, 's) ch_world, unit) op" where
  "ch_cancel_task E w = (case ch_cancel_query (fst w) of
     None \<Rightarrow> (Inr (), w)
   | Some (cl, rq) \<Rightarrow> (Inr (), (fst w, snd (http_send E cl rq (snd w)))))"

definition ch_unsupported_transactions :: DriverError where
  "ch_unsupported_transactions = driver_error Query
     ''ClickHouse does not reliably support multi-statement ACID transactions; this driver does not send BEGIN/COMMIT/ROLLBACK''"

section \<open>Streaming\<close>

definition JSON_BATCH_SIZE :: nat where
  "JSON_BATCH_SIZE = 5000"

text \<open>The inner loop with the batch not yielded yet and the number of rows so far. It returns the
  elements yielded and how it went on: an error, or the batch, the total, the rest of the buffer and
  whether the ceiling was reached.\<close>

function stream_lines ::
  "lib \<Rightarrow> string list \<Rightarrow> CellValue list list \<Rightarrow> nat \<Rightarrow> string
   \<Rightarrow> StreamElement list \<times> (CellValue list list \<times> nat \<times> string \<times> bool) dres" where
  "stream_lines L columns batch n buffer = (case find_char LF buffer of
     None \<Rightarrow> ([], Inr (batch, n, buffer, False))
   | Some i \<Rightarrow>
       if trim (take i buffer) = [] then stream_lines L columns batch n (drop (i + 1) buffer)
       else (case parse_row L (take i buffer) columns of
         Inl e \<Rightarrow> ([], Inl e)
       | Inr row \<Rightarrow>
           (let batch1 = batch @ [row];
                out = (if length batch1 \<ge> JSON_BATCH_SIZE then [Rows batch1] else []);
                batch2 = (if length batch1 \<ge> JSON_BATCH_SIZE then [] else batch1)
            in if n + 1 \<ge> EMERGENCY_MAX then (out, Inr (batch2, n + 1, drop (i + 1) buffer, True))
               else let (more, r) = stream_lines L columns batch2 (n + 1) (drop (i + 1) buffer) in (out @ more, r))))"
  by pat_completeness auto
termination
  by (relation "measure (\<lambda>(_, _, _, _, b). length b)") (auto dest: find_char_Some)

declare stream_lines.simps [simp del]

fun stream_chunks ::
  "lib \<Rightarrow> string list \<Rightarrow> CellValue list list \<Rightarrow> nat \<Rightarrow> string \<Rightarrow> (reqwest_error + byte list) list
   \<Rightarrow> StreamElement list \<times> (CellValue list list \<times> nat \<times> string) dres" where
  "stream_chunks L columns batch n buffer [] = ([], Inr (batch, n, buffer))"
| "stream_chunks L columns batch n buffer (Inl e # cs) = ([], Inl (map_reqwest_error e))"
| "stream_chunks L columns batch n buffer (Inr bs # cs) =
     (case stream_lines L columns batch n (buffer @ from_utf8_lossy bs) of
        (out, Inl e) \<Rightarrow> (out, Inl e)
      | (out, Inr (batch1, n1, buffer1, full)) \<Rightarrow>
          if full then (out, Inr (batch1, n1, buffer1))
          else let (more, r) = stream_chunks L columns batch1 n1 buffer1 cs in (out @ more, r))"

definition stream_body :: "lib \<Rightarrow> string list \<Rightarrow> (reqwest_error + byte list) list \<Rightarrow> StreamElement list \<times> unit dres" where
  "stream_body L columns chunks = (case stream_chunks L columns [] 0 [] chunks of
     (out, Inl e) \<Rightarrow> (out, Inl e)
   | (out, Inr (batch, n, buffer)) \<Rightarrow>
       (case (if n < EMERGENCY_MAX \<and> trim buffer \<noteq> [] then res_map (\<lambda>row. batch @ [row]) (parse_row L buffer columns)
              else Inr batch) of
          Inl e \<Rightarrow> (out, Inl e)
        | Inr batch1 \<Rightarrow> (out @ (if batch1 = [] then [] else [Rows batch1]), Inr ())))"

definition ch_stream_rows ::
  "lib \<Rightarrow> ('cl, 's) http_env \<Rightarrow> string \<Rightarrow> ('cl, 's) ch_world \<Rightarrow> (StreamElement list \<times> unit dres) \<times> ('cl, 's) ch_world" where
  "ch_stream_rows L E sql w =
     (case with_client (\<lambda>cn. op_bind (fetch_probe_header E cn sql []) (\<lambda>h. op_lift (Inr (cn, h)))) w of
        (Inl e, w1) \<Rightarrow> (([], Inl e), w1)
      | (Inr (cn, h), w1) \<Rightarrow>
          (case with_request E cn sql [(''default_format'', ''JSONEachRow'')]
                  (\<lambda>resp. Inr (stream_body L (sh_columns h) (hr_body resp))) w1 of
             (Inl e, w2) \<Rightarrow> (([Header h], Inl e), w2)
           | (Inr (out, r), w2) \<Rightarrow> ((Header h # out, r), w2)))"


section \<open>Lemmas: rows from chunks\<close>

lemma find_char_append: "find_char c s = Some i \<Longrightarrow> find_char c (s @ t) = Some i"
  by (induction s arbitrary: i) (auto split: if_splits)

lemma split_on_find: "find_char c s = Some i \<Longrightarrow> split_on c s = take i s # split_on c (drop (i + 1) s)"
proof -
  assume f: "find_char c s = Some i"
  then have "s = take i s @ c # drop (i + 1) s" "c \<notin> set (take i s)"
    using find_char_Some [OF f] by (auto simp: id_take_nth_drop)
  then show ?thesis using split_on_append_sep by metis
qed

text \<open>What is read no longer matters once the cap is reached.\<close>

definition settled :: "(CellValue list list \<times> string \<times> bool) dres \<Rightarrow> (CellValue list list \<times> string \<times> bool) dres" where
  "settled r = res_map (\<lambda>(rows, buffer, full). (rows, if full then [] else buffer, full)) r"

definition nonblank :: "string \<Rightarrow> bool" where
  "nonblank l \<longleftrightarrow> trim l \<noteq> []"

lemma drain_no_line: "find_char LF b = None \<Longrightarrow> drain_lines L cols cap rows b = Inr (rows, b, False)"
  by (subst drain_lines.simps) simp

lemma drain_blank_line: "find_char LF b = Some i \<Longrightarrow> trim (take i b) = [] \<Longrightarrow>
    drain_lines L cols cap rows b = drain_lines L cols cap rows (drop (i + 1) b)"
  by (subst drain_lines.simps) simp

lemma drain_one_line: "find_char LF b = Some i \<Longrightarrow> trim (take i b) \<noteq> [] \<Longrightarrow>
    drain_lines L cols cap rows b = (case parse_row L (take i b) cols of
         Inl e \<Rightarrow> Inl e
       | Inr row \<Rightarrow> if length (rows @ [row]) \<ge> cap then Inr (rows @ [row], drop (i + 1) b, True)
                   else drain_lines L cols cap (rows @ [row]) (drop (i + 1) b))"
  by (subst drain_lines.simps) simp

lemma drain_lines_append:
  "settled (drain_lines L cols cap rows (b @ t)) = settled (case drain_lines L cols cap rows b of
     Inl e \<Rightarrow> Inl e
   | Inr (rows1, b1, full) \<Rightarrow> if full then Inr (rows1, b1, True) else drain_lines L cols cap rows1 (b1 @ t))"
proof (induction L cols cap rows b rule: drain_lines.induct)
  case (1 L cols cap rows b)
  show ?case
  proof (cases "find_char LF b")
    case None
    then show ?thesis by (simp add: drain_no_line)
  next
    case (Some i)
    have bt: "find_char LF (b @ t) = Some i" "take i (b @ t) = take i b" "drop (i + 1) (b @ t) = drop (i + 1) b @ t"
      using find_char_Some [OF Some] find_char_append [OF Some] by simp_all
    show ?thesis
    proof (cases "trim (take i b) = []")
      case True
      then have tb: "trim (take i (b @ t)) = []" by (simp only: bt(2))
      show ?thesis
        using 1(1) [OF Some True] unfolding drain_blank_line [OF Some True] drain_blank_line [OF bt(1) tb] bt(3) .
    next
      case False
      then have tb: "trim (take i (b @ t)) \<noteq> []" by (subst bt(2))
      show ?thesis
      proof (cases "parse_row L (take i b) cols")
        case (Inl e)
        then show ?thesis
          unfolding drain_one_line [OF Some False] drain_one_line [OF bt(1) tb] bt(2,3) by simp
      next
        case (Inr row)
        then show ?thesis
          using 1(2) [OF Some False Inr]
          unfolding drain_one_line [OF Some False] drain_one_line [OF bt(1) tb] bt(2,3) by (simp add: settled_def)
      qed
    qed
  qed
qed

lemma drain_rest_no_newline:
  "drain_lines L cols cap rows b = Inr (rows1, b1, False) \<Longrightarrow> LF \<notin> set b1"
proof (induction L cols cap rows b rule: drain_lines.induct)
  case (1 L cols cap rows b)
  show ?case
  proof (cases "find_char LF b")
    case None
    then show ?thesis using "1.prems" by (auto simp: drain_no_line find_char_None)
  next
    case (Some i)
    show ?thesis
    proof (cases "trim (take i b) = []")
      case True
      then show ?thesis using "1.IH"(1) [OF Some True] "1.prems" drain_blank_line [OF Some True] by simp
    next
      case False
      then obtain row where r: "parse_row L (take i b) cols = Inr row" "\<not> length (rows @ [row]) \<ge> cap"
        "drain_lines L cols cap (rows @ [row]) (drop (i + 1) b) = Inr (rows1, b1, False)"
        using "1.prems" drain_one_line [OF Some False] by (auto split: sum.splits if_splits)
      show ?thesis by (rule "1.IH"(2) [OF Some False r(1,2,3)])
    qed
  qed
qed

definition all_text :: "byte list list \<Rightarrow> string" where
  "all_text bss = concat (map from_bytes bss)"

lemma read_chunks_drain:
  assumes "\<And>bs. bs \<in> set bss \<Longrightarrow> valid_utf8 bs" "LF \<notin> set buffer"
  shows "settled (read_chunks L cols cap rows buffer (map Inr bss)) = settled (drain_lines L cols cap rows (buffer @ all_text bss))"
  using assms
proof (induction bss arbitrary: rows buffer)
  case Nil
  then show ?case by (simp add: all_text_def drain_no_line find_char_None)
next
  case (Cons bs bss)
  have b: "from_utf8_lossy bs = from_bytes bs" using Cons.prems by (simp add: from_utf8_lossy_valid)
  have "settled (drain_lines L cols cap rows (buffer @ all_text (bs # bss)))
      = settled (drain_lines L cols cap rows ((buffer @ from_bytes bs) @ all_text bss))"
    by (simp add: all_text_def)
  also have "\<dots> = settled (case drain_lines L cols cap rows (buffer @ from_bytes bs) of
     Inl e \<Rightarrow> Inl e
   | Inr (rows1, b1, full) \<Rightarrow> if full then Inr (rows1, b1, True) else drain_lines L cols cap rows1 (b1 @ all_text bss))"
    by (rule drain_lines_append)
  also have "\<dots> = settled (read_chunks L cols cap rows buffer (map Inr (bs # bss)))"
  proof (cases "drain_lines L cols cap rows (buffer @ from_bytes bs)")
    case (Inl e)
    then show ?thesis by (simp add: b)
  next
    case (Inr p)
    obtain rows1 b1 full where p: "p = (rows1, b1, full)" by (metis prod_cases3)
    show ?thesis
    proof (cases full)
      case True
      then show ?thesis using Inr p by (simp add: b)
    next
      case False
      then have "LF \<notin> set b1" using drain_rest_no_newline [of L cols cap rows _ rows1 b1] Inr p by auto
      then show ?thesis using Cons.IH Cons.prems False Inr p by (simp add: b)
    qed
  qed
  finally show ?case by simp
qed

text \<open>Draining a text: its complete lines that are not blank, as many as the cap leaves room for.\<close>

definition room :: "nat \<Rightarrow> CellValue list list \<Rightarrow> nat" where
  "room cap rows = max 1 (cap - length rows)"

lemma res_bind_map_comp: "res_bind (Inr x) f = f x"
  by simp

lemma drain_spec:
  "settled (drain_lines L cols cap rows b) =
     (let ls = filter nonblank (butlast (split_on LF b)) in
      if length ls \<ge> room cap rows
      then res_map (\<lambda>new. (rows @ new, [], True)) (res_collect (map (\<lambda>l. parse_row L l cols) (take (room cap rows) ls)))
      else res_map (\<lambda>new. (rows @ new, last (split_on LF b), False)) (res_collect (map (\<lambda>l. parse_row L l cols) ls)))"
proof (induction L cols cap rows b rule: drain_lines.induct)
  case (1 L cols cap rows b)
  show ?case
  proof (cases "find_char LF b")
    case None
    then have "split_on LF b = [b]" by (simp add: find_char_None split_on_plain)
    then show ?thesis using None by (simp add: drain_no_line settled_def room_def)
  next
    case (Some i)
    let ?r = "drop (i + 1) b"
    have sp: "butlast (split_on LF b) = take i b # butlast (split_on LF ?r)" "last (split_on LF b) = last (split_on LF ?r)"
      using split_on_find [OF Some] by simp_all
    show ?thesis
    proof (cases "trim (take i b) = []")
      case True
      then have f: "filter nonblank (butlast (split_on LF b)) = filter nonblank (butlast (split_on LF ?r))"
        by (simp only: sp(1)) (simp add: nonblank_def)
      show ?thesis
        using 1(1) [OF Some True] unfolding drain_blank_line [OF Some True] f sp(2) .
    next
      case False
      then have f: "filter nonblank (butlast (split_on LF b)) = take i b # filter nonblank (butlast (split_on LF ?r))"
        by (simp only: sp(1)) (simp add: nonblank_def)
      show ?thesis
      proof (cases "parse_row L (take i b) cols")
        case (Inl e)
        have t: "room cap rows = Suc (room cap rows - 1)" by (simp add: room_def)
        have "take (room cap rows) (take i b # ls) = take i b # take (room cap rows - 1) ls" for ls
          by (subst t) simp
        then show ?thesis using Inl
          unfolding drain_one_line [OF Some False] f by (simp add: settled_def Let_def)
      next
        case (Inr row)
        show ?thesis
        proof (cases "length (rows @ [row]) \<ge> cap")
          case True
          then have "room cap rows = 1" by (simp add: room_def)
          then show ?thesis using Inr True
            unfolding drain_one_line [OF Some False] f by (simp add: settled_def)
        next
          case less: False
          then have "room cap rows = Suc (room cap (rows @ [row]))" by (simp add: room_def)
          then show ?thesis using 1(2) [OF Some False Inr less] Inr less
            unfolding drain_one_line [OF Some False] f sp(2) by (simp add: Let_def res_map_res_map)
        qed
      qed
    qed
  qed
qed


text \<open>The rows of a text: its lines that are not blank, at most the cap and at least one.\<close>

definition text_lines :: "string \<Rightarrow> string list" where
  "text_lines t = filter nonblank (split_on LF t)"

definition complete_lines :: "string \<Rightarrow> string list" where
  "complete_lines t = filter nonblank (butlast (split_on LF t))"

lemma text_lines_complete:
  "text_lines t = complete_lines t @ (if nonblank (last (split_on LF t)) then [last (split_on LF t)] else [])"
proof -
  obtain a x where "split_on LF t = a @ [x]" by (metis rev_exhaust split_on_nonempty)
  then show ?thesis by (simp add: text_lines_def complete_lines_def)
qed

lemma res_collect_snoc: "res_collect (rs @ [r]) = res_bind (res_collect rs) (\<lambda>xs. res_map (\<lambda>x. xs @ [x]) r)"
proof (induction rs)
  case Nil
  then show ?case by (cases r) simp_all
next
  case (Cons a rs)
  then show ?case by (cases a; cases "res_collect rs"; cases r) simp_all
qed

lemma read_json_rows_text:
  assumes "\<And>bs. bs \<in> set bss \<Longrightarrow> valid_utf8 bs"
  shows "read_json_rows L cols cap (map Inr bss) =
    res_map (\<lambda>rows. (rows, max 1 cap \<le> length (complete_lines (all_text bss))))
      (res_collect (map (\<lambda>l. parse_row L l cols) (take (max 1 cap) (text_lines (all_text bss)))))"
proof -
  let ?t = "all_text bss" and ?p = "\<lambda>l. parse_row L l cols"
  have r: "room cap [] = max 1 cap" by (simp add: room_def)
  have s: "settled (read_chunks L cols cap [] [] (map Inr bss)) = settled (drain_lines L cols cap [] ?t)"
    using read_chunks_drain [of bss "[]" L cols cap "[]"] assms by simp
  show ?thesis
  proof (cases "max 1 cap \<le> length (complete_lines ?t)")
    case True
    have "settled (read_chunks L cols cap [] [] (map Inr bss)) =
        res_map (\<lambda>new. (new, [], True)) (res_collect (map ?p (take (max 1 cap) (complete_lines ?t))))"
      using True by (simp add: s drain_spec r Let_def complete_lines_def [symmetric])
    moreover have "take (max 1 cap) (text_lines ?t) = take (max 1 cap) (complete_lines ?t)"
      using True by (simp add: text_lines_complete)
    ultimately show ?thesis
      using True by (cases "read_chunks L cols cap [] [] (map Inr bss)"; cases "res_collect (map ?p (take (max 1 cap) (complete_lines ?t)))")
        (auto simp: settled_def read_json_rows_def split: if_splits)
  next
    case False
    let ?last = "last (split_on LF ?t)"
    have e: "settled (read_chunks L cols cap [] [] (map Inr bss)) =
        res_map (\<lambda>new. (new, ?last, False)) (res_collect (map ?p (complete_lines ?t)))"
      using False by (auto simp: s drain_spec r Let_def complete_lines_def [symmetric])
    have "length (text_lines ?t) \<le> max 1 cap"
      using False by (auto simp: text_lines_complete)
    then have "take (max 1 cap) (text_lines ?t) = text_lines ?t" by (rule take_all)
    then show ?thesis
      using False e by (cases "read_chunks L cols cap [] [] (map Inr bss)"; cases "res_collect (map ?p (complete_lines ?t))")
        (auto simp: settled_def read_json_rows_def nonblank_def text_lines_complete res_collect_snoc res_map_res_map split: if_splits)
  qed
qed

lemma length_parse_row: "parse_row L l cols = Inr r \<Longrightarrow> length r = length cols"
proof -
  assume r: "parse_row L l cols = Inr r"
  then obtain v where v: "lib_parse L (as_bytes l) = Inr v"
    by (cases "lib_parse L (as_bytes l)") (simp_all add: parse_row_def)
  then show ?thesis using r by (cases v) (simp_all add: parse_row_def, auto)
qed

lemma length_rows_parsed:
  "res_collect (map (\<lambda>l. parse_row L l cols) ls) = Inr rows \<Longrightarrow> r \<in> set rows \<Longrightarrow> length r = length cols"
proof -
  assume a: "res_collect (map (\<lambda>l. parse_row L l cols) ls) = Inr rows" "r \<in> set rows"
  then have "Inr r \<in> set (map (\<lambda>l. parse_row L l cols) ls)"
    by (simp add: res_collect_Inr_iff)
  then show ?thesis by (auto dest: length_parse_row [OF sym])
qed

section \<open>Lemmas: requests\<close>

text \<open>What the driver may send for a configuration: to its own address, with its own credentials, and
  read-only when so configured (the probe of \<open>connect\<close> apart, whose text is fixed).\<close>

definition request_ok :: "ConnectionConfig \<Rightarrow> http_request \<Rightarrow> bool" where
  "request_ok c rq \<longleftrightarrow> rq_url rq = resolve_base_url c @ ''/'' \<and> rq_user rq = resolve_username c
     \<and> rq_pass rq = cc_password c
     \<and> (cc_read_only c \<longrightarrow> (''readonly'', ''1'') \<in> set (rq_params rq) \<or> rq_body rq = ''SELECT version()'')"

text \<open>A property of the server that every such request keeps.\<close>

definition server_keeps :: "('cl, 's) http_env \<Rightarrow> ConnectionConfig \<Rightarrow> ('s \<Rightarrow> bool) \<Rightarrow> bool" where
  "server_keeps E c I \<longleftrightarrow> (\<forall>s. I s \<longrightarrow> I (snd (he_query_id E s)))
     \<and> (\<forall>cl rq s. request_ok c rq \<longrightarrow> I s \<longrightarrow> I (snd (he_send E cl rq s)))"

text \<open>The driver's invariant: its configuration never changes, what it cached at connect belongs to it,
  and, as long as no call was dropped halfway (\<open>quiet\<close>), no query is in flight between operations.\<close>

definition ch_inv :: "bool \<Rightarrow> ConnectionConfig \<Rightarrow> ('s \<Rightarrow> bool) \<Rightarrow> ('cl, 's) ch_world \<Rightarrow> bool" where
  "ch_inv quiet c I w \<longleftrightarrow> cd_config (fst w) = c \<and> (quiet \<longrightarrow> cd_active_query_id (fst w) = None)
     \<and> (\<forall>cn. cd_client (fst w) = Some cn \<longrightarrow> cn_base_url cn = resolve_base_url c)
     \<and> (\<forall>cx. cd_cancel_context (fst w) = Some cx \<longrightarrow> cx_base_url cx = resolve_base_url c
          \<and> cx_username cx = resolve_username c \<and> cx_password cx = cc_password c)
     \<and> I (snd w)"

lemma http_send_keeps: "server_keeps E c I \<Longrightarrow> request_ok c rq \<Longrightarrow> I s \<Longrightarrow> I (snd (http_send E cl rq s))"
proof -
  assume "server_keeps E c I" "request_ok c rq" "I s"
  then have "I (snd (he_send E cl rq s))" by (simp add: server_keeps_def)
  then show ?thesis by (auto simp: http_send_def split: prod.split sum.split)
qed

lemma with_request_eq:
  assumes "he_query_id E (snd w) = (qid, s1)"
    and "http_send E (cn_client cn) (driver_request ((fst w) \<lparr> cd_active_query_id := Some qid \<rparr>) cn qid body extra) s1 = (r, s2)"
  shows "with_request E cn body extra f w = (res_bind r f, ((fst w) \<lparr> cd_active_query_id := None \<rparr>, s2))"
  using assms by (cases r)
    (simp_all add: with_request_def send_request_def op_bind_def op_finally_def on_drv_def clear_active_query_id_def)

lemma keeps_with_request:
  fixes cn :: "'cl ConnectedClient" and I :: "'s \<Rightarrow> bool"
  assumes "server_keeps E c I" "cn_base_url cn = resolve_base_url c"
  shows "keeps (ch_inv quiet c I) (with_request E cn body extra f)"
proof (rule keepsI)
  fix w :: "('cl, 's) ch_world" assume w: "ch_inv quiet c I w"
  obtain qid s1 where q: "he_query_id E (snd w) = (qid, s1)" by fastforce
  have I1: "I s1" using assms(1) w q by (metis ch_inv_def server_keeps_def snd_conv)
  let ?rq = "driver_request ((fst w) \<lparr> cd_active_query_id := Some qid \<rparr>) cn qid body extra"
  obtain r s2 where h: "http_send E (cn_client cn) ?rq s1 = (r, s2)" by fastforce
  have "request_ok c ?rq"
    using w assms(2) by (simp add: request_ok_def ch_inv_def request_params_def driver_request_def)
  then have "I s2" using http_send_keeps [OF assms(1) _ I1] h by (metis snd_conv)
  then show "ch_inv quiet c I (snd (with_request E cn body extra f w))"
    using w unfolding with_request_eq [OF q h] by (simp add: ch_inv_def)
qed

lemma keeps_with_client:
  assumes "\<And>cn. cn_base_url cn = resolve_base_url c \<Longrightarrow> keeps (ch_inv quiet c I) (f cn)"
  shows "keeps (ch_inv quiet c I) (with_client f)"
proof -
  have "keeps (ch_inv quiet c I) (op_bind (op_lift (ok_or ch_not_connected (cd_client (fst w)))) f)" if "ch_inv quiet c I w" for w
    using that assms by (cases "cd_client (fst w)") (auto simp: ch_inv_def keeps_lift)
  then show ?thesis unfolding with_client_def by (intro keeps_with)
qed

lemma keeps_in_database:
  assumes "\<And>cn n. cn_base_url cn = resolve_base_url c \<Longrightarrow> keeps (ch_inv quiet c I) (f cn n)"
  shows "keeps (ch_inv quiet c I) (in_database schema f)"
  unfolding in_database_def by (intro keeps_with_client keeps_with assms)

lemma keeps_run_tsv: "server_keeps E c I \<Longrightarrow> cn_base_url cn = resolve_base_url c \<Longrightarrow> keeps (ch_inv quiet c I) (run_tsv L E cn sql)"
  by (simp add: run_tsv_def keeps_with_request)

lemma keeps_run_tsv_parameterized:
  "server_keeps E c I \<Longrightarrow> cn_base_url cn = resolve_base_url c \<Longrightarrow> keeps (ch_inv quiet c I) (run_tsv_parameterized L E cn sql ps)"
  by (auto simp: run_tsv_parameterized_def split_def intro!: keeps_bind keeps_lift keeps_with_request)

lemmas keeps_ch = keeps_bind keeps_map keeps_lift keeps_with_client keeps_in_database keeps_with_request
  keeps_run_tsv keeps_run_tsv_parameterized


section \<open>The driver as a whole\<close>

text \<open>The methods of the trait that can reach the server, and what one does to the world.\<close>

datatype ch_call =
    CConnect
  | CDisconnect
  | CTimeout nat
  | CExecute string
  | CExecuteParameterized string "CellValue list"
  | CUserQuery string "nat option" "CellValue list option"
  | CTables "string option"
  | CColumns string "string option"
  | CIndexes string "string option"
  | CDdl string "string option"
  | CView string "string option"
  | CMetadata string "string option"
  | CDatabases
  | CDatabaseMetadata string
  | CCreateDatabase CreateDatabaseRequest
  | CDropDatabase string
  | CSwitchDatabase string
  | CStream string

fun ch_effect :: "lib \<Rightarrow> ('cl, 's) http_env \<Rightarrow> nat \<times> nat \<Rightarrow> ch_call \<Rightarrow> ('cl, 's) ch_world \<Rightarrow> ('cl, 's) ch_world" where
  "ch_effect L E t CConnect w = snd (ch_connect E w)"
| "ch_effect L E t CDisconnect w = snd (ch_disconnect w)"
| "ch_effect L E t (CTimeout n) w = snd (ch_apply_query_timeout n w)"
| "ch_effect L E t (CExecute q) w = snd (ch_execute L E t q w)"
| "ch_effect L E t (CExecuteParameterized q ps) w = snd (ch_execute_parameterized L E t q ps w)"
| "ch_effect L E t (CUserQuery q cap ps) w = snd (ch_execute_user_query L E t q cap ps w)"
| "ch_effect L E t (CTables sc) w = snd (ch_fetch_tables L E sc w)"
| "ch_effect L E t (CColumns n sc) w = snd (ch_fetch_columns L E n sc w)"
| "ch_effect L E t (CIndexes n sc) w = snd (ch_fetch_indexes L E n sc w)"
| "ch_effect L E t (CDdl n sc) w = snd (ch_fetch_table_ddl L E n sc w)"
| "ch_effect L E t (CView n sc) w = snd (ch_fetch_view_definition L E n sc w)"
| "ch_effect L E t (CMetadata n sc) w = snd (ch_fetch_table_metadata L E n sc w)"
| "ch_effect L E t CDatabases w = snd (ch_fetch_databases L E w)"
| "ch_effect L E t (CDatabaseMetadata n) w = snd (ch_fetch_database_metadata L E n w)"
| "ch_effect L E t (CCreateDatabase r) w = snd (ch_create_database L E r w)"
| "ch_effect L E t (CDropDatabase n) w = snd (ch_drop_database L E n w)"
| "ch_effect L E t (CSwitchDatabase n) w = snd (ch_switch_database L E n w)"
| "ch_effect L E t (CStream q) w = snd (ch_stream_rows L E q w)"

definition ch_run :: "lib \<Rightarrow> ('cl, 's) http_env \<Rightarrow> nat \<times> nat \<Rightarrow> ch_call list \<Rightarrow> ('cl, 's) ch_world \<Rightarrow> ('cl, 's) ch_world" where
  "ch_run L E t calls w = fold (ch_effect L E t) calls w"

lemma keeps_ch_connect:
  fixes E :: "('cl, 's) http_env"
  assumes "server_keeps E c I"
  shows "keeps (ch_inv quiet c I) (ch_connect E)"
proof (rule keepsI)
  fix w :: "('cl, 's) ch_world" assume w: "ch_inv quiet c I w"
  then have c: "cd_config (fst w) = c" "I (snd w)" by (simp_all add: ch_inv_def)
  show "ch_inv quiet c I (snd (ch_connect E w))"
  proof (cases "build_http_client E c")
    case (Inl e)
    then show ?thesis using w c by (simp add: ch_connect_def)
  next
    case (Inr cl)
    obtain r s1 where h: "http_send E cl (probe_request c) (snd w) = (r, s1)" by fastforce
    have "request_ok c (probe_request c)" by (simp add: request_ok_def probe_request_def)
    then have I: "I s1" using http_send_keeps [OF assms _ c(2)] h by (metis snd_conv)
    show ?thesis
    proof (cases r)
      case (Inl e)
      then show ?thesis using w c I h Inr by (simp add: ch_connect_def ch_inv_def)
    next
      case resp: (Inr resp)
      then show ?thesis using w c I h Inr
        by (auto simp: ch_connect_def ch_inv_def ch_adopt_def Let_def split: sum.split)
    qed
  qed
qed

lemma keeps_on_drv:
  fixes I :: "'s \<Rightarrow> bool" and g :: "'cl ChDriver \<Rightarrow> 'cl ChDriver"
  assumes "\<And>d. cd_config (g d) = cd_config d" "\<And>d. cd_client (g d) = None \<or> cd_client (g d) = cd_client d"
    and "\<And>d. cd_cancel_context (g d) = None \<or> cd_cancel_context (g d) = cd_cancel_context d"
    and "\<And>d. cd_active_query_id (g d) = None \<or> cd_active_query_id (g d) = cd_active_query_id d"
  shows "keeps (ch_inv quiet c I) (op_update (on_drv g))"
proof (rule keeps_update)
  fix w :: "('cl, 's) ch_world" assume "ch_inv quiet c I w"
  then show "ch_inv quiet c I (on_drv g w)"
    using assms(1) [of "fst w"] assms(2) [of "fst w"] assms(3) [of "fst w"] assms(4) [of "fst w"]
    by (auto simp: ch_inv_def on_drv_def)
qed

lemma keeps_rows_via:
  "server_keeps E c I \<Longrightarrow> cn_base_url cn = resolve_base_url c \<Longrightarrow> keeps (ch_inv quiet c I) (rows_via L E cn sql names f)"
  by (simp add: rows_via_def keeps_ch)

lemma keeps_ch_stream:
  assumes "server_keeps E c I" "ch_inv quiet c I w"
  shows "ch_inv quiet c I (snd (ch_stream_rows L E q w))"
proof -
  let ?head = "with_client (\<lambda>cn. op_bind (fetch_probe_header E cn q []) (\<lambda>h. op_lift (Inr (cn, h))))"
  have k: "keeps (ch_inv quiet c I) ?head"
    using assms(1) by (intro keeps_ch) (simp_all add: fetch_probe_header_def keeps_with_request)
  obtain r w1 where h: "?head w = (r, w1)" by (rule prod.exhaust)
  have w1: "ch_inv quiet c I w1" using keeps_result [OF k assms(2) h] .
  show ?thesis
  proof (cases r)
    case (Inl e)
    then show ?thesis using w1 h by (simp add: ch_stream_rows_def)
  next
    case (Inr p)
    obtain cn hd1 where p: "p = (cn, hd1)" by (cases p)
    have "cd_client (fst w) = Some cn"
      using h Inr p by (cases "cd_client (fst w)") (auto simp: with_client_def op_bind_result_Inr)
    then have u: "cn_base_url cn = resolve_base_url c" using assms(2) by (simp add: ch_inv_def)
    let ?body = "with_request E cn q [(''default_format'', ''JSONEachRow'')] (\<lambda>resp. Inr (stream_body L (sh_columns hd1) (hr_body resp)))"
    obtain r2 w2 where b: "?body w1 = (r2, w2)" by (rule prod.exhaust)
    have "ch_inv quiet c I w2" using keeps_result [OF keeps_with_request [OF assms(1) u] w1 b] .
    then show ?thesis using h Inr p b by (cases r2) (auto simp: ch_stream_rows_def)
  qed
qed

lemma keeps_queries:
  assumes E: "server_keeps E c I"
  shows "keeps (ch_inv quiet c I) (ch_execute L E t q)" "keeps (ch_inv quiet c I) (ch_execute_parameterized L E t q ps)"
    "keeps (ch_inv quiet c I) (ch_execute_user_query L E t q cap ps')"
    "keeps (ch_inv quiet c I) (ch_create_database L E r)" "keeps (ch_inv quiet c I) (ch_drop_database L E n)"
    "keeps (ch_inv quiet c I) (ch_switch_database L E n)" "keeps (ch_inv quiet c I) (ch_fetch_databases L E)"
proof -
  show "keeps (ch_inv quiet c I) (ch_execute L E t q)" "keeps (ch_inv quiet c I) (ch_execute_parameterized L E t q ps)"
    "keeps (ch_inv quiet c I) (ch_create_database L E r)" "keeps (ch_inv quiet c I) (ch_drop_database L E n)"
    "keeps (ch_inv quiet c I) (ch_fetch_databases L E)"
    unfolding ch_execute_def ch_execute_parameterized_def ch_create_database_def ch_drop_database_def ch_fetch_databases_def
    by (intro keeps_ch E; assumption)+
  show "keeps (ch_inv quiet c I) (ch_execute_user_query L E t q cap ps')"
    unfolding ch_execute_user_query_def execute_user_query_capped_def capped_streaming_def capped_buffered_def fetch_probe_header_def
    by (cases ps') (auto simp: split_def intro!: keeps_ch E)
  show "keeps (ch_inv quiet c I) (ch_switch_database L E n)"
    unfolding ch_switch_database_def validate_database_exists_def
    by (intro keeps_ch keeps_on_drv E; (assumption | simp add: set_current_database_def))
qed

lemma keeps_introspection:
  assumes E: "server_keeps E c I"
  shows "keeps (ch_inv quiet c I) (ch_fetch_tables L E sc)" "keeps (ch_inv quiet c I) (ch_fetch_columns L E n sc)"
    "keeps (ch_inv quiet c I) (ch_fetch_indexes L E n sc)" "keeps (ch_inv quiet c I) (ch_fetch_table_ddl L E n sc)"
    "keeps (ch_inv quiet c I) (ch_fetch_view_definition L E n sc)" "keeps (ch_inv quiet c I) (ch_fetch_table_metadata L E n sc)"
  unfolding ch_fetch_tables_def ch_fetch_columns_def ch_fetch_indexes_def ch_fetch_table_ddl_def ch_fetch_view_definition_def
    ch_fetch_table_metadata_def ch_tables_in_def ch_columns_of_def ch_indexes_of_def ch_create_query_of_def ch_table_metadata_of_def
  by (intro keeps_ch keeps_rows_via E; assumption)+

lemma keeps_database_metadata:
  assumes E: "server_keeps E c I"
  shows "keeps (ch_inv quiet c I) (ch_fetch_database_metadata L E n)"
  unfolding ch_fetch_database_metadata_def
proof (rule keeps_with_client, rule keepsI)
  fix cn :: "'a ConnectedClient" and w :: "('a, 'b) ch_world"
  assume "cn_base_url cn = resolve_base_url c" "ch_inv quiet c I w"
  then show "ch_inv quiet c I (snd (let (r, w1) = run_tsv_parameterized L E cn
      ''SELECT sum(bytes_on_disk) FROM system.parts WHERE database = ? AND active'' [CText n] w
     in (Inr \<lparr> dm_name = n, dm_schemas = [], dm_size_bytes = size_of_outcome r \<rparr>, w1)))"
    using keepsD [OF keeps_run_tsv_parameterized [OF E]] by (simp add: pair_simps)
qed

lemma ch_effect_keeps:
  assumes E: "server_keeps E c I" and w: "ch_inv quiet c I w"
  shows "ch_inv quiet c I (ch_effect L E t call w)"
proof (cases call)
  case CDisconnect
  have "keeps (ch_inv quiet c I) (ch_disconnect :: ('a, 'b) ch_world \<Rightarrow> _)"
    unfolding ch_disconnect_def by (rule keeps_on_drv) (simp_all add: set_current_database_def)
  then show ?thesis using w CDisconnect by (simp add: keepsD)
next
  case (CTimeout n)
  have "keeps (ch_inv quiet c I) (ch_apply_query_timeout n :: ('a, 'b) ch_world \<Rightarrow> _)"
    unfolding ch_apply_query_timeout_def by (rule keeps_on_drv) simp_all
  then show ?thesis using w CTimeout by (simp add: keepsD)
qed (simp_all add: keepsD [OF keeps_ch_connect [OF E] w] keepsD [OF keeps_queries(1) [OF E] w] keepsD [OF keeps_queries(2) [OF E] w]
    keepsD [OF keeps_queries(3) [OF E] w] keepsD [OF keeps_queries(4) [OF E] w] keepsD [OF keeps_queries(5) [OF E] w]
    keepsD [OF keeps_queries(6) [OF E] w] keepsD [OF keeps_queries(7) [OF E] w] keepsD [OF keeps_introspection(1) [OF E] w]
    keepsD [OF keeps_introspection(2) [OF E] w] keepsD [OF keeps_introspection(3) [OF E] w] keepsD [OF keeps_introspection(4) [OF E] w]
    keepsD [OF keeps_introspection(5) [OF E] w] keepsD [OF keeps_introspection(6) [OF E] w] keepsD [OF keeps_database_metadata [OF E] w]
    keeps_ch_stream [OF E w])

lemma ch_run_keeps:
  assumes "server_keeps E c I" "ch_inv quiet c I w"
  shows "ch_inv quiet c I (ch_run L E t calls w)"
  using assms(2) unfolding ch_run_def
  by (induction calls arbitrary: w) (simp_all add: ch_effect_keeps [OF assms(1)])


section \<open>Lemmas: the shape of results\<close>

definition rows_fit :: "string list \<Rightarrow> nat \<Rightarrow> CellValue list list \<Rightarrow> bool" where
  "rows_fit columns cap rows \<longleftrightarrow> list_all (\<lambda>row. length row = length columns) rows \<and> length rows \<le> max 1 cap"

lemma rows_fit_snoc:
  "rows_fit columns cap rows \<Longrightarrow> length rows < max 1 cap \<Longrightarrow> parse_row L l columns = Inr row \<Longrightarrow> rows_fit columns cap (rows @ [row])"
  by (auto simp: rows_fit_def dest: length_parse_row)

lemma drain_fits:
  "drain_lines L columns cap rows buffer = Inr (rows1, rest, full) \<Longrightarrow> rows_fit columns cap rows \<Longrightarrow> length rows < max 1 cap \<Longrightarrow>
   rows_fit columns cap rows1 \<and> (full \<or> length rows1 < max 1 cap)"
proof (induction L columns cap rows buffer arbitrary: rows1 rest full rule: drain_lines.induct)
  case (1 L columns cap rows buffer)
  show ?case
  proof (cases "find_char LF buffer")
    case None
    then show ?thesis using "1.prems" by (simp add: drain_no_line)
  next
    case (Some i)
    show ?thesis
    proof (cases "trim (take i buffer) = []")
      case True
      then show ?thesis using "1.IH"(1) [OF Some True] "1.prems" drain_blank_line [OF Some True] by simp
    next
      case False
      note line = drain_one_line [OF Some False, of L columns cap rows]
      show ?thesis
      proof (cases "parse_row L (take i buffer) columns")
        case (Inl e)
        then show ?thesis using line "1.prems" by simp
      next
        case (Inr row)
        have fit: "rows_fit columns cap (rows @ [row])" by (rule rows_fit_snoc [OF "1.prems"(2,3) Inr])
        show ?thesis
        proof (cases "length (rows @ [row]) \<ge> cap")
          case True
          then show ?thesis using line "1.prems"(1) Inr fit by simp
        next
          case more: False
          then have "length (rows @ [row]) < max 1 cap" by simp
          then show ?thesis using "1.IH"(2) [OF Some False Inr more] "1.prems"(1) line Inr fit more by simp
        qed
      qed
    qed
  qed
qed

lemma chunks_fit:
  "read_chunks L columns cap rows buffer chunks = Inr (rows1, rest, full) \<Longrightarrow> rows_fit columns cap rows \<Longrightarrow> length rows < max 1 cap \<Longrightarrow>
   rows_fit columns cap rows1 \<and> (full \<or> length rows1 < max 1 cap)"
proof (induction chunks arbitrary: rows buffer)
  case Nil
  then show ?case by simp
next
  case (Cons c cs)
  show ?case
  proof (cases c)
    case (Inl e)
    then show ?thesis using Cons.prems by simp
  next
    case (Inr bs)
    then obtain r b f where d: "drain_lines L columns cap rows (buffer @ from_utf8_lossy bs) = Inr (r, b, f)"
      using Cons.prems(1) by (auto split: sum.splits)
    show ?thesis
      using drain_fits [OF d Cons.prems(2,3)] Cons.IH [of r b] Cons.prems(1) Inr d by (cases f) auto
  qed
qed

lemma json_rows_fit: "read_json_rows L columns cap chunks = Inr (rows, full) \<Longrightarrow> rows_fit columns cap rows"
proof -
  assume r: "read_json_rows L columns cap chunks = Inr (rows, full)"
  then obtain rows1 rest f where c: "read_chunks L columns cap [] [] chunks = Inr (rows1, rest, f)"
    by (auto simp: read_json_rows_def)
  have "rows_fit columns cap rows1 \<and> (f \<or> length rows1 < max 1 cap)"
    by (rule chunks_fit [OF c]) (simp_all add: rows_fit_def)
  then show ?thesis using r c rows_fit_snoc [of columns cap rows1]
    by (auto simp: read_json_rows_def split: if_splits)
qed

lemma yields_with_request: "(\<And>resp x. f resp = Inr x \<Longrightarrow> P x) \<Longrightarrow> yields P (with_request E cn body extra f)"
  unfolding with_request_def split_def
  by (intro yields_bind [where Q = "\<lambda>_. True"] yields_finally yields_lift) (simp_all add: yields_def)

lemma yields_with_client: "(\<And>cn. yields P (f cn)) \<Longrightarrow> yields P (with_client f)"
  unfolding with_client_def
  by (intro yields_with yields_bind [where Q = "\<lambda>_. True"]) (simp_all add: yields_def)

lemma header_shape: "parse_header body = Inr (columns, types) \<Longrightarrow> length columns = length types"
  by (auto simp: parse_header_def Let_def split: if_splits)

lemma full_shape: "parse_full body = Inr (columns, types, rows) \<Longrightarrow> length columns = length types"
  by (auto simp: parse_full_def Let_def split: if_splits)

lemma outcome_shape: "tsv_outcome L resp = Inr o1 \<Longrightarrow> length (to_columns o1) = length (to_column_type_names o1)"
  by (auto simp: tsv_outcome_def dest: full_shape)

lemma probe_shape: "yields (\<lambda>h. length (sh_columns h) = length (sh_column_type_names h)) (fetch_probe_header E cn sql extra)"
  unfolding fetch_probe_header_def by (rule yields_with_request) (auto dest: header_shape)

text \<open>A result whose columns have a type each, and a row count within the cap (a cap of no rows lets one
  through); a tabular result has one cell for every column in every row.\<close>

definition well_shaped :: "bool \<Rightarrow> nat \<Rightarrow> QueryResult \<Rightarrow> bool" where
  "well_shaped tabular cap r \<longleftrightarrow> length (qr_column_type_names r) = length (qr_columns r)
     \<and> length (qr_rows r) \<le> max 1 cap
     \<and> (if tabular then list_all (\<lambda>row. length row = length (qr_columns r)) (qr_rows r) else True)"

lemma stream_result_shape:
  "length (sh_columns h) = length (sh_column_type_names h) \<Longrightarrow>
   res_map (stream_result elapsed h) (read_json_rows L (sh_columns h) cap chunks) = Inr r \<Longrightarrow> well_shaped True cap r"
  by (auto simp: well_shaped_def stream_result_def rows_fit_def dest: json_rows_fit)

lemma streaming_shape: "yields (well_shaped True (ch_cap row_cap)) (capped_streaming L E elapsed cn sql row_cap ps)"
  unfolding capped_streaming_def split_def
proof (rule yields_bind [where Q = "\<lambda>_. True"])
  fix p :: "string \<times> (string \<times> string) list"
  show "yields (well_shaped True (ch_cap row_cap)) (op_bind (fetch_probe_header E cn (fst p) (snd p)) (\<lambda>header.
       with_request E cn (fst p) ((''default_format'', ''JSONEachRow'') # snd p) (\<lambda>resp.
         res_map (stream_result elapsed header) (read_json_rows L (sh_columns header) (ch_cap row_cap) (hr_body resp)))))"
    by (rule yields_bind [OF probe_shape]) (rule yields_with_request, rule stream_result_shape)
qed (simp add: yields_def)

lemma buffered_shape: "yields (well_shaped False (ch_cap row_cap)) (capped_buffered L E elapsed cn sql row_cap ps)"
proof -
  have P: "length (to_columns o1) = length (to_column_type_names o1) \<Longrightarrow>
      well_shaped False (ch_cap row_cap) (outcome_result elapsed (length (to_rows o1) > ch_cap row_cap) (capped_outcome (ch_cap row_cap) o1))" for o1
    by (auto simp: well_shaped_def outcome_result_def capped_outcome_def)
  have tsv: "yields (\<lambda>o1. length (to_columns o1) = length (to_column_type_names o1)) (with_request E cn q extra (tsv_outcome L))" for q extra
    by (rule yields_with_request) (rule outcome_shape)
  have "yields (\<lambda>o1. length (to_columns o1) = length (to_column_type_names o1)) (run_tsv_parameterized L E cn sql vs)" for vs
    unfolding run_tsv_parameterized_def split_def
    by (rule yields_bind [where Q = "\<lambda>_. True"]) (simp_all add: yields_def tsv [unfolded yields_def])
  then have "yields (\<lambda>o1. length (to_columns o1) = length (to_column_type_names o1))
      (case ps of Some vs \<Rightarrow> run_tsv_parameterized L E cn sql vs | None \<Rightarrow> run_tsv L E cn sql)"
    using tsv by (cases ps) (simp_all add: run_tsv_def)
  then show ?thesis
    unfolding capped_buffered_def by (intro yields_map) (rule yields_mono [OF _ P])
qed

section \<open>Properties\<close>

lemma ch_inv_new: "I s \<Longrightarrow> ch_inv quiet c I (ch_new c, s)"
  by (simp add: ch_inv_def ch_new_def)

text \<open>The driver never talks to anyone else and a read-only connection never asks for a write. Whatever
  methods are called in whatever order on a fresh driver, and whatever the server answers, every
  request goes to the configured address with the configured user and password, and when the
  configuration is read-only carries \<open>readonly=1\<close> (the fixed probe of \<open>connect\<close> apart); at the end no
  query is left in flight, so a cancel does nothing.\<close>

theorem clickhouse_requests_confined:
  assumes "server_keeps E c I" "I s"
  shows "I (snd (ch_run L E t calls (ch_new c, s))) \<and> ch_cancel_query (fst (ch_run L E t calls (ch_new c, s))) = None"
  using ch_run_keeps [OF assms(1) ch_inv_new [of I s True c, OF assms(2)], of L t calls]
  by (auto simp: ch_inv_def ch_cancel_query_def split: option.split)

text \<open>A server for the witness: it keeps what it was sent and answers everything with an empty body.\<close>

definition logging_http :: "(unit, http_request list) http_env" where
  "logging_http = \<lparr> he_file = (\<lambda>_. Inl ''not found''), he_cert = (\<lambda>_. None), he_client = (\<lambda>_. Inr ()),
     he_query_id = (\<lambda>s. (''q'', s)),
     he_send = (\<lambda>_ rq s. (Inr \<lparr> hr_status = (200, ''200 OK''), hr_summary = None, hr_body = [] \<rparr>, s @ [rq])) \<rparr>"

definition read_only_config :: ConnectionConfig where
  "read_only_config = \<lparr> cc_host = ''h'', cc_port = 8443, cc_username = [], cc_password = Some ''p'',
     cc_database = None, cc_ssl = SslConfig_default, cc_read_only = True, cc_additional_fields = [] \<rparr>"

definition only_allowed :: "http_request list \<Rightarrow> bool" where
  "only_allowed s = list_all (request_ok read_only_config) s"

theorem clickhouse_requests_confined_witness:
  "only_allowed (snd (ch_run plain_lib logging_http (0, 0) [CConnect, CExecute ''DROP TABLE t''] (ch_new read_only_config, [])))
   \<and> ch_cancel_query (fst (ch_run plain_lib logging_http (0, 0) [CConnect, CExecute ''DROP TABLE t''] (ch_new read_only_config, []))) = None"
  by (rule clickhouse_requests_confined [where c = read_only_config])
    (simp_all add: only_allowed_def server_keeps_def logging_http_def)

text \<open>C13. What a capped SELECT returns does not depend on how the body is cut into chunks when no cut is
  inside a character, that is when every chunk is UTF-8 by itself: the rows are the parsed lines of the
  text that are not blank, in order, up to the cap, a cap of 0 counting as 1; and a line among them that
  is no row is the error. The result counts as truncated when as many lines as that are complete.\<close>

theorem capped_rows_exact:
  assumes "\<And>bs. bs \<in> set chunks \<Longrightarrow> valid_utf8 bs"
  shows "read_json_rows L columns cap (map Inr chunks) =
    res_map (\<lambda>rows. (rows, max 1 cap \<le> length (complete_lines (all_text chunks))))
      (res_collect (map (\<lambda>l. parse_row L l columns) (take (max 1 cap) (text_lines (all_text chunks)))))"
  by (rule read_json_rows_text [OF assms])

theorem capped_rows_exact_witness:
  "read_json_rows plain_lib [''a''] 1 (map Inr [as_bytes ''{'', as_bytes ''}'']) =
    res_map (\<lambda>rows. (rows, max 1 1 \<le> length (complete_lines (all_text [as_bytes ''{'', as_bytes ''}'']))))
      (res_collect (map (\<lambda>l. parse_row plain_lib l [''a'']) (take (max 1 1) (text_lines (all_text [as_bytes ''{'', as_bytes ''}''])))))"
  by (rule capped_rows_exact) (auto intro!: valid_utf8_ascii simp: is_ascii_def char_code_def)

text \<open>A result is called truncated although nothing was cut off, and a cap of no rows returns one: a
  response of exactly as many rows as the cap is reported as truncated, and so is the single row
  returned for a cap of 0.\<close>

theorem exact_cap_is_called_truncated:
  assumes "parse_row L l columns = Inr row" "valid_utf8 (as_bytes (l @ [LF]))" "LF \<notin> set l" "nonblank l"
  shows "read_json_rows L columns 1 [Inr (as_bytes (l @ [LF]))] = Inr ([row], True)
    \<and> read_json_rows L columns 0 [Inr (as_bytes (l @ [LF]))] = Inr ([row], True)"
proof -
  have "split_on LF (l @ [LF]) = [l, []]"
    using split_on_append_sep [OF assms(3), of "[]"] by simp
  then have "complete_lines (all_text [as_bytes (l @ [LF])]) = [l]" "text_lines (all_text [as_bytes (l @ [LF])]) = [l]"
    using assms(4) by (simp_all add: complete_lines_def text_lines_def all_text_def nonblank_def)
  then show ?thesis
    using read_json_rows_text [of "[as_bytes (l @ [LF])]" L columns 1] read_json_rows_text [of "[as_bytes (l @ [LF])]" L columns 0] assms(1,2)
    by simp
qed

definition braces_lib :: lib where
  "braces_lib = plain_lib \<lparr> lib_parse := (\<lambda>_. Inr (JObject [])) \<rparr>"

theorem exact_cap_is_called_truncated_witness:
  "read_json_rows braces_lib [''a''] 1 [Inr (as_bytes (''{}'' @ [LF]))] = Inr ([[CNull]], True)
    \<and> read_json_rows braces_lib [''a''] 0 [Inr (as_bytes (''{}'' @ [LF]))] = Inr ([[CNull]], True)"
  by (rule exact_cap_is_called_truncated)
    (auto intro!: valid_utf8_ascii simp: parse_row_def braces_lib_def json_value_to_cell_def is_ascii_def char_code_def
      nonblank_def trim_def trim_start.simps trim_end.simps ws_len_def ws_len_end_def is_ws_scalar_def)

text \<open>A character that is cut by a chunk is lost: the two bytes of e-acute in one chunk are one
  character of the line that is parsed, in two chunks the line has two replacement characters.\<close>

theorem cut_character_is_replaced:
  "read_json_rows L columns 5 [Inr [0xC3, 0xA9]] = res_map (\<lambda>r. ([r], False)) (parse_row L (from_bytes [0xC3, 0xA9]) columns)
   \<and> read_json_rows L columns 5 [Inr [0xC3], Inr [0xA9]] =
       res_map (\<lambda>r. ([r], False)) (parse_row L (from_bytes [0xEF, 0xBF, 0xBD, 0xEF, 0xBF, 0xBD]) columns)"
proof -
  have u: "from_utf8_lossy [0xC3, 0xA9] = from_bytes [0xC3, 0xA9]" "from_utf8_lossy [0xC3] = from_bytes [0xEF, 0xBF, 0xBD]"
    "from_utf8_lossy [0xA9] = from_bytes [0xEF, 0xBF, 0xBD]"
    by (simp_all add: from_utf8_lossy_def utf8_chunks.simps utf8_head_def nth_or_0_def between_def)
  have n: "find_char LF (from_bytes [0xC3, 0xA9]) = None" "find_char LF (from_bytes [0xEF, 0xBF, 0xBD]) = None"
    "find_char LF (from_bytes [0xEF, 0xBF, 0xBD] @ from_bytes [0xEF, 0xBF, 0xBD]) = None"
    by (simp_all add: from_bytes_def char_of_def bit_Suc_0_iff)
  have t: "trim (from_bytes [0xC3, 0xA9]) \<noteq> []" "trim (from_bytes [0xEF, 0xBF, 0xBD] @ from_bytes [0xEF, 0xBF, 0xBD]) \<noteq> []"
    by (simp_all add: from_bytes_def trim_def trim_start.simps trim_end.simps ws_len_def ws_len_end_def is_ws_scalar_def)
  have "from_bytes [0xEF, 0xBF, 0xBD] @ from_bytes [0xEF, 0xBF, 0xBD] = from_bytes [0xEF, 0xBF, 0xBD, 0xEF, 0xBF, 0xBD]"
    by (simp add: from_bytes_def)
  with u n t show ?thesis by (simp add: read_json_rows_def drain_no_line)
qed

text \<open>C20. Every result of a user query is a table. Whatever the server sends, in whatever chunks and however
  malformed, a query that succeeds gives one type for every column, no more rows than the cap (a cap
  of 0 counting as 1, since the cap is looked at after a row is taken), where the cap never exceeds the
  emergency limit, and, for a statement that returns rows, one cell for every column in every row.\<close>

theorem ch_user_query_well_shaped:
  assumes "ch_execute_user_query L E elapsed sql row_cap ps w = (Inr r, w1)"
  shows "well_shaped (is_row_returning_statement L sql) (ch_cap row_cap) r \<and> ch_cap row_cap \<le> EMERGENCY_MAX"
proof -
  have "yields (well_shaped (is_row_returning_statement L sql) (ch_cap row_cap)) (ch_execute_user_query L E elapsed sql row_cap ps)"
    unfolding ch_execute_user_query_def execute_user_query_capped_def
    by (rule yields_with_client) (simp add: streaming_shape buffered_shape)
  then show ?thesis using yieldsD assms by (auto simp: ch_cap_def)
qed

text \<open>A server for the witness: it answers the probe with one column and then one row.\<close>

definition one_row_http :: "(unit, nat) http_env" where
  "one_row_http = \<lparr> he_file = (\<lambda>_. Inl ''not found''), he_cert = (\<lambda>_. None), he_client = (\<lambda>_. Inr ()),
     he_query_id = (\<lambda>s. (''q'', s)),
     he_send = (\<lambda>_ rq s. (Inr \<lparr> hr_status = (200, ''200 OK''), hr_summary = None,
       hr_body = [Inr (as_bytes (if s = 0 then ''n'' @ [LF] @ ''UInt8'' @ [LF] else ''{}'' @ [LF]))] \<rparr>, s + 1)) \<rparr>"

definition connected_ch :: "unit ChDriver" where
  "connected_ch = (ch_new read_only_config) \<lparr> cd_client := Some \<lparr> cn_client = (), cn_base_url = ''http://h:8123'' \<rparr> \<rparr>"

definition one_null_row :: QueryResult where
  "one_null_row = \<lparr> qr_columns = [''n''], qr_column_type_names = [''UInt8''], qr_rows = [[CNull]], qr_rows_affected = 1,
     qr_execution_time = (0, 0), qr_is_truncated = False, qr_status_message = None, qr_column_meta = None \<rparr>"

theorem ch_user_query_well_shaped_witness:
  "well_shaped (is_row_returning_statement braces_lib ''SELECT 1 AS n'') (ch_cap (Some 5)) one_null_row \<and> ch_cap (Some 5) \<le> EMERGENCY_MAX"
proof (rule ch_user_query_well_shaped)
  have sel: "is_row_returning_statement braces_lib ''SELECT 1 AS n''" by code_simp
  have head: "parse_header (from_utf8_lossy (as_bytes (''n'' @ [LF] @ ''UInt8'' @ [LF]))) = Inr ([''n''], [''UInt8''])"
    by code_simp
  have body: "read_json_rows braces_lib [''n''] 5 [Inr (as_bytes (''{}'' @ [LF]))] = Inr ([[CNull]], False)"
    by code_simp
  have cap: "ch_cap (Some 5) = 5" by (simp add: ch_cap_def EMERGENCY_MAX_def)
  show "ch_execute_user_query braces_lib one_row_http (0, 0) ''SELECT 1 AS n'' (Some 5) None (connected_ch, 0)
      = (Inr one_null_row, (connected_ch, 2))"
    by (simp add: ch_execute_user_query_def with_client_def connected_ch_def execute_user_query_capped_def sel
        capped_streaming_def cap fetch_probe_header_def with_request_def send_request_def op_bind_def op_finally_def
        on_drv_def clear_active_query_id_def http_send_def one_row_http_def response_text_def head [simplified]
        body [simplified] stream_result_def ch_new_def one_null_row_def is_success_def)
qed

text \<open>C15. A parameter cannot become SQL. When a statement with parameters is sent, its text depends on the
  caller's SQL alone, with one typed placeholder for every parameter; the n-th parameter travels under
  the n-th name, no name twice, as digits that the server's \<open>unhex\<close> turns back into exactly its
  bytes; and a statement with NULL among its parameters, or the wrong number of them, is not sent.\<close>

theorem ch_parameters_stay_apart:
  assumes "bind_parameters sql ps = Inr (q, pairs)"
  shows "q = fst (rewrite_question_marks sql) \<and> placeholders_before Outside sql (length sql) = length ps \<and> CNull \<notin> set ps
    \<and> map fst pairs = map param_key [0..<length ps] \<and> distinct (map fst pairs)
    \<and> map (unhex \<circ> snd) pairs = map (Some \<circ> cell_bytes) ps"
proof -
  have n: "snd (rewrite_question_marks sql) = length ps" and q: "q = fst (rewrite_question_marks sql)"
    and pairs: "build_param_query_pairs ps = Inr pairs"
    using assms by (auto simp: bind_parameters_def pair_simps split: if_splits)
  have "placeholders_before Outside sql (length sql) = length ps"
    using n rewrite_loop_expand [of False False "[]" 0 sql]
    by (simp add: rewrite_question_marks_def expand_def mode_of_def)
  moreover have "inj_on param_key S" for S
    by (rule inj_onI) (simp add: param_key_def)
  moreover have "map (\<lambda>i. Some (cell_bytes (ps ! i))) [0..<length ps] = map (Some \<circ> cell_bytes) ps"
    by (rule nth_equalityI) simp_all
  ultimately show ?thesis
    using q pairs by (simp add: build_pairs_Inr comp_def distinct_map)
qed

theorem ch_parameters_stay_apart_witness:
  "bind_parameters ''SELECT ?'' [CText ''1); DROP TABLE t --''] =
     Inr (''SELECT unhex({p1:String})'', [(''param_p1'', to_hex (as_bytes ''1); DROP TABLE t --''))])
   \<and> map (unhex \<circ> snd) [(''param_p1'', to_hex (as_bytes ''1); DROP TABLE t --''))] = [Some (as_bytes ''1); DROP TABLE t --'')]"
proof -
  have b: "bind_parameters ''SELECT ?'' [CText ''1); DROP TABLE t --''] =
     Inr (''SELECT unhex({p1:String})'', [(''param_p1'', to_hex (as_bytes ''1); DROP TABLE t --''))])"
    by code_simp
  show ?thesis using b ch_parameters_stay_apart [OF b] by (simp add: cell_bytes_def)
qed

end
