(* ===== verification/ClickhouseSteady.thy ===== *)
theory ClickhouseSteady
  imports Main Prelude Lib Core Effects Clickhouse ClickhouseDriver
begin

text \<open>
  What the calls of \<open>driver-clickhouse/src/driver.rs\<close> leave alone. Between connecting and disconnecting
  every request goes out through \<open>send_request\<close>, and apart from that a call writes only the slot of the
  query in flight and the current database. The locale \<open>request_kept\<close> is a property of the driver and its
  server that these three keep; then every call keeps it. It is interpreted here on the fields of the
  driver no call writes (the client, the query timeout, the configuration), and in \<open>Drivers\<close> on the
  requests that carry the time limit.
\<close>

definition holds_slot :: "('cl ChDriver \<Rightarrow> 'x) \<Rightarrow> 'x \<Rightarrow> ('cl, 's) ch_world \<Rightarrow> bool" where
  "holds_slot p x w \<longleftrightarrow> p (fst w) = x"

locale request_kept =
  fixes E :: "('cl, 's) http_env" and J :: "('cl, 's) ch_world \<Rightarrow> bool"
  assumes sent: "J w \<Longrightarrow> J (snd (send_request E cn body extra w))"
    and released: "J w \<Longrightarrow> J (on_drv (clear_active_query_id qid) w)"
    and moved: "J w \<Longrightarrow> J (on_drv (set_current_database n) w)"
begin

lemma same_with_request: "keeps J (with_request E cn body extra f)"
  unfolding with_request_def split_def
  by (intro keeps_bind keeps_finally keeps_lift keepsI) (rule sent, assumption, rule released)

lemma same_with_client: "(\<And>cn. keeps J (f cn)) \<Longrightarrow> keeps J (with_client f)"
  unfolding with_client_def by (intro keeps_with keeps_bind keeps_lift)

lemma same_in_database: "(\<And>cn n. keeps J (f cn n)) \<Longrightarrow> keeps J (in_database schema f)"
  unfolding in_database_def by (intro same_with_client keeps_with)

lemma same_run_tsv: "keeps J (run_tsv L E cn sql)"
  unfolding run_tsv_def by (rule same_with_request)

lemma same_run_tsv_parameterized: "keeps J (run_tsv_parameterized L E cn sql ps)"
  unfolding run_tsv_parameterized_def split_def by (intro keeps_bind keeps_lift same_with_request)

lemma same_rows_via: "keeps J (rows_via L E cn sql names f)"
  unfolding rows_via_def by (intro keeps_bind keeps_map keeps_lift same_run_tsv_parameterized)

lemma same_moved: "keeps J (op_update (on_drv (set_current_database n)))"
  by (rule keeps_update) (rule moved)

lemmas same_client = keeps_bind keeps_map keeps_lift same_with_client same_in_database same_with_request same_run_tsv
  same_run_tsv_parameterized same_rows_via same_moved

lemma same_ch_stream:
  assumes w: "J w"
  shows "J (snd (ch_stream_rows L E q w))"
proof -
  let ?head = "with_client (\<lambda>cn. op_bind (fetch_probe_header E cn q []) (\<lambda>h. op_lift (Inr (cn, h))))"
  have k: "keeps J ?head"
    unfolding fetch_probe_header_def by (intro same_client)
  obtain r w1 where h: "?head w = (r, w1)" by (rule prod.exhaust)
  have w1: "J w1" using keeps_result [OF k w h] .
  show ?thesis
  proof (cases r)
    case (Inl e)
    then show ?thesis using w1 h by (simp add: ch_stream_rows_def)
  next
    case (Inr y)
    obtain cn hd1 where y: "y = (cn, hd1)" by (cases y)
    let ?body = "with_request E cn q [(''default_format'', ''JSONEachRow'')] (\<lambda>resp. Inr (stream_body L (sh_columns hd1) (hr_body resp)))"
    obtain r2 w2 where b: "?body w1 = (r2, w2)" by (rule prod.exhaust)
    have "J w2" using keeps_result [OF same_with_request w1 b] .
    then show ?thesis using h Inr y b by (cases r2) (auto simp: ch_stream_rows_def)
  qed
qed

lemma same_methods:
  "keeps J (ch_execute L E t q)" "keeps J (ch_execute_parameterized L E t q ps)"
  "keeps J (ch_execute_user_query L E t q cap ps')"
  "keeps J (ch_create_database L E rq)" "keeps J (ch_drop_database L E n)"
  "keeps J (ch_switch_database L E n)" "keeps J (ch_fetch_databases L E)"
  "keeps J (ch_fetch_tables L E sc)" "keeps J (ch_fetch_columns L E n sc)"
  "keeps J (ch_fetch_indexes L E n sc)" "keeps J (ch_fetch_table_ddl L E n sc)"
  "keeps J (ch_fetch_view_definition L E n sc)" "keeps J (ch_fetch_table_metadata L E n sc)"
  "keeps J (ch_fetch_database_metadata L E n)"
proof -
  show "keeps J (ch_execute L E t q)" "keeps J (ch_execute_parameterized L E t q ps)"
    "keeps J (ch_create_database L E rq)" "keeps J (ch_drop_database L E n)"
    "keeps J (ch_fetch_databases L E)"
    unfolding ch_execute_def ch_execute_parameterized_def ch_create_database_def ch_drop_database_def ch_fetch_databases_def
    by (intro same_client)+
  show "keeps J (ch_execute_user_query L E t q cap ps')"
    unfolding ch_execute_user_query_def execute_user_query_capped_def capped_streaming_def capped_buffered_def fetch_probe_header_def
    by (cases ps') (auto simp: split_def intro!: same_client)
  show "keeps J (ch_switch_database L E n)"
    unfolding ch_switch_database_def validate_database_exists_def by (intro same_client)
  show "keeps J (ch_fetch_tables L E sc)" "keeps J (ch_fetch_columns L E n sc)"
    "keeps J (ch_fetch_indexes L E n sc)" "keeps J (ch_fetch_table_ddl L E n sc)"
    "keeps J (ch_fetch_view_definition L E n sc)" "keeps J (ch_fetch_table_metadata L E n sc)"
    unfolding ch_fetch_tables_def ch_fetch_columns_def ch_fetch_indexes_def ch_fetch_table_ddl_def ch_fetch_view_definition_def
      ch_fetch_table_metadata_def ch_tables_in_def ch_columns_of_def ch_indexes_of_def ch_create_query_of_def ch_table_metadata_of_def
    by (intro same_client)+
  have "keeps J (\<lambda>w. let (r, w1) = run_tsv_parameterized L E cn s ps w in (Inr (f r), w1))" for cn s ps f
    using keepsD [OF same_run_tsv_parameterized] by (auto intro!: keepsI simp: pair_simps)
  then show "keeps J (ch_fetch_database_metadata L E n)"
    unfolding ch_fetch_database_metadata_def by (intro same_with_client)
qed

end

section \<open>The fields no call writes\<close>

lemma slot_kept:
  assumes "\<And>d q. p (d \<lparr> cd_active_query_id := q \<rparr>) = p d" "\<And>d n. p (d \<lparr> cd_current_database := n \<rparr>) = p d"
  shows "request_kept E (holds_slot p x)"
  by unfold_locales
    (simp_all add: holds_slot_def on_drv_def clear_active_query_id_def set_current_database_def send_request_def
      Let_def assms split: prod.split sum.split)

interpretation steady_client: request_kept E "holds_slot cd_client x" for E x
  by (rule slot_kept) simp_all

interpretation steady_timeout: request_kept E "holds_slot cd_query_timeout x" for E x
  by (rule slot_kept) simp_all

interpretation steady_config: request_kept E "holds_slot cd_config x" for E x
  by (rule slot_kept) simp_all

end
