(* ===== verification/ClickhouseSlot.thy ===== *)
theory ClickhouseSlot
  imports Main Prelude Core Effects Clickhouse ClickhouseDriver
begin

text \<open>
  The query slot of \<open>driver-clickhouse/src/driver.rs\<close> under concurrency. Calls on one driver object
  share its read lock, so their requests overlap, while the driver has one slot for the identifier of
  the query in flight; \<open>cancel_query\<close> looks at the slot. Every access to the slot is one step of the
  relation \<open>slot_step\<close>; the write lock makes \<open>disconnect\<close> wait for the requests. A future that is
  dropped while its request is still being sent leaves the slot as it is, since the guard that
  releases it does not exist yet; one dropped later releases it like one that ends.
\<close>

section \<open>States and steps\<close>

datatype request = Sending string | Reading string | Ended

text \<open>The driver, the requests by task, the identifiers drawn, the latest first, and those whose
  request was dropped while being sent.\<close>

record 'cl slot_state =
  sl_driver :: "'cl ChDriver"
  sl_requests :: "nat \<Rightarrow> request option"
  sl_drawn :: "string list"
  sl_dropped :: "string set"

definition slot_init :: "ConnectionConfig \<Rightarrow> 'cl slot_state" where
  "slot_init c = \<lparr> sl_driver = ch_new c, sl_requests = Map.empty, sl_drawn = [], sl_dropped = {} \<rparr>"

definition in_flight :: "'cl slot_state \<Rightarrow> string \<Rightarrow> bool" where
  "in_flight s q \<longleftrightarrow> (\<exists>t. sl_requests s t = Some (Sending q) \<or> sl_requests s t = Some (Reading q))"

definition set_request :: "nat \<Rightarrow> request \<Rightarrow> 'cl slot_state \<Rightarrow> 'cl slot_state" where
  "set_request t r s = s \<lparr> sl_requests := (sl_requests s)(t \<mapsto> r) \<rparr>"

definition with_driver :: "('cl ChDriver \<Rightarrow> 'cl ChDriver) \<Rightarrow> 'cl slot_state \<Rightarrow> 'cl slot_state" where
  "with_driver g s = s \<lparr> sl_driver := g (sl_driver s) \<rparr>"

inductive slot_step :: "'cl slot_state \<Rightarrow> 'cl slot_state \<Rightarrow> bool" where
  request_sent: "sl_requests s t = None \<Longrightarrow> q \<notin> set (sl_drawn s) \<Longrightarrow> cd_client (sl_driver s) \<noteq> None \<Longrightarrow>
    slot_step s (set_request t (Sending q) (with_driver (\<lambda>d. d \<lparr> cd_active_query_id := Some q \<rparr>)
      (s \<lparr> sl_drawn := q # sl_drawn s \<rparr>)))"
| request_failed: "sl_requests s t = Some (Sending q) \<Longrightarrow>
    slot_step s (set_request t Ended (with_driver (clear_active_query_id q) s))"
| request_answered: "sl_requests s t = Some (Sending q) \<Longrightarrow> slot_step s (set_request t (Reading q) s)"
| request_dropped: "sl_requests s t = Some (Sending q) \<Longrightarrow>
    slot_step s (set_request t Ended (s \<lparr> sl_dropped := insert q (sl_dropped s) \<rparr>))"
| guard_dropped: "sl_requests s t = Some (Reading q) \<Longrightarrow>
    slot_step s (set_request t Ended (with_driver (clear_active_query_id q) s))"
| connected: "slot_step s (with_driver (ch_adopt cl version) s)"
| disconnected: "(\<And>q. \<not> in_flight s q) \<Longrightarrow> slot_step s (with_driver (\<lambda>d. fst (snd (ch_disconnect (d, ())))) s)"

inductive slot_reachable :: "ConnectionConfig \<Rightarrow> 'cl slot_state \<Rightarrow> bool" for c :: ConnectionConfig where
  slot_start: "slot_reachable c (slot_init c)"
| slot_next: "slot_reachable c s \<Longrightarrow> slot_step s s' \<Longrightarrow> slot_reachable c s'"

section \<open>The invariant\<close>

lemma slot_simps [simp]:
  "sl_requests (set_request t r s) = (sl_requests s)(t \<mapsto> r)" "sl_driver (set_request t r s) = sl_driver s"
  "sl_drawn (set_request t r s) = sl_drawn s" "sl_dropped (set_request t r s) = sl_dropped s"
  "sl_requests (with_driver g s) = sl_requests s" "sl_driver (with_driver g s) = g (sl_driver s)"
  "sl_drawn (with_driver g s) = sl_drawn s" "sl_dropped (with_driver g s) = sl_dropped s"
  by (simp_all add: set_request_def with_driver_def)

lemma slot_of_clear [simp]:
  "cd_active_query_id (clear_active_query_id q d) = (if cd_active_query_id d = Some q then None else cd_active_query_id d)"
  by (simp add: clear_active_query_id_def)

lemma slot_of_disconnect [simp]: "cd_active_query_id (fst (snd (ch_disconnect (d, u)))) = None"
  by (simp add: ch_disconnect_def on_drv_def set_current_database_def)

lemma slot_of_adopt [simp]: "cd_active_query_id (ch_adopt cl v d) = cd_active_query_id d"
  by (simp add: ch_adopt_def Let_def)

text \<open>The identifier a request works under.\<close>

fun request_id :: "request \<Rightarrow> string option" where
  "request_id (Sending q) = Some q"
| "request_id (Reading q) = Some q"
| "request_id Ended = None"

definition works_under :: "'cl slot_state \<Rightarrow> nat \<Rightarrow> string option" where
  "works_under s t = Option.bind (sl_requests s t) request_id"

lemma in_flight_works: "in_flight s q \<longleftrightarrow> (\<exists>t. works_under s t = Some q)"
proof -
  have "works_under s t = Some q \<longleftrightarrow> sl_requests s t = Some (Sending q) \<or> sl_requests s t = Some (Reading q)" for t
    by (cases "sl_requests s t"; cases "the (sl_requests s t)") (auto simp: works_under_def)
  then show ?thesis by (simp add: in_flight_def)
qed

lemma works_under_set [simp]:
  "works_under (set_request t r s) u = (if u = t then request_id r else works_under s u)"
  "works_under (with_driver g s) u = works_under s u"
  by (simp_all add: works_under_def)

lemma works_under_request: "sl_requests s t = Some r \<Longrightarrow> works_under s t = request_id r"
  "sl_requests s t = None \<Longrightarrow> works_under s t = None"
  by (simp_all add: works_under_def)

lemma works_under_fields [simp]:
  "works_under (s \<lparr> sl_drawn := x \<rparr>) u = works_under s u" "works_under (s \<lparr> sl_dropped := y \<rparr>) u = works_under s u"
  by (simp_all add: works_under_def)

text \<open>Requests have different identifiers, all drawn; the slot holds one in flight or dropped; and the
  latest holds the slot as long as it is in flight.\<close>

definition slot_ok :: "'cl slot_state \<Rightarrow> bool" where
  "slot_ok s \<longleftrightarrow> (\<forall>t u q. works_under s t = Some q \<longrightarrow> works_under s u = Some q \<longrightarrow> t = u)
     \<and> (\<forall>t q. works_under s t = Some q \<longrightarrow> q \<in> set (sl_drawn s))
     \<and> (\<forall>q. cd_active_query_id (sl_driver s) = Some q \<longrightarrow> (\<exists>t. works_under s t = Some q) \<or> q \<in> sl_dropped s)
     \<and> (\<forall>q qs t. sl_drawn s = q # qs \<longrightarrow> works_under s t = Some q \<longrightarrow> cd_active_query_id (sl_driver s) = Some q)"

lemma slot_okD:
  assumes "slot_ok s"
  shows "works_under s t = Some q \<Longrightarrow> works_under s u = Some q \<Longrightarrow> t = u" "works_under s t = Some q \<Longrightarrow> q \<in> set (sl_drawn s)"
    "cd_active_query_id (sl_driver s) = Some q \<Longrightarrow> (\<exists>t. works_under s t = Some q) \<or> q \<in> sl_dropped s"
    "sl_drawn s = q # qs \<Longrightarrow> works_under s t = Some q \<Longrightarrow> cd_active_query_id (sl_driver s) = Some q"
  using assms unfolding slot_ok_def by blast+

text \<open>A request that ends and releases the slot.\<close>

lemma slot_ok_release:
  assumes ok: "slot_ok s" and t: "works_under s t = Some q"
  shows "slot_ok (set_request t Ended (with_driver (clear_active_query_id q) s))"
proof -
  note D = slot_okD [OF ok]
  have only: "works_under s u = Some q \<Longrightarrow> u = t" for u using D(1) [OF t, of u] by auto
  have "(\<exists>u. u \<noteq> t \<and> works_under s u = Some p) \<or> p \<in> sl_dropped s"
    if "cd_active_query_id (sl_driver s) = Some p" "p \<noteq> q" for p
    using D(3) [OF that(1)] t that(2) by (metis option.inject)
  then show ?thesis
    using D(1,2,4) t unfolding slot_ok_def by (auto split: if_splits dest: only)
qed

lemma slot_step_ok:
  assumes "slot_step s s'" "slot_ok s"
  shows "slot_ok s'"
  using assms
proof (induction rule: slot_step.induct)
  case (request_sent s t q)
  note D = slot_okD [OF request_sent.prems]
  have "works_under s t = None" using request_sent.hyps(1) by (rule works_under_request)
  then show ?case using D(1,2) request_sent.hyps(2) unfolding slot_ok_def by (auto split: if_splits)
next
  case (request_failed s t q)
  then show ?case by (intro slot_ok_release) (simp_all add: works_under_request)
next
  case (request_answered s t q)
  then have "works_under (set_request t (Reading q) s) = works_under s" by (auto simp: works_under_request)
  then show ?case using request_answered.prems by (simp add: slot_ok_def)
next
  case (request_dropped s t q)
  note D = slot_okD [OF request_dropped.prems]
  have t: "works_under s t = Some q" using request_dropped.hyps by (simp add: works_under_request)
  have "(\<exists>u. u \<noteq> t \<and> works_under s u = Some p) \<or> p = q \<or> p \<in> sl_dropped s"
    if "cd_active_query_id (sl_driver s) = Some p" for p
    using D(3) [OF that] t by (metis option.inject)
  then show ?case using D(1,2,4) unfolding slot_ok_def by (auto split: if_splits)
next
  case (guard_dropped s t q)
  then show ?case by (intro slot_ok_release) (simp_all add: works_under_request)
next
  case (connected s cl version)
  then show ?case by (simp add: slot_ok_def)
next
  case (disconnected s)
  then have "works_under s t \<noteq> Some q" for t q by (auto simp: in_flight_works)
  then show ?case using disconnected.prems by (simp add: slot_ok_def)
qed

lemma slot_reachable_ok: "slot_reachable c s \<Longrightarrow> slot_ok s"
proof (induction rule: slot_reachable.induct)
  case slot_start
  show ?case by (simp add: slot_ok_def slot_init_def works_under_def ch_new_def)
next
  case (slot_next s s')
  then show ?case by (blast intro: slot_step_ok)
qed

lemma cancel_latest:
  assumes "slot_ok s" "sl_drawn s = q # qs" "in_flight s q" "cd_cancel_context (sl_driver s) = Some cx"
  shows "ch_cancel_query (sl_driver s) = Some (cx_client cx, kill_request cx q)"
proof -
  obtain t where "works_under s t = Some q" using assms(3) by (auto simp: in_flight_works)
  then have "cd_active_query_id (sl_driver s) = Some q" by (rule slot_okD(4) [OF assms(1,2)])
  then show ?thesis using assms(4) by (simp add: ch_cancel_query_def)
qed

lemma cancel_in_flight:
  assumes "slot_ok s" "ch_cancel_query (sl_driver s) = Some (cl, rq)"
  shows "\<exists>cx q. cd_cancel_context (sl_driver s) = Some cx \<and> cl = cx_client cx \<and> rq = kill_request cx q
    \<and> (in_flight s q \<or> q \<in> sl_dropped s)"
proof -
  obtain cx q where q: "cd_cancel_context (sl_driver s) = Some cx" "cd_active_query_id (sl_driver s) = Some q"
    "cl = cx_client cx" "rq = kill_request cx q"
    using assms(2) by (auto simp: ch_cancel_query_def split: option.splits)
  then show ?thesis using slot_okD(3) [OF assms(1) q(2)] by (auto simp: in_flight_works)
qed

section \<open>Properties\<close>

text \<open>C21. A cancel hits the right query. However the requests on one driver overlap: while the request
  started last is in flight, a cancel asks to kill exactly that one; and what a cancel asks to kill is
  in flight or was dropped while being sent, never a query that was answered or refused.\<close>

theorem cancel_hits_the_latest:
  assumes "slot_reachable c s"
  shows "(\<forall>q qs cx. sl_drawn s = q # qs \<and> in_flight s q \<and> cd_cancel_context (sl_driver s) = Some cx
      \<longrightarrow> ch_cancel_query (sl_driver s) = Some (cx_client cx, kill_request cx q))
    \<and> (\<forall>cl rq. ch_cancel_query (sl_driver s) = Some (cl, rq)
      \<longrightarrow> (\<exists>cx q. cd_cancel_context (sl_driver s) = Some cx \<and> cl = cx_client cx \<and> rq = kill_request cx q
        \<and> (in_flight s q \<or> q \<in> sl_dropped s)))"
  using cancel_latest [OF slot_reachable_ok [OF assms]] cancel_in_flight [OF slot_reachable_ok [OF assms]] by blast

text \<open>Two overlapping requests, the second of which ends first: the first is in flight and cannot be
  cancelled.\<close>

definition two_requests :: "unit slot_state" where
  "two_requests = set_request 1 (Sending ''b'') (with_driver (\<lambda>d. d \<lparr> cd_active_query_id := Some ''b'' \<rparr>)
     (let s = set_request 0 (Sending ''a'') (with_driver (\<lambda>d. d \<lparr> cd_active_query_id := Some ''a'' \<rparr>)
        (let s0 = with_driver (ch_adopt () None) (slot_init read_only_config) in s0 \<lparr> sl_drawn := ''a'' # sl_drawn s0 \<rparr>))
      in s \<lparr> sl_drawn := ''b'' # sl_drawn s \<rparr>))"

lemma two_requests_reachable: "slot_reachable read_only_config two_requests"
  unfolding two_requests_def Let_def
  by (rule slot_next [OF slot_next [OF slot_next [OF slot_start connected] request_sent] request_sent])
    (simp_all add: slot_init_def ch_adopt_def Let_def)

theorem cancel_hits_the_latest_witness:
  "ch_cancel_query (sl_driver two_requests) = Some ((), kill_request \<lparr> cx_client = (), cx_base_url = resolve_base_url read_only_config,
     cx_username = resolve_username read_only_config, cx_password = Some ''p'' \<rparr> ''b'')"
proof -
  let ?cx = "\<lparr> cx_client = (), cx_base_url = resolve_base_url read_only_config,
     cx_username = resolve_username read_only_config, cx_password = Some ''p'' \<rparr>"
  have "in_flight two_requests ''b''" "sl_drawn two_requests = [''b'', ''a'']" "cd_cancel_context (sl_driver two_requests) = Some ?cx"
    by (auto simp: in_flight_def two_requests_def Let_def slot_init_def ch_adopt_def ch_new_def read_only_config_def
        intro: exI [of _ "1 :: nat"])
  then show ?thesis using cancel_hits_the_latest [OF two_requests_reachable] by auto
qed

theorem earlier_request_cannot_be_cancelled:
  "\<exists>s :: unit slot_state. slot_reachable read_only_config s \<and> in_flight s ''a'' \<and> ch_cancel_query (sl_driver s) = None"
proof (intro exI conjI)
  let ?s = "set_request 1 Ended (with_driver (clear_active_query_id ''b'') two_requests)"
  show "slot_reachable read_only_config ?s"
    by (rule slot_next [OF two_requests_reachable request_failed]) (simp add: two_requests_def)
  show "in_flight ?s ''a''"
    by (auto simp: in_flight_def two_requests_def intro: exI [of _ "0 :: nat"])
  show "ch_cancel_query (sl_driver ?s) = None"
    by (simp add: ch_cancel_query_def two_requests_def split: option.split)
qed

text \<open>A cancel does not know whose it is either: when the backstop fires for an earlier request, its future
  is dropped, and the cancel that follows asks to kill the later one, of another call.\<close>

theorem backstop_cancels_the_later_request:
  assumes s: "slot_reachable c s" "sl_drawn s = q # qs" "in_flight s q" and cx: "cd_cancel_context (sl_driver s) = Some cx"
    and t: "works_under s t = Some p" "p \<noteq> q"
  shows "\<exists>s'. slot_step s s' \<and> works_under s' t = None
    \<and> ch_cancel_query (sl_driver s') = Some (cx_client cx, kill_request cx q)"
proof -
  obtain u where "works_under s u = Some q" using s(3) by (auto simp: in_flight_works)
  then have active: "cd_active_query_id (sl_driver s) = Some q" by (rule slot_okD(4) [OF slot_reachable_ok [OF s(1)] s(2)])
  consider "sl_requests s t = Some (Sending p)" | "sl_requests s t = Some (Reading p)"
    using t(1) by (cases "sl_requests s t"; cases "the (sl_requests s t)") (auto simp: works_under_def)
  then show ?thesis
  proof cases
    case 1
    from slot_step.request_dropped [OF this] show ?thesis
      using active cx by (intro exI conjI) (assumption | simp add: ch_cancel_query_def)+
  next
    case 2
    from slot_step.guard_dropped [OF this] show ?thesis
      using active cx t(2) by (intro exI conjI) (assumption | simp add: ch_cancel_query_def clear_active_query_id_def)+
  qed
qed

end
