(* ===== verification/ClickhouseStream.thy ===== *)
theory ClickhouseStream
  imports Main Prelude Lib Core Effects Clickhouse ClickhouseDriver
begin

text \<open>
  The stream of \<open>driver-clickhouse/src/stream.rs\<close> against the capped query of \<open>query.rs\<close>: two loops
  over the same body, written apart, one of which yields batches while it reads. They return the same
  rows and fail with the same error, on every body.
\<close>

section \<open>Batches of a stream\<close>

definition full_batches :: "StreamElement list \<Rightarrow> bool" where
  "full_batches es \<longleftrightarrow> list_all (\<lambda>e. case e of Rows rs \<Rightarrow> length rs = JSON_BATCH_SIZE | Header _ \<Rightarrow> False) es"

lemma full_batches_simps [simp]:
  "full_batches []" "full_batches (Rows rs # es) \<longleftrightarrow> length rs = JSON_BATCH_SIZE \<and> full_batches es"
  "full_batches (xs @ ys) \<longleftrightarrow> full_batches xs \<and> full_batches ys"
  by (simp_all add: full_batches_def)

section \<open>The loops\<close>

text \<open>How the loops correspond: \<open>rows\<close> is what the capped loop holds, \<open>pre\<close> what the stream has yielded
  and \<open>batch\<close> what it has not. The result of the stream's loop determines that of the capped one.\<close>

definition same_progress ::
  "CellValue list list \<Rightarrow> StreamElement list \<times> (CellValue list list \<times> nat \<times> string \<times> bool) dres
   \<Rightarrow> (CellValue list list \<times> string \<times> bool) dres \<Rightarrow> bool" where
  "same_progress pre x y \<longleftrightarrow> full_batches (fst x) \<and> (case snd x of
     Inl e \<Rightarrow> y = Inl e
   | Inr (batch, n, buffer, full) \<Rightarrow> y = Inr (pre @ streamed_rows (fst x) @ batch, buffer, full)
       \<and> n = length pre + length (streamed_rows (fst x)) + length batch
       \<and> length batch < JSON_BATCH_SIZE \<and> (full \<longleftrightarrow> n \<ge> EMERGENCY_MAX))"

lemma same_progress_yield:
  assumes "same_progress (pre @ streamed_rows out) (out2, r) y" "full_batches out"
  shows "same_progress pre (out @ out2, r) y"
  using assms by (auto simp: same_progress_def split: sum.splits prod.splits)

lemma lines_same_progress:
  assumes "n = length pre + length batch" "length batch < JSON_BATCH_SIZE" "n < EMERGENCY_MAX"
  shows "same_progress pre (stream_lines L columns batch n buffer) (drain_lines L columns EMERGENCY_MAX (pre @ batch) buffer)"
  using assms
proof (induction "length buffer" arbitrary: pre batch n buffer rule: less_induct)
  case less
  show ?case
  proof (cases "find_char LF buffer")
    case None
    then show ?thesis using less.prems
      by (subst stream_lines.simps, subst drain_lines.simps) (simp add: same_progress_def)
  next
    case (Some i)
    let ?rest = "drop (i + 1) buffer"
    have short: "length ?rest < length buffer" using find_char_Some [OF Some] by auto
    show ?thesis
    proof (cases "trim (take i buffer) = []")
      case True
      then show ?thesis using less.hyps [OF short less.prems] Some
        by (subst stream_lines.simps, subst drain_lines.simps) simp
    next
      case nonblank: False
      show ?thesis
      proof (cases "parse_row L (take i buffer) columns")
        case (Inl e)
        then show ?thesis using Some nonblank
          by (subst stream_lines.simps, subst drain_lines.simps) (simp add: same_progress_def)
      next
        case (Inr row)
        define full where "full \<longleftrightarrow> JSON_BATCH_SIZE \<le> length (batch @ [row])"
        define out where "out = (if full then [Rows (batch @ [row])] else [])"
        define batch2 where "batch2 = (if full then [] else batch @ [row])"
        have len: "length (batch @ [row]) \<le> JSON_BATCH_SIZE" using less.prems(2) by simp
        have out: "full_batches out" "streamed_rows out @ batch2 = batch @ [row]" "length batch2 < JSON_BATCH_SIZE"
          using len by (auto simp: out_def batch2_def full_def JSON_BATCH_SIZE_def)
        have n: "Suc n = length (pre @ streamed_rows out) + length batch2"
          using less.prems(1) arg_cong [OF out(2), of length] by simp
        have len2: "length (streamed_rows out) + length batch2 = Suc (length batch)"
          using arg_cong [OF out(2), of length] by simp
        have rows: "(pre @ batch) @ [row] = (pre @ streamed_rows out) @ batch2" using out(2) by simp
        have s: "stream_lines L columns batch n buffer =
            (if EMERGENCY_MAX \<le> Suc n then (out, Inr (batch2, Suc n, ?rest, True))
             else (out @ fst (stream_lines L columns batch2 (Suc n) ?rest), snd (stream_lines L columns batch2 (Suc n) ?rest)))"
          using Some nonblank Inr unfolding out_def batch2_def full_def
          by (subst stream_lines.simps) (simp add: Let_def pair_simps)
        have d: "drain_lines L columns EMERGENCY_MAX (pre @ batch) buffer =
            (if EMERGENCY_MAX \<le> Suc n then Inr ((pre @ streamed_rows out) @ batch2, ?rest, True)
             else drain_lines L columns EMERGENCY_MAX ((pre @ streamed_rows out) @ batch2) ?rest)"
          using Some nonblank Inr rows n less.prems(1) by (subst drain_lines.simps) (simp add: len2)
        show ?thesis
        proof (cases "EMERGENCY_MAX \<le> Suc n")
          case True
          then show ?thesis using out n unfolding s d by (simp add: same_progress_def)
        next
          case False
          then have "same_progress (pre @ streamed_rows out) (stream_lines L columns batch2 (Suc n) ?rest)
              (drain_lines L columns EMERGENCY_MAX ((pre @ streamed_rows out) @ batch2) ?rest)"
            using n out(3) by (intro less.hyps [OF short]) simp_all
          then show ?thesis using False out(1) unfolding s d
            by (simp add: same_progress_yield)
        qed
      qed
    qed
  qed
qed

text \<open>The loop over the chunks; the capped one also says whether it stopped at the cap.\<close>

definition same_chunks ::
  "CellValue list list \<Rightarrow> StreamElement list \<times> (CellValue list list \<times> nat \<times> string) dres
   \<Rightarrow> (CellValue list list \<times> string \<times> bool) dres \<Rightarrow> bool" where
  "same_chunks pre x y \<longleftrightarrow> full_batches (fst x) \<and> (case snd x of
     Inl e \<Rightarrow> y = Inl e
   | Inr (batch, n, buffer) \<Rightarrow> y = Inr (pre @ streamed_rows (fst x) @ batch, buffer, n \<ge> EMERGENCY_MAX)
       \<and> n = length pre + length (streamed_rows (fst x)) + length batch \<and> length batch < JSON_BATCH_SIZE)"

lemma same_chunks_yield:
  assumes "same_chunks (pre @ streamed_rows out) (out2, r) y" "full_batches out"
  shows "same_chunks pre (out @ out2, r) y"
  using assms by (auto simp: same_chunks_def split: sum.splits prod.splits)

lemma chunks_same:
  assumes "n = length pre + length batch" "length batch < JSON_BATCH_SIZE" "n < EMERGENCY_MAX"
  shows "same_chunks pre (stream_chunks L columns batch n buffer chunks)
    (read_chunks L columns EMERGENCY_MAX (pre @ batch) buffer chunks)"
  using assms
proof (induction chunks arbitrary: pre batch n buffer)
  case Nil
  then show ?case by (simp add: same_chunks_def)
next
  case (Cons c cs)
  show ?case
  proof (cases c)
    case (Inl e)
    then show ?thesis by (simp add: same_chunks_def)
  next
    case (Inr bs)
    let ?b = "buffer @ from_utf8_lossy bs"
    obtain out r where s: "stream_lines L columns batch n ?b = (out, r)" by (rule prod.exhaust)
    have p: "same_progress pre (out, r) (drain_lines L columns EMERGENCY_MAX (pre @ batch) ?b)"
      using lines_same_progress [OF Cons.prems, of L columns ?b] s by simp
    show ?thesis
    proof (cases r)
      case (Inl e)
      then show ?thesis using p s Inr by (simp add: same_progress_def same_chunks_def)
    next
      case r: (Inr q)
      obtain batch1 n1 buffer1 full where q: "q = (batch1, n1, buffer1, full)" by (cases q)
      have d: "drain_lines L columns EMERGENCY_MAX (pre @ batch) ?b = Inr ((pre @ streamed_rows out) @ batch1, buffer1, full)"
        and n1: "n1 = length (pre @ streamed_rows out) + length batch1" "length batch1 < JSON_BATCH_SIZE" "full \<longleftrightarrow> n1 \<ge> EMERGENCY_MAX"
        and out: "full_batches out"
        using p r q by (simp_all add: same_progress_def)
      show ?thesis
      proof (cases full)
        case True
        then show ?thesis using s r q d n1 out Inr by (simp add: same_chunks_def)
      next
        case False
        then have "same_chunks (pre @ streamed_rows out) (stream_chunks L columns batch1 n1 buffer1 cs)
            (read_chunks L columns EMERGENCY_MAX ((pre @ streamed_rows out) @ batch1) buffer1 cs)"
          using n1 by (intro Cons.IH) simp_all
        then show ?thesis using False s r q d out Inr by (simp add: pair_simps same_chunks_yield)
      qed
    qed
  qed
qed

section \<open>Properties\<close>

text \<open>C22. A stream is the capped query with the largest cap, in batches. On every body, however cut and
  however malformed: if the stream ends well, its rows one after the other are the rows of the capped
  query, in batches of 5000 but for the last, which holds what is left; if it ends in an error, the
  capped query fails with the same one, and what was yielded before are full batches.\<close>

theorem stream_is_capped_query:
  "case stream_body L columns chunks of
     (out, Inl e) \<Rightarrow> full_batches out \<and> read_json_rows L columns EMERGENCY_MAX chunks = Inl e
   | (out, Inr _) \<Rightarrow> res_map fst (read_json_rows L columns EMERGENCY_MAX chunks) = Inr (streamed_rows out)
       \<and> (\<exists>batches rest. out = batches @ (if rest = [] then [] else [Rows rest]) \<and> full_batches batches
            \<and> length rest \<le> JSON_BATCH_SIZE)"
proof -
  obtain out r where s: "stream_chunks L columns [] 0 [] chunks = (out, r)" by (rule prod.exhaust)
  have c: "same_chunks [] (out, r) (read_chunks L columns EMERGENCY_MAX [] [] chunks)"
    using chunks_same [of 0 "[]" "[]" L columns "[]" chunks] s by (simp add: JSON_BATCH_SIZE_def EMERGENCY_MAX_def)
  show ?thesis
  proof (cases r)
    case (Inl e)
    then show ?thesis using c s by (simp add: same_chunks_def stream_body_def read_json_rows_def)
  next
    case (Inr q)
    obtain batch n buffer where q: "q = (batch, n, buffer)" by (cases q)
    have rd: "read_chunks L columns EMERGENCY_MAX [] [] chunks = Inr (streamed_rows out @ batch, buffer, n \<ge> EMERGENCY_MAX)"
      and b: "full_batches out" "length batch < JSON_BATCH_SIZE"
      using c Inr q by (simp_all add: same_chunks_def)
    have tail: "\<exists>batches rest. out @ (if xs = [] then [] else [Rows xs]) = batches @ (if rest = [] then [] else [Rows rest])
        \<and> full_batches batches \<and> length rest \<le> JSON_BATCH_SIZE" if "length xs \<le> JSON_BATCH_SIZE" for xs
      using b(1) that by blast
    show ?thesis
    proof (cases "n < EMERGENCY_MAX \<and> trim buffer \<noteq> []")
      case False
      then show ?thesis using rd s Inr q b tail [of batch]
        by (auto simp: stream_body_def read_json_rows_def)
    next
      case True
      then show ?thesis using rd s Inr q b tail [of "batch @ [row]" for row]
        by (cases "parse_row L buffer columns") (auto simp: stream_body_def read_json_rows_def)
    qed
  qed
qed

end
