(* ===== verification/Postgres.thy ===== *)
theory Postgres
  imports Main Prelude Lib Core Quoting
begin

text \<open>
  The pure parts of \<open>driver-postgres/src\<close>: quoting (\<open>ident.rs\<close>), parameters (\<open>params.rs\<close>), connection
  settings (\<open>config.rs\<close>), errors (\<open>error.rs\<close>), TLS verification (\<open>tls.rs\<close>), rows as cells
  (\<open>convert.rs\<close>) and the parts of \<open>schema.rs\<close> and \<open>query.rs\<close> that build SQL text or read results. The
  client library, rustls and webpki are not in the repository: what they return is a record of
  functions.
\<close>

section \<open>Quoting\<close>

definition pg_quote_ident :: "string \<Rightarrow> string" where
  "pg_quote_ident name = [DQUOTE] @ double_char DQUOTE name @ [DQUOTE]"

definition pg_quote_qualified :: "string \<Rightarrow> string \<Rightarrow> string" where
  "pg_quote_qualified schema name = pg_quote_ident schema @ ''.'' @ pg_quote_ident name"

definition pg_quote_literal :: "string \<Rightarrow> string" where
  "pg_quote_literal v = [SQUOTE] @ double_char SQUOTE v @ [SQUOTE]"

interpretation pg_ident: quoting DQUOTE pg_quote_ident
  by unfold_locales (simp add: pg_quote_ident_def)

interpretation pg_literal: quoting SQUOTE pg_quote_literal
  by unfold_locales (simp add: pg_quote_literal_def)

section \<open>Parameters\<close>

datatype pg_format = TextFormat | BinaryFormat

text \<open>A parameter as it is sent: its format and its bytes, none for NULL. \<open>str_param\<close> is a string the
  code passes as such, which the client library sends in binary format.\<close>

type_synonym pg_param = "pg_format \<times> byte list option"

definition to_sql :: "CellValue \<Rightarrow> byte list option" where
  "to_sql v = (case v of CNull \<Rightarrow> None | CText s \<Rightarrow> Some (as_bytes s) | CBytes b \<Rightarrow> Some b)"

definition encode_format :: "CellValue \<Rightarrow> pg_format" where
  "encode_format v = (case v of CBytes _ \<Rightarrow> BinaryFormat | _ \<Rightarrow> TextFormat)"

definition to_params :: "CellValue list \<Rightarrow> pg_param list" where
  "to_params vs = map (\<lambda>v. (encode_format v, to_sql v)) vs"

definition str_param :: "string \<Rightarrow> pg_param" where
  "str_param s = (BinaryFormat, Some (as_bytes s))"

section \<open>Settings\<close>

datatype pg_ssl_mode = Disable | Prefer | Require

record pg_config =
  pc_host :: string
  pc_port :: nat
  pc_user :: string
  pc_ssl_mode :: pg_ssl_mode
  pc_keepalives :: "bool \<times> nat \<times> nat \<times> nat"
  pc_password :: "string option"
  pc_dbname :: "string option"

definition resolve_ssl_mode :: "ConnectionConfig \<Rightarrow> pg_ssl_mode" where
  "resolve_ssl_mode c = (case ssl_mode (cc_ssl c) of
     Some Disabled \<Rightarrow> Disable | Some Preferred \<Rightarrow> Prefer | _ \<Rightarrow> Require)"

definition build_config :: "ConnectionConfig \<Rightarrow> pg_config" where
  "build_config c = \<lparr> pc_host = cc_host c, pc_port = cc_port c, pc_user = cc_username c,
     pc_ssl_mode = resolve_ssl_mode c,
     pc_keepalives = (True, keepalive_idle, keepalive_interval, keepalive_retries),
     pc_password = cc_password c, pc_dbname = cc_database c \<rparr>"

section \<open>Errors\<close>

text \<open>An error of the client library: its SQLSTATE, the message, detail and hint when it comes from the
  server, and its text.\<close>

record pg_error =
  pe_state :: "string option"
  pe_db :: "(string \<times> string option \<times> string option) option"
  pe_text :: string

definition kind_for_sql_state :: "string \<Rightarrow> DriverErrorKind" where
  "kind_for_sql_state st = (if st = ''28000'' \<or> st = ''28P01'' then Auth else if st = ''57014'' then Cancelled
     else if prefix ''08'' st then Connection else Query)"

definition with_state :: "string option \<Rightarrow> DriverError \<Rightarrow> DriverError" where
  "with_state st e = (case st of None \<Rightarrow> e | Some c \<Rightarrow> with_code c (with_sql_state c e))"

definition detail_parts :: "string option \<Rightarrow> string option \<Rightarrow> string list" where
  "detail_parts detail hint = (case detail of None \<Rightarrow> [] | Some d \<Rightarrow> [d])
     @ (case hint of None \<Rightarrow> [] | Some h \<Rightarrow> [''hint: '' @ h])"

definition pg_map_error :: "DriverErrorKind \<Rightarrow> pg_error \<Rightarrow> DriverError" where
  "pg_map_error fallback e =
     (let kind = (case pe_state e of None \<Rightarrow> fallback | Some st \<Rightarrow> kind_for_sql_state st) in
      case pe_db e of
        Some (message, detail, hint) \<Rightarrow>
          (let d = with_state (pe_state e) (driver_error kind message); parts = detail_parts detail hint
           in if parts = [] then d else with_detail (join_with ''; '' parts) d)
      | None \<Rightarrow> with_state (pe_state e) (driver_error kind (pe_text e)))"

definition pg_connect_error :: "pg_error \<Rightarrow> DriverError" where
  "pg_connect_error = pg_map_error Connection"

definition pg_query_error :: "pg_error \<Rightarrow> DriverError" where
  "pg_query_error = pg_map_error Query"

section \<open>TLS\<close>

type_synonym cert = "byte list"

text \<open>\<open>tv_read\<close> reads a file, \<open>tv_pem\<close> finds the certificates of a PEM text, \<open>tv_anchor\<close> makes a trust
  anchor of one, \<open>tv_native\<close> is the platform's trust store with the text of its errors, \<open>tv_parsable\<close>
  says which certificates a root store takes, \<open>tv_versions\<close> is the error of selecting the protocol
  versions, \<open>tv_end_entity\<close> and \<open>tv_chain\<close> are webpki's checks of a certificate and of its chain to the
  anchors, \<open>tv_full\<close> the standard verifier of rustls, \<open>tv_signature\<close> the check of a handshake's
  signature for TLS 1.2 (False) and 1.3 (True); a check gives the text of its error.\<close>

record tls_env =
  tv_read :: "string \<Rightarrow> string + byte list"
  tv_pem :: "byte list \<Rightarrow> string + cert list"
  tv_anchor :: "cert \<Rightarrow> string + byte list"
  tv_native :: "cert list \<times> string"
  tv_parsable :: "cert \<Rightarrow> bool"
  tv_versions :: "string option"
  tv_end_entity :: "cert \<Rightarrow> string option"
  tv_chain :: "byte list list \<Rightarrow> cert \<Rightarrow> cert list \<Rightarrow> nat \<Rightarrow> string option"
  tv_full :: "cert list \<Rightarrow> cert \<Rightarrow> cert list \<Rightarrow> string \<Rightarrow> nat \<Rightarrow> string option"
  tv_signature :: "bool \<Rightarrow> byte list \<Rightarrow> cert \<Rightarrow> byte list \<Rightarrow> string option"

datatype verifier = AcceptAny | ChainOnly "byte list list" | FullVerify "cert list"

text \<open>\<open>verify_server_cert\<close> of each verifier: the certificate, the intermediates, the server's name and
  the time.\<close>

definition verify_server_cert ::
  "tls_env \<Rightarrow> verifier \<Rightarrow> cert \<Rightarrow> cert list \<Rightarrow> string \<Rightarrow> nat \<Rightarrow> string + unit" where
  "verify_server_cert T v end_entity intermediates server_name now = (case v of
     AcceptAny \<Rightarrow> Inr ()
   | ChainOnly roots \<Rightarrow> (case tv_end_entity T end_entity of
       Some e \<Rightarrow> Inl (''invalid server certificate: '' @ e)
     | None \<Rightarrow> (case tv_chain T roots end_entity intermediates now of
         Some e \<Rightarrow> Inl (''certificate chain is not trusted: '' @ e)
       | None \<Rightarrow> Inr ()))
   | FullVerify roots \<Rightarrow> (case tv_full T roots end_entity intermediates server_name now of
       Some e \<Rightarrow> Inl e | None \<Rightarrow> Inr ()))"

definition verify_handshake_signature ::
  "tls_env \<Rightarrow> verifier \<Rightarrow> bool \<Rightarrow> byte list \<Rightarrow> cert \<Rightarrow> byte list \<Rightarrow> string + unit" where
  "verify_handshake_signature T v tls13 message c dss =
     (case tv_signature T tls13 message c dss of Some e \<Rightarrow> Inl e | None \<Rightarrow> Inr ())"

definition tls_setup_error :: "string \<Rightarrow> DriverError" where
  "tls_setup_error m = driver_error Connection m"

definition read_ca :: "tls_env \<Rightarrow> string \<Rightarrow> DriverError + cert list" where
  "read_ca T p =
     res_bind (map_err (\<lambda>e. tls_setup_error (''failed to read ssl.ca_path '' @ p @ '': '' @ e)) (tv_read T p)) (\<lambda>pem.
       map_err (\<lambda>e. tls_setup_error (''ssl.ca_path did not contain a valid PEM certificate: '' @ e)) (tv_pem T pem))"

definition load_trust_anchors :: "tls_env \<Rightarrow> string \<Rightarrow> DriverError + byte list list" where
  "load_trust_anchors T p = res_bind (read_ca T p) (\<lambda>certs.
     if certs = [] then Inl (tls_setup_error (''ssl.ca_path '' @ p @ '' contained no certificates''))
     else res_collect (map (\<lambda>c. map_err (\<lambda>e. tls_setup_error (''ssl.ca_path is not a valid CA certificate: '' @ e))
       (tv_anchor T c)) certs))"

definition load_native_root_store :: "tls_env \<Rightarrow> DriverError + cert list" where
  "load_native_root_store T =
     (if fst (tv_native T) = [] then Inl (tls_setup_error
        (''no usable certificates found in the platform's native trust store: '' @ snd (tv_native T)))
      else let roots = filter (tv_parsable T) (fst (tv_native T)) in
        if roots = [] then Inl (tls_setup_error ''the platform's native trust store contained no parsable certificates'')
        else Inr roots)"

definition root_store_for_verify_identity :: "tls_env \<Rightarrow> ConnectionConfig \<Rightarrow> DriverError + cert list" where
  "root_store_for_verify_identity T c = (case ca_path (cc_ssl c) of
     Some p \<Rightarrow> res_bind (read_ca T p) (\<lambda>certs. let roots = filter (tv_parsable T) certs in
       if roots = [] then Inl (tls_setup_error (''ssl.ca_path '' @ p @ '' contained no usable certificates'')) else Inr roots)
   | None \<Rightarrow> load_native_root_store T)"

definition base_builder :: "tls_env \<Rightarrow> DriverError + unit" where
  "base_builder T = (case tv_versions T of None \<Rightarrow> Inr ()
   | Some e \<Rightarrow> Inl (tls_setup_error (''failed to select TLS protocol versions: '' @ e)))"

definition build_connector :: "tls_env \<Rightarrow> ConnectionConfig \<Rightarrow> DriverError + verifier" where
  "build_connector T c = (case ssl_mode (cc_ssl c) of
     Some Disabled \<Rightarrow> Inl (tls_setup_error ''build_connector must not be called for ssl.mode = disabled'')
   | Some VerifyCa \<Rightarrow>
       res_bind (ok_or (tls_setup_error ''ssl.mode = verify_ca requires ssl.ca_path to be set'') (ca_path (cc_ssl c))) (\<lambda>p.
       res_bind (load_trust_anchors T p) (\<lambda>roots. res_map (\<lambda>_. ChainOnly roots) (base_builder T)))
   | Some VerifyIdentity \<Rightarrow> res_bind (root_store_for_verify_identity T c) (\<lambda>roots. res_map (\<lambda>_. FullVerify roots) (base_builder T))
   | None \<Rightarrow> res_bind (root_store_for_verify_identity T c) (\<lambda>roots. res_map (\<lambda>_. FullVerify roots) (base_builder T))
   | Some _ \<Rightarrow> res_map (\<lambda>_. AcceptAny) (base_builder T))"

section \<open>Rows\<close>

text \<open>The types the code names; any other type is \<open>OtherType\<close>. A type has a name and an object
  identifier.\<close>

datatype pg_tag = BOOL | INT2 | INT4 | OID | INT8 | FLOAT4 | FLOAT8 | TEXT | VARCHAR | BPCHAR | NAME | UNKNOWN
  | BYTEA | UUID | JSON | JSONB | NUMERIC | DATE | TIME | TIMESTAMP | TIMESTAMPTZ | OtherType

record pg_type =
  pt_tag :: pg_tag
  pt_name :: string
  pt_oid :: nat

record pg_column =
  pn_name :: string
  pn_type :: pg_type

record pg_row =
  pr_columns :: "pg_column list"
  pr_values :: "byte list option list"

text \<open>\<open>Row::try_get\<close> of the client library at the types the code asks for: the text of the error, or the
  value if it is not NULL. \<open>pg_shown\<close> gives the \<open>Display\<close> (for timestamps the RFC 3339 or given format)
  of the types of other packages.\<close>

datatype pg_display = ShowF32 | ShowDecimal | ShowDate | ShowTime | ShowTimestamp | ShowTimestamptz

datatype int_type = I16 | I32 | U32 | I64

record pg_values =
  pg_bool :: "pg_row \<Rightarrow> nat \<Rightarrow> string + bool option"
  pg_int :: "int_type \<Rightarrow> pg_row \<Rightarrow> nat \<Rightarrow> string + int option"
  pg_f64 :: "pg_row \<Rightarrow> nat \<Rightarrow> string + u64 option"
  pg_str :: "pg_row \<Rightarrow> nat \<Rightarrow> string + string option"
  pg_bytes :: "pg_row \<Rightarrow> nat \<Rightarrow> string + byte list option"
  pg_uuid :: "pg_row \<Rightarrow> nat \<Rightarrow> string + uuid option"
  pg_json :: "pg_row \<Rightarrow> nat \<Rightarrow> string + json option"
  pg_strs :: "pg_row \<Rightarrow> nat \<Rightarrow> string + string list option"
  pg_shown :: "pg_display \<Rightarrow> pg_row \<Rightarrow> nat \<Rightarrow> string + string option"
  pg_was_null :: "pg_row \<Rightarrow> nat \<Rightarrow> string"

definition unsupported_type_error :: "pg_column \<Rightarrow> DriverError" where
  "unsupported_type_error c = driver_error Internal (''column '' @ [DQUOTE] @ pn_name c @ [DQUOTE] @ '' has Postgres type ''
     @ [DQUOTE] @ pt_name (pn_type c) @ [DQUOTE] @ '' (oid '' @ show_nat (pt_oid (pn_type c))
     @ ''), which this driver build does not yet support converting to a text cell value'')"

definition conversion_error :: "pg_column \<Rightarrow> string \<Rightarrow> DriverError" where
  "conversion_error c e = driver_error Internal (''failed to decode column '' @ [DQUOTE] @ pn_name c @ [DQUOTE] @ '' (type ''
     @ [DQUOTE] @ pt_name (pn_type c) @ [DQUOTE] @ ''): '' @ e)"

definition text_from :: "pg_column \<Rightarrow> ('a \<Rightarrow> string) \<Rightarrow> string + 'a option \<Rightarrow> CellValue dres" where
  "text_from c render r = (case r of
     Inr (Some v) \<Rightarrow> Inr (CText (render v)) | Inr None \<Rightarrow> Inr CNull | Inl e \<Rightarrow> Inl (conversion_error c e))"

definition bytes_from :: "pg_column \<Rightarrow> string + byte list option \<Rightarrow> CellValue dres" where
  "bytes_from c r = (case r of
     Inr (Some v) \<Rightarrow> Inr (CBytes v) | Inr None \<Rightarrow> Inr CNull | Inl e \<Rightarrow> Inl (conversion_error c e))"

definition row_value :: "lib \<Rightarrow> pg_values \<Rightarrow> pg_row \<Rightarrow> nat \<Rightarrow> CellValue dres" where
  "row_value L V row i = (let c = pr_columns row ! i in case pt_tag (pn_type c) of
     BOOL \<Rightarrow> text_from c (\<lambda>b. if b then ''true'' else ''false'') (pg_bool V row i)
   | INT2 \<Rightarrow> text_from c show_int (pg_int V I16 row i)
   | INT4 \<Rightarrow> text_from c show_int (pg_int V I32 row i)
   | OID \<Rightarrow> text_from c show_int (pg_int V U32 row i)
   | INT8 \<Rightarrow> text_from c show_int (pg_int V I64 row i)
   | FLOAT4 \<Rightarrow> text_from c id (pg_shown V ShowF32 row i)
   | FLOAT8 \<Rightarrow> text_from c (lib_f64_show L) (pg_f64 V row i)
   | TEXT \<Rightarrow> text_from c id (pg_str V row i)
   | VARCHAR \<Rightarrow> text_from c id (pg_str V row i)
   | BPCHAR \<Rightarrow> text_from c id (pg_str V row i)
   | NAME \<Rightarrow> text_from c id (pg_str V row i)
   | UNKNOWN \<Rightarrow> text_from c id (pg_str V row i)
   | BYTEA \<Rightarrow> bytes_from c (pg_bytes V row i)
   | UUID \<Rightarrow> text_from c (lib_uuid_show L) (pg_uuid V row i)
   | JSON \<Rightarrow> text_from c (lib_render L) (pg_json V row i)
   | JSONB \<Rightarrow> text_from c (lib_render L) (pg_json V row i)
   | NUMERIC \<Rightarrow> text_from c id (pg_shown V ShowDecimal row i)
   | DATE \<Rightarrow> text_from c id (pg_shown V ShowDate row i)
   | TIME \<Rightarrow> text_from c id (pg_shown V ShowTime row i)
   | TIMESTAMP \<Rightarrow> text_from c id (pg_shown V ShowTimestamp row i)
   | TIMESTAMPTZ \<Rightarrow> text_from c id (pg_shown V ShowTimestamptz row i)
   | OtherType \<Rightarrow> Inl (unsupported_type_error c))"

definition column_names_and_types :: "pg_column list \<Rightarrow> string list \<times> string list" where
  "column_names_and_types cs = (map pn_name cs, map (\<lambda>c. pt_name (pn_type c)) cs)"

text \<open>The loop over a row's columns.\<close>

definition row_cells :: "lib \<Rightarrow> pg_values \<Rightarrow> pg_row \<Rightarrow> CellValue list dres" where
  "row_cells L V row = res_collect (map (row_value L V row) [0..<length (pr_columns row)])"

definition stmt_columns :: "pg_column list \<Rightarrow> (string list \<times> string list) option" where
  "stmt_columns cs = (if cs = [] then None else Some (column_names_and_types cs))"

section \<open>Reading introspection rows\<close>

definition column_error :: "string \<Rightarrow> string \<Rightarrow> DriverError" where
  "column_error column e = driver_error Internal (''failed to read column '' @ [DQUOTE] @ column @ [DQUOTE]
     @ '' from a schema-introspection query: '' @ e)"

text \<open>A value that must not be NULL.\<close>

definition required :: "pg_values \<Rightarrow> pg_row \<Rightarrow> nat \<Rightarrow> string + 'a option \<Rightarrow> string + 'a" where
  "required V row i r = res_bind r (\<lambda>v. ok_or (pg_was_null V row i) v)"

definition get_string :: "pg_values \<Rightarrow> pg_row \<Rightarrow> nat \<Rightarrow> string \<Rightarrow> string dres" where
  "get_string V row i column = map_err (column_error column) (required V row i (pg_str V row i))"

definition get_opt_string :: "pg_values \<Rightarrow> pg_row \<Rightarrow> nat \<Rightarrow> string \<Rightarrow> string option dres" where
  "get_opt_string V row i column = map_err (column_error column) (pg_str V row i)"

definition get_bool :: "pg_values \<Rightarrow> pg_row \<Rightarrow> nat \<Rightarrow> string \<Rightarrow> bool dres" where
  "get_bool V row i column = map_err (column_error column) (required V row i (pg_bool V row i))"

definition get_yes_no :: "pg_values \<Rightarrow> pg_row \<Rightarrow> nat \<Rightarrow> string \<Rightarrow> bool dres" where
  "get_yes_no V row i column = res_map (\<lambda>s. eq_ignore_ascii_case s ''yes'') (get_string V row i column)"

definition get_opt_i64 :: "pg_values \<Rightarrow> pg_row \<Rightarrow> nat \<Rightarrow> string \<Rightarrow> int option dres" where
  "get_opt_i64 V row i column = map_err (column_error column) (pg_int V I64 row i)"

definition table_kind_from_relkind :: "string \<Rightarrow> TableKind" where
  "table_kind_from_relkind k = (if k = ''v'' then View else if k = ''m'' then MaterializedView else Table)"

definition pg_table_info :: "pg_values \<Rightarrow> string \<Rightarrow> pg_row \<Rightarrow> TableInfo dres" where
  "pg_table_info V schema row =
     res_bind (get_string V row 0 ''relname'') (\<lambda>name.
     res_bind (get_string V row 1 ''relkind'') (\<lambda>relkind.
     res_bind (get_opt_string V row 2 ''comment'') (\<lambda>comment.
     res_bind (get_opt_i64 V row 3 ''row_estimate'') (\<lambda>estimate.
       Inr \<lparr> ti_name = name, ti_schema = Some schema, ti_kind = table_kind_from_relkind relkind,
             ti_comment = comment, ti_row_count_estimate = estimate \<rparr>))))"

definition pg_identity_kind :: "bool \<Rightarrow> string option \<Rightarrow> IdentityKind option" where
  "pg_identity_kind is_identity generation =
     (if is_identity then Some (if generation = Some ''ALWAYS'' then Always else ByDefault) else None)"

text \<open>The fields of one row of the column query, in the order they are read.\<close>

record pg_column_row =
  px_name :: string
  px_data_type :: string
  px_udt_name :: string
  px_is_nullable :: bool
  px_default :: "string option"
  px_charset :: "string option"
  px_collation :: "string option"
  px_is_identity :: bool
  px_generation :: "string option"
  px_generated :: string
  px_comment :: "string option"

definition read_column_row :: "pg_values \<Rightarrow> pg_row \<Rightarrow> pg_column_row dres" where
  "read_column_row V row =
     res_bind (get_string V row 0 ''column_name'') (\<lambda>name.
     res_bind (get_string V row 1 ''data_type'') (\<lambda>data_type.
     res_bind (get_string V row 2 ''udt_name'') (\<lambda>udt_name.
     res_bind (get_yes_no V row 3 ''is_nullable'') (\<lambda>is_nullable.
     res_bind (get_opt_string V row 4 ''column_default'') (\<lambda>default_value.
     res_bind (get_opt_string V row 5 ''character_set_name'') (\<lambda>charset.
     res_bind (get_opt_string V row 6 ''collation_name'') (\<lambda>collation.
     res_bind (get_yes_no V row 7 ''is_identity'') (\<lambda>is_identity.
     res_bind (get_opt_string V row 8 ''identity_generation'') (\<lambda>generation.
     res_bind (get_string V row 9 ''is_generated'') (\<lambda>generated.
     res_bind (get_opt_string V row 10 ''comment'') (\<lambda>comment.
       Inr \<lparr> px_name = name, px_data_type = data_type, px_udt_name = udt_name, px_is_nullable = is_nullable,
         px_default = default_value, px_charset = charset, px_collation = collation, px_is_identity = is_identity,
         px_generation = generation, px_generated = generated, px_comment = comment \<rparr>)))))))))))"

definition pg_column_info :: "string list \<Rightarrow> string list option \<Rightarrow> pg_column_row \<Rightarrow> ColumnInfo" where
  "pg_column_info pk allowed x = \<lparr> ci_name = px_name x, ci_data_type = px_udt_name x, ci_is_nullable = px_is_nullable x,
     ci_is_primary_key = (px_name x \<in> set pk), ci_default_value = px_default x, ci_extra = None,
     ci_charset = px_charset x, ci_collation = px_collation x, ci_comment = px_comment x,
     ci_identity_kind = pg_identity_kind (px_is_identity x) (px_generation x),
     ci_is_generated = eq_ignore_ascii_case (px_generated x) ''always'', ci_allowed_values = allowed \<rparr>"

definition pg_index_info :: "pg_values \<Rightarrow> pg_row \<Rightarrow> IndexInfo dres" where
  "pg_index_info V row =
     res_bind (get_string V row 0 ''index_name'') (\<lambda>name.
     res_bind (get_bool V row 1 ''indisunique'') (\<lambda>is_unique.
     res_bind (get_bool V row 2 ''indisprimary'') (\<lambda>is_primary.
     res_bind (get_opt_string V row 3 ''method'') (\<lambda>method.
     res_bind (map_err (column_error ''columns'') (required V row 4 (pg_strs V row 4))) (\<lambda>columns.
       Inr \<lparr> ii_name = name, ii_columns = columns, ii_is_unique = is_unique, ii_is_primary = is_primary,
             ii_method = method \<rparr>)))))"

definition pg_trigger_info :: "pg_values \<Rightarrow> pg_row \<Rightarrow> TriggerInfo dres" where
  "pg_trigger_info V row =
     res_bind (get_string V row 0 ''trigger_name'') (\<lambda>name.
     res_bind (get_string V row 1 ''event_manipulation'') (\<lambda>event.
     res_bind (get_string V row 2 ''action_timing'') (\<lambda>timing.
     res_bind (get_opt_string V row 3 ''action_statement'') (\<lambda>definition.
       Inr \<lparr> tr_name = name, tr_event = event, tr_timing = timing, tr_definition = definition \<rparr>))))"


section \<open>Foreign keys\<close>

record RawForeignKeyRow =
  rf_constraint_name :: string
  rf_column_name :: string
  rf_referenced_table :: string
  rf_referenced_schema :: string
  rf_referenced_column :: string
  rf_on_update :: "string option"
  rf_on_delete :: "string option"

definition rule_from_confcode :: "string \<Rightarrow> string option" where
  "rule_from_confcode code = (if code = ''a'' then Some ''NO ACTION'' else if code = ''r'' then Some ''RESTRICT''
     else if code = ''c'' then Some ''CASCADE'' else if code = ''n'' then Some ''SET NULL''
     else if code = ''d'' then Some ''SET DEFAULT'' else None)"

definition read_foreign_key_row :: "pg_values \<Rightarrow> pg_row \<Rightarrow> RawForeignKeyRow dres" where
  "read_foreign_key_row V row =
     res_bind (get_string V row 0 ''constraint_name'') (\<lambda>name.
     res_bind (get_string V row 1 ''column_name'') (\<lambda>column.
     res_bind (get_string V row 2 ''referenced_table'') (\<lambda>table.
     res_bind (get_string V row 3 ''referenced_schema'') (\<lambda>schema.
     res_bind (get_string V row 4 ''referenced_column'') (\<lambda>ref_column.
     res_bind (get_string V row 5 ''update_code'') (\<lambda>upd.
     res_bind (get_string V row 6 ''delete_code'') (\<lambda>del.
       Inr \<lparr> rf_constraint_name = name, rf_column_name = column, rf_referenced_table = table,
         rf_referenced_schema = schema, rf_referenced_column = ref_column,
         rf_on_update = rule_from_confcode upd, rf_on_delete = rule_from_confcode del \<rparr>)))))))"

text \<open>The map by name with the list of names in the order they came up is the list of keys in that
  order; a row of a known name is added to its key.\<close>

definition new_foreign_key :: "RawForeignKeyRow \<Rightarrow> ForeignKeyInfo" where
  "new_foreign_key raw = \<lparr> fk_name = rf_constraint_name raw, fk_columns = [], fk_referenced_table = rf_referenced_table raw,
     fk_referenced_schema = Some (rf_referenced_schema raw), fk_referenced_columns = [],
     fk_on_delete = rf_on_delete raw, fk_on_update = rf_on_update raw \<rparr>"

definition push_column :: "RawForeignKeyRow \<Rightarrow> ForeignKeyInfo \<Rightarrow> ForeignKeyInfo" where
  "push_column raw k = k \<lparr> fk_columns := fk_columns k @ [rf_column_name raw],
     fk_referenced_columns := fk_referenced_columns k @ [rf_referenced_column raw] \<rparr>"

definition add_foreign_key_row :: "RawForeignKeyRow \<Rightarrow> ForeignKeyInfo list \<Rightarrow> ForeignKeyInfo list" where
  "add_foreign_key_row raw keys =
     map (\<lambda>k. if fk_name k = rf_constraint_name raw then push_column raw k else k)
       (if rf_constraint_name raw \<in> set (map fk_name keys) then keys else keys @ [new_foreign_key raw])"

definition group_foreign_keys :: "RawForeignKeyRow list \<Rightarrow> ForeignKeyInfo list" where
  "group_foreign_keys raws = fold add_foreign_key_row raws []"

section \<open>SQL text\<close>

record ddl_column =
  dc_name :: string
  dc_type :: string
  dc_not_null :: bool
  dc_default :: "string option"

definition read_ddl_row :: "pg_values \<Rightarrow> pg_row \<Rightarrow> ddl_column dres" where
  "read_ddl_row V row =
     res_bind (get_string V row 0 ''attname'') (\<lambda>name.
     res_bind (get_string V row 1 ''formatted_type'') (\<lambda>formatted.
     res_bind (get_bool V row 2 ''attnotnull'') (\<lambda>not_null.
     res_bind (get_opt_string V row 3 ''default_expr'') (\<lambda>expr.
       Inr \<lparr> dc_name = name, dc_type = formatted, dc_not_null = not_null, dc_default = expr \<rparr>))))"

definition ddl_line :: "ddl_column \<Rightarrow> string" where
  "ddl_line c = ''    '' @ pg_quote_ident (dc_name c) @ '' '' @ dc_type c
     @ (if dc_not_null c then '' NOT NULL'' else [])
     @ (case dc_default c of None \<Rightarrow> [] | Some e \<Rightarrow> '' DEFAULT '' @ e)"

definition create_table_sql :: "string \<Rightarrow> string \<Rightarrow> ddl_column list \<Rightarrow> string list \<Rightarrow> string" where
  "create_table_sql schema table columns pk =
     ''CREATE TABLE '' @ pg_quote_qualified schema table @ '' ('' @ [LF]
     @ join_with ('','' @ [LF]) (map ddl_line columns
         @ (if pk = [] then [] else [''    PRIMARY KEY ('' @ join_with '', '' (map pg_quote_ident pk) @ '')'']))
     @ [LF] @ '');''"

definition create_database_sql :: "CreateDatabaseRequest \<Rightarrow> string" where
  "create_database_sql r = ''CREATE DATABASE '' @ pg_quote_ident (cd_name r)
     @ (case cd_owner r of None \<Rightarrow> [] | Some n \<Rightarrow> '' OWNER '' @ pg_quote_ident n)
     @ (case cd_encoding r of None \<Rightarrow> [] | Some e \<Rightarrow> '' ENCODING '' @ pg_quote_literal e)"

definition drop_database_sql :: "string \<Rightarrow> string" where
  "drop_database_sql name = ''DROP DATABASE '' @ pg_quote_ident name"

definition search_path_sql :: "string \<Rightarrow> string" where
  "search_path_sql schema = ''SET search_path TO '' @ pg_quote_ident schema"

text \<open>The multiplication saturates at the largest \<open>u64\<close>.\<close>

definition statement_timeout_sql :: "nat \<Rightarrow> string" where
  "statement_timeout_sql seconds = ''SET statement_timeout = '' @ show_nat (min (seconds * 1000) (2 ^ 64 - 1))"

section \<open>The simple query protocol\<close>

datatype simple_message = RowDescription "string list" | SimpleRow "string option list" | CommandComplete u64 | OtherMessage

record simple_state =
  sm_columns :: "string list"
  sm_rows :: "CellValue list list"
  sm_affected :: u64

fun read_message :: "simple_message \<Rightarrow> simple_state \<Rightarrow> simple_state" where
  "read_message (RowDescription cols) st = st \<lparr> sm_columns := cols, sm_rows := [] \<rparr>"
| "read_message (SimpleRow r) st =
     st \<lparr> sm_rows := sm_rows st @ [map (\<lambda>v. case v of Some t \<Rightarrow> CText t | None \<Rightarrow> CNull) r] \<rparr>"
| "read_message (CommandComplete n) st = st \<lparr> sm_affected := n \<rparr>"
| "read_message OtherMessage st = st"

definition read_messages :: "simple_message list \<Rightarrow> simple_state" where
  "read_messages ms = fold read_message ms \<lparr> sm_columns = [], sm_rows = [], sm_affected = 0 \<rparr>"

definition simple_result :: "nat \<times> nat \<Rightarrow> simple_message list \<Rightarrow> QueryResult" where
  "simple_result elapsed ms = (let st = read_messages ms in
     \<lparr> qr_columns = sm_columns st, qr_column_type_names = replicate (length (sm_columns st)) ''text'',
       qr_rows = sm_rows st, qr_rows_affected = sm_affected st, qr_execution_time = elapsed,
       qr_is_truncated = False, qr_status_message = None, qr_column_meta = None \<rparr>)"

fun first_simple_query_value :: "simple_message list \<Rightarrow> string option" where
  "first_simple_query_value [] = None"
| "first_simple_query_value (SimpleRow (Some t # _) # ms) = Some t"
| "first_simple_query_value (_ # ms) = first_simple_query_value ms"

definition query_result :: "lib \<Rightarrow> pg_values \<Rightarrow> nat \<times> nat \<Rightarrow> pg_row list \<Rightarrow> QueryResult dres" where
  "query_result L V elapsed rows = res_map (\<lambda>cells.
     (let (columns, types) = (case rows of [] \<Rightarrow> ([], []) | r # _ \<Rightarrow> column_names_and_types (pr_columns r)) in
      \<lparr> qr_columns = columns, qr_column_type_names = types, qr_rows = cells,
        qr_rows_affected = word_of_nat (length cells), qr_execution_time = elapsed, qr_is_truncated = False,
        qr_status_message = None, qr_column_meta = None \<rparr>)) (res_collect (map (row_cells L V) rows))"


section \<open>Lemmas\<close>

text \<open>How a reader takes a CREATE DATABASE statement apart: a keyword before a quoted token, and the
  whole statement.\<close>

definition read_clause :: "string \<Rightarrow> char \<Rightarrow> string \<Rightarrow> (string \<times> string) option" where
  "read_clause keyword q s = Option.bind (strip_prefix (keyword @ [q]) s) (read_quoted q)"

definition read_optional :: "string \<Rightarrow> char \<Rightarrow> string \<Rightarrow> string option \<times> string" where
  "read_optional keyword q s = (case read_clause keyword q s of None \<Rightarrow> (None, s) | Some (v, r) \<Rightarrow> (Some v, r))"

definition read_create_database :: "string \<Rightarrow> (string \<times> string option \<times> string option) option" where
  "read_create_database s = Option.bind (read_clause ''CREATE DATABASE '' DQUOTE s) (\<lambda>(name, r).
     let (owner, r1) = read_optional '' OWNER '' DQUOTE r; (encoding, r2) = read_optional '' ENCODING '' SQUOTE r1
     in if r2 = [] then Some (name, owner, encoding) else None)"

lemma read_clause_ident:
  "rest = [] \<or> hd rest \<noteq> DQUOTE \<Longrightarrow> read_clause kw DQUOTE (kw @ pg_quote_ident n @ rest) = Some (n, rest)"
proof -
  assume r: "rest = [] \<or> hd rest \<noteq> DQUOTE"
  have "kw @ pg_quote_ident n @ rest = (kw @ [DQUOTE]) @ double_char DQUOTE n @ DQUOTE # rest"
    by (simp add: pg_quote_ident_def)
  then show ?thesis unfolding read_clause_def using read_double_char [OF r] by (simp only: strip_prefix_append bind.simps)
qed

lemma read_clause_literal:
  "rest = [] \<or> hd rest \<noteq> SQUOTE \<Longrightarrow> read_clause kw SQUOTE (kw @ pg_quote_literal n @ rest) = Some (n, rest)"
proof -
  assume r: "rest = [] \<or> hd rest \<noteq> SQUOTE"
  have "kw @ pg_quote_literal n @ rest = (kw @ [SQUOTE]) @ double_char SQUOTE n @ SQUOTE # rest"
    by (simp add: pg_quote_literal_def)
  then show ?thesis unfolding read_clause_def using read_double_char [OF r] by (simp only: strip_prefix_append bind.simps)
qed

definition encoding_clause :: "string option \<Rightarrow> string" where
  "encoding_clause e = (case e of None \<Rightarrow> [] | Some v \<Rightarrow> '' ENCODING '' @ pg_quote_literal v)"

definition owner_clause :: "string option \<Rightarrow> string" where
  "owner_clause n = (case n of None \<Rightarrow> [] | Some v \<Rightarrow> '' OWNER '' @ pg_quote_ident v)"

lemma read_encoding: "read_optional '' ENCODING '' SQUOTE (encoding_clause e) = (e, [])"
proof (cases e)
  case None
  then show ?thesis by (simp add: read_optional_def read_clause_def encoding_clause_def strip_prefix_def)
next
  case (Some v)
  then show ?thesis using read_clause_literal [of "[]" "'' ENCODING ''" v]
    by (simp add: read_optional_def encoding_clause_def)
qed

lemma read_owner: "read_optional '' OWNER '' DQUOTE (owner_clause n @ encoding_clause e) = (n, encoding_clause e)"
proof (cases n)
  case None
  then show ?thesis by (cases e) (simp_all add: read_optional_def read_clause_def owner_clause_def encoding_clause_def strip_prefix_def)
next
  case (Some v)
  have "encoding_clause e = [] \<or> hd (encoding_clause e) \<noteq> DQUOTE" by (cases e) (simp_all add: encoding_clause_def)
  then show ?thesis using Some read_clause_ident [of "encoding_clause e" "'' OWNER ''" v]
    by (simp add: read_optional_def owner_clause_def)
qed

lemma create_database_clauses:
  "create_database_sql r = ''CREATE DATABASE '' @ pg_quote_ident (cd_name r) @ owner_clause (cd_owner r) @ encoding_clause (cd_encoding r)"
  by (simp add: create_database_sql_def owner_clause_def encoding_clause_def)

lemma group_snoc: "group_foreign_keys (xs @ [x]) = add_foreign_key_row x (group_foreign_keys xs)"
  by (simp add: group_foreign_keys_def)

lemma fk_name_push [simp]: "fk_name (push_column x k) = fk_name k"
  by (simp add: push_column_def)

lemma add_names:
  "map fk_name (add_foreign_key_row x ks) =
     map fk_name ks @ (if rf_constraint_name x \<in> set (map fk_name ks) then [] else [rf_constraint_name x])"
proof -
  have "fk_name (if fk_name k = rf_constraint_name x then push_column x k else k) = fk_name k" for k by simp
  then show ?thesis by (simp add: add_foreign_key_row_def comp_def new_foreign_key_def)
qed

definition rows_named :: "string \<Rightarrow> RawForeignKeyRow list \<Rightarrow> RawForeignKeyRow list" where
  "rows_named n raws = filter (\<lambda>r. rf_constraint_name r = n) raws"

text \<open>What one key must be, given all the rows.\<close>

definition key_of_rows :: "RawForeignKeyRow list \<Rightarrow> ForeignKeyInfo \<Rightarrow> bool" where
  "key_of_rows raws k \<longleftrightarrow> (let mine = rows_named (fk_name k) raws in mine \<noteq> []
     \<and> fk_columns k = map rf_column_name mine \<and> fk_referenced_columns k = map rf_referenced_column mine
     \<and> fk_referenced_table k = rf_referenced_table (hd mine) \<and> fk_referenced_schema k = Some (rf_referenced_schema (hd mine))
     \<and> fk_on_update k = rf_on_update (hd mine) \<and> fk_on_delete k = rf_on_delete (hd mine))"

lemma rows_named_snoc: "rows_named n (xs @ [x]) = rows_named n xs @ (if rf_constraint_name x = n then [x] else [])"
  by (simp add: rows_named_def)

lemma key_push:
  "key_of_rows xs k \<Longrightarrow> fk_name k = rf_constraint_name x \<Longrightarrow> key_of_rows (xs @ [x]) (push_column x k)"
  by (simp add: key_of_rows_def Let_def rows_named_snoc push_column_def)

lemma key_other: "key_of_rows xs k \<Longrightarrow> fk_name k \<noteq> rf_constraint_name x \<Longrightarrow> key_of_rows (xs @ [x]) k"
  by (auto simp: key_of_rows_def Let_def rows_named_snoc)

lemma key_new:
  "rows_named (rf_constraint_name x) xs = [] \<Longrightarrow> key_of_rows (xs @ [x]) (push_column x (new_foreign_key x))"
  by (simp add: key_of_rows_def Let_def rows_named_snoc push_column_def new_foreign_key_def)

lemma group_invariant:
  "distinct (map fk_name (group_foreign_keys raws)) \<and> set (map fk_name (group_foreign_keys raws)) = set (map rf_constraint_name raws)
   \<and> (\<forall>k\<in>set (group_foreign_keys raws). key_of_rows raws k)"
proof (induction raws rule: rev_induct)
  case Nil
  then show ?case by (simp add: group_foreign_keys_def)
next
  case (snoc x xs)
  let ?ks = "group_foreign_keys xs"
  have names: "distinct (map fk_name (group_foreign_keys (xs @ [x])))"
    "set (map fk_name (group_foreign_keys (xs @ [x]))) = set (map rf_constraint_name (xs @ [x]))"
    unfolding group_snoc add_names using snoc by auto
  have "key_of_rows (xs @ [x]) k" if k: "k \<in> set (group_foreign_keys (xs @ [x]))" for k
  proof -
    obtain k0 where k0: "k = (if fk_name k0 = rf_constraint_name x then push_column x k0 else k0)"
      and mem: "k0 \<in> set (if rf_constraint_name x \<in> set (map fk_name ?ks) then ?ks else ?ks @ [new_foreign_key x])"
      using k unfolding group_snoc add_foreign_key_row_def Let_def set_map by (elim imageE) blast
    from mem have src: "k0 \<in> set ?ks \<or> (k0 = new_foreign_key x \<and> rf_constraint_name x \<notin> set (map fk_name ?ks))"
      by (auto split: if_splits)
    from src show ?thesis
    proof
      assume "k0 \<in> set ?ks"
      then show ?thesis using snoc k0 key_push [of xs k0 x] key_other [of xs k0 x] by auto
    next
      assume n: "k0 = new_foreign_key x \<and> rf_constraint_name x \<notin> set (map fk_name ?ks)"
      then have "rf_constraint_name x \<notin> set (map rf_constraint_name xs)" using snoc by auto
      then have "rows_named (rf_constraint_name x) xs = []" by (auto simp: rows_named_def filter_empty_conv image_iff)
      then show ?thesis using key_new n k0 by (simp add: new_foreign_key_def)
    qed
  qed
  then show ?case using names by blast
qed

section \<open>Properties\<close>

text \<open>The statement that creates a database says what was asked for. Whatever characters the name, the
  owner and the encoding are made of, a reader of the statement gets exactly them back and nothing is
  left over.\<close>

theorem create_database_roundtrip:
  "read_create_database (create_database_sql r) = Some (cd_name r, cd_owner r, cd_encoding r)"
proof -
  have "owner_clause (cd_owner r) @ encoding_clause (cd_encoding r) = []
      \<or> hd (owner_clause (cd_owner r) @ encoding_clause (cd_encoding r)) \<noteq> DQUOTE"
    by (cases "cd_owner r"; cases "cd_encoding r") (simp_all add: owner_clause_def encoding_clause_def)
  then show ?thesis
    unfolding create_database_clauses read_create_database_def
    using read_clause_ident [of _ "''CREATE DATABASE ''" "cd_name r"]
    by (simp add: read_owner read_encoding)
qed

text \<open>C31. Composite foreign keys come out whole: the rows of the catalogue are grouped into one key per
  constraint, and a key has the columns of its rows in order, each at the place of the column it
  refers to, with the table, schema and rules of its first row.\<close>

theorem foreign_keys_grouped:
  "distinct (map fk_name (group_foreign_keys raws))
   \<and> set (map fk_name (group_foreign_keys raws)) = set (map rf_constraint_name raws)
   \<and> list_all (key_of_rows raws) (group_foreign_keys raws)"
  using group_invariant [of raws] by (simp add: list_all_iff)

text \<open>C30. What a TLS mode verifies. A connector that is built accepts any certificate only in the modes
  preferred and required; verify_ca checks the chain against at least one anchor of the given file; and
  verify_identity, like no mode at all, is the full check against a trust store that is not empty.\<close>

theorem connector_exact:
  assumes "build_connector T c = Inr v"
  shows "(ssl_mode (cc_ssl c) \<in> {Some Preferred, Some Required} \<and> v = AcceptAny)
    \<or> (ssl_mode (cc_ssl c) = Some VerifyCa \<and> (\<exists>p roots. ca_path (cc_ssl c) = Some p \<and> load_trust_anchors T p = Inr roots
          \<and> roots \<noteq> [] \<and> v = ChainOnly roots))
    \<or> (ssl_mode (cc_ssl c) \<in> {None, Some VerifyIdentity} \<and> (\<exists>roots. root_store_for_verify_identity T c = Inr roots
          \<and> roots \<noteq> [] \<and> v = FullVerify roots))"
proof -
  have store: "root_store_for_verify_identity T c = Inr roots \<Longrightarrow> roots \<noteq> []" for roots
    by (auto simp: root_store_for_verify_identity_def load_native_root_store_def Let_def split: option.splits if_splits)
  have anchors: "load_trust_anchors T p = Inr roots \<Longrightarrow> roots \<noteq> []" for p roots
    by (auto simp: load_trust_anchors_def res_collect_Inr_iff split: if_splits)
  show ?thesis
  proof (cases "ssl_mode (cc_ssl c)")
    case None
    then show ?thesis using assms store by (auto simp: build_connector_def)
  next
    case (Some m)
    then show ?thesis using assms store anchors by (cases m) (auto simp: build_connector_def)
  qed
qed

text \<open>A TLS environment for the witness.\<close>

definition one_root_tls :: tls_env where
  "one_root_tls = \<lparr> tv_read = (\<lambda>_. Inl ''not found''), tv_pem = (\<lambda>_. Inr []), tv_anchor = Inr,
     tv_native = ([[1]], []), tv_parsable = (\<lambda>_. True), tv_versions = None, tv_end_entity = (\<lambda>_. None),
     tv_chain = (\<lambda>_ _ _ _. None), tv_full = (\<lambda>_ _ _ _ _. None), tv_signature = (\<lambda>_ _ _ _. None) \<rparr>"

definition default_tls_config :: ConnectionConfig where
  "default_tls_config = \<lparr> cc_host = ''h'', cc_port = 5432, cc_username = ''u'', cc_password = None,
     cc_database = None, cc_ssl = SslConfig_default, cc_read_only = False, cc_additional_fields = [] \<rparr>"

theorem connector_exact_witness:
  "build_connector one_root_tls default_tls_config = Inr (FullVerify [[1]])
   \<and> ((ssl_mode (cc_ssl default_tls_config) \<in> {Some Preferred, Some Required} \<and> FullVerify [[1]] = AcceptAny)
    \<or> (ssl_mode (cc_ssl default_tls_config) = Some VerifyCa \<and> (\<exists>p roots. ca_path (cc_ssl default_tls_config) = Some p
          \<and> load_trust_anchors one_root_tls p = Inr roots \<and> roots \<noteq> [] \<and> FullVerify [[1]] = ChainOnly roots))
    \<or> (ssl_mode (cc_ssl default_tls_config) \<in> {None, Some VerifyIdentity} \<and> (\<exists>roots. root_store_for_verify_identity one_root_tls default_tls_config = Inr roots
          \<and> roots \<noteq> [] \<and> FullVerify [[1]] = FullVerify roots)))"
proof -
  have b: "build_connector one_root_tls default_tls_config = Inr (FullVerify [[1]])"
    by (simp add: build_connector_def one_root_tls_def default_tls_config_def SslConfig_default_def
        root_store_for_verify_identity_def load_native_root_store_def base_builder_def)
  show ?thesis using b connector_exact [OF b] by (intro conjI)
qed

end
