(* ===== verification/PostgresDriver.thy ===== *)
theory PostgresDriver
  imports Main Prelude Lib Core Quoting Effects Postgres
begin

text \<open>
  The effects of \<open>driver-postgres/src\<close>: the driver object and its methods (\<open>driver.rs\<close>), queries and
  the portal loop (\<open>query.rs\<close>), introspection (\<open>schema.rs\<close>) and streaming (\<open>stream.rs\<close>). The client
  library and the server are a record of functions on the server's state: every statement sent,
  transaction opened and portal read is a call of one of them.
\<close>

section \<open>The client library and the server\<close>

text \<open>\<open>pv_connect\<close> opens a session with the settings and the certificate check (none: no TLS) and
  gives the client with its cancel token. \<open>pv_begin\<close> starts a transaction, read-only or not,
  \<open>pv_rollback\<close> is what dropping an open transaction does, \<open>pv_prepare\<close> gives a statement with its
  columns, \<open>pv_bind\<close> a portal, \<open>pv_portal\<close> fetches at most so many rows of it. \<open>pv_cancel\<close> sends a token's
  cancel request over a connection of its own.\<close>

record ('cn, 'tok, 'st, 'po, 's) pg_env =
  pv_connect :: "pg_config \<Rightarrow> verifier option \<Rightarrow> 's \<Rightarrow> (pg_error + 'cn \<times> 'tok) \<times> 's"
  pv_simple :: "'cn \<Rightarrow> string \<Rightarrow> 's \<Rightarrow> (pg_error + simple_message list) \<times> 's"
  pv_query :: "'cn \<Rightarrow> string \<Rightarrow> pg_param list \<Rightarrow> 's \<Rightarrow> (pg_error + pg_row list) \<times> 's"
  pv_query_one :: "'cn \<Rightarrow> string \<Rightarrow> pg_param list \<Rightarrow> 's \<Rightarrow> (pg_error + pg_row) \<times> 's"
  pv_begin :: "'cn \<Rightarrow> bool \<Rightarrow> 's \<Rightarrow> (pg_error + unit) \<times> 's"
  pv_prepare :: "'cn \<Rightarrow> string \<Rightarrow> 's \<Rightarrow> (pg_error + 'st \<times> pg_column list) \<times> 's"
  pv_bind :: "'cn \<Rightarrow> 'st \<Rightarrow> pg_param list \<Rightarrow> 's \<Rightarrow> (pg_error + 'po) \<times> 's"
  pv_portal :: "'cn \<Rightarrow> 'po \<Rightarrow> nat \<Rightarrow> 's \<Rightarrow> (pg_error + pg_row list) \<times> 's"
  pv_commit :: "'cn \<Rightarrow> 's \<Rightarrow> (pg_error + unit) \<times> 's"
  pv_rollback :: "'cn \<Rightarrow> 's \<Rightarrow> 's"
  pv_cancel :: "'tok \<Rightarrow> verifier option \<Rightarrow> 's \<Rightarrow> (pg_error + unit) \<times> 's"
  pv_values :: pg_values
  pv_tls :: tls_env

text \<open>A call of the library with its error mapped.\<close>

definition pg_call :: "('s \<Rightarrow> (pg_error + 'a) \<times> 's) \<Rightarrow> ('s, 'a) op" where
  "pg_call m s = (let (r, s1) = m s in (map_err pg_query_error r, s1))"

section \<open>Queries\<close>

definition pg_execute_on ::
  "('cn, 'tok, 'st, 'po, 's) pg_env \<Rightarrow> nat \<times> nat \<Rightarrow> 'cn \<Rightarrow> string \<Rightarrow> ('s, QueryResult) op" where
  "pg_execute_on E elapsed cn sql = op_map (simple_result elapsed) (pg_call (pv_simple E cn sql))"

definition pg_execute_parameterized_on ::
  "lib \<Rightarrow> ('cn, 'tok, 'st, 'po, 's) pg_env \<Rightarrow> nat \<times> nat \<Rightarrow> 'cn \<Rightarrow> string \<Rightarrow> CellValue list \<Rightarrow> ('s, QueryResult) op" where
  "pg_execute_parameterized_on L E elapsed cn sql ps = op_bind (pg_call (pv_query E cn sql (to_params ps)))
     (\<lambda>rows. op_lift (query_result L (pv_values E) elapsed rows))"

definition PORTAL_BATCH_SIZE :: nat where
  "PORTAL_BATCH_SIZE = 1000"

text \<open>The columns and types, kept once there are columns.\<close>

definition portal_columns ::
  "pg_column list \<Rightarrow> pg_row list \<Rightarrow> string list \<times> string list \<Rightarrow> string list \<times> string list" where
  "portal_columns stmt batch cols =
     (if fst cols \<noteq> [] then cols
      else case batch of
        r # _ \<Rightarrow> column_names_and_types (pr_columns r)
      | [] \<Rightarrow> (case stmt_columns stmt of Some nt \<Rightarrow> nt | None \<Rightarrow> cols))"

text \<open>The loop of \<open>execute_user_query\<close>: the columns, the rows so far; the result ends with whether the
  cap was reached. Every turn that goes on adds at least one row.\<close>

function portal_loop ::
  "lib \<Rightarrow> ('cn, 'tok, 'st, 'po, 's) pg_env \<Rightarrow> 'cn \<Rightarrow> 'po \<Rightarrow> pg_column list \<Rightarrow> nat \<Rightarrow> string list \<times> string list
   \<Rightarrow> CellValue list list \<Rightarrow> ('s, (string list \<times> string list) \<times> CellValue list list \<times> bool) op" where
  "portal_loop L E cn po stmt cap cols rows s =
     (if length rows \<ge> cap then (Inr (cols, rows, True), s)
      else case pg_call (pv_portal E cn po (min (cap - length rows) PORTAL_BATCH_SIZE)) s of
        (Inl e, s1) \<Rightarrow> (Inl e, s1)
      | (Inr batch, s1) \<Rightarrow> (case res_collect (map (row_cells L (pv_values E)) batch) of
          Inl e \<Rightarrow> (Inl e, s1)
        | Inr cells \<Rightarrow>
            if length batch < min (cap - length rows) PORTAL_BATCH_SIZE
            then (Inr (portal_columns stmt batch cols, rows @ cells, False), s1)
            else portal_loop L E cn po stmt cap (portal_columns stmt batch cols) (rows @ cells) s1))"
  by pat_completeness auto
termination
proof (relation "measure (\<lambda>(_, _, _, _, _, cap, _, rows, _). cap - length rows)")
  fix L and E :: "('cn, 'tok, 'st, 'po, 's) pg_env" and cn po stmt cap cols rows s p r s1 batch cells
  assume cap: "\<not> cap \<le> length (rows :: CellValue list list)"
    and cells: "res_collect (map (row_cells L (pv_values E)) batch) = Inr cells"
    and full: "\<not> length batch < min (cap - length rows) PORTAL_BATCH_SIZE"
  have "length cells = length batch" using res_collect_length [OF cells] by simp
  then have "0 < length cells" using cap full by (auto simp: PORTAL_BATCH_SIZE_def)
  then show "((L, E, cn, po, stmt, cap, portal_columns stmt batch cols, rows @ cells, s1),
      (L, E, cn, po, stmt, cap, cols, rows, s)) \<in> measure (\<lambda>(_, _, _, _, _, cap, _, rows, _). cap - length rows)"
    using cap by (cases cells) auto
qed simp

declare portal_loop.simps [simp del]

text \<open>A transaction: what fails inside it is rolled back when it is dropped, what succeeds is committed,
  and a commit that fails is not rolled back.\<close>

definition in_transaction ::
  "('cn, 'tok, 'st, 'po, 's) pg_env \<Rightarrow> 'cn \<Rightarrow> bool \<Rightarrow> ('s, 'a) op \<Rightarrow> ('s, 'a) op" where
  "in_transaction E cn read_only body = op_bind (pg_call (pv_begin E cn read_only)) (\<lambda>_ s.
     case body s of
       (Inl e, s1) \<Rightarrow> (Inl e, pv_rollback E cn s1)
     | (Inr x, s1) \<Rightarrow> op_map (\<lambda>_. x) (pg_call (pv_commit E cn)) s1)"

definition pg_cap :: "nat option \<Rightarrow> nat" where
  "pg_cap row_cap = min (case row_cap of None \<Rightarrow> EMERGENCY_MAX | Some n \<Rightarrow> n) EMERGENCY_MAX"

definition portal_result ::
  "nat \<times> nat \<Rightarrow> (string list \<times> string list) \<times> CellValue list list \<times> bool \<Rightarrow> QueryResult" where
  "portal_result elapsed p = (case p of ((columns, types), rows, truncated) \<Rightarrow>
     \<lparr> qr_columns = columns, qr_column_type_names = types, qr_rows = rows,
       qr_rows_affected = word_of_nat (length rows), qr_execution_time = elapsed,
       qr_is_truncated = truncated, qr_status_message = None, qr_column_meta = None \<rparr>)"

definition pg_execute_user_query_on ::
  "lib \<Rightarrow> ('cn, 'tok, 'st, 'po, 's) pg_env \<Rightarrow> nat \<times> nat \<Rightarrow> 'cn \<Rightarrow> string \<Rightarrow> nat option \<Rightarrow> CellValue list option \<Rightarrow> bool
   \<Rightarrow> ('s, QueryResult) op" where
  "pg_execute_user_query_on L E elapsed cn sql row_cap ps read_only =
     op_map (portal_result elapsed) (in_transaction E cn read_only
       (op_bind (pg_call (pv_prepare E cn sql)) (\<lambda>(st, columns).
        op_bind (pg_call (pv_bind E cn st (to_params (case ps of Some vs \<Rightarrow> vs | None \<Rightarrow> [])))) (\<lambda>po.
        portal_loop L E cn po columns (pg_cap row_cap) ([], []) []))))"

section \<open>Introspection\<close>

definition rows_of ::
  "('cn, 'tok, 'st, 'po, 's) pg_env \<Rightarrow> 'cn \<Rightarrow> string \<Rightarrow> string list \<Rightarrow> (pg_row \<Rightarrow> 'a dres) \<Rightarrow> ('s, 'a list) op" where
  "rows_of E cn sql names f = op_bind (pg_call (pv_query E cn sql (map str_param names)))
     (\<lambda>rows. op_lift (res_collect (map f rows)))"

text \<open>The texts of the introspection queries, up to the white space of their lines.\<close>

definition databases_sql :: string where
  "databases_sql = ''SELECT datname FROM pg_database WHERE datistemplate = false ORDER BY datname''"

definition schemas_sql :: string where
  "schemas_sql = ''SELECT schema_name FROM information_schema.schemata ORDER BY schema_name''"

definition tables_sql :: string where
  "tables_sql = ''SELECT c.relname, c.relkind::text, obj_description(c.oid, '' @ [SQUOTE] @ ''pg_class'' @ [SQUOTE] @ '') AS comment, CASE WHEN c.reltuples < 0 THEN NULL ELSE round(c.reltuples)::bigint END AS row_estimate FROM pg_class c JOIN pg_namespace n ON n.oid = c.relnamespace WHERE n.nspname = $1 AND c.relkind IN (''
     @ join_with '', '' (map (\<lambda>k. [SQUOTE] @ k @ [SQUOTE]) [''r'', ''v'', ''m'', ''p'', ''f'']) @ '') ORDER BY c.relname''"

definition columns_sql :: string where
  "columns_sql = ''SELECT col.column_name, col.data_type, col.udt_name, col.is_nullable, col.column_default, col.character_set_name, col.collation_name, col.is_identity, col.identity_generation, col.is_generated, col_description((quote_ident(col.table_schema) || '' @ [SQUOTE] @ ''.'' @ [SQUOTE] @ '' || quote_ident(col.table_name))::regclass, col.ordinal_position) AS comment FROM information_schema.columns col WHERE col.table_name = $1 AND col.table_schema = $2 ORDER BY col.ordinal_position''"

definition primary_key_sql :: string where
  "primary_key_sql = ''SELECT kcu.column_name FROM information_schema.table_constraints tc JOIN information_schema.key_column_usage kcu ON tc.constraint_name = kcu.constraint_name AND tc.constraint_schema = kcu.constraint_schema WHERE tc.constraint_type = '' @ [SQUOTE] @ ''PRIMARY KEY'' @ [SQUOTE] @ '' AND tc.table_name = $1 AND tc.table_schema = $2''"

definition enum_labels_sql :: string where
  "enum_labels_sql = ''SELECT e.enumlabel FROM pg_type t JOIN pg_enum e ON e.enumtypid = t.oid WHERE t.typname = $1 ORDER BY e.enumsortorder''"

definition indexes_sql :: string where
  "indexes_sql = ''SELECT ix.relname AS index_name, i.indisunique, i.indisprimary, am.amname AS method, array_agg(a.attname::text ORDER BY k.ord) AS columns FROM pg_index i JOIN pg_class t ON t.oid = i.indrelid JOIN pg_class ix ON ix.oid = i.indexrelid JOIN pg_namespace n ON n.oid = t.relnamespace JOIN pg_am am ON am.oid = ix.relam JOIN LATERAL unnest(i.indkey) WITH ORDINALITY AS k(attnum, ord) ON true JOIN pg_attribute a ON a.attrelid = t.oid AND a.attnum = k.attnum WHERE t.relname = $1 AND n.nspname = $2 GROUP BY ix.relname, i.indisunique, i.indisprimary, am.amname ORDER BY ix.relname''"

definition foreign_keys_sql :: string where
  "foreign_keys_sql = ''SELECT con.conname AS constraint_name, att2.attname AS column_name, cl.relname AS referenced_table, ns2.nspname AS referenced_schema, att.attname AS referenced_column, con.confupdtype::text AS update_code, con.confdeltype::text AS delete_code FROM pg_constraint con JOIN pg_class rel ON rel.oid = con.conrelid JOIN pg_namespace relns ON relns.oid = rel.relnamespace JOIN pg_class cl ON cl.oid = con.confrelid JOIN pg_namespace ns2 ON ns2.oid = cl.relnamespace JOIN LATERAL unnest(con.conkey, con.confkey) WITH ORDINALITY AS pos(conkey, confkey, ord) ON true JOIN pg_attribute att2 ON att2.attrelid = con.conrelid AND att2.attnum = pos.conkey JOIN pg_attribute att ON att.attrelid = con.confrelid AND att.attnum = pos.confkey WHERE con.contype = '' @ [SQUOTE] @ ''f'' @ [SQUOTE] @ '' AND rel.relname = $1 AND relns.nspname = $2 ORDER BY con.conname, pos.ord''"

definition triggers_sql :: string where
  "triggers_sql = ''SELECT trigger_name, event_manipulation, action_timing, action_statement FROM information_schema.triggers WHERE event_object_table = $1 AND event_object_schema = $2 ORDER BY trigger_name, event_manipulation''"

definition table_ddl_sql :: string where
  "table_ddl_sql = ''SELECT a.attname, format_type(a.atttypid, a.atttypmod) AS formatted_type, a.attnotnull, pg_get_expr(d.adbin, d.adrelid) AS default_expr FROM pg_attribute a JOIN pg_class c ON c.oid = a.attrelid JOIN pg_namespace n ON n.oid = c.relnamespace LEFT JOIN pg_attrdef d ON d.adrelid = a.attrelid AND d.adnum = a.attnum WHERE c.relname = $1 AND n.nspname = $2 AND a.attnum > 0 AND NOT a.attisdropped ORDER BY a.attnum''"

definition primary_key_ordered_sql :: string where
  "primary_key_ordered_sql = ''SELECT a.attname FROM pg_index i JOIN pg_class t ON t.oid = i.indrelid JOIN pg_namespace n ON n.oid = t.relnamespace JOIN LATERAL unnest(i.indkey) WITH ORDINALITY AS k(attnum, ord) ON true JOIN pg_attribute a ON a.attrelid = t.oid AND a.attnum = k.attnum WHERE i.indisprimary AND t.relname = $1 AND n.nspname = $2 ORDER BY k.ord''"

definition pg_databases_on :: "('cn, 'tok, 'st, 'po, 's) pg_env \<Rightarrow> 'cn \<Rightarrow> ('s, string list) op" where
  "pg_databases_on E cn = rows_of E cn databases_sql [] (\<lambda>r. get_string (pv_values E) r 0 ''datname'')"

definition pg_schemas_on :: "('cn, 'tok, 'st, 'po, 's) pg_env \<Rightarrow> 'cn \<Rightarrow> ('s, string list) op" where
  "pg_schemas_on E cn = rows_of E cn schemas_sql [] (\<lambda>r. get_string (pv_values E) r 0 ''schema_name'')"

definition pg_tables_on :: "('cn, 'tok, 'st, 'po, 's) pg_env \<Rightarrow> 'cn \<Rightarrow> string \<Rightarrow> ('s, TableInfo list) op" where
  "pg_tables_on E cn schema = rows_of E cn tables_sql [schema] (pg_table_info (pv_values E) schema)"

definition fetch_primary_key_columns ::
  "('cn, 'tok, 'st, 'po, 's) pg_env \<Rightarrow> 'cn \<Rightarrow> string \<Rightarrow> string \<Rightarrow> ('s, string list) op" where
  "fetch_primary_key_columns E cn table schema =
     rows_of E cn primary_key_sql [table, schema] (\<lambda>r. get_string (pv_values E) r 0 ''column_name'')"

definition fetch_enum_labels :: "('cn, 'tok, 'st, 'po, 's) pg_env \<Rightarrow> 'cn \<Rightarrow> string \<Rightarrow> ('s, string list) op" where
  "fetch_enum_labels E cn udt = rows_of E cn enum_labels_sql [udt] (\<lambda>r. get_string (pv_values E) r 0 ''enumlabel'')"

text \<open>The allowed values of a column, with the cache of enum lookups.\<close>

type_synonym enum_cache = "string \<rightharpoonup> string list"

definition lookup_enum ::
  "('cn, 'tok, 'st, 'po, 's) pg_env \<Rightarrow> 'cn \<Rightarrow> pg_column_row \<Rightarrow> enum_cache \<Rightarrow> ('s, enum_cache \<times> string list option) op" where
  "lookup_enum E cn x cache =
     (if px_data_type x = ''USER-DEFINED'' then
        op_map (\<lambda>c. (c, case c (px_udt_name x) of None \<Rightarrow> None | Some ls \<Rightarrow> if ls = [] then None else Some ls))
          (case cache (px_udt_name x) of
             Some _ \<Rightarrow> op_lift (Inr cache)
           | None \<Rightarrow> op_map (\<lambda>ls. cache(px_udt_name x \<mapsto> ls)) (fetch_enum_labels E cn (px_udt_name x)))
      else op_lift (Inr (cache, None)))"

fun columns_loop ::
  "('cn, 'tok, 'st, 'po, 's) pg_env \<Rightarrow> 'cn \<Rightarrow> string list \<Rightarrow> enum_cache \<Rightarrow> pg_row list \<Rightarrow> ('s, ColumnInfo list) op" where
  "columns_loop E cn pk cache [] = op_lift (Inr [])"
| "columns_loop E cn pk cache (r # rs) =
     op_bind (op_lift (read_column_row (pv_values E) r)) (\<lambda>x.
     op_bind (lookup_enum E cn x cache) (\<lambda>(cache1, allowed).
     op_map (\<lambda>more. pg_column_info pk allowed x # more) (columns_loop E cn pk cache1 rs)))"

definition pg_columns_on ::
  "('cn, 'tok, 'st, 'po, 's) pg_env \<Rightarrow> 'cn \<Rightarrow> string \<Rightarrow> string \<Rightarrow> ('s, ColumnInfo list) op" where
  "pg_columns_on E cn table schema =
     op_bind (pg_call (pv_query E cn columns_sql [str_param table, str_param schema])) (\<lambda>rows.
     op_bind (fetch_primary_key_columns E cn table schema) (\<lambda>pk. columns_loop E cn pk Map.empty rows))"

definition pg_indexes_on ::
  "('cn, 'tok, 'st, 'po, 's) pg_env \<Rightarrow> 'cn \<Rightarrow> string \<Rightarrow> string \<Rightarrow> ('s, IndexInfo list) op" where
  "pg_indexes_on E cn table schema = rows_of E cn indexes_sql [table, schema] (pg_index_info (pv_values E))"

definition pg_foreign_keys_on ::
  "('cn, 'tok, 'st, 'po, 's) pg_env \<Rightarrow> 'cn \<Rightarrow> string \<Rightarrow> string \<Rightarrow> ('s, ForeignKeyInfo list) op" where
  "pg_foreign_keys_on E cn table schema =
     op_map group_foreign_keys (rows_of E cn foreign_keys_sql [table, schema] (read_foreign_key_row (pv_values E)))"

definition pg_triggers_on ::
  "('cn, 'tok, 'st, 'po, 's) pg_env \<Rightarrow> 'cn \<Rightarrow> string \<Rightarrow> string \<Rightarrow> ('s, TriggerInfo list) op" where
  "pg_triggers_on E cn table schema = rows_of E cn triggers_sql [table, schema] (pg_trigger_info (pv_values E))"

definition pg_not_found :: "string \<Rightarrow> string \<Rightarrow> DriverError" where
  "pg_not_found schema table = driver_error Query (''table '' @ [DQUOTE] @ schema @ [DQUOTE] @ ''.'' @ [DQUOTE] @ table
     @ [DQUOTE] @ '' was not found'')"

definition fetch_primary_key_columns_ordered ::
  "('cn, 'tok, 'st, 'po, 's) pg_env \<Rightarrow> 'cn \<Rightarrow> string \<Rightarrow> string \<Rightarrow> ('s, string list) op" where
  "fetch_primary_key_columns_ordered E cn table schema =
     rows_of E cn primary_key_ordered_sql [table, schema] (\<lambda>r. get_string (pv_values E) r 0 ''attname'')"

definition pg_table_ddl_on :: "('cn, 'tok, 'st, 'po, 's) pg_env \<Rightarrow> 'cn \<Rightarrow> string \<Rightarrow> string \<Rightarrow> ('s, string) op" where
  "pg_table_ddl_on E cn table schema =
     op_bind (pg_call (pv_query E cn table_ddl_sql [str_param table, str_param schema])) (\<lambda>rows.
     op_bind (op_lift (if rows = [] then Inl (pg_not_found schema table)
                       else res_collect (map (read_ddl_row (pv_values E)) rows))) (\<lambda>columns.
     op_map (create_table_sql schema table columns) (fetch_primary_key_columns_ordered E cn table schema)))"

definition pg_view_definition_on :: "('cn, 'tok, 'st, 'po, 's) pg_env \<Rightarrow> 'cn \<Rightarrow> string \<Rightarrow> string \<Rightarrow> ('s, string) op" where
  "pg_view_definition_on E cn view schema =
     op_bind (pg_call (pv_query_one E cn ''SELECT pg_get_viewdef($1::regclass, true)'' (to_params [CText (pg_quote_qualified schema view)])))
       (\<lambda>row. op_lift (get_string (pv_values E) row 0 ''pg_get_viewdef''))"

definition pg_table_metadata_on ::
  "('cn, 'tok, 'st, 'po, 's) pg_env \<Rightarrow> 'cn \<Rightarrow> string \<Rightarrow> string \<Rightarrow> ('s, TableMetadata) op" where
  "pg_table_metadata_on E cn table schema =
     op_bind (pg_tables_on E cn schema) (\<lambda>tables.
     op_bind (op_lift (ok_or (pg_not_found schema table) (find (\<lambda>t. ti_name t = table) tables))) (\<lambda>info.
     op_bind (pg_columns_on E cn table schema) (\<lambda>columns.
     op_bind (pg_indexes_on E cn table schema) (\<lambda>indexes.
     op_bind (pg_foreign_keys_on E cn table schema) (\<lambda>foreign_keys.
     op_map (\<lambda>triggers. \<lparr> tm_info = info, tm_columns = columns, tm_indexes = indexes,
        tm_foreign_keys = foreign_keys, tm_triggers = triggers \<rparr>) (pg_triggers_on E cn table schema))))))"

definition size_of_row :: "pg_values \<Rightarrow> pg_error + pg_row \<Rightarrow> nat option" where
  "size_of_row V r = (case r of Inl _ \<Rightarrow> None | Inr row \<Rightarrow> (case required V row 0 (pg_int V I64 row 0) of
     Inl _ \<Rightarrow> None | Inr i \<Rightarrow> if i < 0 then None else Some (nat i)))"

definition pg_database_metadata_on ::
  "('cn, 'tok, 'st, 'po, 's) pg_env \<Rightarrow> 'cn \<Rightarrow> string \<Rightarrow> ('s, DatabaseMetadata) op" where
  "pg_database_metadata_on E cn database = op_bind (pg_schemas_on E cn) (\<lambda>schemas s.
     let (r, s1) = pv_query_one E cn ''SELECT pg_database_size($1)'' [str_param database] s
     in (Inr \<lparr> dm_name = database, dm_schemas = schemas, dm_size_bytes = size_of_row (pv_values E) r \<rparr>, s1))"

definition pg_run_sql :: "('cn, 'tok, 'st, 'po, 's) pg_env \<Rightarrow> 'cn \<Rightarrow> string \<Rightarrow> ('s, unit) op" where
  "pg_run_sql E cn sql = op_map (\<lambda>_. ()) (pg_call (pv_simple E cn sql))"


section \<open>The driver object\<close>

record ('cn, 'tok) PgDriver =
  pd_config :: ConnectionConfig
  pd_client :: "'cn option"
  pd_cancel_token :: "'tok option"
  pd_server_version :: "string option"
  pd_current_schema :: "string option"

definition pg_new :: "ConnectionConfig \<Rightarrow> ('cn, 'tok) PgDriver" where
  "pg_new c = \<lparr> pd_config = c, pd_client = None, pd_cancel_token = None, pd_server_version = None,
     pd_current_schema = None \<rparr>"

definition pg_not_connected :: DriverError where
  "pg_not_connected = driver_error Connection ''not connected''"

type_synonym ('cn, 'tok, 's) pg_world = "('cn, 'tok) PgDriver \<times> 's"

text \<open>An operation of the session, from the driver.\<close>

definition with_session :: "('cn \<Rightarrow> ('s, 'a) op) \<Rightarrow> (('cn, 'tok, 's) pg_world, 'a) op" where
  "with_session f w = (case pd_client (fst w) of
     None \<Rightarrow> (Inl pg_not_connected, w)
   | Some cn \<Rightarrow> (let (r, s1) = f cn (snd w) in (r, (fst w, s1))))"

definition connect_with_config ::
  "('cn, 'tok, 'st, 'po, 's) pg_env \<Rightarrow> ConnectionConfig \<Rightarrow> ('s, 'cn \<times> 'tok) op" where
  "connect_with_config E c = op_bind
     (op_lift (if ssl_mode (cc_ssl c) = Some Disabled then Inr None else res_map Some (build_connector (pv_tls E) c)))
     (\<lambda>check s. let (r, s1) = pv_connect E (build_config c) check s in (map_err pg_connect_error r, s1))"

text \<open>The version and the schema of the new session, each left out when it cannot be had.\<close>

definition ok_value :: "'e + 'a \<Rightarrow> 'a option" where
  "ok_value r = (case r of Inl _ \<Rightarrow> None | Inr x \<Rightarrow> Some x)"

definition refresh_session_caches ::
  "('cn, 'tok, 'st, 'po, 's) pg_env \<Rightarrow> 'cn \<Rightarrow> ('cn, 'tok, 's) pg_world \<Rightarrow> ('cn, 'tok, 's) pg_world" where
  "refresh_session_caches E cn w =
     (let (r1, s1) = pv_simple E cn ''SHOW server_version'' (snd w);
          (r2, s2) = pv_query_one E cn ''SELECT current_schema()'' [] s1
      in ((fst w) \<lparr> pd_server_version := Option.bind (ok_value r1) first_simple_query_value,
            pd_current_schema := Option.bind (ok_value r2) (\<lambda>row. Option.bind (ok_value (pg_str (pv_values E) row 0)) (\<lambda>v. v)) \<rparr>,
          s2))"

definition open_session ::
  "('cn, 'tok, 'st, 'po, 's) pg_env \<Rightarrow> ConnectionConfig \<Rightarrow> (('cn, 'tok, 's) pg_world, unit) op" where
  "open_session E c w = (case connect_with_config E c (snd w) of
     (Inl e, s1) \<Rightarrow> (Inl e, (fst w, s1))
   | (Inr (cn, token), s1) \<Rightarrow>
       (let (d, s2) = refresh_session_caches E cn (fst w, s1)
        in (Inr (), (d \<lparr> pd_cancel_token := Some token, pd_client := Some cn \<rparr>, s2))))"

definition pg_connect :: "('cn, 'tok, 'st, 'po, 's) pg_env \<Rightarrow> (('cn, 'tok, 's) pg_world, unit) op" where
  "pg_connect E = op_with (\<lambda>w. open_session E (pd_config (fst w)))"

definition pg_switch_database :: "('cn, 'tok, 'st, 'po, 's) pg_env \<Rightarrow> string \<Rightarrow> (('cn, 'tok, 's) pg_world, unit) op" where
  "pg_switch_database E database = op_with (\<lambda>w. open_session E ((pd_config (fst w)) \<lparr> cc_database := Some database \<rparr>))"

definition pg_disconnect :: "(('cn, 'tok, 's) pg_world, unit) op" where
  "pg_disconnect = op_update (\<lambda>w. ((fst w) \<lparr> pd_client := None, pd_cancel_token := None, pd_server_version := None,
     pd_current_schema := None \<rparr>, snd w))"

definition resolve_schema :: "('cn, 'tok) PgDriver \<Rightarrow> string option \<Rightarrow> string" where
  "resolve_schema d schema = (case schema of Some n \<Rightarrow> n | None \<Rightarrow>
     (case pd_current_schema d of Some n \<Rightarrow> n | None \<Rightarrow> ''public''))"

definition in_schema ::
  "string option \<Rightarrow> ('cn \<Rightarrow> string \<Rightarrow> ('s, 'a) op) \<Rightarrow> (('cn, 'tok, 's) pg_world, 'a) op" where
  "in_schema schema f = op_with (\<lambda>w. with_session (\<lambda>cn. f cn (resolve_schema (fst w) schema)))"

definition pg_execute ::
  "('cn, 'tok, 'st, 'po, 's) pg_env \<Rightarrow> nat \<times> nat \<Rightarrow> string \<Rightarrow> (('cn, 'tok, 's) pg_world, QueryResult) op" where
  "pg_execute E elapsed sql = with_session (\<lambda>cn. pg_execute_on E elapsed cn sql)"

definition pg_execute_parameterized ::
  "lib \<Rightarrow> ('cn, 'tok, 'st, 'po, 's) pg_env \<Rightarrow> nat \<times> nat \<Rightarrow> string \<Rightarrow> CellValue list \<Rightarrow> (('cn, 'tok, 's) pg_world, QueryResult) op" where
  "pg_execute_parameterized L E elapsed sql ps = with_session (\<lambda>cn. pg_execute_parameterized_on L E elapsed cn sql ps)"

definition pg_execute_user_query ::
  "lib \<Rightarrow> ('cn, 'tok, 'st, 'po, 's) pg_env \<Rightarrow> nat \<times> nat \<Rightarrow> string \<Rightarrow> nat option \<Rightarrow> CellValue list option
   \<Rightarrow> (('cn, 'tok, 's) pg_world, QueryResult) op" where
  "pg_execute_user_query L E elapsed sql row_cap ps = op_with (\<lambda>w. with_session (\<lambda>cn.
     pg_execute_user_query_on L E elapsed cn sql row_cap ps (cc_read_only (pd_config (fst w)))))"

definition pg_fetch_tables ::
  "('cn, 'tok, 'st, 'po, 's) pg_env \<Rightarrow> string option \<Rightarrow> (('cn, 'tok, 's) pg_world, TableInfo list) op" where
  "pg_fetch_tables E schema = in_schema schema (pg_tables_on E)"

definition pg_fetch_columns ::
  "('cn, 'tok, 'st, 'po, 's) pg_env \<Rightarrow> string \<Rightarrow> string option \<Rightarrow> (('cn, 'tok, 's) pg_world, ColumnInfo list) op" where
  "pg_fetch_columns E table schema = in_schema schema (\<lambda>cn. pg_columns_on E cn table)"

definition pg_fetch_indexes ::
  "('cn, 'tok, 'st, 'po, 's) pg_env \<Rightarrow> string \<Rightarrow> string option \<Rightarrow> (('cn, 'tok, 's) pg_world, IndexInfo list) op" where
  "pg_fetch_indexes E table schema = in_schema schema (\<lambda>cn. pg_indexes_on E cn table)"

definition pg_fetch_foreign_keys ::
  "('cn, 'tok, 'st, 'po, 's) pg_env \<Rightarrow> string \<Rightarrow> string option \<Rightarrow> (('cn, 'tok, 's) pg_world, ForeignKeyInfo list) op" where
  "pg_fetch_foreign_keys E table schema = in_schema schema (\<lambda>cn. pg_foreign_keys_on E cn table)"

definition pg_fetch_triggers ::
  "('cn, 'tok, 'st, 'po, 's) pg_env \<Rightarrow> string \<Rightarrow> string option \<Rightarrow> (('cn, 'tok, 's) pg_world, TriggerInfo list) op" where
  "pg_fetch_triggers E table schema = in_schema schema (\<lambda>cn. pg_triggers_on E cn table)"

definition pg_fetch_table_ddl ::
  "('cn, 'tok, 'st, 'po, 's) pg_env \<Rightarrow> string \<Rightarrow> string option \<Rightarrow> (('cn, 'tok, 's) pg_world, string) op" where
  "pg_fetch_table_ddl E table schema = in_schema schema (\<lambda>cn. pg_table_ddl_on E cn table)"

definition pg_fetch_view_definition ::
  "('cn, 'tok, 'st, 'po, 's) pg_env \<Rightarrow> string \<Rightarrow> string option \<Rightarrow> (('cn, 'tok, 's) pg_world, string) op" where
  "pg_fetch_view_definition E view schema = in_schema schema (\<lambda>cn. pg_view_definition_on E cn view)"

definition pg_fetch_table_metadata ::
  "('cn, 'tok, 'st, 'po, 's) pg_env \<Rightarrow> string \<Rightarrow> string option \<Rightarrow> (('cn, 'tok, 's) pg_world, TableMetadata) op" where
  "pg_fetch_table_metadata E table schema = in_schema schema (\<lambda>cn. pg_table_metadata_on E cn table)"

definition pg_fetch_databases :: "('cn, 'tok, 'st, 'po, 's) pg_env \<Rightarrow> (('cn, 'tok, 's) pg_world, string list) op" where
  "pg_fetch_databases E = with_session (pg_databases_on E)"

definition pg_fetch_database_metadata ::
  "('cn, 'tok, 'st, 'po, 's) pg_env \<Rightarrow> string \<Rightarrow> (('cn, 'tok, 's) pg_world, DatabaseMetadata) op" where
  "pg_fetch_database_metadata E database = with_session (\<lambda>cn. pg_database_metadata_on E cn database)"

definition pg_fetch_schemas :: "('cn, 'tok, 'st, 'po, 's) pg_env \<Rightarrow> (('cn, 'tok, 's) pg_world, string list) op" where
  "pg_fetch_schemas E = with_session (pg_schemas_on E)"

definition pg_switch_schema :: "('cn, 'tok, 'st, 'po, 's) pg_env \<Rightarrow> string \<Rightarrow> (('cn, 'tok, 's) pg_world, unit) op" where
  "pg_switch_schema E schema = op_bind (with_session (\<lambda>cn. pg_run_sql E cn (search_path_sql schema)))
     (\<lambda>_. op_update (\<lambda>w. ((fst w) \<lparr> pd_current_schema := Some schema \<rparr>, snd w)))"

definition pg_apply_query_timeout :: "('cn, 'tok, 'st, 'po, 's) pg_env \<Rightarrow> nat \<Rightarrow> (('cn, 'tok, 's) pg_world, unit) op" where
  "pg_apply_query_timeout E seconds = with_session (\<lambda>cn. pg_run_sql E cn (statement_timeout_sql seconds))"

definition pg_create_database ::
  "('cn, 'tok, 'st, 'po, 's) pg_env \<Rightarrow> CreateDatabaseRequest \<Rightarrow> (('cn, 'tok, 's) pg_world, unit) op" where
  "pg_create_database E req = with_session (\<lambda>cn. pg_run_sql E cn (create_database_sql req))"

definition pg_drop_database :: "('cn, 'tok, 'st, 'po, 's) pg_env \<Rightarrow> string \<Rightarrow> (('cn, 'tok, 's) pg_world, unit) op" where
  "pg_drop_database E name = with_session (\<lambda>cn. pg_run_sql E cn (drop_database_sql name))"

text \<open>\<open>cancel_query\<close> starts a task that sends the token's cancel request, always without TLS. What it
  reads is the task's token and certificate check; \<open>pg_cancel_task\<close> is the method with what its task
  does, whose error is only logged.\<close>

definition pg_cancel_query :: "('cn, 'tok) PgDriver \<Rightarrow> ('tok \<times> verifier option) dres" where
  "pg_cancel_query d = ok_or pg_not_connected (map_option (\<lambda>token. (token, None)) (pd_cancel_token d))"

definition pg_cancel_task :: "('cn, 'tok, 'st, 'po, 's) pg_env \<Rightarrow> (('cn, 'tok, 's) pg_world, unit) op" where
  "pg_cancel_task E w = (case pg_cancel_query (fst w) of
     Inl e \<Rightarrow> (Inl e, w)
   | Inr (token, tls) \<Rightarrow> (Inr (), (fst w, snd (pv_cancel E token tls (snd w)))))"

section \<open>Streaming\<close>

text \<open>The loop of \<open>stream_rows\<close>; every turn that goes on adds at least one row.\<close>

function stream_portal ::
  "lib \<Rightarrow> ('cn, 'tok, 'st, 'po, 's) pg_env \<Rightarrow> 'cn \<Rightarrow> 'po \<Rightarrow> pg_column list \<Rightarrow> bool \<Rightarrow> nat \<Rightarrow> 's
   \<Rightarrow> StreamElement list \<times> unit dres \<times> 's" where
  "stream_portal L E cn po stmt header_sent n s =
     (if n \<ge> EMERGENCY_MAX then ([], Inr (), s)
      else case pg_call (pv_portal E cn po (min (EMERGENCY_MAX - n) PORTAL_BATCH_SIZE)) s of
        (Inl e, s1) \<Rightarrow> ([], Inl e, s1)
      | (Inr batch, s1) \<Rightarrow>
          (let (names, types) = portal_columns stmt batch ([], []);
               header = (if header_sent then [] else [Header \<lparr> sh_columns = names, sh_column_type_names = types \<rparr>])
           in case res_collect (map (row_cells L (pv_values E)) batch) of
              Inl e \<Rightarrow> (header, Inl e, s1)
            | Inr cells \<Rightarrow>
                (let out = header @ (if batch = [] then [] else [Rows cells])
                 in if length batch < min (EMERGENCY_MAX - n) PORTAL_BATCH_SIZE then (out, Inr (), s1)
                    else let (more, r, s2) = stream_portal L E cn po stmt True (n + length batch) s1
                         in (out @ more, r, s2))))"
  by pat_completeness auto
termination
proof (relation "measure (\<lambda>(_, _, _, _, _, _, n, _). EMERGENCY_MAX - n)")
  fix L and E :: "('cn, 'tok, 'st, 'po, 's) pg_env" and cn po stmt header_sent n s r s1 batch and cells :: "CellValue list list"
    and p x names types header out
  assume n: "\<not> EMERGENCY_MAX \<le> n" and full: "\<not> length batch < min (EMERGENCY_MAX - n) PORTAL_BATCH_SIZE"
  then have "0 < length batch" by (auto simp: PORTAL_BATCH_SIZE_def)
  then show "((L, E, cn, po, stmt, True, n + length batch, s1), (L, E, cn, po, stmt, header_sent, n, s))
      \<in> measure (\<lambda>(_, _, _, _, _, _, n, _). EMERGENCY_MAX - n)"
    using n by (cases batch) auto
qed simp

declare stream_portal.simps [simp del]

text \<open>The header of an empty first batch is the statement's, or empty.\<close>

definition pg_stream_on ::
  "lib \<Rightarrow> ('cn, 'tok, 'st, 'po, 's) pg_env \<Rightarrow> 'cn \<Rightarrow> string \<Rightarrow> bool \<Rightarrow> 's \<Rightarrow> StreamElement list \<times> unit dres \<times> 's" where
  "pg_stream_on L E cn sql read_only s =
     (case pg_call (pv_begin E cn read_only) s of
        (Inl e, s1) \<Rightarrow> ([], Inl e, s1)
      | (Inr _, s1) \<Rightarrow>
          (case op_bind (pg_call (pv_prepare E cn sql)) (\<lambda>(st, columns). op_map (\<lambda>po. (po, columns)) (pg_call (pv_bind E cn st []))) s1 of
             (Inl e, s2) \<Rightarrow> ([], Inl e, pv_rollback E cn s2)
           | (Inr (po, columns), s2) \<Rightarrow>
               (case stream_portal L E cn po columns False 0 s2 of
                  (out, Inl e, s3) \<Rightarrow> (out, Inl e, pv_rollback E cn s3)
                | (out, Inr _, s3) \<Rightarrow> (let (r, s4) = pg_call (pv_commit E cn) s3 in (out, r, s4)))))"

definition pg_stream_rows ::
  "lib \<Rightarrow> ('cn, 'tok, 'st, 'po, 's) pg_env \<Rightarrow> string \<Rightarrow> ('cn, 'tok, 's) pg_world
   \<Rightarrow> (StreamElement list \<times> unit dres) \<times> ('cn, 'tok, 's) pg_world" where
  "pg_stream_rows L E sql w = (case pd_client (fst w) of
     None \<Rightarrow> (([], Inl pg_not_connected), w)
   | Some cn \<Rightarrow> (let (out, r, s1) = pg_stream_on L E cn sql (cc_read_only (pd_config (fst w))) (snd w)
       in ((out, r), (fst w, s1))))"


section \<open>Lemmas: the portal loop\<close>

definition fetch_size :: "nat \<Rightarrow> CellValue list list \<Rightarrow> nat" where
  "fetch_size cap rows = min (cap - length rows) PORTAL_BATCH_SIZE"

lemma fetch_size_pos: "length rows < cap \<Longrightarrow> 0 < fetch_size cap rows"
  by (simp add: fetch_size_def PORTAL_BATCH_SIZE_def)

lemma portal_loop_full: "length rows \<ge> cap \<Longrightarrow> portal_loop L E cn po stmt cap cols rows s = (Inr (cols, rows, True), s)"
  by (subst portal_loop.simps) simp

lemma portal_loop_step:
  assumes "length rows < cap"
  shows "portal_loop L E cn po stmt cap cols rows s =
    (case pg_call (pv_portal E cn po (fetch_size cap rows)) s of
        (Inl e, s1) \<Rightarrow> (Inl e, s1)
      | (Inr batch, s1) \<Rightarrow> (case res_collect (map (row_cells L (pv_values E)) batch) of
          Inl e \<Rightarrow> (Inl e, s1)
        | Inr cells \<Rightarrow>
            if length batch < fetch_size cap rows then (Inr (portal_columns stmt batch cols, rows @ cells, False), s1)
            else portal_loop L E cn po stmt cap (portal_columns stmt batch cols) (rows @ cells) s1))"
  using assms unfolding fetch_size_def by (subst portal_loop.simps) simp

lemma res_collect_append:
  "res_collect (xs @ ys) = res_bind (res_collect xs) (\<lambda>as. res_map (\<lambda>bs. as @ bs) (res_collect ys))"
proof (induction xs)
  case Nil
  then show ?case by (cases "res_collect ys") simp_all
next
  case (Cons x xs)
  then show ?case by (cases x; cases "res_collect xs"; cases "res_collect ys") simp_all
qed

text \<open>A server that hands out the rows of one result in order: \<open>left s\<close> are those not fetched yet.\<close>

definition serves_in_order :: "('cn, 'tok, 'st, 'po, 's) pg_env \<Rightarrow> 'cn \<Rightarrow> 'po \<Rightarrow> ('s \<Rightarrow> pg_row list) \<Rightarrow> bool" where
  "serves_in_order E cn po left \<longleftrightarrow> (\<forall>n s. 0 < n \<longrightarrow>
     fst (pv_portal E cn po n s) = Inr (take n (left s)) \<and> left (snd (pv_portal E cn po n s)) = drop n (left s))"

lemma portal_loop_rows:
  assumes serve: "serves_in_order E cn po left"
    and "length rows \<le> cap" "res_collect (map (row_cells L (pv_values E)) (take (cap - length rows) (left s))) = Inr cells"
  shows "\<exists>cols' s'. portal_loop L E cn po stmt cap cols rows s =
      (Inr (cols', rows @ cells, cap \<le> length rows + length (left s)), s') \<and> left s' = drop (cap - length rows) (left s)"
  using assms(2,3)
proof (induction "cap - length rows" arbitrary: rows cols s cells rule: less_induct)
  case less
  let ?rc = "row_cells L (pv_values E)"
  show ?case
  proof (cases "length rows \<ge> cap")
    case True
    then show ?thesis using less.prems by (simp add: portal_loop_full)
  next
    case False
    define f where "f = fetch_size cap rows"
    have f: "0 < f" "f \<le> cap - length rows" using False by (simp_all add: f_def fetch_size_def PORTAL_BATCH_SIZE_def)
    define s1 where "s1 = snd (pv_portal E cn po f s)"
    have call: "pg_call (pv_portal E cn po f) s = (Inr (take f (left s)), s1)" and left1: "left s1 = drop f (left s)"
      using serve f by (simp_all add: serves_in_order_def pg_call_def s1_def pair_simps)
    have "take (cap - length rows) (left s) = take f (left s) @ take (cap - length rows - f) (drop f (left s))"
      using f by (metis le_add_diff_inverse take_add)
    then obtain c1 c2 where c: "res_collect (map ?rc (take f (left s))) = Inr c1"
        "res_collect (map ?rc (take (cap - length rows - f) (left s1))) = Inr c2" "cells = c1 @ c2"
      using less.prems(2) left1 by (auto simp: res_collect_append)
    have l1: "length c1 = length (take f (left s))" using res_collect_length [OF c(1)] by simp
    note step = portal_loop_step [of rows cap L E cn po stmt cols s, folded f_def]
    show ?thesis
    proof (cases "length (left s) < f")
      case True
      then have "left s1 = []" using left1 by simp
      then have "c2 = []" using c(2) by simp
      then show ?thesis using True False f call c left1 by (auto simp: step)
    next
      case full: False
      then have lr: "length (rows @ c1) = length rows + f" using l1 by simp
      have k: "cap - length (rows @ c1) = cap - length rows - f" using lr by simp
      have "cap - length (rows @ c1) < cap - length rows" "length (rows @ c1) \<le> cap" using f lr False by simp_all
      moreover have "res_collect (map ?rc (take (cap - length (rows @ c1)) (left s1))) = Inr c2"
        using c(2) k by simp
      ultimately obtain cols' s' where rec: "portal_loop L E cn po stmt cap (portal_columns stmt (take f (left s)) cols) (rows @ c1) s1 =
          (Inr (cols', (rows @ c1) @ c2, cap \<le> length (rows @ c1) + length (left s1)), s')"
          "left s' = drop (cap - length (rows @ c1)) (left s1)"
        using less.hyps [of "rows @ c1" s1 c2 "portal_columns stmt (take f (left s)) cols"] by blast
      have "length (rows @ c1) + length (left s1) = length rows + length (left s)" using lr left1 full by simp
      moreover have "left s' = drop (cap - length rows) (left s)"
        using rec(2) k left1 f by (simp add: add.commute)
      ultimately show ?thesis using False full call c rec(1) by (auto simp: step)
    qed
  qed
qed

text \<open>Portal reads, counted on the server.\<close>

definition counts_fetches :: "('cn, 'tok, 'st, 'po, 's) pg_env \<Rightarrow> ('s \<Rightarrow> nat) \<Rightarrow> bool" where
  "counts_fetches E fetches \<longleftrightarrow> (\<forall>cn po n s. fetches (snd (pv_portal E cn po n s)) = fetches s + 1)"

lemma portal_loop_fetches:
  assumes c: "counts_fetches E fetches"
  shows "fetches (snd (portal_loop L E cn po stmt cap cols rows s)) \<le> fetches s + (cap - length rows + 999) div 1000"
proof (induction "cap - length rows" arbitrary: rows cols s rule: less_induct)
  case less
  show ?case
  proof (cases "length rows \<ge> cap")
    case True
    then show ?thesis by (simp add: portal_loop_full)
  next
    case False
    define f where "f = fetch_size cap rows"
    have f: "f = min (cap - length rows) 1000" by (simp add: f_def fetch_size_def PORTAL_BATCH_SIZE_def)
    have one: "1 \<le> (cap - length rows + 999) div 1000" using False by simp
    obtain r s1 where call: "pg_call (pv_portal E cn po f) s = (r, s1)" by (rule prod.exhaust)
    then have s1: "fetches s1 = fetches s + 1"
      using c by (auto simp: pg_call_def counts_fetches_def pair_simps)
    note step = portal_loop_step [of rows cap L E cn po stmt cols s, folded f_def]
    show ?thesis
    proof (cases "\<exists>batch cells. r = Inr batch \<and> res_collect (map (row_cells L (pv_values E)) batch) = Inr cells \<and> \<not> length batch < f")
      case False': False
      then have "fetches (snd (portal_loop L E cn po stmt cap cols rows s)) = fetches s1"
        using False call by (auto simp: step split: sum.split)
      then show ?thesis using s1 one by simp
    next
      case True
      then obtain batch cells where b: "r = Inr batch" "res_collect (map (row_cells L (pv_values E)) batch) = Inr cells"
        "\<not> length batch < f" by blast
      have l: "length cells = length batch" using res_collect_length [OF b(2)] by simp
      have "cap - length (rows @ cells) < cap - length rows" using b(3) l f False by (auto simp: min_def split: if_splits)
      then have "fetches (snd (portal_loop L E cn po stmt cap (portal_columns stmt batch cols) (rows @ cells) s1))
          \<le> fetches s1 + (cap - length (rows @ cells) + 999) div 1000"
        by (rule less.hyps)
      moreover have "(cap - length (rows @ cells) + 999) div 1000 + 1 \<le> (cap - length rows + 999) div 1000"
      proof -
        have "cap - length (rows @ cells) + 999 \<le> (cap - length rows + 999) - 1000 \<or> cap - length (rows @ cells) = 0"
          using b(3) l f False by (auto simp: min_def split: if_splits)
        then show ?thesis using one by (auto simp: div_le_mono le_div_geq)
      qed
      ultimately show ?thesis using False call b s1 by (simp add: step)
    qed
  qed
qed

section \<open>Lemmas: transactions\<close>

lemma pg_call_Inr [simp]: "m s = (Inr x, s1) \<Longrightarrow> pg_call m s = (Inr x, s1)"
  by (simp add: pg_call_def)

lemma pg_call_snd [simp]: "snd (pg_call m s) = snd (m s)"
  by (simp add: pg_call_def pair_simps)

text \<open>What every call of the session keeps up to the commit, an operation that ends in an error keeps,
  unless it is the commit that failed. \<open>db\<close> is what the database holds for everybody else.\<close>

definition uncommitted :: "('cn, 'tok, 'st, 'po, 's) pg_env \<Rightarrow> 'cn \<Rightarrow> ('s \<Rightarrow> 'd) \<Rightarrow> bool" where
  "uncommitted E cn db \<longleftrightarrow> (\<forall>s. (\<forall>ro. db (snd (pv_begin E cn ro s)) = db s)
     \<and> (\<forall>sql. db (snd (pv_prepare E cn sql s)) = db s) \<and> (\<forall>st ps. db (snd (pv_bind E cn st ps s)) = db s)
     \<and> (\<forall>po n. db (snd (pv_portal E cn po n s)) = db s) \<and> db (pv_rollback E cn s) = db s)"

lemma portal_loop_keeps:
  assumes "\<And>s n. I s \<Longrightarrow> I (snd (pv_portal E cn po n s))" "I s"
  shows "I (snd (portal_loop L E cn po stmt cap cols rows s))"
  using assms(2)
proof (induction "cap - length rows" arbitrary: rows cols s rule: less_induct)
  case less
  show ?case
  proof (cases "length rows \<ge> cap")
    case True
    then show ?thesis using less.prems by (simp add: portal_loop_full)
  next
    case False
    define f where "f = fetch_size cap rows"
    have f: "0 < f" using False by (simp add: f_def fetch_size_pos)
    obtain r s1 where call: "pg_call (pv_portal E cn po f) s = (r, s1)" by (rule prod.exhaust)
    then have s1: "I s1" using assms(1) [OF less.prems, of f] pg_call_snd [of "pv_portal E cn po f" s] by simp
    have rec: "I (snd (portal_loop L E cn po stmt cap (portal_columns stmt batch cols) (rows @ cells) s1))"
      if "res_collect (map (row_cells L (pv_values E)) batch) = Inr cells" "\<not> length batch < f" for batch cells
    proof (rule less.hyps)
      show "cap - length (rows @ cells) < cap - length rows"
        using res_collect_length [OF that(1)] that(2) f False by simp
    qed (rule s1)
    show ?thesis
      using False call s1 rec by (auto simp: portal_loop_step [of rows cap L E cn po stmt cols s, folded f_def] split: sum.split)
  qed
qed

text \<open>The statement and its portal, inside the transaction.\<close>

definition portal_body ::
  "lib \<Rightarrow> ('cn, 'tok, 'st, 'po, 's) pg_env \<Rightarrow> 'cn \<Rightarrow> string \<Rightarrow> nat option \<Rightarrow> CellValue list option
   \<Rightarrow> ('s, (string list \<times> string list) \<times> CellValue list list \<times> bool) op" where
  "portal_body L E cn sql row_cap ps = op_bind (pg_call (pv_prepare E cn sql)) (\<lambda>(st, columns).
     op_bind (pg_call (pv_bind E cn st (to_params (case ps of Some vs \<Rightarrow> vs | None \<Rightarrow> [])))) (\<lambda>po.
     portal_loop L E cn po columns (pg_cap row_cap) ([], []) []))"

lemma user_query_body:
  "pg_execute_user_query_on L E elapsed cn sql row_cap ps ro =
     op_map (portal_result elapsed) (in_transaction E cn ro (portal_body L E cn sql row_cap ps))"
  by (simp add: pg_execute_user_query_on_def portal_body_def)

lemma keeps_pg_call: "(\<And>s. I s \<Longrightarrow> I (snd (m s))) \<Longrightarrow> keeps I (pg_call m)"
  by (simp add: keeps_def)

lemma portal_body_keeps:
  assumes "\<And>s sql. I s \<Longrightarrow> I (snd (pv_prepare E cn sql s))" "\<And>s st ps. I s \<Longrightarrow> I (snd (pv_bind E cn st ps s))"
    "\<And>s po n. I s \<Longrightarrow> I (snd (pv_portal E cn po n s))"
  shows "keeps I (portal_body L E cn sql row_cap ps)"
proof -
  have "keeps I (portal_loop L E cn po columns (pg_cap row_cap) ([], []) [])" for po columns
    by (rule keepsI) (rule portal_loop_keeps [where I = I], simp_all add: assms(3))
  then show ?thesis
    unfolding portal_body_def split_def by (intro keeps_bind keeps_pg_call) (simp_all add: assms)
qed

lemma in_transaction_cases:
  obtains e s1 where "pg_call (pv_begin E cn ro) s = (Inl e, s1)" "in_transaction E cn ro m s = (Inl e, s1)"
  | s1 e s2 where "pg_call (pv_begin E cn ro) s = (Inr (), s1)" "m s1 = (Inl e, s2)"
      "in_transaction E cn ro m s = (Inl e, pv_rollback E cn s2)"
  | s1 x s2 where "pg_call (pv_begin E cn ro) s = (Inr (), s1)" "m s1 = (Inr x, s2)"
      "in_transaction E cn ro m s = op_map (\<lambda>_. x) (pg_call (pv_commit E cn)) s2"
proof -
  obtain r s1 where b: "pg_call (pv_begin E cn ro) s = (r, s1)" by (rule prod.exhaust)
  obtain r2 s2 where m: "m s1 = (r2, s2)" by (rule prod.exhaust)
  show ?thesis
    using b m that by (cases r; cases r2) (auto simp: in_transaction_def op_bind_def)
qed

text \<open>The same server with a count of the portal reads beside its state.\<close>

definition untouched :: "('s \<Rightarrow> 'r \<times> 's) \<Rightarrow> 's \<times> nat \<Rightarrow> 'r \<times> 's \<times> nat" where
  "untouched m sk = (let (r, s1) = m (fst sk) in (r, (s1, snd sk)))"

definition counted :: "('s \<Rightarrow> 'r \<times> 's) \<Rightarrow> 's \<times> nat \<Rightarrow> 'r \<times> 's \<times> nat" where
  "counted m sk = (let (r, s1) = m (fst sk) in (r, (s1, snd sk + 1)))"

definition counting :: "('cn, 'tok, 'st, 'po, 's) pg_env \<Rightarrow> ('cn, 'tok, 'st, 'po, 's \<times> nat) pg_env" where
  "counting E = \<lparr> pv_connect = (\<lambda>c v. untouched (pv_connect E c v)), pv_simple = (\<lambda>cn q. untouched (pv_simple E cn q)),
     pv_query = (\<lambda>cn q ps. untouched (pv_query E cn q ps)), pv_query_one = (\<lambda>cn q ps. untouched (pv_query_one E cn q ps)),
     pv_begin = (\<lambda>cn ro. untouched (pv_begin E cn ro)), pv_prepare = (\<lambda>cn q. untouched (pv_prepare E cn q)),
     pv_bind = (\<lambda>cn st ps. untouched (pv_bind E cn st ps)), pv_portal = (\<lambda>cn po n. counted (pv_portal E cn po n)),
     pv_commit = (\<lambda>cn. untouched (pv_commit E cn)), pv_rollback = (\<lambda>cn sk. (pv_rollback E cn (fst sk), snd sk)),
     pv_cancel = (\<lambda>tok v. untouched (pv_cancel E tok v)), pv_values = pv_values E, pv_tls = pv_tls E \<rparr>"

lemma counting_simps [simp]:
  "pv_begin (counting E) cn ro = untouched (pv_begin E cn ro)" "pv_prepare (counting E) cn q = untouched (pv_prepare E cn q)"
  "pv_bind (counting E) cn st ps = untouched (pv_bind E cn st ps)" "pv_portal (counting E) cn po n = counted (pv_portal E cn po n)"
  "pv_commit (counting E) cn = untouched (pv_commit E cn)" "pv_rollback (counting E) cn sk = (pv_rollback E cn (fst sk), snd sk)"
  by (simp_all add: counting_def)

lemma untouched_count [simp]: "snd (snd (untouched m sk)) = snd sk"
  by (simp add: untouched_def pair_simps)

lemma counted_count [simp]: "snd (snd (counted m sk)) = snd sk + 1"
  by (simp add: counted_def pair_simps)

lemma counts_counting: "counts_fetches (counting E) snd"
  by (simp add: counts_fetches_def)

lemma portal_body_count:
  "snd (snd (portal_body L (counting E) cn sql row_cap ps sk)) \<le> snd sk + (pg_cap row_cap + 999) div 1000"
proof -
  have call: "snd w1 = snd w" if "pg_call (untouched m) w = (r, w1)" for m w r w1
    using pg_call_snd [of "untouched m" w] that untouched_count [of m w] by simp
  obtain r1 w1 where a: "pg_call (untouched (pv_prepare E cn sql)) sk = (r1, w1)" by (rule prod.exhaust)
  show ?thesis
  proof (cases r1)
    case (Inl e)
    then show ?thesis using a call [OF a] by (simp add: portal_body_def op_bind_def)
  next
    case (Inr p)
    obtain st columns where p: "p = (st, columns)" by (rule prod.exhaust)
    obtain r2 w2 where b: "pg_call (untouched (pv_bind E cn st (to_params (case ps of Some vs \<Rightarrow> vs | None \<Rightarrow> [])))) w1 = (r2, w2)"
      by (rule prod.exhaust)
    show ?thesis
      using a b Inr p call [OF a] call [OF b] portal_loop_fetches [OF counts_counting, of L E cn _ columns "pg_cap row_cap" "([], [])" "[]" w2]
      by (cases r2) (auto simp: portal_body_def op_bind_def)
  qed
qed

lemma stream_portal_step:
  "stream_portal L E cn po stmt header_sent n s =
     (if n \<ge> EMERGENCY_MAX then ([], Inr (), s)
      else let size = min (EMERGENCY_MAX - n) PORTAL_BATCH_SIZE; (r, s1) = pg_call (pv_portal E cn po size) s in
        case r of Inl e \<Rightarrow> ([], Inl e, s1)
        | Inr batch \<Rightarrow>
          (let (names, types) = portal_columns stmt batch ([], []);
               header = (if header_sent then [] else [Header \<lparr> sh_columns = names, sh_column_type_names = types \<rparr>])
           in case res_collect (map (row_cells L (pv_values E)) batch) of
              Inl e \<Rightarrow> (header, Inl e, s1)
            | Inr cells \<Rightarrow>
                (let out = header @ (if batch = [] then [] else [Rows cells])
                 in if length batch < size then (out, Inr (), s1)
                    else let (more, r2, s2) = stream_portal L E cn po stmt True (n + length batch) s1
                         in (out @ more, r2, s2))))"
  by (subst stream_portal.simps) (simp add: Let_def split: prod.split sum.split)

lemma stream_portal_keeps:
  assumes "\<And>s n. I s \<Longrightarrow> I (snd (pv_portal E cn po n s))" "I s"
  shows "I (snd (snd (stream_portal L E cn po stmt header_sent n s)))"
  using assms(2)
proof (induction "EMERGENCY_MAX - n" arbitrary: n header_sent s rule: less_induct)
  case less
  show ?case
  proof (cases "n \<ge> EMERGENCY_MAX")
    case True
    then show ?thesis using less.prems by (simp add: stream_portal_step [of L E cn po stmt header_sent n s])
  next
    case False
    define f where "f = min (EMERGENCY_MAX - n) PORTAL_BATCH_SIZE"
    have f: "0 < f" using False by (simp add: f_def PORTAL_BATCH_SIZE_def)
    obtain r s1 where call: "pg_call (pv_portal E cn po f) s = (r, s1)" by (rule prod.exhaust)
    then have s1: "I s1" using assms(1) [OF less.prems, of f] pg_call_snd [of "pv_portal E cn po f" s] by simp
    have rec: "I (snd (snd (stream_portal L E cn po stmt True (n + length batch) s1)))" if "\<not> length batch < f" for batch :: "pg_row list"
      using that f False s1 by (intro less.hyps) simp_all
    show ?thesis
      unfolding stream_portal_step [of L E cn po stmt header_sent n s, folded f_def]
      using False call s1 rec by (auto simp: Let_def split_def split: sum.split)
  qed
qed

text \<open>What a read-only session promises: \<open>I\<close> holds between transactions, \<open>J\<close> inside a read-only one.\<close>

definition read_only_session ::
  "('cn, 'tok, 'st, 'po, 's) pg_env \<Rightarrow> 'cn \<Rightarrow> ('s \<Rightarrow> bool) \<Rightarrow> ('s \<Rightarrow> bool) \<Rightarrow> bool" where
  "read_only_session E cn I J \<longleftrightarrow> (\<forall>s. (I s \<longrightarrow> (case pv_begin E cn True s of (Inl _, s1) \<Rightarrow> I s1 | (Inr _, s1) \<Rightarrow> J s1))
     \<and> (J s \<longrightarrow> (\<forall>sql. J (snd (pv_prepare E cn sql s))) \<and> (\<forall>st ps. J (snd (pv_bind E cn st ps s)))
        \<and> (\<forall>po n. J (snd (pv_portal E cn po n s))) \<and> I (snd (pv_commit E cn s)) \<and> I (pv_rollback E cn s)))"

section \<open>Properties\<close>

text \<open>C7. A user query returns the rows of its result from the first, in order, and no more than the cap.
  When the transaction, the statement and the portal open and the server hands out the portal's rows
  in order, whatever the sizes it is asked for, the result is exactly the first \<open>pg_cap\<close> rows,
  converted cell by cell, and it is called truncated exactly when there are at least so many.\<close>

theorem pg_rows_exact:
  fixes E :: "('cn, 'tok, 'st, 'po, 's) pg_env"
  assumes "pv_begin E cn ro s = (Inr (), sa)" "pv_prepare E cn sql sa = (Inr (st, columns), sb)"
    and "pv_bind E cn st (to_params (case ps of Some vs \<Rightarrow> vs | None \<Rightarrow> [])) sb = (Inr po, sc)"
    and "serves_in_order E cn po left" "\<And>s. fst (pv_commit E cn s) = Inr ()"
    and "res_collect (map (row_cells L (pv_values E)) (take (pg_cap row_cap) (left sc))) = Inr cells"
  shows "\<exists>names s4. pg_execute_user_query_on L E elapsed cn sql row_cap ps ro s =
     (Inr (portal_result elapsed (names, cells, pg_cap row_cap \<le> length (left sc))), snd (pv_commit E cn s4))
     \<and> left s4 = drop (pg_cap row_cap) (left sc)"
proof -
  obtain names s4 where loop: "portal_loop L E cn po columns (pg_cap row_cap) ([], []) [] sc =
      (Inr (names, cells, pg_cap row_cap \<le> length (left sc)), s4)" "left s4 = drop (pg_cap row_cap) (left sc)"
    using portal_loop_rows [OF assms(4), of "[]" "pg_cap row_cap" L sc cells columns "([], [])"] assms(6) by auto
  have body: "portal_body L E cn sql row_cap ps sa = (Inr (names, cells, pg_cap row_cap \<le> length (left sc)), s4)"
    using assms(2,3) loop(1) by (simp add: portal_body_def op_bind_def)
  have "pg_call (pv_commit E cn) s4 = (Inr (), snd (pv_commit E cn s4))"
    using assms(5) [of s4] by (simp add: pg_call_def pair_simps)
  then have "in_transaction E cn ro (portal_body L E cn sql row_cap ps) s =
      (Inr (names, cells, pg_cap row_cap \<le> length (left sc)), snd (pv_commit E cn s4))"
    using assms(1) body by (simp add: in_transaction_def op_bind_def op_map_def)
  then show ?thesis using loop(2) by (intro exI [of _ names] exI [of _ s4]) (simp add: user_query_body op_map_def)
qed

text \<open>A server for the witnesses: what is committed, what is pending, the rows of the portal left.\<close>

definition no_values :: pg_values where
  "no_values = \<lparr> pg_bool = (\<lambda>_ _. Inr (Some True)), pg_int = (\<lambda>_ _ _. Inr None), pg_f64 = (\<lambda>_ _. Inr None),
     pg_str = (\<lambda>_ _. Inr None), pg_bytes = (\<lambda>_ _. Inr None), pg_uuid = (\<lambda>_ _. Inr None), pg_json = (\<lambda>_ _. Inr None),
     pg_strs = (\<lambda>_ _. Inr None), pg_shown = (\<lambda>_ _ _. Inr None), pg_was_null = (\<lambda>_ _. ''null'') \<rparr>"

definition pg_failure :: pg_error where
  "pg_failure = \<lparr> pe_state = None, pe_db = None, pe_text = ''closed'' \<rparr>"

definition table_server ::
  "pg_row list \<Rightarrow> (unit, unit, string, unit, string list \<times> string list \<times> pg_row list) pg_env" where
  "table_server rows = \<lparr> pv_connect = (\<lambda>_ _ s. (Inr ((), ()), s)), pv_simple = (\<lambda>_ sql (c, p, l). (Inr [], (c @ [sql], p, l))),
     pv_query = (\<lambda>_ _ _ s. (Inr [], s)), pv_query_one = (\<lambda>_ _ _ s. (Inl pg_failure, s)),
     pv_begin = (\<lambda>_ _ (c, p, l). (Inr (), (c, [], l))), pv_prepare = (\<lambda>_ sql s. (Inr (sql, []), s)),
     pv_bind = (\<lambda>_ st _ (c, p, l). (Inr (), (c, p @ [st], rows))),
     pv_portal = (\<lambda>_ _ n (c, p, l). (Inr (take n l), (c, p, drop n l))),
     pv_commit = (\<lambda>_ (c, p, l). (Inr (), (c @ p, [], l))), pv_rollback = (\<lambda>_ (c, p, l). (c, [], l)),
     pv_cancel = (\<lambda>_ _ s. (Inr (), s)), pv_values = no_values, pv_tls = one_root_tls \<rparr>"

definition true_row :: pg_row where
  "true_row = \<lparr> pr_columns = [\<lparr> pn_name = ''ok'', pn_type = \<lparr> pt_tag = BOOL, pt_name = ''bool'', pt_oid = 16 \<rparr> \<rparr>],
     pr_values = [Some [1]] \<rparr>"

theorem pg_rows_exact_witness:
  "\<exists>names s4. pg_execute_user_query_on plain_lib (table_server [true_row, true_row]) (0, 0) () ''SELECT ok'' (Some 1) None True ([], [], []) =
     (Inr (portal_result (0, 0) (names, [[CText ''true'']], pg_cap (Some 1) \<le> length [true_row, true_row])),
      snd (pv_commit (table_server [true_row, true_row]) () s4))
     \<and> (snd \<circ> snd) s4 = drop (pg_cap (Some 1)) ((snd \<circ> snd) ([] :: string list, [''SELECT ok''], [true_row, true_row]))"
  using pg_rows_exact [where E = "table_server [true_row, true_row]" and cn = "()" and ro = True and s = "([], [], [])"
      and sa = "([], [], [])" and sql = "''SELECT ok''" and st = "''SELECT ok''" and columns = "[]" and sb = "([], [], [])"
      and ps = None and po = "()" and sc = "([], [''SELECT ok''], [true_row, true_row])" and left = "snd \<circ> snd"
      and L = plain_lib and row_cap = "Some 1" and cells = "[[CText ''true'']]" and elapsed = "(0, 0)"]
  by (simp add: table_server_def serves_in_order_def pg_cap_def EMERGENCY_MAX_def row_cells_def true_row_def row_value_def
      text_from_def no_values_def split_def)


text \<open>C8. A user query that ends in an error has changed nothing for anybody else, unless it is the commit
  itself that failed: what fails between the begin and the commit, the statement, its parameters, a
  fetch or the conversion of a cell, is rolled back. So the session ends in one of three ways: no
  transaction could be begun; or the last thing asked of it is the rollback; or the commit failed.\<close>

theorem pg_failed_query_changes_nothing:
  assumes u: "uncommitted E cn db"
    and r: "pg_execute_user_query_on L E elapsed cn sql row_cap ps ro s = (Inl e, s')"
  shows "db s' = db s \<and> (pg_call (pv_begin E cn ro) s = (Inl e, s') \<or> (\<exists>sa. db sa = db s \<and> s' = pv_rollback E cn sa))
    \<or> (\<exists>sa. db sa = db s \<and> pg_call (pv_commit E cn) sa = (Inl e, s'))"
proof -
  let ?I = "\<lambda>x. db x = db s"
  have body: "keeps ?I (portal_body L E cn sql row_cap ps)"
    using u by (intro portal_body_keeps) (simp_all add: uncommitted_def)
  have begin_keeps: "pg_call (pv_begin E cn ro) s = (x, sa) \<Longrightarrow> db sa = db s" for x sa
    using u pg_call_snd [of "pv_begin E cn ro" s] by (simp add: uncommitted_def)
  from r have t: "in_transaction E cn ro (portal_body L E cn sql row_cap ps) s = (Inl e, s')"
    by (simp add: user_query_body op_map_def pair_simps) (metis prod.collapse)
  show ?thesis
  proof (rule in_transaction_cases [of E cn ro s "portal_body L E cn sql row_cap ps"])
    fix e' sa assume "pg_call (pv_begin E cn ro) s = (Inl e', sa)"
      "in_transaction E cn ro (portal_body L E cn sql row_cap ps) s = (Inl e', sa)"
    then show ?thesis using t begin_keeps by simp
  next
    fix sa e' sb assume a: "pg_call (pv_begin E cn ro) s = (Inr (), sa)" "portal_body L E cn sql row_cap ps sa = (Inl e', sb)"
      "in_transaction E cn ro (portal_body L E cn sql row_cap ps) s = (Inl e', pv_rollback E cn sb)"
    have "db sb = db s" using keeps_result [OF body begin_keeps [OF a(1)] a(2)] .
    moreover have "db (pv_rollback E cn sb) = db sb" using u by (simp add: uncommitted_def)
    ultimately show ?thesis using t a(3) by auto
  next
    fix sa x sb assume a: "pg_call (pv_begin E cn ro) s = (Inr (), sa)" "portal_body L E cn sql row_cap ps sa = (Inr x, sb)"
      "in_transaction E cn ro (portal_body L E cn sql row_cap ps) s = op_map (\<lambda>_. x) (pg_call (pv_commit E cn)) sb"
    have "db sb = db s" using keeps_result [OF body begin_keeps [OF a(1)] a(2)] .
    moreover have "pg_call (pv_commit E cn) sb = (Inl e, s')"
      using t a(3) by (cases "pg_call (pv_commit E cn) sb"; cases "fst (pg_call (pv_commit E cn) sb)") (auto simp: op_map_def)
    ultimately show ?thesis by blast
  qed
qed

text \<open>A row of a type the driver does not know, which the server of the witness returns.\<close>

definition odd_row :: pg_row where
  "odd_row = \<lparr> pr_columns = [\<lparr> pn_name = ''p'', pn_type = \<lparr> pt_tag = OtherType, pt_name = ''point'', pt_oid = 600 \<rparr> \<rparr>],
     pr_values = [Some [1]] \<rparr>"

theorem pg_failed_query_changes_nothing_witness:
  "fst ([''old''], [] :: string list, [] :: pg_row list) = fst ([''old''], [''stale''], [] :: pg_row list)
     \<and> (pg_call (pv_begin (table_server [odd_row]) () False) ([''old''], [''stale''], [])
           = (Inl (unsupported_type_error (pr_columns odd_row ! 0)), ([''old''], [], []))
       \<or> (\<exists>sa. fst sa = fst ([''old''], [''stale''], [] :: pg_row list)
            \<and> ([''old''], [], []) = pv_rollback (table_server [odd_row]) () sa))
   \<or> (\<exists>sa. fst sa = fst ([''old''], [''stale''], [] :: pg_row list)
       \<and> pg_call (pv_commit (table_server [odd_row]) ()) sa
         = (Inl (unsupported_type_error (pr_columns odd_row ! 0)), ([''old''], [], [])))"
proof (rule pg_failed_query_changes_nothing [where db = fst and E = "table_server [odd_row]" and cn = "()" and L = plain_lib and elapsed = "(0, 0)" and sql = "''INSERT''" and row_cap = None and ps = None and ro = False])
  show "uncommitted (table_server [odd_row]) () fst"
    by (auto simp: uncommitted_def table_server_def)
  show "pg_execute_user_query_on plain_lib (table_server [odd_row]) (0, 0) () ''INSERT'' None None False ([''old''], [''stale''], [])
      = (Inl (unsupported_type_error (pr_columns odd_row ! 0)), ([''old''], [], []))"
    by (simp add: user_query_body portal_body_def in_transaction_def op_bind_def op_map_def table_server_def pg_call_def pg_cap_def
        portal_loop_step fetch_size_def EMERGENCY_MAX_def PORTAL_BATCH_SIZE_def row_cells_def odd_row_def row_value_def)
qed


text \<open>C19. A user query always comes back: whatever the server does, at most one portal read is made for
  every thousand rows of the cap, and never more than 5000. The count is kept beside the server's
  state and changes nothing else.\<close>

theorem pg_portal_reads_bounded:
  "snd (snd (pg_execute_user_query_on L (counting E) elapsed cn sql row_cap ps ro (s, 0)))
     \<le> (pg_cap row_cap + 999) div 1000 \<and> (pg_cap row_cap + 999) div 1000 \<le> 5000"
proof -
  let ?body = "portal_body L (counting E) cn sql row_cap ps"
  have begins: "snd sa = 0" if "pg_call (pv_begin (counting E) cn ro) (s, 0) = (x, sa)" for x sa
    using that pg_call_snd [of "untouched (pv_begin E cn ro)" "(s, 0)"] untouched_count [of "pv_begin E cn ro" "(s, 0)"] by simp
  have "snd (snd (in_transaction (counting E) cn ro ?body (s, 0))) \<le> (pg_cap row_cap + 999) div 1000"
  proof (rule in_transaction_cases [of "counting E" cn ro "(s, 0)" ?body])
    fix e sa assume "pg_call (pv_begin (counting E) cn ro) (s, 0) = (Inl e, sa)" "in_transaction (counting E) cn ro ?body (s, 0) = (Inl e, sa)"
    then show ?thesis using begins by simp
  next
    fix sa e sb assume "pg_call (pv_begin (counting E) cn ro) (s, 0) = (Inr (), sa)" "?body sa = (Inl e, sb)"
      "in_transaction (counting E) cn ro ?body (s, 0) = (Inl e, pv_rollback (counting E) cn sb)"
    then show ?thesis using begins portal_body_count [of L E cn sql row_cap ps sa] by simp
  next
    fix sa x sb assume "pg_call (pv_begin (counting E) cn ro) (s, 0) = (Inr (), sa)" "?body sa = (Inr x, sb)"
      "in_transaction (counting E) cn ro ?body (s, 0) = op_map (\<lambda>_. x) (pg_call (pv_commit (counting E) cn)) sb"
    then show ?thesis using begins portal_body_count [of L E cn sql row_cap ps sa] by (simp add: op_map_def pair_simps)
  qed
  moreover have "(pg_cap row_cap + 999) div 1000 \<le> 5000" by (simp add: pg_cap_def EMERGENCY_MAX_def)
  ultimately show ?thesis by (simp add: user_query_body op_map_def pair_simps)
qed

text \<open>A cap of no rows runs no statement: the transaction is opened, the statement prepared and bound, and
  committed without a portal read, and the result is a success with no rows, called truncated. An
  INSERT sent with a cap of 0 inserts nothing and is reported as done.\<close>

theorem row_cap_zero_runs_nothing:
  "pg_execute_user_query_on L E elapsed cn sql (Some 0) ps ro =
     op_map (\<lambda>_. portal_result elapsed (([], []), [], True)) (in_transaction E cn ro
       (op_bind (pg_call (pv_prepare E cn sql)) (\<lambda>(st, _).
        op_map (\<lambda>_. ()) (pg_call (pv_bind E cn st (to_params (case ps of Some vs \<Rightarrow> vs | None \<Rightarrow> [])))))))"
proof
  fix s
  have "portal_loop L E cn po columns 0 ([], []) [] = op_lift (Inr (([], []), [], True))" for po columns
    by (rule ext) (simp add: portal_loop_full)
  then show "pg_execute_user_query_on L E elapsed cn sql (Some 0) ps ro s =
     op_map (\<lambda>_. portal_result elapsed (([], []), [], True)) (in_transaction E cn ro
       (op_bind (pg_call (pv_prepare E cn sql)) (\<lambda>(st, _).
        op_map (\<lambda>_. ()) (pg_call (pv_bind E cn st (to_params (case ps of Some vs \<Rightarrow> vs | None \<Rightarrow> []))))))) s"
    by (auto simp: user_query_body portal_body_def pg_cap_def in_transaction_def op_bind_def op_map_def res_map_res_map
        split: prod.split sum.split)
qed


text \<open>The calls that run a user's statement, and their effect on the world.\<close>

datatype pg_user_call = UserQuery string "nat option" "CellValue list option" | UserStream string

definition pg_user_effect ::
  "lib \<Rightarrow> ('cn, 'tok, 'st, 'po, 's) pg_env \<Rightarrow> pg_user_call \<Rightarrow> ('cn, 'tok, 's) pg_world \<Rightarrow> ('cn, 'tok, 's) pg_world" where
  "pg_user_effect L E call w = (case call of
     UserQuery sql cap ps \<Rightarrow> snd (pg_execute_user_query L E (0, 0) sql cap ps w)
   | UserStream sql \<Rightarrow> snd (pg_stream_rows L E sql w))"

lemma read_only_begin:
  assumes "read_only_session E cn I J" "I s" "pg_call (pv_begin E cn True) s = (x, sa)"
  shows "case x of Inl _ \<Rightarrow> I sa | Inr _ \<Rightarrow> J sa"
proof -
  have "case pv_begin E cn True s of (Inl _, s1) \<Rightarrow> I s1 | (Inr _, s1) \<Rightarrow> J s1"
    using spec [OF assms(1) [unfolded read_only_session_def], of s] assms(2) by (rule conjunct1 [THEN mp])
  moreover obtain r s1 where b: "pv_begin E cn True s = (r, s1)" by (rule prod.exhaust)
  ultimately have c: "case r of Inl _ \<Rightarrow> I s1 | Inr _ \<Rightarrow> J s1" by simp
  have "x = map_err pg_query_error r" "sa = s1" using assms(3) b by (simp_all add: pg_call_def)
  then show ?thesis using c by (cases r) simp_all
qed

lemma read_only_inside:
  assumes "read_only_session E cn I J" "J s"
  shows "J (snd (pv_prepare E cn sql s))" "J (snd (pv_bind E cn st ps s))" "J (snd (pv_portal E cn po n s))"
    "I (snd (pv_commit E cn s))" "I (pv_rollback E cn s)"
  using spec [OF assms(1) [unfolded read_only_session_def], of s] assms(2) by simp_all

lemma in_transaction_protocol:
  assumes p: "read_only_session E cn I J" and body: "keeps J m" and s: "I s"
  shows "I (snd (in_transaction E cn True m s))"
proof -
  have begins: "case x of Inl _ \<Rightarrow> I sa | Inr _ \<Rightarrow> J sa" if "pg_call (pv_begin E cn True) s = (x, sa)" for x sa
    using read_only_begin [OF p s that] .
  show ?thesis
  proof (rule in_transaction_cases [of E cn True s m])
    fix e sa assume "pg_call (pv_begin E cn True) s = (Inl e, sa)" "in_transaction E cn True m s = (Inl e, sa)"
    then show ?thesis using begins by fastforce
  next
    fix sa e sb assume a: "pg_call (pv_begin E cn True) s = (Inr (), sa)" "m sa = (Inl e, sb)"
      "in_transaction E cn True m s = (Inl e, pv_rollback E cn sb)"
    have "J sb" using keeps_result [OF body _ a(2)] begins [OF a(1)] by simp
    then show ?thesis using a(3) read_only_inside [OF p] by simp
  next
    fix sa x sb assume a: "pg_call (pv_begin E cn True) s = (Inr (), sa)" "m sa = (Inr x, sb)"
      "in_transaction E cn True m s = op_map (\<lambda>_. x) (pg_call (pv_commit E cn)) sb"
    have "J sb" using keeps_result [OF body _ a(2)] begins [OF a(1)] by simp
    then show ?thesis using a(3) read_only_inside [OF p] by (simp add: op_map_def pair_simps)
  qed
qed

lemma read_only_stream:
  assumes p: "read_only_session E cn I J" and s: "I s"
  shows "I (snd (snd (pg_stream_on L E cn sql True s)))"
proof -
  let ?open = "op_bind (pg_call (pv_prepare E cn sql)) (\<lambda>(st, columns). op_map (\<lambda>po. (po, columns)) (pg_call (pv_bind E cn st [])))"
  have k: "keeps J ?open"
    unfolding split_def by (intro keeps_bind keeps_map keeps_pg_call) (simp_all add: read_only_inside [OF p])
  obtain x sa where b: "pg_call (pv_begin E cn True) s = (x, sa)" by (rule prod.exhaust)
  have sa: "case x of Inl _ \<Rightarrow> I sa | Inr _ \<Rightarrow> J sa"
    using read_only_begin [OF p s b] .
  show ?thesis
  proof (cases x)
    case (Inl e)
    then show ?thesis using b sa by (simp add: pg_stream_on_def)
  next
    case (Inr u)
    obtain y sb where o: "?open sa = (y, sb)" by (rule prod.exhaust)
    have sb: "J sb" using keeps_result [OF k _ o] sa Inr by simp
    show ?thesis
    proof (cases y)
      case (Inl e)
      then show ?thesis using b o \<open>x = Inr u\<close> sb read_only_inside [OF p] by (simp add: pg_stream_on_def)
    next
      case (Inr pc)
      obtain po columns where pc: "pc = (po, columns)" by (rule prod.exhaust)
      obtain out r sc where l: "stream_portal L E cn po columns False 0 sb = (out, r, sc)" by (metis prod.exhaust)
      have "J sc" using stream_portal_keeps [of J E cn po sb L columns False 0] sb l read_only_inside(3) [OF p] by simp
      then have "I (pv_rollback E cn sc)" "I (snd (pv_commit E cn sc))" using read_only_inside [OF p] by simp_all
      then show ?thesis using b o Inr pc \<open>x = Inr u\<close> l
        by (cases r) (simp_all add: pg_stream_on_def pair_simps)
    qed
  qed
qed

lemma pg_user_effect_keeps:
  assumes "\<And>cn. read_only_session E cn I J" "cc_read_only (pd_config (fst w))" "I (snd w)"
  shows "I (snd (pg_user_effect L E call w)) \<and> fst (pg_user_effect L E call w) = fst w"
proof (cases "pd_client (fst w)")
  case None
  then show ?thesis using assms(3)
    by (cases call) (simp_all add: pg_user_effect_def pg_execute_user_query_def with_session_def pg_stream_rows_def)
next
  case (Some cn)
  have p: "read_only_session E cn I J" using assms(1) .
  have body: "keeps J (portal_body L E cn sql cap ps)" for sql cap ps
    by (intro portal_body_keeps) (simp_all add: read_only_inside [OF p])
  have t: "I (snd (in_transaction E cn True (portal_body L E cn sql cap ps) (snd w)))" for sql cap ps
    by (rule in_transaction_protocol [OF p body assms(3)])
  have u: "I (snd (snd (pg_stream_on L E cn sql True (snd w))))" for sql
    by (rule read_only_stream [OF p assms(3)])
  show ?thesis using Some assms(2) t u
    by (cases call) (simp_all add: pg_user_effect_def pg_execute_user_query_def with_session_def pg_stream_rows_def
        user_query_body op_map_def pair_simps)
qed

text \<open>On a read-only connection a user's statement only ever runs in a read-only transaction. Whatever
  the user queries and streams, and however they end: if \<open>I\<close> is what holds of a session with no
  transaction open and \<open>J\<close> what holds inside a transaction begun read-only, and the server keeps
  them (so a transaction begun writable may break both), then \<open>I\<close> holds at the end, no transaction
  is left open and nothing was run outside one.\<close>

theorem pg_read_only:
  assumes "\<And>cn. read_only_session E cn I J" "cc_read_only (pd_config d)" "I s"
  shows "I (snd (fold (pg_user_effect L E) calls (d, s)))"
proof -
  have "I (snd (fold (pg_user_effect L E) calls w)) \<and> fst (fold (pg_user_effect L E) calls w) = fst w"
    if "cc_read_only (pd_config (fst w))" "I (snd w)" for w
    using that
  proof (induction calls arbitrary: w)
    case Nil
    then show ?case by simp
  next
    case (Cons c cs)
    have "I (snd (pg_user_effect L E c w))" "fst (pg_user_effect L E c w) = fst w"
      using pg_user_effect_keeps [OF assms(1) Cons.prems] by simp_all
    then show ?case using Cons.IH [of "pg_user_effect L E c w"] Cons.prems by simp
  qed
  then show ?thesis using assms(2,3) by simp
qed

text \<open>A session that notes how every transaction ends and what runs outside a read-only one; the state is
  the open transaction's mode and the statements run without protection.\<close>

definition watched_session :: "(unit, unit, string, unit, bool option \<times> string list) pg_env" where
  "watched_session = \<lparr> pv_connect = (\<lambda>_ _ s. (Inr ((), ()), s)), pv_simple = (\<lambda>_ sql (t, u). (Inr [], (t, u @ [sql]))),
     pv_query = (\<lambda>_ sql _ (t, u). (Inr [], (t, u @ [sql]))), pv_query_one = (\<lambda>_ sql _ (t, u). (Inl pg_failure, (t, u @ [sql]))),
     pv_begin = (\<lambda>_ ro (_, u). (Inr (), (Some ro, u))), pv_prepare = (\<lambda>_ sql s. (Inr (sql, []), s)),
     pv_bind = (\<lambda>_ st _ (t, u). (Inr (), (t, if t = Some True then u else u @ [st]))), pv_portal = (\<lambda>_ _ _ s. (Inr [], s)),
     pv_commit = (\<lambda>_ (_, u). (Inr (), (None, u))), pv_rollback = (\<lambda>_ (_, u). (None, u)),
     pv_cancel = (\<lambda>_ _ s. (Inr (), s)), pv_values = no_values, pv_tls = one_root_tls \<rparr>"

definition connected_read_only :: "(unit, unit) PgDriver" where
  "connected_read_only = (pg_new (default_tls_config \<lparr> cc_read_only := True \<rparr>)) \<lparr> pd_client := Some () \<rparr>"

theorem pg_read_only_witness:
  "snd (fold (pg_user_effect plain_lib watched_session) [UserQuery ''DELETE FROM t'' None None, UserStream ''DROP TABLE t'']
      (connected_read_only, (None, []))) = (None, [])"
  by (rule pg_read_only [where I = "\<lambda>s. s = (None, [])" and J = "\<lambda>s. s = (Some True, [])"])
    (simp_all add: read_only_session_def watched_session_def connected_read_only_def pg_new_def)

end
