(* ===== verification/PostgresCalls.thy ===== *)
theory PostgresCalls
  imports Main Prelude Lib Core Effects Postgres PostgresDriver
begin

text \<open>
  \<open>execute_user_query\<close> and \<open>stream_rows\<close> of \<open>driver-postgres/src\<close> taken apart at their awaits into
  stages, one request each. A future may be dropped at any of them, as the client's backstop and a
  consumer that stops reading a stream do. The stages make up the calls of \<open>PostgresDriver\<close>, every call
  comes to its end, and one that is dropped changes nothing.
\<close>

section \<open>A call in stages\<close>

datatype outcome = Queried "(string list \<times> string list) \<times> CellValue list list \<times> bool" | Streamed "StreamElement list"

datatype answer = QueryAnswer "QueryResult dres" | StreamAnswer "StreamElement list" "unit dres"

text \<open>The stage says which request comes next, and what the call holds by then.\<close>

datatype ('st, 'po) stage =
    Beginning
  | Preparing
  | Binding 'st "pg_column list"
  | Fetching 'po "pg_column list" "string list \<times> string list" "CellValue list list"
  | Streaming 'po "pg_column list" bool nat "StreamElement list"
  | Committing outcome

fun call_sql :: "pg_user_call \<Rightarrow> string" where
  "call_sql (UserQuery sql cap ps) = sql"
| "call_sql (UserStream sql) = sql"

fun call_params :: "pg_user_call \<Rightarrow> pg_param list" where
  "call_params (UserQuery sql cap ps) = to_params (case ps of Some vs \<Rightarrow> vs | None \<Rightarrow> [])"
| "call_params (UserStream sql) = []"

fun call_cap :: "pg_user_call \<Rightarrow> nat" where
  "call_cap (UserQuery sql cap ps) = pg_cap cap"
| "call_cap (UserStream sql) = EMERGENCY_MAX"

fun call_failed :: "pg_user_call \<Rightarrow> StreamElement list \<Rightarrow> DriverError \<Rightarrow> answer" where
  "call_failed (UserQuery sql cap ps) out e = QueryAnswer (Inl e)"
| "call_failed (UserStream sql) out e = StreamAnswer out (Inl e)"

fun yielded :: "outcome \<Rightarrow> StreamElement list" where
  "yielded (Queried p) = []"
| "yielded (Streamed out) = out"

fun call_done :: "nat \<times> nat \<Rightarrow> outcome \<Rightarrow> answer" where
  "call_done elapsed (Queried p) = QueryAnswer (Inr (portal_result elapsed p))"
| "call_done elapsed (Streamed out) = StreamAnswer out (Inr ())"

fun first_fetch :: "pg_user_call \<Rightarrow> 'po \<Rightarrow> pg_column list \<Rightarrow> ('st, 'po) stage" where
  "first_fetch (UserQuery sql cap ps) po columns = Fetching po columns ([], []) []"
| "first_fetch (UserStream sql) po columns = Streaming po columns False 0 []"

text \<open>One request and what follows it up to the next await; an error inside the transaction drops it.\<close>

fun call_step ::
  "lib \<Rightarrow> ('cn, 'tok, 'st, 'po, 's) pg_env \<Rightarrow> nat \<times> nat \<Rightarrow> 'cn \<Rightarrow> bool \<Rightarrow> pg_user_call \<Rightarrow> ('st, 'po) stage \<Rightarrow> 's
   \<Rightarrow> (('st, 'po) stage + answer) \<times> 's" where
  "call_step L E elapsed cn ro c Beginning s = (case pg_call (pv_begin E cn ro) s of
     (Inl e, s1) \<Rightarrow> (Inr (call_failed c [] e), s1)
   | (Inr _, s1) \<Rightarrow> (Inl Preparing, s1))"
| "call_step L E elapsed cn ro c Preparing s = (case pg_call (pv_prepare E cn (call_sql c)) s of
     (Inl e, s1) \<Rightarrow> (Inr (call_failed c [] e), pv_rollback E cn s1)
   | (Inr (st, columns), s1) \<Rightarrow> (Inl (Binding st columns), s1))"
| "call_step L E elapsed cn ro c (Binding st columns) s = (case pg_call (pv_bind E cn st (call_params c)) s of
     (Inl e, s1) \<Rightarrow> (Inr (call_failed c [] e), pv_rollback E cn s1)
   | (Inr po, s1) \<Rightarrow> (Inl (first_fetch c po columns), s1))"
| "call_step L E elapsed cn ro c (Fetching po columns names rows) s =
     (if length rows \<ge> call_cap c then (Inl (Committing (Queried (names, rows, True))), s)
      else case pg_call (pv_portal E cn po (min (call_cap c - length rows) PORTAL_BATCH_SIZE)) s of
        (Inl e, s1) \<Rightarrow> (Inr (call_failed c [] e), pv_rollback E cn s1)
      | (Inr batch, s1) \<Rightarrow> (case res_collect (map (row_cells L (pv_values E)) batch) of
          Inl e \<Rightarrow> (Inr (call_failed c [] e), pv_rollback E cn s1)
        | Inr cells \<Rightarrow>
            if length batch < min (call_cap c - length rows) PORTAL_BATCH_SIZE
            then (Inl (Committing (Queried (portal_columns columns batch names, rows @ cells, False))), s1)
            else (Inl (Fetching po columns (portal_columns columns batch names) (rows @ cells)), s1)))"
| "call_step L E elapsed cn ro c (Streaming po columns header_sent n out) s =
     (if n \<ge> EMERGENCY_MAX then (Inl (Committing (Streamed out)), s)
      else case pg_call (pv_portal E cn po (min (EMERGENCY_MAX - n) PORTAL_BATCH_SIZE)) s of
        (Inl e, s1) \<Rightarrow> (Inr (call_failed c out e), pv_rollback E cn s1)
      | (Inr batch, s1) \<Rightarrow>
          (let (names, types) = portal_columns columns batch ([], []);
               header = (if header_sent then [] else [Header \<lparr> sh_columns = names, sh_column_type_names = types \<rparr>])
           in case res_collect (map (row_cells L (pv_values E)) batch) of
              Inl e \<Rightarrow> (Inr (call_failed c (out @ header) e), pv_rollback E cn s1)
            | Inr cells \<Rightarrow>
                (let out1 = out @ header @ (if batch = [] then [] else [Rows cells])
                 in if length batch < min (EMERGENCY_MAX - n) PORTAL_BATCH_SIZE then (Inl (Committing (Streamed out1)), s1)
                    else (Inl (Streaming po columns True (n + length batch) out1), s1))))"
| "call_step L E elapsed cn ro c (Committing x) s = (case pg_call (pv_commit E cn) s of
     (Inl e, s1) \<Rightarrow> (Inr (call_failed c (yielded x) e), s1)
   | (Inr _, s1) \<Rightarrow> (Inr (call_done elapsed x), s1))"

declare call_step.simps [simp del]

text \<open>A call dropped at a stage: its request was sent, or not yet (a stream waits for its consumer between
  the requests). The transaction, once asked for and not committed, is rolled back.\<close>

definition call_dropped ::
  "lib \<Rightarrow> ('cn, 'tok, 'st, 'po, 's) pg_env \<Rightarrow> 'cn \<Rightarrow> bool \<Rightarrow> pg_user_call \<Rightarrow> ('st, 'po) stage \<Rightarrow> bool \<Rightarrow> 's \<Rightarrow> 's" where
  "call_dropped L E cn ro c g sent s =
     (if sent then (case call_step L E (0, 0) cn ro c g s of
         (Inl _, s1) \<Rightarrow> pv_rollback E cn s1
       | (Inr _, s1) \<Rightarrow> s1)
      else if g = Beginning then s else pv_rollback E cn s)"

text \<open>The call run at once, as \<open>PostgresDriver\<close> has it.\<close>

fun run_call ::
  "lib \<Rightarrow> ('cn, 'tok, 'st, 'po, 's) pg_env \<Rightarrow> nat \<times> nat \<Rightarrow> 'cn \<Rightarrow> bool \<Rightarrow> pg_user_call \<Rightarrow> 's \<Rightarrow> answer \<times> 's" where
  "run_call L E elapsed cn ro (UserQuery sql cap ps) s =
     (let (r, s1) = pg_execute_user_query_on L E elapsed cn sql cap ps ro s in (QueryAnswer r, s1))"
| "run_call L E elapsed cn ro (UserStream sql) s =
     (let (out, r, s1) = pg_stream_on L E cn sql ro s in (StreamAnswer out r, s1))"

section \<open>The stages make up the call\<close>

text \<open>A body of the transaction, closed: rolled back or committed.\<close>

definition closed ::
  "('cn, 'tok, 'st, 'po, 's) pg_env \<Rightarrow> nat \<times> nat \<Rightarrow> 'cn \<Rightarrow> pg_user_call \<Rightarrow> (outcome + StreamElement list \<times> DriverError) \<times> 's
   \<Rightarrow> answer \<times> 's" where
  "closed E elapsed cn c p = (case p of
     (Inr (out, e), s1) \<Rightarrow> (call_failed c out e, pv_rollback E cn s1)
   | (Inl x, s1) \<Rightarrow> (case pg_call (pv_commit E cn) s1 of
       (Inl e, s2) \<Rightarrow> (call_failed c (yielded x) e, s2)
     | (Inr _, s2) \<Rightarrow> (call_done elapsed x, s2)))"

definition query_outcome ::
  "((string list \<times> string list) \<times> CellValue list list \<times> bool) dres \<times> 's \<Rightarrow> (outcome + StreamElement list \<times> DriverError) \<times> 's" where
  "query_outcome p = (case p of (Inl e, s) \<Rightarrow> (Inr ([], e), s) | (Inr x, s) \<Rightarrow> (Inl (Queried x), s))"

definition stream_outcome ::
  "StreamElement list \<Rightarrow> StreamElement list \<times> unit dres \<times> 's \<Rightarrow> (outcome + StreamElement list \<times> DriverError) \<times> 's" where
  "stream_outcome out p = (case p of (es, Inl e, s) \<Rightarrow> (Inr (out @ es, e), s) | (es, Inr _, s) \<Rightarrow> (Inl (Streamed (out @ es)), s))"

fun portal_rest ::
  "lib \<Rightarrow> ('cn, 'tok, 'st, 'po, 's) pg_env \<Rightarrow> 'cn \<Rightarrow> pg_user_call \<Rightarrow> 'po \<Rightarrow> pg_column list \<Rightarrow> 's
   \<Rightarrow> (outcome + StreamElement list \<times> DriverError) \<times> 's" where
  "portal_rest L E cn (UserQuery sql cap ps) po columns s = query_outcome (portal_loop L E cn po columns (pg_cap cap) ([], []) [] s)"
| "portal_rest L E cn (UserStream sql) po columns s = stream_outcome [] (stream_portal L E cn po columns False 0 s)"

definition bind_rest ::
  "lib \<Rightarrow> ('cn, 'tok, 'st, 'po, 's) pg_env \<Rightarrow> 'cn \<Rightarrow> pg_user_call \<Rightarrow> 'st \<Rightarrow> pg_column list \<Rightarrow> 's
   \<Rightarrow> (outcome + StreamElement list \<times> DriverError) \<times> 's" where
  "bind_rest L E cn c st columns s = (case pg_call (pv_bind E cn st (call_params c)) s of
     (Inl e, s1) \<Rightarrow> (Inr ([], e), s1)
   | (Inr po, s1) \<Rightarrow> portal_rest L E cn c po columns s1)"

definition prepare_rest ::
  "lib \<Rightarrow> ('cn, 'tok, 'st, 'po, 's) pg_env \<Rightarrow> 'cn \<Rightarrow> pg_user_call \<Rightarrow> 's \<Rightarrow> (outcome + StreamElement list \<times> DriverError) \<times> 's" where
  "prepare_rest L E cn c s = (case pg_call (pv_prepare E cn (call_sql c)) s of
     (Inl e, s1) \<Rightarrow> (Inr ([], e), s1)
   | (Inr (st, columns), s1) \<Rightarrow> bind_rest L E cn c st columns s1)"

text \<open>What is left of a call at a stage.\<close>

fun call_rest ::
  "lib \<Rightarrow> ('cn, 'tok, 'st, 'po, 's) pg_env \<Rightarrow> nat \<times> nat \<Rightarrow> 'cn \<Rightarrow> bool \<Rightarrow> pg_user_call \<Rightarrow> ('st, 'po) stage \<Rightarrow> 's \<Rightarrow> answer \<times> 's" where
  "call_rest L E elapsed cn ro c Beginning s = (case pg_call (pv_begin E cn ro) s of
     (Inl e, s1) \<Rightarrow> (call_failed c [] e, s1)
   | (Inr _, s1) \<Rightarrow> closed E elapsed cn c (prepare_rest L E cn c s1))"
| "call_rest L E elapsed cn ro c Preparing s = closed E elapsed cn c (prepare_rest L E cn c s)"
| "call_rest L E elapsed cn ro c (Binding st columns) s = closed E elapsed cn c (bind_rest L E cn c st columns s)"
| "call_rest L E elapsed cn ro c (Fetching po columns names rows) s =
     closed E elapsed cn c (query_outcome (portal_loop L E cn po columns (call_cap c) names rows s))"
| "call_rest L E elapsed cn ro c (Streaming po columns header_sent n out) s =
     closed E elapsed cn c (stream_outcome out (stream_portal L E cn po columns header_sent n s))"
| "call_rest L E elapsed cn ro c (Committing x) s = closed E elapsed cn c (Inl x, s)"

lemma closed_simps [simp]:
  "closed E elapsed cn c (Inr (out, e), s) = (call_failed c out e, pv_rollback E cn s)"
  "query_outcome (Inl e, s) = (Inr ([], e), s)" "query_outcome (Inr x, s) = (Inl (Queried x), s)"
  "stream_outcome out (es, Inl e, s) = (Inr (out @ es, e), s)"
  "stream_outcome out (es, Inr u, s) = (Inl (Streamed (out @ es)), s)"
  by (simp_all add: closed_def query_outcome_def stream_outcome_def)

lemma run_call_rest: "run_call L E elapsed cn ro c s = call_rest L E elapsed cn ro c Beginning s"
proof (cases c)
  case (UserQuery sql cap ps)
  obtain b s1 where b: "pg_call (pv_begin E cn ro) s = (b, s1)" by (rule prod.exhaust)
  obtain r s2 where body: "portal_body L E cn sql cap ps s1 = (r, s2)" by (rule prod.exhaust)
  have rest: "prepare_rest L E cn c s1 = query_outcome (r, s2)"
    using body unfolding UserQuery prepare_rest_def bind_rest_def portal_body_def op_bind_def
    by (auto simp: query_outcome_def split: prod.splits sum.splits)
  show ?thesis
  proof (cases b)
    case (Inl e)
    then show ?thesis using b UserQuery by (simp add: user_query_body in_transaction_def op_bind_def op_map_def)
  next
    case (Inr u)
    then show ?thesis using b body rest UserQuery
      by (cases r) (auto simp: user_query_body in_transaction_def op_bind_def op_map_def closed_def split: prod.split sum.split)
  qed
next
  case (UserStream sql)
  obtain b s1 where b: "pg_call (pv_begin E cn ro) s = (b, s1)" by (rule prod.exhaust)
  show ?thesis
  proof (cases b)
    case (Inl e)
    then show ?thesis using b UserStream by (simp add: pg_stream_on_def)
  next
    case (Inr u)
    then show ?thesis using b UserStream
      by (auto simp: pg_stream_on_def prepare_rest_def bind_rest_def op_bind_def op_map_def closed_def stream_outcome_def
          split: prod.split sum.split)
  qed
qed

text \<open>A step of the call leaves the rest of it.\<close>

lemma fetching_step:
  "call_rest L E elapsed cn ro c (Fetching po columns names rows) s =
    (case call_step L E elapsed cn ro c (Fetching po columns names rows) s of
       (Inl g, s1) \<Rightarrow> call_rest L E elapsed cn ro c g s1 | (Inr a, s1) \<Rightarrow> (a, s1))"
proof (cases "length rows \<ge> call_cap c")
  case True
  then show ?thesis by (simp add: portal_loop_full call_step.simps)
next
  case False
  then show ?thesis
    by (auto simp: portal_loop_step fetch_size_def call_step.simps split: prod.split sum.split)
qed

lemma stream_outcome_append:
  "stream_outcome out (case p of (es, x) \<Rightarrow> (y # es, x)) = stream_outcome (out @ [y]) p"
  "stream_outcome out (case p of (es, x) \<Rightarrow> (y # z # es, x)) = stream_outcome (out @ [y, z]) p"
  by (auto simp: stream_outcome_def split: prod.split sum.split)

lemma streaming_step:
  "call_rest L E elapsed cn ro c (Streaming po columns header_sent n out) s =
    (case call_step L E elapsed cn ro c (Streaming po columns header_sent n out) s of
       (Inl g, s1) \<Rightarrow> call_rest L E elapsed cn ro c g s1 | (Inr a, s1) \<Rightarrow> (a, s1))"
proof (cases "n \<ge> EMERGENCY_MAX")
  case True
  then show ?thesis by (simp add: stream_portal_step [of L E cn po columns header_sent n s] call_step.simps)
next
  case False
  define f where "f = min (EMERGENCY_MAX - n) PORTAL_BATCH_SIZE"
  obtain r s1 where call: "pg_call (pv_portal E cn po f) s = (r, s1)" by (rule prod.exhaust)
  note portal = stream_portal_step [of L E cn po columns header_sent n s, folded f_def]
  note step = call_step.simps(5) [of L E elapsed cn ro c po columns header_sent n out s, folded f_def]
  show ?thesis
  proof (cases r)
    case (Inl e)
    then show ?thesis using False call by (simp add: portal step)
  next
    case (Inr batch)
    obtain names types where nt: "portal_columns columns batch ([], []) = (names, types)" by (rule prod.exhaust)
    show ?thesis
    proof (cases "res_collect (map (row_cells L (pv_values E)) batch)")
      case (Inl e)
      then show ?thesis using False call Inr nt by (simp add: portal step)
    next
      case cells: (Inr cells)
      then show ?thesis using False call Inr nt by (simp add: portal step Let_def stream_outcome_append)
    qed
  qed
qed

lemma call_rest_step:
  "call_rest L E elapsed cn ro c g s = (case call_step L E elapsed cn ro c g s of
     (Inl g1, s1) \<Rightarrow> call_rest L E elapsed cn ro c g1 s1 | (Inr a, s1) \<Rightarrow> (a, s1))"
proof (cases g)
  case Beginning
  then show ?thesis by (simp add: call_step.simps split: prod.split sum.split)
next
  case Preparing
  then show ?thesis by (auto simp: call_step.simps prepare_rest_def split: prod.split sum.split)
next
  case (Binding st columns)
  have "closed E elapsed cn c (portal_rest L E cn c po columns s1) = call_rest L E elapsed cn ro c (first_fetch c po columns) s1" for po s1
    by (cases c) simp_all
  then show ?thesis using Binding by (auto simp: call_step.simps bind_rest_def split: prod.split sum.split)
next
  case (Fetching po columns names rows)
  then show ?thesis by (simp only: fetching_step)
next
  case (Streaming po columns header_sent n out)
  then show ?thesis by (simp only: streaming_step)
next
  case (Committing x)
  then show ?thesis by (simp add: call_step.simps closed_def split: prod.split sum.split)
qed

text \<open>So many steps of a call.\<close>

fun call_steps ::
  "lib \<Rightarrow> ('cn, 'tok, 'st, 'po, 's) pg_env \<Rightarrow> nat \<times> nat \<Rightarrow> 'cn \<Rightarrow> bool \<Rightarrow> pg_user_call \<Rightarrow> nat \<Rightarrow> 's
   \<Rightarrow> (('st, 'po) stage + answer) \<times> 's" where
  "call_steps L E elapsed cn ro c 0 s = (Inl Beginning, s)"
| "call_steps L E elapsed cn ro c (Suc k) s = (case call_steps L E elapsed cn ro c k s of
     (Inl g, s1) \<Rightarrow> call_step L E elapsed cn ro c g s1
   | (Inr a, s1) \<Rightarrow> (Inr a, s1))"

lemma call_steps_rest:
  "run_call L E elapsed cn ro c s = (case call_steps L E elapsed cn ro c k s of
     (Inl g, s1) \<Rightarrow> call_rest L E elapsed cn ro c g s1 | (Inr a, s1) \<Rightarrow> (a, s1))"
proof (induction k)
  case 0
  show ?case by (simp add: run_call_rest)
next
  case (Suc k)
  then show ?case
    by (auto simp: call_rest_step [of L E elapsed cn ro c _ s] split: prod.splits sum.splits)
      (subst call_rest_step, simp)+
qed

lemma call_steps_result: "call_steps L E elapsed cn ro c k s = (Inr a, s1) \<Longrightarrow> run_call L E elapsed cn ro c s = (a, s1)"
  using call_steps_rest [of L E elapsed cn ro c s k] by simp

text \<open>A call comes to its end: every step brings it nearer, a fetch by at least one row.\<close>

fun stages_left :: "pg_user_call \<Rightarrow> ('st, 'po) stage \<Rightarrow> nat" where
  "stages_left c Beginning = call_cap c + 5"
| "stages_left c Preparing = call_cap c + 4"
| "stages_left c (Binding st columns) = call_cap c + 3"
| "stages_left c (Fetching po columns names rows) = call_cap c - length rows + 2"
| "stages_left c (Streaming po columns header_sent n out) = call_cap c - n + 2"
| "stages_left c (Committing x) = 1"

definition stage_fits :: "pg_user_call \<Rightarrow> ('st, 'po) stage \<Rightarrow> bool" where
  "stage_fits c g \<longleftrightarrow> (case g of Streaming po columns header_sent n out \<Rightarrow> \<exists>sql. c = UserStream sql | _ \<Rightarrow> True)"

lemma call_step_nearer:
  assumes "call_step L E elapsed cn ro c g s = (Inl g1, s1)" "stage_fits c g"
  shows "stages_left c g1 < stages_left c g \<and> stage_fits c g1"
proof (cases g)
  case (Binding st columns)
  then show ?thesis using assms
    by (cases c) (auto simp: call_step.simps stage_fits_def split: prod.splits sum.splits)
next
  case (Fetching po columns names rows)
  have "(\<exists>x. g1 = Committing x) \<or> length rows < call_cap c
      \<and> (\<exists>names1 cells. g1 = Fetching po columns names1 (rows @ cells) \<and> call_cap c - length (rows @ cells) < call_cap c - length rows)"
    using assms(1) Fetching
    by (auto simp: call_step.simps PORTAL_BATCH_SIZE_def intro!: diff_less_mono2
        split: prod.splits sum.splits if_splits dest!: res_collect_length)
  then show ?thesis using Fetching by (auto simp: stage_fits_def)
next
  case (Streaming po columns header_sent n out)
  then show ?thesis using assms
    by (auto simp: call_step.simps stage_fits_def Let_def PORTAL_BATCH_SIZE_def split: prod.splits sum.splits if_splits)
qed (use assms in \<open>auto simp: call_step.simps stage_fits_def split: prod.splits sum.splits\<close>)

lemma call_steps_bounded:
  assumes "call_steps L E elapsed cn ro c k s = (Inl g, s1)"
  shows "stages_left c g + k \<le> call_cap c + 5 \<and> stage_fits c g"
  using assms
proof (induction k arbitrary: g s1)
  case 0
  then show ?case by (auto simp: stage_fits_def)
next
  case (Suc k)
  obtain x s2 where x: "call_steps L E elapsed cn ro c k s = (x, s2)" by (rule prod.exhaust)
  then obtain h where h: "x = Inl h" "call_step L E elapsed cn ro c h s2 = (Inl g, s1)"
    using Suc.prems by (cases x) auto
  have "stages_left c h + k \<le> call_cap c + 5 \<and> stage_fits c h" using Suc.IH x h(1) by simp
  then show ?case using call_step_nearer [OF h(2)] by fastforce
qed

lemma stages_left_pos: "0 < stages_left c g"
  by (cases g) simp_all

lemma call_ends: "\<exists>a s1. call_steps L E elapsed cn ro c (call_cap c + 5) s = (Inr a, s1)"
proof -
  obtain x s1 where x: "call_steps L E elapsed cn ro c (call_cap c + 5) s = (x, s1)" by (rule prod.exhaust)
  have "x \<noteq> Inl g" for g
    using call_steps_bounded [of L E elapsed cn ro c "call_cap c + 5" s g s1] stages_left_pos [of c g] x by auto
  then show ?thesis using x by (cases x) auto
qed

section \<open>What the stages keep\<close>

text \<open>\<open>I\<close> holds outside the transaction and \<open>J\<close> inside it, up to the commit.\<close>

definition guarded ::
  "('cn, 'tok, 'st, 'po, 's) pg_env \<Rightarrow> 'cn \<Rightarrow> bool \<Rightarrow> ('s \<Rightarrow> bool) \<Rightarrow> ('s \<Rightarrow> bool) \<Rightarrow> bool" where
  "guarded E cn ro I J \<longleftrightarrow> (\<forall>s. (I s \<longrightarrow> (case pv_begin E cn ro s of (Inl _, s1) \<Rightarrow> I s1 | (Inr _, s1) \<Rightarrow> J s1))
     \<and> (J s \<longrightarrow> (\<forall>sql. J (snd (pv_prepare E cn sql s))) \<and> (\<forall>st ps. J (snd (pv_bind E cn st ps s)))
        \<and> (\<forall>po n. J (snd (pv_portal E cn po n s))) \<and> I (pv_rollback E cn s)))"

lemma guarded_begin:
  assumes "guarded E cn ro I J" "I s" "pg_call (pv_begin E cn ro) s = (x, s1)"
  shows "case x of Inl _ \<Rightarrow> I s1 | Inr _ \<Rightarrow> J s1"
proof -
  obtain r s2 where b: "pv_begin E cn ro s = (r, s2)" by (rule prod.exhaust)
  have "case r of Inl _ \<Rightarrow> I s2 | Inr _ \<Rightarrow> J s2"
    using spec [OF assms(1) [unfolded guarded_def], of s] assms(2) b by simp
  then show ?thesis using assms(3) b by (cases r) (auto simp: pg_call_def)
qed

lemma guarded_inside:
  assumes "guarded E cn ro I J" "J s"
  shows "pg_call (pv_prepare E cn sql) s = (x, s1) \<Longrightarrow> J s1" "pg_call (pv_bind E cn st ps) s = (y, s1) \<Longrightarrow> J s1"
    "pg_call (pv_portal E cn po n) s = (z, s1) \<Longrightarrow> J s1" "I (pv_rollback E cn s)"
  using spec [OF assms(1) [unfolded guarded_def], of s] assms(2)
    pg_call_snd [of "pv_prepare E cn sql" s] pg_call_snd [of "pv_bind E cn st ps" s] pg_call_snd [of "pv_portal E cn po n" s]
  by simp_all

definition guards :: "('s \<Rightarrow> bool) \<Rightarrow> ('s \<Rightarrow> bool) \<Rightarrow> ('st, 'po) stage \<Rightarrow> 's \<Rightarrow> bool" where
  "guards I J g s \<longleftrightarrow> (if g = Beginning then I s else J s)"

lemma call_step_guards:
  assumes p: "guarded E cn ro I J" and g: "guards I J g s" "\<And>x. g \<noteq> Committing x"
  shows "case call_step L E elapsed cn ro c g s of (Inl g1, s1) \<Rightarrow> g1 \<noteq> Beginning \<and> J s1 | (Inr a, s1) \<Rightarrow> I s1"
proof (cases g)
  case Beginning
  obtain x s1 where b: "pg_call (pv_begin E cn ro) s = (x, s1)" by (rule prod.exhaust)
  have "case x of Inl _ \<Rightarrow> I s1 | Inr _ \<Rightarrow> J s1" using guarded_begin [OF p _ b] g(1) Beginning by (simp add: guards_def)
  then show ?thesis using Beginning b by (cases x) (simp_all add: call_step.simps)
next
  case Preparing
  obtain x s1 where b: "pg_call (pv_prepare E cn (call_sql c)) s = (x, s1)" by (rule prod.exhaust)
  have "J s1" using guarded_inside(1) [OF p _ b] g(1) Preparing by (simp add: guards_def)
  then show ?thesis using Preparing b guarded_inside(4) [OF p]
    by (cases x) (simp_all add: call_step.simps split: prod.split)
next
  case (Binding st columns)
  obtain x s1 where b: "pg_call (pv_bind E cn st (call_params c)) s = (x, s1)" by (rule prod.exhaust)
  have "J s1" using guarded_inside(2) [OF p _ b] g(1) Binding by (simp add: guards_def)
  moreover have "first_fetch c po columns \<noteq> Beginning" for po by (cases c) simp_all
  ultimately show ?thesis using Binding b guarded_inside(4) [OF p] by (cases x) (simp_all add: call_step.simps)
next
  case (Fetching po columns names rows)
  obtain x s1 where b: "pg_call (pv_portal E cn po (min (call_cap c - length rows) PORTAL_BATCH_SIZE)) s = (x, s1)"
    by (rule prod.exhaust)
  have "J s" "J s1" using guarded_inside(3) [OF p _ b] g(1) Fetching by (simp_all add: guards_def)
  then show ?thesis using Fetching b guarded_inside(4) [OF p] by (cases x) (auto simp: call_step.simps split: sum.split)
next
  case (Streaming po columns header_sent n out)
  obtain x s1 where b: "pg_call (pv_portal E cn po (min (EMERGENCY_MAX - n) PORTAL_BATCH_SIZE)) s = (x, s1)"
    by (rule prod.exhaust)
  have "J s" "J s1" using guarded_inside(3) [OF p _ b] g(1) Streaming by (simp_all add: guards_def)
  then show ?thesis using Streaming b guarded_inside(4) [OF p]
    by (cases x) (auto simp: call_step.simps Let_def split: prod.split sum.split)
next
  case (Committing x)
  then show ?thesis using g(2) by simp
qed

lemma commit_ends: "\<exists>a. call_step L E elapsed cn ro c (Committing x) s = (Inr a, snd (pv_commit E cn s))"
proof -
  obtain r s1 where b: "pg_call (pv_commit E cn) s = (r, s1)" by (rule prod.exhaust)
  then have "s1 = snd (pv_commit E cn s)" using pg_call_snd [of "pv_commit E cn" s] by simp
  then show ?thesis using b by (cases r) (simp_all add: call_step.simps)
qed

lemma call_steps_guards:
  assumes p: "guarded E cn ro I J" and s: "I s" and k: "call_steps L E elapsed cn ro c k s = (Inl g, s1)"
  shows "guards I J g s1"
  using k
proof (induction k arbitrary: g s1)
  case 0
  then show ?case using s by (simp add: guards_def)
next
  case (Suc k)
  obtain x s2 where x: "call_steps L E elapsed cn ro c k s = (x, s2)" by (rule prod.exhaust)
  then obtain h where h: "x = Inl h" "call_step L E elapsed cn ro c h s2 = (Inl g, s1)"
    using Suc.prems by (cases x) auto
  have "h \<noteq> Committing y" for y using h(2) commit_ends [of L E elapsed cn ro c y s2] by auto
  then show ?case using call_step_guards [OF p Suc.IH [of h s2], of L elapsed c] x h by (simp add: guards_def)
qed

text \<open>A call that was dropped, unless while it committed.\<close>

lemma call_dropped_guards:
  assumes p: "guarded E cn ro I J" and g: "guards I J g s" "\<not> (sent \<and> (\<exists>x. g = Committing x))"
  shows "I (call_dropped L E cn ro c g sent s)"
proof (cases sent)
  case True
  obtain r s1 where b: "call_step L E (0, 0) cn ro c g s = (r, s1)" by (rule prod.exhaust)
  show ?thesis
    using call_step_guards [OF p g(1), of L "(0, 0)" c] g(2) True b guarded_inside(4) [OF p, of s1]
    by (cases r) (auto simp: call_dropped_def)
next
  case False
  then show ?thesis using g(1) guarded_inside(4) [OF p, of s] by (simp add: call_dropped_def guards_def)
qed

text \<open>The contract of \<open>PostgresDriver.uncommitted\<close> and of a read-only session, as guards.\<close>

lemma guarded_uncommitted: "uncommitted E cn db \<Longrightarrow> guarded E cn ro (\<lambda>x. db x = v) (\<lambda>x. db x = v)"
  by (simp add: guarded_def uncommitted_def split: prod.split sum.split) (metis snd_conv)

lemma guarded_read_only: "read_only_session E cn I J \<Longrightarrow> guarded E cn True I J"
  by (simp add: guarded_def read_only_session_def)

lemma read_only_commit: "read_only_session E cn I J \<Longrightarrow> J s \<Longrightarrow> I (snd (pv_commit E cn s))"
  by (simp add: read_only_session_def)

lemma read_only_step:
  assumes "read_only_session E cn I J" "guards I J g s" "call_step L E elapsed cn True c g s = (Inr a, s1)"
  shows "I s1"
proof (cases "\<exists>x. g = Committing x")
  case True
  then obtain x where x: "g = Committing x" ..
  then have "s1 = snd (pv_commit E cn s)" using commit_ends [of L E elapsed cn True c x s] assms(3) by auto
  then show ?thesis using read_only_commit [OF assms(1)] assms(2) x by (simp add: guards_def)
next
  case False
  then show ?thesis
    using call_step_guards [OF guarded_read_only [OF assms(1)] assms(2), of L elapsed c] assms(3) by simp
qed

lemma read_only_dropped:
  assumes "read_only_session E cn I J" "guards I J g s"
  shows "I (call_dropped L E cn True c g sent s)"
proof (cases "sent \<and> (\<exists>x. g = Committing x)")
  case True
  then obtain x where x: "sent" "g = Committing x" by blast
  then show ?thesis
    using commit_ends [of L E "(0, 0)" cn True c x s] read_only_commit [OF assms(1)] assms(2)
    by (auto simp: call_dropped_def guards_def)
next
  case False
  then show ?thesis by (rule call_dropped_guards [OF guarded_read_only [OF assms(1)] assms(2)])
qed

lemma read_only_result:
  assumes p: "read_only_session E cn I J" and s: "I s" and k: "call_steps L E elapsed cn True c k s = (Inr a, s1)"
  shows "I s1"
  using k
proof (induction k arbitrary: a s1)
  case 0
  then show ?case by simp
next
  case (Suc k)
  obtain x s2 where x: "call_steps L E elapsed cn True c k s = (x, s2)" by (rule prod.exhaust)
  show ?case
  proof (cases x)
    case (Inl g)
    then have "guards I J g s2" using x call_steps_guards [OF guarded_read_only [OF p] s] by simp
    then show ?thesis using read_only_step [OF p] Suc.prems x Inl by simp
  next
    case (Inr b)
    then show ?thesis using Suc x by simp
  qed
qed

section \<open>Properties\<close>

text \<open>C10. A dropped call changes nothing. When the client's backstop fires, or a stream is not read to its end,
  the future is dropped at some await; whatever it had done by then is rolled back, unless it was the
  commit it was waiting for.\<close>

theorem dropped_call_changes_nothing:
  assumes "uncommitted E cn db" "call_steps L E elapsed cn ro c k s = (Inl g, s1)"
    and "\<not> (sent \<and> (\<exists>x. g = Committing x))"
  shows "db (call_dropped L E cn ro c g sent s1) = db s"
  using call_dropped_guards [OF guarded_uncommitted [OF assms(1)] _ assms(3)]
    call_steps_guards [OF guarded_uncommitted [OF assms(1)] refl assms(2)] by simp

theorem dropped_call_changes_nothing_witness:
  "fst (call_dropped plain_lib (table_server [odd_row]) () False (UserQuery ''INSERT'' None None) (Fetching () [] ([], []) []) True
      ([''old''], [''INSERT''], [odd_row])) = fst ([''old''], [] :: string list, [] :: pg_row list)"
proof (rule dropped_call_changes_nothing [where k = 3 and elapsed = "(0, 0)"])
  show "uncommitted (table_server [odd_row]) () fst" by (auto simp: uncommitted_def table_server_def)
  show "call_steps plain_lib (table_server [odd_row]) (0, 0) () False (UserQuery ''INSERT'' None None) 3 ([''old''], [], [])
      = (Inl (Fetching () [] ([], []) []), ([''old''], [''INSERT''], [odd_row]))"
    by (simp add: numeral_3_eq_3 call_step.simps table_server_def pg_call_def)
qed simp


end
