(* ===== verification/PostgresSession.thy ===== *)
theory PostgresSession
  imports Main Prelude Lib Core Effects Postgres PostgresDriver PostgresCalls
begin

text \<open>
  Overlapping calls on one object of \<open>driver-postgres/src/driver.rs\<close>, between its connect and its
  disconnect. Every task holds the session's lock in one of the two modes; a step is one request, or the
  lock taken or given back, or a future dropped. The calls, however they overlap, come out as if they had
  been run one after the other.
\<close>

section \<open>Overlapping calls\<close>

text \<open>A request made under the read lock.\<close>

datatype request = Simple string | Query string "pg_param list" | QueryOne string "pg_param list"

fun request_effect :: "('cn, 'tok, 'st, 'po, 's) pg_env \<Rightarrow> 'cn \<Rightarrow> request \<Rightarrow> 's \<Rightarrow> 's" where
  "request_effect E cn (Simple sql) s = snd (pv_simple E cn sql s)"
| "request_effect E cn (Query sql ps) s = snd (pv_query E cn sql ps s)"
| "request_effect E cn (QueryOne sql ps) s = snd (pv_query_one E cn sql ps s)"

text \<open>A task waits for the write lock, holds it with so many steps made and a stage reached, holds the read
  lock, has its answer, or is gone.\<close>

datatype ('cn, 'st, 'po) call_task =
    Waiting pg_user_call
  | Writing 'cn pg_user_call nat "('st, 'po) stage"
  | Reading 'cn
  | Answered pg_user_call answer
  | Gone

text \<open>What reached the server, by task: a request under the read lock, a whole call, or the part of a call
  that was dropped after so many steps.\<close>

datatype 'cn entry = Plain 'cn request | Whole 'cn pg_user_call | Part 'cn pg_user_call nat bool

record ('cn, 'tok, 'st, 'po, 's) session_state =
  se_driver :: "('cn, 'tok) PgDriver"
  se_server :: 's
  se_tasks :: "nat \<Rightarrow> ('cn, 'st, 'po) call_task option"
  se_log :: "(nat \<times> 'cn entry) list"

definition session_init :: "('cn, 'tok) PgDriver \<Rightarrow> 's \<Rightarrow> ('cn, 'tok, 'st, 'po, 's) session_state" where
  "session_init d s = \<lparr> se_driver = d, se_server = s, se_tasks = Map.empty, se_log = [] \<rparr>"

definition set_task ::
  "nat \<Rightarrow> ('cn, 'st, 'po) call_task \<Rightarrow> ('cn, 'tok, 'st, 'po, 's) session_state \<Rightarrow> ('cn, 'tok, 'st, 'po, 's) session_state" where
  "set_task t x st = st \<lparr> se_tasks := (se_tasks st)(t \<mapsto> x) \<rparr>"

text \<open>The effect on the server, with the entry it is logged under, if any.\<close>

definition set_server ::
  "'s \<Rightarrow> (nat \<times> 'cn entry) list \<Rightarrow> ('cn, 'tok, 'st, 'po, 's) session_state \<Rightarrow> ('cn, 'tok, 'st, 'po, 's) session_state" where
  "set_server s new st = st \<lparr> se_server := s, se_log := new @ se_log st \<rparr>"

definition writing :: "('cn, 'tok, 'st, 'po, 's) session_state \<Rightarrow> nat \<Rightarrow> bool" where
  "writing st t \<longleftrightarrow> (\<exists>cn c k g. se_tasks st t = Some (Writing cn c k g))"

definition reading :: "('cn, 'tok, 'st, 'po, 's) session_state \<Rightarrow> nat \<Rightarrow> bool" where
  "reading st t \<longleftrightarrow> (\<exists>cn. se_tasks st t = Some (Reading cn))"

definition read_only_driver :: "('cn, 'tok, 'st, 'po, 's) session_state \<Rightarrow> bool" where
  "read_only_driver st = cc_read_only (pd_config (se_driver st))"

inductive session_step ::
  "lib \<Rightarrow> ('cn, 'tok, 'st, 'po, 's) pg_env \<Rightarrow> (nat \<Rightarrow> nat \<times> nat)
   \<Rightarrow> ('cn, 'tok, 'st, 'po, 's) session_state \<Rightarrow> ('cn, 'tok, 'st, 'po, 's) session_state \<Rightarrow> bool"
  for L E took where
  call_made: "se_tasks st t = None \<Longrightarrow> session_step L E took st (set_task t (Waiting c) st)"
| write_locked: "se_tasks st t = Some (Waiting c) \<Longrightarrow> (\<And>u. \<not> writing st u \<and> \<not> reading st u) \<Longrightarrow>
    pd_client (se_driver st) = Some cn \<Longrightarrow> session_step L E took st (set_task t (Writing cn c 0 Beginning) st)"
| not_connected: "se_tasks st t = Some (Waiting c) \<Longrightarrow> (\<And>u. \<not> writing st u \<and> \<not> reading st u) \<Longrightarrow>
    pd_client (se_driver st) = None \<Longrightarrow> session_step L E took st (set_task t (Answered c (call_failed c [] pg_not_connected)) st)"
| call_goes_on: "se_tasks st t = Some (Writing cn c k g) \<Longrightarrow>
    call_step L E (took t) cn (read_only_driver st) c g (se_server st) = (Inl g1, s1) \<Longrightarrow>
    session_step L E took st (set_task t (Writing cn c (Suc k) g1) (set_server s1 [] st))"
| call_answered: "se_tasks st t = Some (Writing cn c k g) \<Longrightarrow>
    call_step L E (took t) cn (read_only_driver st) c g (se_server st) = (Inr a, s1) \<Longrightarrow>
    session_step L E took st (set_task t (Answered c a) (set_server s1 [(t, Whole cn c)] st))"
| wait_dropped: "se_tasks st t = Some (Waiting c) \<Longrightarrow> session_step L E took st (set_task t Gone st)"
| future_dropped: "se_tasks st t = Some (Writing cn c k g) \<Longrightarrow>
    session_step L E took st (set_task t Gone (set_server
      (call_dropped L E cn (read_only_driver st) c g sent (se_server st)) [(t, Part cn c k sent)] st))"
| read_locked: "se_tasks st t = None \<Longrightarrow> (\<And>u. \<not> writing st u) \<Longrightarrow> pd_client (se_driver st) = Some cn \<Longrightarrow>
    session_step L E took st (set_task t (Reading cn) st)"
| read_request: "se_tasks st t = Some (Reading cn) \<Longrightarrow>
    session_step L E took st (set_server (request_effect E cn r (se_server st)) [(t, Plain cn r)] st)"
| read_ended: "se_tasks st t = Some (Reading cn) \<Longrightarrow>
    session_step L E took st (set_task t Gone (st \<lparr> se_driver := (se_driver st) \<lparr> pd_current_schema := schema \<rparr> \<rparr>))"
| session_closed: "(\<And>u. \<not> writing st u \<and> \<not> reading st u) \<Longrightarrow>
    session_step L E took st (st \<lparr> se_driver := fst (snd (pg_disconnect (se_driver st, ()))) \<rparr>)"

inductive session_reachable ::
  "lib \<Rightarrow> ('cn, 'tok, 'st, 'po, 's) pg_env \<Rightarrow> (nat \<Rightarrow> nat \<times> nat) \<Rightarrow> ('cn, 'tok) PgDriver \<Rightarrow> 's
   \<Rightarrow> ('cn, 'tok, 'st, 'po, 's) session_state \<Rightarrow> bool"
  for L E took d s0 where
  session_start: "session_reachable L E took d s0 (session_init d s0)"
| session_next: "session_reachable L E took d s0 st \<Longrightarrow> session_step L E took st st' \<Longrightarrow> session_reachable L E took d s0 st'"

text \<open>The log run from the first entry to the latest, every call at once.\<close>

fun entry_effect ::
  "lib \<Rightarrow> ('cn, 'tok, 'st, 'po, 's) pg_env \<Rightarrow> (nat \<Rightarrow> nat \<times> nat) \<Rightarrow> bool \<Rightarrow> nat \<times> 'cn entry \<Rightarrow> 's \<Rightarrow> 's" where
  "entry_effect L E took ro (t, Plain cn r) s = request_effect E cn r s"
| "entry_effect L E took ro (t, Whole cn c) s = snd (run_call L E (took t) cn ro c s)"
| "entry_effect L E took ro (t, Part cn c k sent) s = (case call_steps L E (took t) cn ro c k s of
     (Inl g, s1) \<Rightarrow> call_dropped L E cn ro c g sent s1
   | (Inr _, s1) \<Rightarrow> s1)"

definition one_after_other ::
  "lib \<Rightarrow> ('cn, 'tok, 'st, 'po, 's) pg_env \<Rightarrow> (nat \<Rightarrow> nat \<times> nat) \<Rightarrow> bool \<Rightarrow> (nat \<times> 'cn entry) list \<Rightarrow> 's \<Rightarrow> 's" where
  "one_after_other L E took ro log s = foldr (entry_effect L E took ro) log s"

lemma one_after_other_simps [simp]:
  "one_after_other L E took ro [] s = s"
  "one_after_other L E took ro (x # log) s = entry_effect L E took ro x (one_after_other L E took ro log s)"
  by (simp_all add: one_after_other_def)

lemma session_simps [simp]:
  "se_tasks (set_task t x st) = (se_tasks st)(t \<mapsto> x)" "se_server (set_task t x st) = se_server st"
  "se_driver (set_task t x st) = se_driver st" "se_log (set_task t x st) = se_log st"
  "se_tasks (set_server s new st) = se_tasks st" "se_server (set_server s new st) = s"
  "se_driver (set_server s new st) = se_driver st" "se_log (set_server s new st) = new @ se_log st"
  by (simp_all add: set_task_def set_server_def)

text \<open>An answer is the one its entry in the log gives. A writer is alone; what it holds is what its steps
  give from the log; without one the server is what the log gives.\<close>

definition answer_ok ::
  "lib \<Rightarrow> ('cn, 'tok, 'st, 'po, 's) pg_env \<Rightarrow> (nat \<Rightarrow> nat \<times> nat) \<Rightarrow> bool \<Rightarrow> 's \<Rightarrow> (nat \<times> 'cn entry) list \<Rightarrow> nat
   \<Rightarrow> pg_user_call \<Rightarrow> answer \<Rightarrow> bool" where
  "answer_ok L E took ro s0 log t c a \<longleftrightarrow> a = call_failed c [] pg_not_connected
     \<or> (\<exists>newer cn older. log = newer @ (t, Whole cn c) # older
          \<and> a = fst (run_call L E (took t) cn ro c (one_after_other L E took ro older s0)))"

definition session_ok ::
  "lib \<Rightarrow> ('cn, 'tok, 'st, 'po, 's) pg_env \<Rightarrow> (nat \<Rightarrow> nat \<times> nat) \<Rightarrow> bool \<Rightarrow> 's \<Rightarrow> ('cn, 'tok, 'st, 'po, 's) session_state \<Rightarrow> bool" where
  "session_ok L E took ro s0 st \<longleftrightarrow> read_only_driver st = ro
     \<and> (\<forall>t u. writing st t \<longrightarrow> writing st u \<or> reading st u \<longrightarrow> u = t)
     \<and> ((\<forall>t. \<not> writing st t) \<longrightarrow> se_server st = one_after_other L E took ro (se_log st) s0)
     \<and> (\<forall>t cn c k g. se_tasks st t = Some (Writing cn c k g)
          \<longrightarrow> call_steps L E (took t) cn ro c k (one_after_other L E took ro (se_log st) s0) = (Inl g, se_server st))
     \<and> (\<forall>t c a. se_tasks st t = Some (Answered c a) \<longrightarrow> answer_ok L E took ro s0 (se_log st) t c a)"

lemma session_okD:
  assumes "session_ok L E took ro s0 st"
  shows "read_only_driver st = ro" "writing st t \<Longrightarrow> writing st u \<or> reading st u \<Longrightarrow> u = t"
    "(\<And>t. \<not> writing st t) \<Longrightarrow> se_server st = one_after_other L E took ro (se_log st) s0"
    "se_tasks st t = Some (Writing cn c k g) \<Longrightarrow>
      call_steps L E (took t) cn ro c k (one_after_other L E took ro (se_log st) s0) = (Inl g, se_server st)"
    "se_tasks st t = Some (Answered c a) \<Longrightarrow> answer_ok L E took ro s0 (se_log st) t c a"
  using assms unfolding session_ok_def by blast+

lemma answer_ok_later: "answer_ok L E took ro s0 log t c a \<Longrightarrow> answer_ok L E took ro s0 (x # log) t c a"
  unfolding answer_ok_def by (metis append_Cons)

lemma answer_ok_now:
  "a = fst (run_call L E (took t) cn ro c (one_after_other L E took ro log s0)) \<Longrightarrow>
    answer_ok L E took ro s0 ((t, Whole cn c) # log) t c a"
  unfolding answer_ok_def by blast

lemma writing_set [simp]:
  "writing (set_task t x st) u \<longleftrightarrow> (if u = t then \<exists>cn c k g. x = Writing cn c k g else writing st u)"
  "reading (set_task t x st) u \<longleftrightarrow> (if u = t then \<exists>cn. x = Reading cn else reading st u)"
  "writing (set_server s new st) u = writing st u" "reading (set_server s new st) u = reading st u"
  "writing (st \<lparr> se_driver := d \<rparr>) u = writing st u" "reading (st \<lparr> se_driver := d \<rparr>) u = reading st u"
  by (auto simp: writing_def reading_def)

lemma read_only_set [simp]:
  "read_only_driver (set_task t x st) = read_only_driver st" "read_only_driver (set_server s new st) = read_only_driver st"
  "read_only_driver (st \<lparr> se_driver := d \<rparr>) = cc_read_only (pd_config d)"
  by (simp_all add: read_only_driver_def)

lemma writingI: "se_tasks st t = Some (Writing cn c k g) \<Longrightarrow> writing st t"
  by (auto simp: writing_def)

lemma readingI: "se_tasks st t = Some (Reading cn) \<Longrightarrow> reading st t"
  by (auto simp: reading_def)

text \<open>A task that neither had nor gets the write lock.\<close>

lemma session_ok_bystander:
  assumes ok: "session_ok L E took ro s0 st" and t: "\<not> writing st t" "\<And>cn c k g. x \<noteq> Writing cn c k g"
    and r: "\<And>cn. x = Reading cn \<Longrightarrow> reading st t \<or> (\<forall>u. \<not> writing st u)"
    and a: "\<And>c a. x = Answered c a \<Longrightarrow> answer_ok L E took ro s0 (se_log st) t c a"
  shows "session_ok L E took ro s0 (set_task t x st)"
proof -
  note D = session_okD [OF ok]
  have "(\<forall>u. \<not> writing (set_task t x st) u) \<longleftrightarrow> (\<forall>u. \<not> writing st u)"
    using t by (metis writing_set(1))
  moreover have "u = v" if "writing (set_task t x st) v" "writing (set_task t x st) u \<or> reading (set_task t x st) u" for u v
    using that t r D(2) [of v u] D(2) [of v t] by (auto split: if_splits)
  ultimately show ?thesis
    unfolding session_ok_def using D(1,3,4,5) t(2) a by (auto split: if_splits)
qed

text \<open>The writer gives up the lock, with an entry that leads to the server it leaves.\<close>

lemma session_ok_release:
  assumes ok: "session_ok L E took ro s0 st" and t: "writing st t"
    and x: "\<And>cn c k g. x \<noteq> Writing cn c k g" "\<And>cn. x \<noteq> Reading cn"
    and s: "s1 = entry_effect L E took ro y (one_after_other L E took ro (se_log st) s0)"
    and a: "\<And>c a. x = Answered c a \<Longrightarrow> answer_ok L E took ro s0 (y # se_log st) t c a"
  shows "session_ok L E took ro s0 (set_task t x (set_server s1 [y] st))"
proof -
  note D = session_okD [OF ok]
  have only: "writing st u \<Longrightarrow> u = t" for u using D(2) [OF t, of u] by simp
  then have "se_tasks st u = Some (Writing cn c k g) \<Longrightarrow> u = t" for u cn c k g by (auto dest: writingI)
  then show ?thesis
    unfolding session_ok_def using D(1) D(5) only x s a by (auto intro: answer_ok_later split: if_splits)
qed

lemma session_step_ok:
  assumes "session_step L E took st st'" "session_ok L E took ro s0 st"
  shows "session_ok L E took ro s0 st'"
  using assms
proof (induction rule: session_step.induct)
  case (call_made st t c)
  then show ?case by (intro session_ok_bystander) (auto simp: writing_def)
next
  case (write_locked st t c cn)
  then show ?case
    using session_okD [OF write_locked.prems] unfolding session_ok_def by (auto split: if_splits)
next
  case (not_connected st t c)
  then show ?case by (intro session_ok_bystander) (auto simp: answer_ok_def)
next
  case (call_goes_on st t cn c k g g1 s1)
  note D = session_okD [OF call_goes_on.prems]
  have w: "writing st t" using call_goes_on.hyps(1) by (rule writingI)
  have "se_tasks st u = Some (Writing cn' c' k' g') \<Longrightarrow> u = t" for u cn' c' k' g'
    using D(2) [OF w, of u] by (auto dest: writingI)
  moreover have "call_steps L E (took t) cn ro c (Suc k) (one_after_other L E took ro (se_log st) s0) = (Inl g1, s1)"
    using D(4) [OF call_goes_on.hyps(1)] call_goes_on.hyps(2) D(1) by simp
  ultimately show ?case
    unfolding session_ok_def using D(1,5) D(2) w by (auto split: if_splits)
next
  case (call_answered st t cn c k g a s1)
  note D = session_okD [OF call_answered.prems]
  have "call_steps L E (took t) cn ro c (Suc k) (one_after_other L E took ro (se_log st) s0) = (Inr a, s1)"
    using D(4) [OF call_answered.hyps(1)] call_answered.hyps(2) D(1) by simp
  then have "run_call L E (took t) cn ro c (one_after_other L E took ro (se_log st) s0) = (a, s1)"
    by (rule call_steps_result)
  then show ?case
    using call_answered by (intro session_ok_release) (auto dest: writingI intro: answer_ok_now)
next
  case (wait_dropped st t c)
  then show ?case by (intro session_ok_bystander) (auto simp: writing_def)
next
  case (future_dropped st t cn c k g sent)
  note D = session_okD [OF future_dropped.prems]
  show ?case
    using D(4) [OF future_dropped.hyps(1)] D(1) future_dropped
    by (intro session_ok_release) (auto dest: writingI)
next
  case (read_locked st t cn)
  then show ?case by (intro session_ok_bystander) auto
next
  case (read_request st t cn r)
  note D = session_okD [OF read_request.prems]
  have "\<not> writing st u" for u using D(2) [of u t] readingI [OF read_request.hyps] read_request.hyps by (auto simp: writing_def)
  then show ?case
    unfolding session_ok_def using D(1,2,3,5) by (auto intro: answer_ok_later simp: writing_def)
next
  case (read_ended st t cn schema)
  let ?st = "st \<lparr> se_driver := (se_driver st) \<lparr> pd_current_schema := schema \<rparr> \<rparr>"
  have "session_ok L E took ro s0 ?st"
    using read_ended.prems by (simp add: session_ok_def read_only_driver_def)
  then show ?case using read_ended.hyps by (intro session_ok_bystander) (auto simp: writing_def)
next
  case (session_closed st)
  then show ?case by (simp add: session_ok_def read_only_driver_def pg_disconnect_def)
qed

lemma session_reachable_ok:
  "session_reachable L E took d s0 st \<Longrightarrow> session_ok L E took (cc_read_only (pd_config d)) s0 st"
proof (induction rule: session_reachable.induct)
  case session_start
  show ?case by (simp add: session_ok_def session_init_def read_only_driver_def writing_def)
next
  case (session_next st st')
  then show ?case by (blast intro: session_step_ok)
qed

text \<open>A call reaches the server once: its task has one entry when it has its answer or was dropped while
  running, and none before.\<close>

definition call_entries :: "(nat \<times> 'cn entry) list \<Rightarrow> nat \<Rightarrow> nat" where
  "call_entries log t = length (filter (\<lambda>(u, e). u = t \<and> (\<forall>cn r. e \<noteq> Plain cn r)) log)"

lemma call_entries_simps [simp]:
  "call_entries [] t = 0" "call_entries ((u, Plain cn r) # log) t = call_entries log t"
  "call_entries ((u, Whole cn c) # log) t = (if u = t then 1 else 0) + call_entries log t"
  "call_entries ((u, Part cn c k sent) # log) t = (if u = t then 1 else 0) + call_entries log t"
  by (simp_all add: call_entries_def)

lemma call_entries_append [simp]: "call_entries (new @ log) t = call_entries new t + call_entries log t"
  by (simp add: call_entries_def)

fun entries_allowed :: "('cn, 'st, 'po) call_task option \<Rightarrow> nat" where
  "entries_allowed (Some (Answered c a)) = 1"
| "entries_allowed (Some Gone) = 1"
| "entries_allowed _ = 0"

definition once :: "('cn, 'tok, 'st, 'po, 's) session_state \<Rightarrow> bool" where
  "once st \<longleftrightarrow> (\<forall>t. call_entries (se_log st) t \<le> entries_allowed (se_tasks st t))"

lemma once_set:
  assumes "once st" "\<And>u. u \<noteq> t \<Longrightarrow> call_entries new u = 0"
    "call_entries new t + entries_allowed (se_tasks st t) \<le> entries_allowed (Some x)"
  shows "once (set_task t x (set_server s new st))"
proof -
  have "call_entries (se_log st) u \<le> entries_allowed (se_tasks st u)" for u using assms(1) by (simp add: once_def)
  moreover have "call_entries new t + call_entries (se_log st) t \<le> entries_allowed (Some x)"
    using assms(3) by (rule order_trans [OF add_left_mono, rotated]) fact
  ultimately show ?thesis using assms(2) by (simp add: once_def)
qed

lemma set_server_same: "set_server (se_server st) [] st = st"
  by (simp add: set_server_def)

lemmas once_task = once_set [where new = "[]" and s = "se_server st" and st = st for st, unfolded set_server_same]

lemma session_step_once: "session_step L E took st st' \<Longrightarrow> once st \<Longrightarrow> once st'"
proof (induction rule: session_step.induct)
  case (read_request st t cn r)
  then show ?case by (simp add: once_def)
next
  case (read_ended st t cn schema)
  then have "once (st \<lparr> se_driver := (se_driver st) \<lparr> pd_current_schema := schema \<rparr> \<rparr>)" by (simp add: once_def)
  then show ?case using read_ended.hyps by (intro once_task) simp_all
next
  case (session_closed st)
  then show ?case by (simp add: once_def)
qed (auto intro!: once_task once_set)

lemma session_reachable_once: "session_reachable L E took d s0 st \<Longrightarrow> once st"
proof (induction rule: session_reachable.induct)
  case session_start
  show ?case by (simp add: once_def session_init_def)
next
  case (session_next st st')
  then show ?case by (blast intro: session_step_once)
qed

lemma read_only_entry:
  assumes p: "\<And>cn. read_only_session E cn I J" and s: "I s"
    and plain: "\<And>cn r. e = Plain cn r \<Longrightarrow> I (request_effect E cn r s)"
  shows "I (entry_effect L E took True (t, e) s)"
proof (cases e)
  case (Plain cn r)
  then show ?thesis using plain by simp
next
  case (Whole cn c)
  obtain k a s1 where k: "call_steps L E (took t) cn True c k s = (Inr a, s1)"
    using call_ends [of L E "took t" cn True c s] by blast
  then show ?thesis using read_only_result [OF p s k] call_steps_result [OF k] Whole by simp
next
  case (Part cn c k sent)
  obtain x s1 where b: "call_steps L E (took t) cn True c k s = (x, s1)" by (rule prod.exhaust)
  show ?thesis
  proof (cases x)
    case (Inl g)
    then have "guards I J g s1" using b call_steps_guards [OF guarded_read_only [OF p] s] by simp
    then show ?thesis using read_only_dropped [OF p] Part b Inl by simp
  next
    case (Inr a)
    then show ?thesis using read_only_result [OF p s] b Part by simp
  qed
qed

text \<open>A writer that is not dropped comes to its answer.\<close>

lemma writer_goes_on:
  assumes "session_reachable L E took d s0 st" "se_tasks st t = Some (Writing cn c 0 Beginning)"
    and "call_steps L E (took t) cn (read_only_driver st) c k (se_server st) = (Inl g, s1)"
  shows "session_reachable L E took d s0 (set_task t (Writing cn c k g) (set_server s1 [] st))"
  using assms(3)
proof (induction k arbitrary: g s1)
  case 0
  have "set_task t (Writing cn c 0 Beginning) (set_server (se_server st) [] st) = st"
    using assms(2) by (simp add: set_task_def set_server_def map_upd_triv)
  then show ?case using 0 assms(1) by simp
next
  case (Suc k)
  obtain x s2 where x: "call_steps L E (took t) cn (read_only_driver st) c k (se_server st) = (x, s2)" by (rule prod.exhaust)
  then obtain h where h: "x = Inl h" "call_step L E (took t) cn (read_only_driver st) c h s2 = (Inl g, s1)"
    using Suc.prems by (cases x) auto
  let ?st = "set_task t (Writing cn c k h) (set_server s2 [] st)"
  have "session_step L E took ?st (set_task t (Writing cn c (Suc k) g) (set_server s1 [] ?st))"
    using h(2) by (intro call_goes_on [where g = h]) simp_all
  moreover have "set_task t (Writing cn c (Suc k) g) (set_server s1 [] ?st) = set_task t (Writing cn c (Suc k) g) (set_server s1 [] st)"
    by (simp add: set_task_def set_server_def)
  ultimately show ?case using session_next [OF Suc.IH] x h(1) by simp
qed

lemma writer_answers:
  assumes "session_reachable L E took d s0 st" "se_tasks st t = Some (Writing cn c 0 Beginning)"
  defines "p \<equiv> run_call L E (took t) cn (read_only_driver st) c (se_server st)"
  shows "session_reachable L E took d s0 (set_task t (Answered c (fst p)) (set_server (snd p) [(t, Whole cn c)] st))"
proof -
  let ?go = "\<lambda>k. call_steps L E (took t) cn (read_only_driver st) c k (se_server st)"
  define n where "n = (LEAST k. \<exists>a s1. ?go k = (Inr a, s1))"
  obtain a s1 where n: "?go n = (Inr a, s1)"
    using LeastI [of "\<lambda>k. \<exists>a s1. ?go k = (Inr a, s1)", OF call_ends] unfolding n_def by blast
  then obtain k where k: "n = Suc k" by (cases n) auto
  obtain x s2 where x: "?go k = (x, s2)" by (rule prod.exhaust)
  have "k < n" using k by simp
  then have "\<nexists>a s1. ?go k = (Inr a, s1)" unfolding n_def by (rule not_less_Least)
  then obtain g where g: "x = Inl g" using x by (cases x) auto
  then have step: "call_step L E (took t) cn (read_only_driver st) c g s2 = (Inr a, s1)" using n k x by simp
  have r: "session_reachable L E took d s0 (set_task t (Writing cn c k g) (set_server s2 [] st))"
    using writer_goes_on [OF assms(1,2)] x g by simp
  have same: "set_task t (Answered c a) (set_server s1 [(t, Whole cn c)] (set_task t (Writing cn c k g) (set_server s2 [] st)))
      = set_task t (Answered c a) (set_server s1 [(t, Whole cn c)] st)"
    by (simp add: set_task_def set_server_def)
  have "session_step L E took (set_task t (Writing cn c k g) (set_server s2 [] st))
      (set_task t (Answered c a) (set_server s1 [(t, Whole cn c)] (set_task t (Writing cn c k g) (set_server s2 [] st))))"
    using step by (intro call_answered [where g = g]) simp_all
  from session_next [OF r this] show ?thesis
    using call_steps_result [OF n] unfolding same by (simp add: p_def)
qed

section \<open>The methods under the read lock\<close>

text \<open>Everything they do to the server is a series of the requests of \<open>read_request\<close>.\<close>

definition by_requests :: "('cn, 'tok, 'st, 'po, 's) pg_env \<Rightarrow> 'cn \<Rightarrow> 's \<Rightarrow> 's \<Rightarrow> bool" where
  "by_requests E cn s0 s \<longleftrightarrow> (\<exists>rs. s = fold (request_effect E cn) rs s0)"

lemma by_requests_one: "by_requests E cn s0 s \<Longrightarrow> by_requests E cn s0 (request_effect E cn r s)"
  unfolding by_requests_def by (metis fold_append fold_simps comp_apply)

lemma keeps_requests [keeps_intros]:
  "keeps (by_requests E cn s0) (pg_call (pv_simple E cn sql))"
  "keeps (by_requests E cn s0) (pg_call (pv_query E cn sql ps))"
  "keeps (by_requests E cn s0) (pg_call (pv_query_one E cn sql ps))"
  using by_requests_one [where r = "Simple sql"] by_requests_one [where r = "Query sql ps"] by_requests_one [where r = "QueryOne sql ps"]
  by (auto intro!: keepsI)

lemma by_requests_rows_of [keeps_intros]: "keeps (by_requests E cn s0) (rows_of E cn sql names f)"
  unfolding rows_of_def by (intro keeps_intros)

lemma by_requests_columns_loop: "keeps (by_requests E cn s0) (columns_loop E cn pk cache rows)"
proof (induction rows arbitrary: cache)
  case Nil
  show ?case by (simp only: columns_loop.simps keeps_lift)
next
  case (Cons r rs)
  have enums: "keeps (by_requests E cn s0) (lookup_enum E cn x cache)" for x cache
    unfolding lookup_enum_def fetch_enum_labels_def by (auto intro!: keeps_intros split: option.split)
  show ?case unfolding columns_loop.simps split_def by (intro keeps_intros enums Cons.IH)
qed

lemma keeps_columns [keeps_intros]: "keeps (by_requests E cn s0) (pg_columns_on E cn table schema)"
  unfolding pg_columns_on_def fetch_primary_key_columns_def by (intro keeps_intros by_requests_columns_loop)

lemma keeps_tables [keeps_intros]:
  "keeps (by_requests E cn s0) (pg_tables_on E cn schema)" "keeps (by_requests E cn s0) (pg_schemas_on E cn)"
  "keeps (by_requests E cn s0) (pg_databases_on E cn)" "keeps (by_requests E cn s0) (pg_indexes_on E cn table schema)"
  "keeps (by_requests E cn s0) (pg_foreign_keys_on E cn table schema)" "keeps (by_requests E cn s0) (pg_triggers_on E cn table schema)"
  unfolding pg_tables_on_def pg_schemas_on_def pg_databases_on_def pg_indexes_on_def pg_foreign_keys_on_def pg_triggers_on_def
  by (intro keeps_intros)+

lemma by_requests_database_metadata: "keeps (by_requests E cn s0) (pg_database_metadata_on E cn database)"
  unfolding pg_database_metadata_on_def
  using by_requests_one [where r = "QueryOne sql ps" for sql ps]
  by (intro keeps_intros) (auto intro!: keepsI simp: pair_simps)

theorem read_methods_make_requests:
  "keeps (by_requests E cn s0) (pg_execute_on E elapsed cn sql)"
  "keeps (by_requests E cn s0) (pg_execute_parameterized_on L E elapsed cn sql ps)"
  "keeps (by_requests E cn s0) (pg_tables_on E cn schema)" "keeps (by_requests E cn s0) (pg_columns_on E cn table schema)"
  "keeps (by_requests E cn s0) (pg_indexes_on E cn table schema)" "keeps (by_requests E cn s0) (pg_foreign_keys_on E cn table schema)"
  "keeps (by_requests E cn s0) (pg_triggers_on E cn table schema)" "keeps (by_requests E cn s0) (pg_table_ddl_on E cn table schema)"
  "keeps (by_requests E cn s0) (pg_view_definition_on E cn view schema)" "keeps (by_requests E cn s0) (pg_table_metadata_on E cn table schema)"
  "keeps (by_requests E cn s0) (pg_databases_on E cn)" "keeps (by_requests E cn s0) (pg_database_metadata_on E cn database)"
  "keeps (by_requests E cn s0) (pg_schemas_on E cn)" "keeps (by_requests E cn s0) (pg_run_sql E cn sql)"
  unfolding pg_execute_on_def pg_execute_parameterized_on_def pg_table_ddl_on_def fetch_primary_key_columns_ordered_def
    pg_view_definition_on_def pg_table_metadata_on_def pg_run_sql_def
  by (intro keeps_intros by_requests_database_metadata)+

section \<open>Properties\<close>

text \<open>C9. Overlapping calls come out as if they had been run one after the other. However the calls on one
  driver interleave, and whichever of their futures are dropped: with no call in progress the server is
  what the logged calls and requests make of it, each run at once, in the order of the log; the answer
  of a call is the one it gives run at once at its place in the log, or that the driver is not
  connected; and no call reaches the server twice.\<close>

theorem calls_one_after_other:
  assumes "session_reachable L E took d s0 st"
  defines "ro \<equiv> cc_read_only (pd_config d)"
  shows "((\<forall>t. \<not> writing st t) \<longrightarrow> se_server st = one_after_other L E took ro (se_log st) s0)
    \<and> (\<forall>t c a. se_tasks st t = Some (Answered c a) \<longrightarrow> a = call_failed c [] pg_not_connected
        \<or> (\<exists>newer cn older. se_log st = newer @ (t, Whole cn c) # older
             \<and> a = fst (run_call L E (took t) cn ro c (one_after_other L E took ro older s0))))
    \<and> (\<forall>t. call_entries (se_log st) t \<le> 1)"
proof -
  note ok = session_reachable_ok [OF assms(1), folded ro_def]
  have "call_entries (se_log st) t \<le> 1" for t
  proof -
    have "call_entries (se_log st) t \<le> entries_allowed (se_tasks st t)"
      using session_reachable_once [OF assms(1)] by (simp add: once_def)
    also have "\<dots> \<le> 1" by (cases "se_tasks st t" rule: entries_allowed.cases) simp_all
    finally show ?thesis .
  qed
  then show ?thesis using session_okD(3,5) [OF ok] unfolding answer_ok_def by blast
qed

text \<open>A user query that had the driver to itself and has its answer.\<close>

definition one_row :: pg_user_call where
  "one_row = UserQuery ''SELECT ok'' (Some 1) None"

abbreviation two_rows :: "(unit, unit, string, unit, string list \<times> string list \<times> pg_row list) pg_env" where
  "two_rows \<equiv> table_server [true_row, true_row]"

definition asking :: "(unit, unit, string, unit, string list \<times> string list \<times> pg_row list) session_state" where
  "asking = set_task 0 (Writing () one_row 0 Beginning)
     (set_task 0 (Waiting one_row) (session_init connected_read_only ([''old''], [], [])))"

definition one_row_answer :: "answer \<times> string list \<times> string list \<times> pg_row list" where
  "one_row_answer = run_call plain_lib two_rows (0, 0) () True one_row ([''old''], [], [])"

definition answered :: "(unit, unit, string, unit, string list \<times> string list \<times> pg_row list) session_state" where
  "answered = set_task 0 (Answered one_row (fst one_row_answer)) (set_server (snd one_row_answer) [(0, Whole () one_row)] asking)"

lemma asking_reachable: "session_reachable plain_lib two_rows (\<lambda>_. (0, 0)) connected_read_only ([''old''], [], []) asking"
  unfolding asking_def
  by (rule session_next [OF session_next [OF session_start call_made] write_locked])
    (auto simp: session_init_def writing_def reading_def connected_read_only_def pg_new_def)

lemma answered_reachable: "session_reachable plain_lib two_rows (\<lambda>_. (0, 0)) connected_read_only ([''old''], [], []) answered"
  using writer_answers [OF asking_reachable, of 0 "()" one_row]
  by (simp add: asking_def answered_def one_row_answer_def session_init_def read_only_driver_def connected_read_only_def pg_new_def)

theorem calls_one_after_other_witness:
  "se_server answered = one_after_other plain_lib two_rows (\<lambda>_. (0, 0)) True [(0, Whole () one_row)] ([''old''], [], [])
   \<and> (fst one_row_answer = call_failed one_row [] pg_not_connected
      \<or> (\<exists>newer cn older. [(0 :: nat, Whole () one_row)] = newer @ (0, Whole cn one_row) # older
           \<and> fst one_row_answer = fst (run_call plain_lib two_rows (0, 0) cn True one_row
                (one_after_other plain_lib two_rows (\<lambda>_. (0, 0)) True older ([''old''], [], [])))))"
proof -
  have "\<not> writing answered t" for t by (auto simp: writing_def answered_def asking_def session_init_def)
  moreover have "se_log answered = [(0, Whole () one_row)]" "se_tasks answered 0 = Some (Answered one_row (fst one_row_answer))"
    "cc_read_only (pd_config (connected_read_only :: (unit, unit) PgDriver))"
    by (simp_all add: answered_def asking_def session_init_def connected_read_only_def pg_new_def)
  ultimately show ?thesis
    using calls_one_after_other [OF answered_reachable] by simp
qed

text \<open>A read-only connection stays so under overlapping and dropped calls: when the requests under the
  read lock keep what holds outside a transaction, it holds whenever no call is in progress, since every
  user's statement runs, ends or is dropped inside a read-only transaction.\<close>

theorem read_only_calls_overlapping:
  assumes r: "session_reachable L E took d s0 st" "cc_read_only (pd_config d)"
    and p: "\<And>cn. read_only_session E cn I J" "I s0"
    and plain: "\<And>t cn r s. (t, Plain cn r) \<in> set (se_log st) \<Longrightarrow> I s \<Longrightarrow> I (request_effect E cn r s)"
    and idle: "\<And>t. \<not> writing st t"
  shows "I (se_server st)"
proof -
  have "I (one_after_other L E took True log s0)" if "set log \<subseteq> set (se_log st)" for log
    using that
  proof (induction log)
    case Nil
    then show ?case using p(2) by simp
  next
    case (Cons x log)
    obtain t e where x: "x = (t, e)" by (rule prod.exhaust)
    have s: "I (one_after_other L E took True log s0)" using Cons by simp
    have "e = Plain cn q \<Longrightarrow> I (request_effect E cn q (one_after_other L E took True log s0))" for cn q
      using plain [of t cn q] s Cons.prems x by simp
    then show ?case using read_only_entry [OF p(1) s, of e L took t] x by simp
  qed
  then show ?thesis using session_okD(3) [OF session_reachable_ok [OF r(1)]] idle r(2) by simp
qed

theorem read_only_calls_overlapping_witness:
  "se_server (set_task 0 Gone (set_server (call_dropped plain_lib watched_session () True one_row Beginning True (None, []))
      [(0, Part () one_row 0 True)] (set_task 0 (Writing () one_row 0 (Beginning :: (string, unit) stage))
        (set_task 0 (Waiting one_row) (session_init connected_read_only (None, []))))))
    = (None, [])" (is "se_server ?st = _")
proof (rule read_only_calls_overlapping [where I = "\<lambda>s. s = (None, [])" and J = "\<lambda>s. s = (Some True, [])" and st = ?st])
  let ?w = "set_task 0 (Writing () one_row 0 (Beginning :: (string, unit) stage)) (set_task 0 (Waiting one_row) (session_init connected_read_only (None, [])))"
  have "session_reachable plain_lib watched_session (\<lambda>_. (0, 0)) connected_read_only (None, []) ?w"
    by (rule session_next [OF session_next [OF session_start call_made] write_locked])
      (auto simp: session_init_def writing_def reading_def connected_read_only_def pg_new_def)
  from session_next [OF this future_dropped [of ?w 0 "()" one_row 0 Beginning _ _ _ True]]
  show "session_reachable plain_lib watched_session (\<lambda>_. (0, 0)) connected_read_only (None, []) ?st"
    by (simp add: session_init_def read_only_driver_def connected_read_only_def pg_new_def)
qed (auto simp: read_only_session_def watched_session_def connected_read_only_def pg_new_def writing_def session_init_def)

end
