(* ===== verification/PostgresCancel.thy ===== *)
theory PostgresCancel
  imports Main Prelude Lib Core Effects Postgres PostgresDriver
begin

text \<open>
  The slots of \<open>driver-postgres/src/driver.rs\<close> that its calls share: the session behind the read-write
  lock, and the cancel token, the server version and the current schema behind a mutex each. Connects,
  switches of the database, disconnects, user calls and cancels on one driver object overlap; an action
  is one access to a slot, with the lock taken, held and given back as the code does. A future may be
  dropped wherever it awaits. What the sessions do meanwhile is the matter of \<open>PostgresSession\<close>.
\<close>

section \<open>States and actions\<close>

datatype change = Connecting | Switching

text \<open>A connect or a switch: waiting for the server, with the session and what it has cached of it, and
  between its writes to the two slots (the token first for a connect, the session first for a switch). A
  disconnect after so many of its writes. A call: waiting for the lock, or with the session under it. A
  call cut off by the backstop has its cancel to send.\<close>

datatype ('cn, 'tok) driver_task =
    Establishing change
  | Established change 'cn 'tok
  | Versioned change 'cn 'tok
  | Cached change 'cn 'tok
  | TokenPut 'cn 'tok
  | ClientPut 'cn 'tok
  | ClientCleared
  | TokenCleared
  | VersionCleared
  | Waiting
  | Writing 'cn
  | Reading 'cn
  | CutOff
  | Over

text \<open>The driver, the lock, the tasks, and, only to speak of them, the sessions opened with their tokens
  and the cancel requests sent by which task, the latest first.\<close>

record ('cn, 'tok) shared =
  cs_driver :: "('cn, 'tok) PgDriver"
  cs_writer :: "nat option"
  cs_readers :: "nat list"
  cs_tasks :: "nat \<Rightarrow> ('cn, 'tok) driver_task option"
  cs_opened :: "('cn \<times> 'tok) list"
  cs_cancels :: "(nat \<times> 'tok) list"

definition shared_init :: "ConnectionConfig \<Rightarrow> ('cn, 'tok) shared" where
  "shared_init c = \<lparr> cs_driver = pg_new c, cs_writer = None, cs_readers = [], cs_tasks = Map.empty,
     cs_opened = [], cs_cancels = [] \<rparr>"

definition put_task :: "nat \<Rightarrow> ('cn, 'tok) driver_task \<Rightarrow> ('cn, 'tok) shared \<Rightarrow> ('cn, 'tok) shared" where
  "put_task t x s = s \<lparr> cs_tasks := (cs_tasks s)(t \<mapsto> x) \<rparr>"

definition on_driver_slots :: "(('cn, 'tok) PgDriver \<Rightarrow> ('cn, 'tok) PgDriver) \<Rightarrow> ('cn, 'tok) shared \<Rightarrow> ('cn, 'tok) shared" where
  "on_driver_slots g s = s \<lparr> cs_driver := g (cs_driver s) \<rparr>"

definition lock_free :: "('cn, 'tok) shared \<Rightarrow> bool" where
  "lock_free s \<longleftrightarrow> cs_writer s = None \<and> cs_readers s = []"

definition unlock :: "nat \<Rightarrow> ('cn, 'tok) shared \<Rightarrow> ('cn, 'tok) shared" where
  "unlock t s = s \<lparr> cs_writer := (if cs_writer s = Some t then None else cs_writer s),
     cs_readers := filter (\<lambda>u. u \<noteq> t) (cs_readers s) \<rparr>"

definition write_lock :: "nat \<Rightarrow> ('cn, 'tok) shared \<Rightarrow> ('cn, 'tok) shared" where
  "write_lock t s = s \<lparr> cs_writer := Some t \<rparr>"

datatype ('cn, 'tok) action =
    Begins nat change
  | Opens nat 'cn 'tok
  | Fails nat
  | GetsVersion nat "string option"
  | GetsSchema nat "string option"
  | PutsToken nat
  | PutsClient nat
  | Disconnects nat
  | ClearsToken nat
  | ClearsVersion nat
  | ClearsSchema nat
  | Calls nat
  | Locks nat
  | LocksShared nat
  | Returns nat
  | Drops nat
  | Backstop nat
  | Cancels nat

text \<open>An action where it can happen. A server gives no two sessions the same token.\<close>

fun happens :: "('cn, 'tok) action \<Rightarrow> ('cn, 'tok) shared \<Rightarrow> ('cn, 'tok) shared option" where
  "happens (Begins t k) s = (case cs_tasks s t of None \<Rightarrow> Some (put_task t (Establishing k) s) | _ \<Rightarrow> None)"
| "happens (Opens t cn tok) s = (case cs_tasks s t of
     Some (Establishing k) \<Rightarrow>
       if cn \<in> set (map fst (cs_opened s)) \<or> tok \<in> set (map snd (cs_opened s)) then None
       else Some (put_task t (Established k cn tok) (s \<lparr> cs_opened := (cn, tok) # cs_opened s \<rparr>))
   | _ \<Rightarrow> None)"
| "happens (Fails t) s = (case cs_tasks s t of Some (Establishing k) \<Rightarrow> Some (put_task t Over s) | _ \<Rightarrow> None)"
| "happens (GetsVersion t v) s = (case cs_tasks s t of
     Some (Established k cn tok) \<Rightarrow> Some (put_task t (Versioned k cn tok) (on_driver_slots (\<lambda>d. d \<lparr> pd_server_version := v \<rparr>) s))
   | _ \<Rightarrow> None)"
| "happens (GetsSchema t v) s = (case cs_tasks s t of
     Some (Versioned k cn tok) \<Rightarrow> Some (put_task t (Cached k cn tok) (on_driver_slots (\<lambda>d. d \<lparr> pd_current_schema := v \<rparr>) s))
   | _ \<Rightarrow> None)"
| "happens (PutsToken t) s = (case cs_tasks s t of
     Some (Cached Connecting cn tok) \<Rightarrow> Some (put_task t (TokenPut cn tok) (on_driver_slots (\<lambda>d. d \<lparr> pd_cancel_token := Some tok \<rparr>) s))
   | Some (ClientPut cn tok) \<Rightarrow> Some (put_task t Over (on_driver_slots (\<lambda>d. d \<lparr> pd_cancel_token := Some tok \<rparr>) s))
   | _ \<Rightarrow> None)"
| "happens (PutsClient t) s = (if \<not> lock_free s then None else case cs_tasks s t of
     Some (TokenPut cn tok) \<Rightarrow> Some (put_task t Over (on_driver_slots (\<lambda>d. d \<lparr> pd_client := Some cn \<rparr>) s))
   | Some (Cached Switching cn tok) \<Rightarrow> Some (put_task t (ClientPut cn tok) (on_driver_slots (\<lambda>d. d \<lparr> pd_client := Some cn \<rparr>) s))
   | _ \<Rightarrow> None)"
| "happens (Disconnects t) s = (if \<not> lock_free s then None else case cs_tasks s t of
     None \<Rightarrow> Some (put_task t ClientCleared (write_lock t (on_driver_slots (\<lambda>d. d \<lparr> pd_client := None \<rparr>) s))) | _ \<Rightarrow> None)"
| "happens (ClearsToken t) s = (case cs_tasks s t of
     Some ClientCleared \<Rightarrow> Some (put_task t TokenCleared (on_driver_slots (\<lambda>d. d \<lparr> pd_cancel_token := None \<rparr>) s)) | _ \<Rightarrow> None)"
| "happens (ClearsVersion t) s = (case cs_tasks s t of
     Some TokenCleared \<Rightarrow> Some (put_task t VersionCleared (on_driver_slots (\<lambda>d. d \<lparr> pd_server_version := None \<rparr>) s)) | _ \<Rightarrow> None)"
| "happens (ClearsSchema t) s = (case cs_tasks s t of
     Some VersionCleared \<Rightarrow> Some (put_task t Over (unlock t (on_driver_slots (\<lambda>d. d \<lparr> pd_current_schema := None \<rparr>) s))) | _ \<Rightarrow> None)"
| "happens (Calls t) s = (case cs_tasks s t of None \<Rightarrow> Some (put_task t Waiting s) | _ \<Rightarrow> None)"
| "happens (Locks t) s = (if \<not> lock_free s then None else case cs_tasks s t of
     Some Waiting \<Rightarrow> (case pd_client (cs_driver s) of
       Some cn \<Rightarrow> Some (put_task t (Writing cn) (write_lock t s)) | None \<Rightarrow> Some (put_task t Over s))
   | _ \<Rightarrow> None)"
| "happens (LocksShared t) s = (if cs_writer s \<noteq> None then None else case cs_tasks s t of
     Some Waiting \<Rightarrow> (case pd_client (cs_driver s) of
       Some cn \<Rightarrow> Some (put_task t (Reading cn) (s \<lparr> cs_readers := t # cs_readers s \<rparr>)) | None \<Rightarrow> Some (put_task t Over s))
   | _ \<Rightarrow> None)"
| "happens (Returns t) s = (case cs_tasks s t of
     Some (Writing cn) \<Rightarrow> Some (put_task t Over (unlock t s))
   | Some (Reading cn) \<Rightarrow> Some (put_task t Over (unlock t s))
   | _ \<Rightarrow> None)"
| "happens (Drops t) s = (case cs_tasks s t of
     Some (Establishing k) \<Rightarrow> Some (put_task t Over s)
   | Some (Established k cn tok) \<Rightarrow> Some (put_task t Over s)
   | Some (Versioned k cn tok) \<Rightarrow> Some (put_task t Over s)
   | Some (Cached Switching cn tok) \<Rightarrow> Some (put_task t Over s)
   | Some (TokenPut cn tok) \<Rightarrow> Some (put_task t Over s)
   | Some Waiting \<Rightarrow> Some (put_task t Over s)
   | Some (Writing cn) \<Rightarrow> Some (put_task t Over (unlock t s))
   | Some (Reading cn) \<Rightarrow> Some (put_task t Over (unlock t s))
   | _ \<Rightarrow> None)"
| "happens (Backstop t) s = (case cs_tasks s t of
     Some Waiting \<Rightarrow> Some (put_task t CutOff s)
   | Some (Writing cn) \<Rightarrow> Some (put_task t CutOff (unlock t s))
   | _ \<Rightarrow> None)"
| "happens (Cancels t) s = (case cs_tasks s t of
     Some CutOff \<Rightarrow> Some (put_task t Over (case pg_cancel_query (cs_driver s) of
       Inl e \<Rightarrow> s | Inr (tok, tls) \<Rightarrow> s \<lparr> cs_cancels := (t, tok) # cs_cancels s \<rparr>))
   | _ \<Rightarrow> None)"

text \<open>A connect, a switch or a disconnect that has begun and not ended, and one that has written one of
  the two slots and not the other.\<close>

fun is_change :: "('cn, 'tok) driver_task \<Rightarrow> bool" where
  "is_change Waiting = False"
| "is_change (Writing cn) = False"
| "is_change (Reading cn) = False"
| "is_change CutOff = False"
| "is_change Over = False"
| "is_change x = True"

fun half_done :: "('cn, 'tok) driver_task \<Rightarrow> bool" where
  "half_done (TokenPut cn tok) = True"
| "half_done (ClientPut cn tok) = True"
| "half_done ClientCleared = True"
| "half_done x = False"

definition changing :: "('cn, 'tok) shared \<Rightarrow> nat \<Rightarrow> bool" where
  "changing s t \<longleftrightarrow> (case cs_tasks s t of None \<Rightarrow> False | Some x \<Rightarrow> is_change x)"

definition halfway :: "('cn, 'tok) shared \<Rightarrow> nat \<Rightarrow> bool" where
  "halfway s t \<longleftrightarrow> (case cs_tasks s t of None \<Rightarrow> False | Some x \<Rightarrow> half_done x)"

text \<open>Changes of the session one at a time, and none given up halfway: what a client promises that does
  not overlap them, as the connection manager, which connects a driver before it hands it out.\<close>

fun orderly :: "('cn, 'tok) action \<Rightarrow> ('cn, 'tok) shared \<Rightarrow> bool" where
  "orderly (Begins t k) s = (\<forall>u. \<not> changing s u)"
| "orderly (Disconnects t) s = (\<forall>u. \<not> changing s u)"
| "orderly (Drops t) s = (\<not> halfway s t)"
| "orderly a s = True"

inductive reached :: "bool \<Rightarrow> ConnectionConfig \<Rightarrow> ('cn, 'tok) shared \<Rightarrow> bool" for ord c where
  reached_init: "reached ord c (shared_init c)"
| reached_next: "reached ord c s \<Longrightarrow> happens a s = Some s' \<Longrightarrow> (ord \<Longrightarrow> orderly a s) \<Longrightarrow> reached ord c s'"

section \<open>The invariants\<close>

lemma shared_simps [simp]:
  "cs_tasks (put_task t x s) = (cs_tasks s)(t \<mapsto> x)" "cs_driver (put_task t x s) = cs_driver s"
  "cs_writer (put_task t x s) = cs_writer s" "cs_readers (put_task t x s) = cs_readers s"
  "cs_opened (put_task t x s) = cs_opened s" "cs_cancels (put_task t x s) = cs_cancels s"
  "cs_tasks (on_driver_slots g s) = cs_tasks s" "cs_driver (on_driver_slots g s) = g (cs_driver s)"
  "cs_writer (on_driver_slots g s) = cs_writer s" "cs_readers (on_driver_slots g s) = cs_readers s"
  "cs_opened (on_driver_slots g s) = cs_opened s" "cs_cancels (on_driver_slots g s) = cs_cancels s"
  "cs_tasks (unlock t s) = cs_tasks s" "cs_driver (unlock t s) = cs_driver s" "cs_opened (unlock t s) = cs_opened s"
  "cs_cancels (unlock t s) = cs_cancels s" "cs_tasks (write_lock t s) = cs_tasks s" "cs_driver (write_lock t s) = cs_driver s"
  "cs_writer (write_lock t s) = Some t" "cs_readers (write_lock t s) = cs_readers s" "cs_opened (write_lock t s) = cs_opened s"
  "cs_cancels (write_lock t s) = cs_cancels s"
  "cs_writer (unlock t s) = (if cs_writer s = Some t then None else cs_writer s)"
  "cs_readers (unlock t s) = filter (\<lambda>u. u \<noteq> t) (cs_readers s)"
  by (simp_all add: put_task_def on_driver_slots_def unlock_def write_lock_def)

text \<open>A task knows only sessions that were opened; under the lock it has the session of the driver.\<close>

fun task_fits :: "('cn, 'tok) shared \<Rightarrow> nat \<Rightarrow> ('cn, 'tok) driver_task \<Rightarrow> bool" where
  "task_fits s t (Established k cn tok) = ((cn, tok) \<in> set (cs_opened s))"
| "task_fits s t (Versioned k cn tok) = ((cn, tok) \<in> set (cs_opened s))"
| "task_fits s t (Cached k cn tok) = ((cn, tok) \<in> set (cs_opened s))"
| "task_fits s t (TokenPut cn tok) = ((cn, tok) \<in> set (cs_opened s))"
| "task_fits s t (ClientPut cn tok) = ((cn, tok) \<in> set (cs_opened s))"
| "task_fits s t ClientCleared = (cs_writer s = Some t)"
| "task_fits s t TokenCleared = (cs_writer s = Some t)"
| "task_fits s t VersionCleared = (cs_writer s = Some t)"
| "task_fits s t (Writing cn) = (cs_writer s = Some t \<and> pd_client (cs_driver s) = Some cn)"
| "task_fits s t (Reading cn) = (t \<in> set (cs_readers s) \<and> pd_client (cs_driver s) = Some cn)"
| "task_fits s t x = True"

definition slots_ok :: "('cn, 'tok) shared \<Rightarrow> bool" where
  "slots_ok s \<longleftrightarrow> distinct (map fst (cs_opened s)) \<and> distinct (map snd (cs_opened s))
     \<and> (\<forall>tok. pd_cancel_token (cs_driver s) = Some tok \<longrightarrow> tok \<in> set (map snd (cs_opened s)))
     \<and> (cs_writer s \<noteq> None \<longrightarrow> cs_readers s = [])
     \<and> (\<forall>t x. cs_tasks s t = Some x \<longrightarrow> task_fits s t x)"

lemma slots_okD:
  assumes "slots_ok s"
  shows "distinct (map fst (cs_opened s))" "distinct (map snd (cs_opened s))"
    "pd_cancel_token (cs_driver s) = Some tok \<Longrightarrow> tok \<in> set (map snd (cs_opened s))"
    "cs_writer s \<noteq> None \<Longrightarrow> cs_readers s = []" "cs_tasks s t = Some x \<Longrightarrow> task_fits s t x"
  using assms unfolding slots_ok_def by blast+

text \<open>A change of the state that concerns one task.\<close>

lemma slots_ok_put:
  assumes ok: "slots_ok s" and x: "task_fits s' t x"
    and others: "\<And>u y. u \<noteq> t \<Longrightarrow> cs_tasks s u = Some y \<Longrightarrow> task_fits s u y \<Longrightarrow> task_fits s' u y"
    and fields: "cs_tasks s' = cs_tasks s" "distinct (map fst (cs_opened s'))" "distinct (map snd (cs_opened s'))"
      "\<And>tok. pd_cancel_token (cs_driver s') = Some tok \<Longrightarrow> tok \<in> set (map snd (cs_opened s'))"
      "cs_writer s' \<noteq> None \<Longrightarrow> cs_readers s' = []"
  shows "slots_ok (put_task t x s')"
proof -
  have same: "task_fits (put_task t x s') u y = task_fits s' u y" for u y by (cases y) simp_all
  show ?thesis using slots_okD(5) [OF ok] others fields x unfolding slots_ok_def by (auto simp: same)
qed

lemma fits_same [simp]:
  "pd_client (g (cs_driver s)) = pd_client (cs_driver s) \<Longrightarrow> task_fits (on_driver_slots g s) u y = task_fits s u y"
  "task_fits (s \<lparr> cs_cancels := cs \<rparr>) u y = task_fits s u y"
  by (cases y; simp)+

lemma fits_lock_free: "lock_free s \<Longrightarrow> cs_opened s' = cs_opened s \<Longrightarrow> task_fits s u y \<Longrightarrow> task_fits s' u y"
  by (cases y) (simp_all add: lock_free_def)

lemma fits_unlock: "u \<noteq> t \<Longrightarrow> task_fits s u y \<Longrightarrow> task_fits (unlock t s) u y"
  by (cases y) simp_all

lemma fits_opened: "task_fits s u y \<Longrightarrow> task_fits (s \<lparr> cs_opened := p # cs_opened s \<rparr>) u y"
  by (cases y) auto

lemma fits_shared: "task_fits s u y \<Longrightarrow> task_fits (s \<lparr> cs_readers := t # cs_readers s \<rparr>) u y"
  by (cases y) simp_all

lemma token_known: "(cn, tok) \<in> set (cs_opened s) \<Longrightarrow> tok \<in> set (map snd (cs_opened s))"
  by force

lemma happens_slots_ok:
  assumes a: "happens a s = Some s'" and ok: "slots_ok s"
  shows "slots_ok s'"
proof -
  note D = slots_okD [OF ok]
  note put = slots_ok_put [OF ok]
  show ?thesis
  proof (cases a)
    case (Begins t k)
    then show ?thesis using a D by (auto split: option.splits intro!: put)
  next
    case (Opens t cn tok)
    then show ?thesis using a D by (auto split: option.splits driver_task.splits if_splits intro!: put intro: fits_opened)
  next
    case (Fails t)
    then show ?thesis using a D by (auto split: option.splits driver_task.splits intro!: put)
  next
    case (GetsVersion t v)
    then show ?thesis using a D by (auto split: option.splits driver_task.splits intro!: put dest!: D(5))
  next
    case (GetsSchema t v)
    then show ?thesis using a D by (auto split: option.splits driver_task.splits intro!: put dest!: D(5))
  next
    case (PutsToken t)
    then show ?thesis using a D
      by (auto split: option.splits driver_task.splits change.splits intro!: put dest!: D(5) intro: token_known)
  next
    case (PutsClient t)
    then show ?thesis using a D
      by (auto split: option.splits driver_task.splits change.splits if_splits intro!: put dest!: D(5) intro: fits_lock_free)
  next
    case (Disconnects t)
    then show ?thesis using a D by (auto simp: lock_free_def split: option.splits if_splits intro!: put intro: fits_lock_free)
  next
    case (ClearsToken t)
    then show ?thesis using a D by (auto split: option.splits driver_task.splits intro!: put dest!: D(5))
  next
    case (ClearsVersion t)
    then show ?thesis using a D by (auto split: option.splits driver_task.splits intro!: put dest!: D(5))
  next
    case (ClearsSchema t)
    then show ?thesis using a D by (auto split: option.splits driver_task.splits if_splits intro!: put intro: fits_unlock)
  next
    case (Calls t)
    then show ?thesis using a D by (auto split: option.splits intro!: put)
  next
    case (Locks t)
    then show ?thesis using a D
      by (auto simp: lock_free_def split: option.splits driver_task.splits if_splits intro!: put intro: fits_lock_free)
  next
    case (LocksShared t)
    then show ?thesis using a D by (auto split: option.splits driver_task.splits if_splits intro!: put intro: fits_shared)
  next
    case (Returns t)
    then show ?thesis using a D by (auto split: option.splits driver_task.splits if_splits intro!: put intro: fits_unlock)
  next
    case (Drops t)
    then show ?thesis using a D by (auto split: option.splits driver_task.splits change.splits if_splits intro!: put intro: fits_unlock)
  next
    case (Backstop t)
    then show ?thesis using a D by (auto split: option.splits driver_task.splits if_splits intro!: put intro: fits_unlock)
  next
    case (Cancels t)
    then show ?thesis using a D by (auto split: option.splits driver_task.splits sum.splits intro!: put)
  qed
qed

lemma reached_slots_ok: "reached ord c s \<Longrightarrow> slots_ok s"
proof (induction rule: reached.induct)
  case reached_init
  show ?case by (simp add: slots_ok_def shared_init_def pg_new_def)
next
  case (reached_next s a s')
  then show ?case by (blast intro: happens_slots_ok)
qed

text \<open>With orderly changes: one at a time, and what the slots hold halfway through it.\<close>

fun half_fits :: "('cn, 'tok) PgDriver \<Rightarrow> ('cn, 'tok) driver_task \<Rightarrow> bool" where
  "half_fits d (TokenPut cn tok) = (pd_cancel_token d = Some tok)"
| "half_fits d (ClientPut cn tok) = (pd_client d = Some cn)"
| "half_fits d ClientCleared = (pd_client d = None)"
| "half_fits d x = True"

definition slots_agree :: "('cn, 'tok) shared \<Rightarrow> bool" where
  "slots_agree s \<longleftrightarrow> (case pd_client (cs_driver s) of
     None \<Rightarrow> pd_cancel_token (cs_driver s) = None
   | Some cn \<Rightarrow> (\<exists>tok. pd_cancel_token (cs_driver s) = Some tok \<and> (cn, tok) \<in> set (cs_opened s)))"

lemma slots_agree_same: "cs_driver s' = cs_driver s \<Longrightarrow> cs_opened s' = cs_opened s \<Longrightarrow> slots_agree s' = slots_agree s"
  by (simp add: slots_agree_def cong: option.case_cong)

definition orderly_ok :: "('cn, 'tok) shared \<Rightarrow> bool" where
  "orderly_ok s \<longleftrightarrow> (\<forall>t u. changing s t \<longrightarrow> changing s u \<longrightarrow> t = u)
     \<and> (\<forall>t x. cs_tasks s t = Some x \<longrightarrow> half_fits (cs_driver s) x)
     \<and> ((\<forall>t. \<not> halfway s t) \<longrightarrow> slots_agree s)"

lemma orderly_okD:
  assumes "orderly_ok s"
  shows "changing s t \<Longrightarrow> changing s u \<Longrightarrow> t = u" "cs_tasks s t = Some x \<Longrightarrow> half_fits (cs_driver s) x"
    "(\<And>t. \<not> halfway s t) \<Longrightarrow> slots_agree s"
  using assms unfolding orderly_ok_def by blast+

lemma half_done_changes: "half_done x \<Longrightarrow> is_change x"
  by (cases x) simp_all

lemma half_fits_trivial: "\<not> half_done x \<Longrightarrow> half_fits d x"
  by (cases x) simp_all

lemma changing_put: "changing (put_task t x s) u \<longleftrightarrow> (if u = t then is_change x else changing s u)"
  by (simp add: changing_def)

lemma halfway_put: "halfway (put_task t x s) u \<longleftrightarrow> (if u = t then half_done x else halfway s u)"
  by (simp add: halfway_def)

lemma halfway_changing: "halfway s t \<Longrightarrow> changing s t"
  by (auto simp: halfway_def changing_def half_done_changes split: option.splits)

lemma same_tasks: "cs_tasks s' = cs_tasks s \<Longrightarrow> changing s' = changing s \<and> halfway s' = halfway s"
  by (auto simp: changing_def halfway_def fun_eq_iff)

text \<open>A call's action changes neither slot nor any change under way.\<close>

lemma orderly_ok_call:
  assumes ok: "orderly_ok s" and x: "\<not> is_change x" "\<not> halfway s t"
    and s': "cs_tasks s' = cs_tasks s" "cs_driver s' = cs_driver s" "cs_opened s' = cs_opened s"
  shows "orderly_ok (put_task t x s')"
proof -
  have h: "\<not> half_done x" using x(1) half_done_changes by blast
  have same: "changing s' = changing s" "halfway s' = halfway s" using same_tasks [OF s'(1)] by simp_all
  show ?thesis unfolding orderly_ok_def
  proof (intro conjI allI impI)
    fix u v assume "changing (put_task t x s') u" "changing (put_task t x s') v"
    then show "u = v" using orderly_okD(1) [OF ok] x(1) by (auto simp: changing_put same split: if_splits)
  next
    fix u y assume "cs_tasks (put_task t x s') u = Some y"
    then show "half_fits (cs_driver (put_task t x s')) y"
      using orderly_okD(2) [OF ok, of u y] half_fits_trivial [OF h] s' by (auto split: if_splits)
  next
    assume none: "\<forall>u. \<not> halfway (put_task t x s') u"
    have "\<not> halfway s u" for u
      using none [rule_format, of u] x(2) by (cases "u = t") (simp_all add: halfway_put same)
    then have "slots_agree s" by (rule orderly_okD(3) [OF ok])
    then show "slots_agree (put_task t x s')" using slots_agree_same [of "put_task t x s'" s] s' by simp
  qed
qed

text \<open>The action of a change: it is the only one.\<close>

lemma orderly_ok_change:
  assumes ok: "orderly_ok s" and only: "\<And>u. u \<noteq> t \<Longrightarrow> \<not> changing s u"
    and s': "cs_tasks s' = cs_tasks s" "half_fits (cs_driver s') x" "\<not> half_done x \<Longrightarrow> slots_agree s'"
  shows "orderly_ok (put_task t x s')"
proof -
  have same: "changing s' = changing s" "halfway s' = halfway s" using same_tasks [OF s'(1)] by simp_all
  show ?thesis unfolding orderly_ok_def
  proof (intro conjI allI impI)
    fix u v assume "changing (put_task t x s') u" "changing (put_task t x s') v"
    then show "u = v" using only by (auto simp: changing_put same split: if_splits)
  next
    fix u y assume y: "cs_tasks (put_task t x s') u = Some y"
    show "half_fits (cs_driver (put_task t x s')) y"
    proof (cases "u = t")
      case False
      then have "\<not> is_change y" using only [of u] y s'(1) by (simp add: changing_def)
      then show ?thesis using half_done_changes half_fits_trivial by blast
    qed (use y s'(2) in simp)
  next
    assume "\<forall>u. \<not> halfway (put_task t x s') u"
    then have "\<not> halfway (put_task t x s') t" by blast
    then have "slots_agree s'" using s'(3) by (simp add: halfway_put)
    then show "slots_agree (put_task t x s')" using slots_agree_same [of "put_task t x s'" s'] by simp
  qed
qed

lemma slots_agree_opened: "slots_agree s \<Longrightarrow> slots_agree (s \<lparr> cs_opened := p # cs_opened s \<rparr>)"
  by (auto simp: slots_agree_def split: option.splits)

lemma slots_agree_slots:
  "pd_client (g (cs_driver s)) = pd_client (cs_driver s) \<Longrightarrow> pd_cancel_token (g (cs_driver s)) = pd_cancel_token (cs_driver s) \<Longrightarrow>
   slots_agree (on_driver_slots g s) = slots_agree s"
  by (simp add: slots_agree_def cong: option.case_cong)

lemma slots_agree_unlock: "slots_agree (unlock t s) = slots_agree s"
  by (rule slots_agree_same) simp_all

lemma happens_orderly_ok:
  assumes a: "happens a s = Some s'" and ord: "orderly a s" and ok: "orderly_ok s" and slots: "slots_ok s"
  shows "orderly_ok s'"
proof -
  note D = orderly_okD [OF ok]
  have only: "\<not> changing s u" if "cs_tasks s t = Some x" "is_change x" "u \<noteq> t" for t x u
    using D(1) [of t u] that by (auto simp: changing_def)
  have quiet: "slots_agree s" if "\<And>u. \<not> changing s u" using D(3) halfway_changing that by blast
  have alone: "slots_agree s" if "cs_tasks s t = Some x" "is_change x" "\<not> half_done x" for t x
    using D(3) only [OF that(1,2)] halfway_changing that by (metis halfway_def option.simps(5))
  have written: "cs_tasks s t = Some (ClientPut cn tok) \<Longrightarrow> pd_client (cs_driver s) = Some cn \<and> (cn, tok) \<in> set (cs_opened s)"
    "cs_tasks s t = Some (TokenPut cn tok) \<Longrightarrow> pd_cancel_token (cs_driver s) = Some tok \<and> (cn, tok) \<in> set (cs_opened s)"
    "cs_tasks s t = Some ClientCleared \<Longrightarrow> pd_client (cs_driver s) = None" for t cn tok
    using D(2) slots_okD(5) [OF slots] by force+
  note change = orderly_ok_change [OF ok] and call = orderly_ok_call [OF ok]
  show ?thesis
  proof (cases a)
    case (Begins t k)
    then show ?thesis using a ord quiet by (auto split: option.splits intro!: change)
  next
    case (Opens t cn tok)
    then show ?thesis using a
      by (auto split: option.splits driver_task.splits if_splits intro!: change slots_agree_opened alone dest: only)
  next
    case (Fails t)
    then show ?thesis using a by (auto split: option.splits driver_task.splits intro!: change alone dest: only)
  next
    case (GetsVersion t v)
    then show ?thesis using a
      by (auto simp: slots_agree_slots split: option.splits driver_task.splits intro!: change alone dest: only)
  next
    case (GetsSchema t v)
    then show ?thesis using a
      by (auto simp: slots_agree_slots split: option.splits driver_task.splits intro!: change alone dest: only)
  next
    case (PutsToken t)
    then show ?thesis using a
      by (auto simp: slots_agree_def split: option.splits driver_task.splits change.splits intro!: change dest: only written)
  next
    case (PutsClient t)
    then show ?thesis using a
      by (auto simp: slots_agree_def split: option.splits driver_task.splits change.splits if_splits
          intro!: change dest: only written)
  next
    case (Disconnects t)
    then show ?thesis using a ord by (auto split: option.splits if_splits intro!: change)
  next
    case (ClearsToken t)
    then show ?thesis using a
      by (auto simp: slots_agree_def split: option.splits driver_task.splits intro!: change dest: only written)
  next
    case (ClearsVersion t)
    then show ?thesis using a
      by (auto simp: slots_agree_slots split: option.splits driver_task.splits intro!: change alone dest: only)
  next
    case (ClearsSchema t)
    then show ?thesis using a
      by (auto simp: slots_agree_slots slots_agree_unlock split: option.splits driver_task.splits
          intro!: change alone dest: only)
  next
    case (Drops t)
    show ?thesis
    proof (cases "changing s t")
      case True
      then show ?thesis using Drops a ord
        by (auto simp: halfway_def changing_def split: option.splits driver_task.splits change.splits
            intro!: change alone dest: only)
    next
      case False
      then show ?thesis using Drops a
        by (auto simp: changing_def halfway_def split: option.splits driver_task.splits change.splits intro!: call)
    qed
  qed (use a in \<open>auto simp: halfway_def split: option.splits driver_task.splits if_splits sum.splits intro!: call\<close>)
qed

lemma reached_orderly_ok: "reached True c s \<Longrightarrow> orderly_ok s"
proof (induction rule: reached.induct)
  case reached_init
  show ?case by (simp add: orderly_ok_def slots_agree_def shared_init_def pg_new_def changing_def)
next
  case (reached_next s a s')
  then show ?case by (blast intro: happens_orderly_ok reached_slots_ok)
qed

section \<open>Runs\<close>

fun run_actions :: "('cn, 'tok) action list \<Rightarrow> ('cn, 'tok) shared \<Rightarrow> ('cn, 'tok) shared option" where
  "run_actions [] s = Some s"
| "run_actions (a # as) s = (case happens a s of None \<Rightarrow> None | Some s1 \<Rightarrow> run_actions as s1)"

fun orderly_run :: "('cn, 'tok) action list \<Rightarrow> ('cn, 'tok) shared \<Rightarrow> bool" where
  "orderly_run [] s = True"
| "orderly_run (a # as) s = (orderly a s \<and> (case happens a s of None \<Rightarrow> False | Some s1 \<Rightarrow> orderly_run as s1))"

lemma reached_run:
  "reached ord c s \<Longrightarrow> run_actions as s = Some s' \<Longrightarrow> (ord \<Longrightarrow> orderly_run as s) \<Longrightarrow> reached ord c s'"
  by (induction as s rule: run_actions.induct) (auto split: option.splits intro: reached_next)

definition connect_actions :: "nat \<Rightarrow> 'cn \<Rightarrow> 'tok \<Rightarrow> string option \<Rightarrow> string option \<Rightarrow> ('cn, 'tok) action list" where
  "connect_actions t cn tok version schema =
     [Begins t Connecting, Opens t cn tok, GetsVersion t version, GetsSchema t schema, PutsToken t, PutsClient t]"

definition switch_actions :: "nat \<Rightarrow> 'cn \<Rightarrow> 'tok \<Rightarrow> string option \<Rightarrow> string option \<Rightarrow> ('cn, 'tok) action list" where
  "switch_actions t cn tok version schema =
     [Begins t Switching, Opens t cn tok, GetsVersion t version, GetsSchema t schema, PutsClient t, PutsToken t]"

definition disconnect_actions :: "nat \<Rightarrow> ('cn, 'tok) action list" where
  "disconnect_actions t = [Disconnects t, ClearsToken t, ClearsVersion t, ClearsSchema t]"

definition fresh_session :: "('cn, 'tok) shared \<Rightarrow> 'cn \<Rightarrow> 'tok \<Rightarrow> bool" where
  "fresh_session s cn tok \<longleftrightarrow> cn \<notin> set (map fst (cs_opened s)) \<and> tok \<notin> set (map snd (cs_opened s))"

lemma open_session_driver:
  assumes "connect_with_config E c (snd w) = (Inr (cn, tok), s1)"
  shows "\<exists>version schema. fst (snd (open_session E c w)) = (fst w) \<lparr> pd_server_version := version,
    pd_current_schema := schema, pd_cancel_token := Some tok, pd_client := Some cn \<rparr>"
  using assms by (auto simp: open_session_def refresh_session_caches_def pair_simps)

text \<open>Alone, the actions of a method do to the slots what the method of \<open>PostgresDriver\<close> does.\<close>

lemma methods_through_slots:
  assumes t: "cs_tasks s t = None" "lock_free s" and new: "fresh_session s cn tok"
  shows "connect_with_config E (pd_config (cs_driver s)) w = (Inr (cn, tok), w1) \<Longrightarrow> \<exists>version schema.
      map_option cs_driver (run_actions (connect_actions t cn tok version schema) s) = Some (fst (snd (pg_connect E (cs_driver s, w))))"
    "connect_with_config E ((pd_config (cs_driver s)) \<lparr> cc_database := Some database \<rparr>) w = (Inr (cn, tok), w1) \<Longrightarrow> \<exists>version schema.
      map_option cs_driver (run_actions (switch_actions t cn tok version schema) s)
        = Some (fst (snd (pg_switch_database E database (cs_driver s, w))))"
    "map_option cs_driver (run_actions (disconnect_actions t) s) = Some (fst (snd (pg_disconnect (cs_driver s, w))))"
proof -
  note run = connect_actions_def switch_actions_def disconnect_actions_def fresh_session_def lock_free_def
  let ?new = "\<lambda>version schema. (cs_driver s) \<lparr> pd_server_version := version, pd_current_schema := schema,
    pd_cancel_token := Some tok, pd_client := Some cn \<rparr>"
  have runs: "map_option cs_driver (run_actions (connect_actions t cn tok version schema) s) = Some (?new version schema)"
    "map_option cs_driver (run_actions (switch_actions t cn tok version schema) s) = Some (?new version schema)" for version schema
    using t new by (auto simp: run intro: PgDriver.equality)
  show "\<exists>version schema. map_option cs_driver (run_actions (connect_actions t cn tok version schema) s)
      = Some (fst (snd (pg_connect E (cs_driver s, w))))"
    if conn: "connect_with_config E (pd_config (cs_driver s)) w = (Inr (cn, tok), w1)"
  proof -
    obtain version schema where o: "fst (snd (open_session E (pd_config (cs_driver s)) (cs_driver s, w))) = ?new version schema"
      using open_session_driver [of E "pd_config (cs_driver s)" "(cs_driver s, w)" cn tok w1] conn by auto
    have "map_option cs_driver (run_actions (connect_actions t cn tok version schema) s) = Some (fst (snd (pg_connect E (cs_driver s, w))))"
      unfolding runs(1) o [symmetric] by (simp add: pg_connect_def)
    then show ?thesis by blast
  qed
  show "\<exists>version schema. map_option cs_driver (run_actions (switch_actions t cn tok version schema) s)
      = Some (fst (snd (pg_switch_database E database (cs_driver s, w))))"
    if conn: "connect_with_config E ((pd_config (cs_driver s)) \<lparr> cc_database := Some database \<rparr>) w = (Inr (cn, tok), w1)"
  proof -
    let ?c = "(pd_config (cs_driver s)) \<lparr> cc_database := Some database \<rparr>"
    obtain version schema where o: "fst (snd (open_session E ?c (cs_driver s, w))) = ?new version schema"
      using open_session_driver [of E ?c "(cs_driver s, w)" cn tok w1] conn by auto
    have "map_option cs_driver (run_actions (switch_actions t cn tok version schema) s)
        = Some (fst (snd (pg_switch_database E database (cs_driver s, w))))"
      unfolding runs(2) o [symmetric] by (simp add: pg_switch_database_def)
    then show ?thesis by blast
  qed
  show "map_option cs_driver (run_actions (disconnect_actions t) s) = Some (fst (snd (pg_disconnect (cs_driver s, w))))"
    using t by (auto simp: run pg_disconnect_def intro: PgDriver.equality)
qed

section \<open>Properties\<close>

definition uses :: "('cn, 'tok) shared \<Rightarrow> nat \<Rightarrow> 'cn \<Rightarrow> bool" where
  "uses s t cn \<longleftrightarrow> cs_tasks s t = Some (Writing cn) \<or> cs_tasks s t = Some (Reading cn)"

definition token_of :: "('cn, 'tok) shared \<Rightarrow> 'cn \<Rightarrow> 'tok option" where
  "token_of s cn = map_of (cs_opened s) cn"

lemma token_of_opened:
  assumes "slots_ok s"
  shows "(cn, tok) \<in> set (cs_opened s) \<longleftrightarrow> token_of s cn = Some tok"
    "token_of s cn = Some tok \<Longrightarrow> token_of s cn' = Some tok \<Longrightarrow> cn' = cn"
proof -
  show "(cn, tok) \<in> set (cs_opened s) \<longleftrightarrow> token_of s cn = Some tok"
    using slots_okD(1) [OF assms] by (simp add: token_of_def)
  show "token_of s cn = Some tok \<Longrightarrow> token_of s cn' = Some tok \<Longrightarrow> cn' = cn"
    using slots_okD(2) [OF assms] unfolding token_of_def
    by (auto dest!: map_of_SomeD simp: distinct_map) (metis inj_onD prod.inject snd_conv)
qed

lemma cancel_of_token: "pg_cancel_query d = Inr (tok, tls) \<longleftrightarrow> pd_cancel_token d = Some tok \<and> tls = None"
  by (cases "pd_cancel_token d") (auto simp: pg_cancel_query_def)

lemma session_in_use:
  assumes "reached True c s" "\<And>u. \<not> halfway s u" "pd_client (cs_driver s) = Some cn"
  shows "\<exists>tok. pg_cancel_query (cs_driver s) = Inr (tok, None) \<and> token_of s cn = Some tok"
  using orderly_okD(3) [OF reached_orderly_ok [OF assms(1)] assms(2)] assms(3)
    token_of_opened(1) [OF reached_slots_ok [OF assms(1)]]
  by (auto simp: slots_agree_def cancel_of_token)

lemma user_has_client: "slots_ok s \<Longrightarrow> uses s t cn \<Longrightarrow> pd_client (cs_driver s) = Some cn"
  unfolding uses_def by (auto dest: slots_okD(5))

text \<open>C11. A cancel goes to the session in use. However connects, switches, disconnects and calls on one
  driver overlap and are dropped, a cancel names a session opened for this driver. When they change the
  session one at a time and are not given up halfway, then outside the moment between their two writes
  it names the one session that every call in progress uses, and on a driver without a session it is
  refused.\<close>

theorem cancel_names_the_session:
  assumes s: "reached ord c s"
  shows "(\<forall>tok tls. pg_cancel_query (cs_driver s) = Inr (tok, tls) \<longrightarrow> (\<exists>cn. token_of s cn = Some tok))
    \<and> (ord \<and> (\<forall>u. \<not> halfway s u) \<longrightarrow>
        (\<forall>t cn. uses s t cn \<longrightarrow> (\<exists>tok. pg_cancel_query (cs_driver s) = Inr (tok, None) \<and> token_of s cn = Some tok
           \<and> (\<forall>cn'. token_of s cn' = Some tok \<longrightarrow> cn' = cn)))
        \<and> (pd_client (cs_driver s) = None \<longrightarrow> pg_cancel_query (cs_driver s) = Inl pg_not_connected))"
proof (intro conjI allI impI)
  note ok = reached_slots_ok [OF s]
  fix tok tls assume "pg_cancel_query (cs_driver s) = Inr (tok, tls)"
  then have "tok \<in> set (map snd (cs_opened s))" using slots_okD(3) [OF ok] by (simp add: cancel_of_token)
  then show "\<exists>cn. token_of s cn = Some tok" using token_of_opened(1) [OF ok] by force
next
  note ok = reached_slots_ok [OF s]
  fix t cn assume o: "ord \<and> (\<forall>u. \<not> halfway s u)" and u: "uses s t cn"
  then obtain tok where "pg_cancel_query (cs_driver s) = Inr (tok, None)" "token_of s cn = Some tok"
    using session_in_use [of c s cn] user_has_client [OF ok u] s by auto
  then show "\<exists>tok. pg_cancel_query (cs_driver s) = Inr (tok, None) \<and> token_of s cn = Some tok
     \<and> (\<forall>cn'. token_of s cn' = Some tok \<longrightarrow> cn' = cn)" using token_of_opened(2) [OF ok] by blast
next
  assume o: "ord \<and> (\<forall>u. \<not> halfway s u)" and none: "pd_client (cs_driver s) = None"
  then have "reached True c s" using s by simp
  then have "slots_agree s" using orderly_okD(3) [OF reached_orderly_ok] o by blast
  then show "pg_cancel_query (cs_driver s) = Inl pg_not_connected"
    using none by (simp add: slots_agree_def pg_cancel_query_def)
qed

text \<open>A connect, a call that runs and one that waits for the lock.\<close>

definition busy_actions :: "(nat, nat) action list" where
  "busy_actions = connect_actions 0 7 70 None None @ [Calls 1, Calls 2, Locks 1]"

definition busy :: "(nat, nat) shared" where
  "busy = the (run_actions busy_actions (shared_init default_tls_config))"

lemma busy_run: "run_actions busy_actions (shared_init default_tls_config) = Some busy"
  by (simp add: busy_def busy_actions_def connect_actions_def shared_init_def lock_free_def pg_new_def)

lemma busy_reached: "reached True default_tls_config busy"
proof (rule reached_run [OF reached_init busy_run])
  show "orderly_run busy_actions (shared_init default_tls_config :: (nat, nat) shared)"
    by (simp add: busy_actions_def connect_actions_def shared_init_def lock_free_def changing_def pg_new_def)
qed

lemma busy_simps:
  "cs_tasks busy = [0 \<mapsto> Over, 1 \<mapsto> Writing 7, 2 \<mapsto> Waiting]" "cs_opened busy = [(7, 70)]" "cs_cancels busy = []"
  "cs_writer busy = Some 1" "cs_readers busy = []" "pd_client (cs_driver busy) = Some 7" "pd_cancel_token (cs_driver busy) = Some 70"
  by (simp_all add: busy_def busy_actions_def connect_actions_def shared_init_def lock_free_def pg_new_def fun_eq_iff)

lemma busy_not_halfway: "\<not> halfway busy u"
  by (simp add: halfway_def busy_simps)

theorem cancel_names_the_session_witness:
  "\<exists>tok. pg_cancel_query (cs_driver busy) = Inr (tok, None) \<and> token_of busy 7 = Some tok"
proof -
  have "uses busy 1 7" by (simp add: uses_def busy_simps)
  then show ?thesis using cancel_names_the_session [OF busy_reached] busy_not_halfway by blast
qed

text \<open>The cancel does not know whose it is. When the backstop fires for a call that waits for the lock,
  the cancel that follows goes to the session on which another call is running.\<close>

theorem waiting_backstop_cancels_another:
  assumes s: "reached True c s" "\<And>u. \<not> halfway s u" and t: "cs_tasks s t = Some (Writing cn)" and u: "cs_tasks s u = Some Waiting"
  shows "\<exists>s' tok. run_actions [Backstop u, Cancels u] s = Some s' \<and> token_of s cn = Some tok
    \<and> cs_cancels s' = (u, tok) # cs_cancels s \<and> cs_tasks s' t = Some (Writing cn)"
proof -
  have "pd_client (cs_driver s) = Some cn"
    using user_has_client [OF reached_slots_ok [OF s(1)], of t] t by (simp add: uses_def)
  then obtain tok where tok: "pg_cancel_query (cs_driver s) = Inr (tok, None)" "token_of s cn = Some tok"
    using session_in_use [OF s] by blast
  have "u \<noteq> t" using t u by auto
  then show ?thesis using t u tok by simp
qed

lemma waiting_backstop_example: "\<exists>s'. run_actions [Backstop 2, Cancels 2] busy = Some s' \<and> cs_cancels s' = [(2, 70)]"
  using waiting_backstop_cancels_another [OF busy_reached busy_not_halfway, of 1 7 2]
  by (auto simp: busy_simps token_of_def)

text \<open>Two switches of the database that overlap: the second session stays, with the token of the first.\<close>

definition two_switches :: "(nat, nat) action list" where
  "two_switches = connect_actions 0 7 70 None None
     @ [Begins 1 Switching, Opens 1 8 80, GetsVersion 1 None, GetsSchema 1 None,
        Begins 2 Switching, Opens 2 9 90, GetsVersion 2 None, GetsSchema 2 None,
        PutsClient 1, PutsClient 2, PutsToken 2, PutsToken 1, Calls 3, Locks 3]"

theorem overlapping_switches_lose_the_token:
  "\<exists>s :: (nat, nat) shared. reached False default_tls_config s \<and> cs_tasks s 1 = Some Over \<and> cs_tasks s 2 = Some Over
     \<and> uses s 3 9 \<and> pg_cancel_query (cs_driver s) = Inr (80, None) \<and> token_of s 9 = Some 90"
proof -
  let ?run = "run_actions two_switches (shared_init default_tls_config) :: (nat, nat) shared option"
  have some: "\<not> Option.is_none ?run" by code_simp
  then obtain s where s: "?run = Some s" by (cases ?run) simp_all
  have "map_option (\<lambda>s. (cs_tasks s 1, cs_tasks s 2, cs_tasks s 3, pd_cancel_token (cs_driver s), token_of s 9)) ?run
      = Some (Some Over, Some Over, Some (Writing 9), Some 80, Some 90)" by code_simp
  then show ?thesis using s reached_run [OF reached_init s, of False]
    by (auto simp: uses_def cancel_of_token)
qed

end
