(* ===== verification/PostgresStream.thy ===== *)
theory PostgresStream
  imports Main Prelude Lib Core Effects Postgres PostgresDriver
begin

text \<open>
  The stream of \<open>driver-postgres/src/stream.rs\<close> against the user query of \<open>query.rs\<close>: two loops over a
  portal, written apart. They make the same requests and give the same rows.
\<close>

text \<open>How the loops correspond, from as many rows on: the same state of the server, the same error, or the
  rows so far with those streamed.\<close>

definition same_portal ::
  "CellValue list list \<Rightarrow> StreamElement list \<times> unit dres \<times> 's
   \<Rightarrow> ((string list \<times> string list) \<times> CellValue list list \<times> bool) dres \<times> 's \<Rightarrow> bool" where
  "same_portal rows x y \<longleftrightarrow> (case x of (out, r, s1) \<Rightarrow> snd y = s1 \<and> (case r of
     Inl e \<Rightarrow> fst y = Inl e
   | Inr _ \<Rightarrow> \<exists>cols. fst y = Inr (cols, rows @ streamed_rows out, EMERGENCY_MAX \<le> length (rows @ streamed_rows out))))"

lemma same_portal_yield:
  assumes "same_portal (rows @ streamed_rows pre) p y"
  shows "same_portal rows (let (out, r, s1) = p in (pre @ out, r, s1)) y"
  using assms by (simp add: same_portal_def pair_simps split: sum.splits)

lemma portals_same:
  "same_portal rows (stream_portal L E cn po stmt sent (length rows) s) (portal_loop L E cn po stmt EMERGENCY_MAX cols rows s)"
proof (induction "EMERGENCY_MAX - length rows" arbitrary: rows cols sent s rule: less_induct)
  case less
  show ?case
  proof (cases "length rows \<ge> EMERGENCY_MAX")
    case True
    then show ?thesis
      by (simp add: portal_loop_full stream_portal_step [of L E cn po stmt sent "length rows" s] same_portal_def)
  next
    case False
    define f where "f = fetch_size EMERGENCY_MAX rows"
    have f: "0 < f" using False by (simp add: f_def fetch_size_pos)
    obtain r s1 where call: "pg_call (pv_portal E cn po f) s = (r, s1)" by (rule prod.exhaust)
    note loop = portal_loop_step [of rows EMERGENCY_MAX L E cn po stmt cols s, folded f_def]
    note stream = stream_portal_step [of L E cn po stmt sent "length rows" s, folded fetch_size_def, folded f_def]
    show ?thesis
    proof (cases r)
      case (Inl e)
      then show ?thesis using False call by (simp add: loop stream same_portal_def)
    next
      case (Inr batch)
      show ?thesis
      proof (cases "res_collect (map (row_cells L (pv_values E)) batch)")
        case (Inl e)
        then show ?thesis using False call Inr by (simp add: loop stream same_portal_def pair_simps)
      next
        case cells: (Inr cells)
        have len: "length cells = length batch" using res_collect_length [OF cells] by simp
        define h where "h = (if sent then [] else [Header \<lparr> sh_columns = fst (portal_columns stmt batch ([], [])),
            sh_column_type_names = snd (portal_columns stmt batch ([], [])) \<rparr>])"
        define pre where "pre = h @ (if batch = [] then [] else [Rows cells])"
        have pre: "streamed_rows pre = cells" using len by (cases "batch = []") (simp_all add: pre_def h_def)
        show ?thesis
        proof (cases "length batch < f")
          case True
          have "length rows + length cells < EMERGENCY_MAX" using True len by (auto simp: f_def fetch_size_def)
          then show ?thesis using False call Inr cells True pre
            by (simp add: loop stream same_portal_def Let_def split_def pre_def h_def)
        next
          case full: False
          have "EMERGENCY_MAX - length (rows @ cells) < EMERGENCY_MAX - length rows" using full f False len by simp
          from less.hyps [OF this] have "same_portal (rows @ streamed_rows pre)
              (stream_portal L E cn po stmt True (length (rows @ cells)) s1)
              (portal_loop L E cn po stmt EMERGENCY_MAX (portal_columns stmt batch cols) (rows @ cells) s1)"
            by (simp only: pre)
          from same_portal_yield [OF this] show ?thesis using False call Inr cells full len
            by (simp add: loop stream Let_def split_def pre_def h_def)
        qed
      qed
    qed
  qed
qed

text \<open>C23. A stream is the uncapped user query, in batches. On every server, whatever it answers: both leave it
  in the same state; if the stream ends well, the rows it yielded one after the other are the rows of
  the query, and if it ends in an error the query ends in the same one.\<close>

theorem pg_stream_is_user_query:
  "case pg_stream_on L E cn sql ro s of (out, r, s1) \<Rightarrow>
     (case pg_execute_user_query_on L E elapsed cn sql None None ro s of (q, s2) \<Rightarrow>
       s2 = s1 \<and> (case r of Inl e \<Rightarrow> q = Inl e | Inr _ \<Rightarrow> res_map qr_rows q = Inr (streamed_rows out)))"
proof -
  obtain b sa where b: "pg_call (pv_begin E cn ro) s = (b, sa)" by (rule prod.exhaust)
  show ?thesis
  proof (cases b)
    case (Inl e)
    then show ?thesis using b by (simp add: pg_stream_on_def user_query_body in_transaction_def op_bind_def op_map_def)
  next
    case (Inr u)
    have body: "portal_body L E cn sql None None = op_bind (op_bind (pg_call (pv_prepare E cn sql))
        (\<lambda>(st, columns). op_map (\<lambda>po. (po, columns)) (pg_call (pv_bind E cn st []))))
        (\<lambda>(po, columns). portal_loop L E cn po columns EMERGENCY_MAX ([], []) [])"
      by (rule ext) (auto simp: portal_body_def op_bind_def op_map_def pg_cap_def to_params_def split: prod.split sum.split)
    obtain o1 sb where o1: "op_bind (pg_call (pv_prepare E cn sql))
        (\<lambda>(st, columns). op_map (\<lambda>po. (po, columns)) (pg_call (pv_bind E cn st []))) sa = (o1, sb)" by (rule prod.exhaust)
    show ?thesis
    proof (cases o1)
      case (Inl e)
      then show ?thesis using b o1 \<open>b = Inr u\<close>
        by (simp add: pg_stream_on_def user_query_body in_transaction_def body op_bind_Inl op_bind_Inr op_map_def)
    next
      case (Inr pc)
      obtain po columns where pc: "pc = (po, columns)" by (rule prod.exhaust)
      obtain out r sc where l: "stream_portal L E cn po columns False 0 sb = (out, r, sc)" by (metis prod.exhaust)
      obtain q sd where q: "portal_loop L E cn po columns EMERGENCY_MAX ([], []) [] sb = (q, sd)" by (rule prod.exhaust)
      have same: "same_portal [] (out, r, sc) (q, sd)"
        using portals_same [of "[]" L E cn po columns False sb "([], [])"] l q by simp
      have t: "in_transaction E cn ro (portal_body L E cn sql None None) s = (case (q, sd) of
          (Inl e, s1) \<Rightarrow> (Inl e, pv_rollback E cn s1) | (Inr x, s1) \<Rightarrow> op_map (\<lambda>_. x) (pg_call (pv_commit E cn)) s1)"
        using b \<open>b = Inr u\<close> o1 Inr pc q by (simp add: in_transaction_def op_bind_Inr body)
      have st: "pg_stream_on L E cn sql ro s = (case (r, sc) of (Inl e, s3) \<Rightarrow> (out, Inl e, pv_rollback E cn s3)
          | (Inr _, s3) \<Rightarrow> (let (r, s4) = pg_call (pv_commit E cn) s3 in (out, r, s4)))"
        using b \<open>b = Inr u\<close> o1 Inr pc l by (simp add: pg_stream_on_def split: sum.split)
      obtain c se where c: "pg_call (pv_commit E cn) sc = (c, se)" by (rule prod.exhaust)
      show ?thesis unfolding user_query_body op_map_def t st using same c
        by (cases r; cases c) (auto simp: same_portal_def op_map_def portal_result_def)
    qed
  qed
qed

end
