(* ===== verification/DriverTrait.thy ===== *)
theory DriverTrait
  imports Main Prelude Lib Core Effects Redis RedisDriver Clickhouse ClickhouseDriver ClickhouseSteady Postgres PostgresDriver
begin

text \<open>
  The trait \<open>DatabaseDriver\<close> of \<open>core/src/driver.rs\<close> with all its methods, and the three drivers as its
  implementations, the trait's default methods where they do not override them; \<open>cancel_query\<close> comes with
  what the task it starts does. The locale \<open>driver_lifecycle\<close> is what a user of the trait relies on: a
  driver is open or closed, only connecting and disconnecting change that, and a closed one refuses
  what needs a server and asks nothing of it.
\<close>

section \<open>The trait\<close>

record 'd database_driver =
  dd_connect :: "('d, unit) op"
  dd_disconnect :: "('d, unit) op"
  dd_ping :: "('d, unit) op"
  dd_execute :: "string \<Rightarrow> ('d, QueryResult) op"
  dd_execute_parameterized :: "string \<Rightarrow> CellValue list \<Rightarrow> ('d, QueryResult) op"
  dd_execute_user_query :: "string \<Rightarrow> nat option \<Rightarrow> CellValue list option \<Rightarrow> ('d, QueryResult) op"
  dd_fetch_tables :: "string option \<Rightarrow> ('d, TableInfo list) op"
  dd_fetch_columns :: "string \<Rightarrow> string option \<Rightarrow> ('d, ColumnInfo list) op"
  dd_fetch_indexes :: "string \<Rightarrow> string option \<Rightarrow> ('d, IndexInfo list) op"
  dd_fetch_foreign_keys :: "string \<Rightarrow> string option \<Rightarrow> ('d, ForeignKeyInfo list) op"
  dd_fetch_triggers :: "string \<Rightarrow> string option \<Rightarrow> ('d, TriggerInfo list) op"
  dd_fetch_table_ddl :: "string \<Rightarrow> string option \<Rightarrow> ('d, string) op"
  dd_fetch_view_definition :: "string \<Rightarrow> string option \<Rightarrow> ('d, string) op"
  dd_fetch_table_metadata :: "string \<Rightarrow> string option \<Rightarrow> ('d, TableMetadata) op"
  dd_fetch_databases :: "('d, string list) op"
  dd_fetch_database_metadata :: "string \<Rightarrow> ('d, DatabaseMetadata) op"
  dd_supports_schemas :: bool
  dd_fetch_schemas :: "('d, string list) op"
  dd_switch_schema :: "string \<Rightarrow> ('d, unit) op"
  dd_current_schema :: "'d \<Rightarrow> string option"
  dd_supports_transactions :: bool
  dd_begin_transaction :: "('d, unit) op"
  dd_commit_transaction :: "('d, unit) op"
  dd_rollback_transaction :: "('d, unit) op"
  dd_cancel_query :: "('d, unit) op"
  dd_apply_query_timeout :: "nat \<Rightarrow> ('d, unit) op"
  dd_keepalive_posture :: KeepalivePosture
  dd_server_version :: "'d \<Rightarrow> string option"
  dd_parameter_style :: ParameterStyle
  dd_create_database :: "CreateDatabaseRequest \<Rightarrow> ('d, unit) op"
  dd_drop_database :: "string \<Rightarrow> ('d, unit) op"
  dd_switch_database :: "string \<Rightarrow> ('d, unit) op"
  dd_stream_rows :: "string \<Rightarrow> 'd \<Rightarrow> (StreamElement list \<times> unit dres option) \<times> 'd"

definition ended_stream :: "(StreamElement list \<times> unit dres) \<times> 'd \<Rightarrow> (StreamElement list \<times> unit dres option) \<times> 'd" where
  "ended_stream p = (case p of ((out, r), d) \<Rightarrow> ((out, Some r), d))"

section \<open>Postgres\<close>

text \<open>The three methods the trait's defaults are made of.\<close>

definition pg_core :: "('cn, 'tok, 'st, 'po, 's) pg_env \<Rightarrow> nat \<times> nat \<Rightarrow> ('cn, 'tok, 's) pg_world driver" where
  "pg_core E elapsed = \<lparr> drv_connect = pg_connect E, drv_disconnect = pg_disconnect, drv_execute = pg_execute E elapsed \<rparr>"

definition pg_supports_schemas :: bool where
  "pg_supports_schemas = True"

definition pg_current_schema :: "('cn, 'tok) PgDriver \<Rightarrow> string option" where
  "pg_current_schema d = pd_current_schema d"

definition pg_keepalive :: KeepalivePosture where
  "pg_keepalive = Applied"

definition pg_server_version :: "('cn, 'tok) PgDriver \<Rightarrow> string option" where
  "pg_server_version d = pd_server_version d"

definition pg_parameter_style :: ParameterStyle where
  "pg_parameter_style = Dollar"

definition postgres_driver ::
  "lib \<Rightarrow> ('cn, 'tok, 'st, 'po, 's) pg_env \<Rightarrow> nat \<times> nat \<Rightarrow> ('cn, 'tok, 's) pg_world database_driver" where
  "postgres_driver L E elapsed = \<lparr>
     dd_connect = pg_connect E, dd_disconnect = pg_disconnect, dd_ping = default_ping (pg_core E elapsed),
     dd_execute = pg_execute E elapsed, dd_execute_parameterized = pg_execute_parameterized L E elapsed,
     dd_execute_user_query = pg_execute_user_query L E elapsed, dd_fetch_tables = pg_fetch_tables E,
     dd_fetch_columns = pg_fetch_columns E, dd_fetch_indexes = pg_fetch_indexes E,
     dd_fetch_foreign_keys = pg_fetch_foreign_keys E, dd_fetch_triggers = pg_fetch_triggers E,
     dd_fetch_table_ddl = pg_fetch_table_ddl E, dd_fetch_view_definition = pg_fetch_view_definition E,
     dd_fetch_table_metadata = pg_fetch_table_metadata E, dd_fetch_databases = pg_fetch_databases E,
     dd_fetch_database_metadata = pg_fetch_database_metadata E, dd_supports_schemas = pg_supports_schemas,
     dd_fetch_schemas = pg_fetch_schemas E, dd_switch_schema = pg_switch_schema E,
     dd_current_schema = (\<lambda>w. pg_current_schema (fst w)), dd_supports_transactions = True,
     dd_begin_transaction = default_begin_transaction (pg_core E elapsed),
     dd_commit_transaction = default_commit_transaction (pg_core E elapsed),
     dd_rollback_transaction = default_rollback_transaction (pg_core E elapsed),
     dd_cancel_query = pg_cancel_task E,
     dd_apply_query_timeout = pg_apply_query_timeout E, dd_keepalive_posture = pg_keepalive,
     dd_server_version = (\<lambda>w. pg_server_version (fst w)), dd_parameter_style = pg_parameter_style,
     dd_create_database = pg_create_database E, dd_drop_database = pg_drop_database E,
     dd_switch_database = pg_switch_database E, dd_stream_rows = (\<lambda>sql w. ended_stream (pg_stream_rows L E sql w)) \<rparr>"

section \<open>ClickHouse\<close>

definition ch_core :: "lib \<Rightarrow> ('cl, 's) http_env \<Rightarrow> nat \<times> nat \<Rightarrow> ('cl, 's) ch_world driver" where
  "ch_core L E elapsed = \<lparr> drv_connect = ch_connect E, drv_disconnect = ch_disconnect, drv_execute = ch_execute L E elapsed \<rparr>"

definition ch_keepalive :: KeepalivePosture where
  "ch_keepalive = Applied"

definition ch_server_version :: "'cl ChDriver \<Rightarrow> string option" where
  "ch_server_version d = cd_server_version d"

definition ch_parameter_style :: ParameterStyle where
  "ch_parameter_style = QuestionMark"

definition ch_supports_transactions :: bool where
  "ch_supports_transactions = False"

definition ch_begin_transaction :: "unit dres" where
  "ch_begin_transaction = Inl ch_unsupported_transactions"

definition ch_commit_transaction :: "unit dres" where
  "ch_commit_transaction = Inl ch_unsupported_transactions"

definition ch_rollback_transaction :: "unit dres" where
  "ch_rollback_transaction = Inl ch_unsupported_transactions"

text \<open>\<open>supports_schemas\<close>, the triggers, the schemas and the switch of the schema are the trait's.\<close>

definition clickhouse_driver ::
  "lib \<Rightarrow> ('cl, 's) http_env \<Rightarrow> nat \<times> nat \<Rightarrow> ('cl, 's) ch_world database_driver" where
  "clickhouse_driver L E elapsed = \<lparr>
     dd_connect = ch_connect E, dd_disconnect = ch_disconnect, dd_ping = default_ping (ch_core L E elapsed),
     dd_execute = ch_execute L E elapsed, dd_execute_parameterized = ch_execute_parameterized L E elapsed,
     dd_execute_user_query = ch_execute_user_query L E elapsed, dd_fetch_tables = ch_fetch_tables L E,
     dd_fetch_columns = ch_fetch_columns L E, dd_fetch_indexes = ch_fetch_indexes L E,
     dd_fetch_foreign_keys = (\<lambda>_ _. ch_fetch_foreign_keys), dd_fetch_triggers = (\<lambda>_ _. op_lift default_fetch_triggers),
     dd_fetch_table_ddl = ch_fetch_table_ddl L E, dd_fetch_view_definition = ch_fetch_view_definition L E,
     dd_fetch_table_metadata = ch_fetch_table_metadata L E, dd_fetch_databases = ch_fetch_databases L E,
     dd_fetch_database_metadata = ch_fetch_database_metadata L E, dd_supports_schemas = False,
     dd_fetch_schemas = op_lift default_fetch_schemas, dd_switch_schema = (\<lambda>n. op_lift (default_switch_schema n)),
     dd_current_schema = (\<lambda>_. None), dd_supports_transactions = ch_supports_transactions,
     dd_begin_transaction = op_lift ch_begin_transaction, dd_commit_transaction = op_lift ch_commit_transaction,
     dd_rollback_transaction = op_lift ch_rollback_transaction, dd_cancel_query = ch_cancel_task E,
     dd_apply_query_timeout = ch_apply_query_timeout, dd_keepalive_posture = ch_keepalive,
     dd_server_version = (\<lambda>w. ch_server_version (fst w)), dd_parameter_style = ch_parameter_style,
     dd_create_database = ch_create_database L E, dd_drop_database = ch_drop_database L E,
     dd_switch_database = ch_switch_database L E, dd_stream_rows = (\<lambda>sql w. ended_stream (ch_stream_rows L E sql w)) \<rparr>"

section \<open>Redis\<close>

text \<open>What only looks at the driver object, and what works with it on the server.\<close>

definition of_redis :: "('rc RedisDriver \<Rightarrow> 'a dres) \<Rightarrow> ('rc RedisDriver \<times> 'r, 'a) op" where
  "of_redis f w = (f (fst w), w)"

definition at_redis :: "('rc RedisDriver \<Rightarrow> 'r \<Rightarrow> 'a \<times> 'r) \<Rightarrow> 'rc RedisDriver \<times> 'r \<Rightarrow> 'a \<times> 'rc RedisDriver \<times> 'r" where
  "at_redis f w = (let (x, s1) = f (fst w) (snd w) in (x, (fst w, s1)))"

text \<open>A method that answers without the server, once there is a connection.\<close>

definition when_connected :: "'a dres \<Rightarrow> 'rc RedisDriver \<Rightarrow> 'a dres" where
  "when_connected r d = res_bind (rd_manager d) (\<lambda>_. r)"

definition redis_execute_parameterized_m ::
  "lib \<Rightarrow> ('cl, 'c, 's) redis_env \<Rightarrow> nat \<times> nat \<Rightarrow> string \<Rightarrow> CellValue list \<Rightarrow> 'c RedisDriver \<Rightarrow> 's \<Rightarrow> QueryResult dres \<times> 's" where
  "redis_execute_parameterized_m L E elapsed query ps d = with_redis d (redis_execute_parameterized L E elapsed query ps)"

definition redis_fetch_indexes :: "'c RedisDriver \<Rightarrow> IndexInfo list dres" where
  "redis_fetch_indexes = when_connected (Inr [])"

definition redis_fetch_foreign_keys :: "'c RedisDriver \<Rightarrow> ForeignKeyInfo list dres" where
  "redis_fetch_foreign_keys = when_connected (Inr [])"

definition redis_fetch_triggers :: "'c RedisDriver \<Rightarrow> TriggerInfo list dres" where
  "redis_fetch_triggers = when_connected (Inr [])"

definition redis_supports_schemas :: bool where
  "redis_supports_schemas = False"

definition redis_supports_transactions :: bool where
  "redis_supports_transactions = False"

definition redis_begin_transaction :: "unit dres" where
  "redis_begin_transaction = Inl unsupported_transaction_error"

definition redis_commit_transaction :: "unit dres" where
  "redis_commit_transaction = Inl unsupported_transaction_error"

definition redis_rollback_transaction :: "unit dres" where
  "redis_rollback_transaction = Inl unsupported_transaction_error"

definition redis_parameter_style :: ParameterStyle where
  "redis_parameter_style = QuestionMark"

definition redis_create_database :: "unit dres" where
  "redis_create_database = Inl (fixed_database_pool_error ''create'')"

definition redis_drop_database :: "unit dres" where
  "redis_drop_database = Inl (fixed_database_pool_error ''drop'')"

text \<open>The schemas, the timeout and the version are the trait's.\<close>

definition redis_driver ::
  "lib \<Rightarrow> ('cl, 'c, 's) redis_env \<Rightarrow> nat \<times> nat \<Rightarrow> nat \<Rightarrow> ('c RedisDriver \<times> 's) database_driver" where
  "redis_driver L E elapsed fuel = \<lparr>
     dd_connect = (\<lambda>w. redis_connect L E (fst w) (snd w)),
     dd_disconnect = (\<lambda>w. let (r, d) = redis_disconnect (fst w) in (r, (d, snd w))), dd_ping = at_redis (redis_ping E),
     dd_execute = (\<lambda>q. at_redis (redis_execute L E elapsed q)),
     dd_execute_parameterized = (\<lambda>q ps. at_redis (redis_execute_parameterized_m L E elapsed q ps)),
     dd_execute_user_query = (\<lambda>q cap ps. at_redis (redis_user_query L E elapsed q cap ps)),
     dd_fetch_tables = (\<lambda>_. of_redis redis_tables), dd_fetch_columns = (\<lambda>t _. of_redis (redis_fetch_columns L t)),
     dd_fetch_indexes = (\<lambda>_ _. of_redis redis_fetch_indexes), dd_fetch_foreign_keys = (\<lambda>_ _. of_redis redis_fetch_foreign_keys),
     dd_fetch_triggers = (\<lambda>_ _. of_redis redis_fetch_triggers), dd_fetch_table_ddl = (\<lambda>_ _. of_redis redis_fetch_table_ddl),
     dd_fetch_view_definition = (\<lambda>_ _. of_redis redis_fetch_view_definition),
     dd_fetch_table_metadata = (\<lambda>t _. of_redis (redis_fetch_table_metadata L t)),
     dd_fetch_databases = at_redis (redis_fetch_databases E),
     dd_fetch_database_metadata = (\<lambda>n. of_redis (redis_fetch_database_metadata n)), dd_supports_schemas = redis_supports_schemas,
     dd_fetch_schemas = op_lift default_fetch_schemas, dd_switch_schema = (\<lambda>n. op_lift (default_switch_schema n)),
     dd_current_schema = (\<lambda>_. None), dd_supports_transactions = redis_supports_transactions,
     dd_begin_transaction = op_lift redis_begin_transaction, dd_commit_transaction = op_lift redis_commit_transaction,
     dd_rollback_transaction = op_lift redis_rollback_transaction,
     dd_cancel_query = at_redis (redis_cancel_task L E),
     dd_apply_query_timeout = (\<lambda>n. op_lift (default_apply_query_timeout n)), dd_keepalive_posture = redis_keepalive,
     dd_server_version = (\<lambda>_. None), dd_parameter_style = redis_parameter_style,
     dd_create_database = (\<lambda>_. op_lift redis_create_database), dd_drop_database = (\<lambda>_. op_lift redis_drop_database),
     dd_switch_database = (\<lambda>n w. redis_switch_database L E n (fst w) (snd w)),
     dd_stream_rows = (\<lambda>q w. let (out, r, s1) = redis_stream_rows L E fuel q (fst w) (snd w) in ((out, r), (fst w, s1))) \<rparr>"

section \<open>Calls and their replies\<close>

text \<open>A call of the trait, and its reply without the value: for a stream, whether anything was yielded.\<close>

datatype trait_call =
    Ping
  | Execute string
  | ExecuteParameterized string "CellValue list"
  | ExecuteUserQuery string "nat option" "CellValue list option"
  | FetchTables "string option"
  | FetchColumns string "string option"
  | FetchIndexes string "string option"
  | FetchForeignKeys string "string option"
  | FetchTriggers string "string option"
  | FetchTableDdl string "string option"
  | FetchViewDefinition string "string option"
  | FetchTableMetadata string "string option"
  | FetchDatabases
  | FetchDatabaseMetadata string
  | FetchSchemas
  | SwitchSchema string
  | BeginTransaction
  | CommitTransaction
  | RollbackTransaction
  | CancelQuery
  | CreateDatabase CreateDatabaseRequest
  | DropDatabase string
  | StreamRows string

abbreviation only_reply :: "('d, 'a) op \<Rightarrow> ('d, unit) op" where
  "only_reply m \<equiv> op_map (\<lambda>_. ()) m"

definition stream_reply :: "(StreamElement list \<times> unit dres option) \<times> 'd \<Rightarrow> unit dres \<times> 'd" where
  "stream_reply p = (case p of ((out, r), d) \<Rightarrow>
     (if out = [] then (case r of Some x \<Rightarrow> x | None \<Rightarrow> Inr ()) else Inr (), d))"

fun ask :: "'d database_driver \<Rightarrow> trait_call \<Rightarrow> 'd \<Rightarrow> unit dres \<times> 'd" where
  "ask T Ping d = dd_ping T d"
| "ask T (Execute q) d = only_reply (dd_execute T q) d"
| "ask T (ExecuteParameterized q ps) d = only_reply (dd_execute_parameterized T q ps) d"
| "ask T (ExecuteUserQuery q cap ps) d = only_reply (dd_execute_user_query T q cap ps) d"
| "ask T (FetchTables sc) d = only_reply (dd_fetch_tables T sc) d"
| "ask T (FetchColumns t sc) d = only_reply (dd_fetch_columns T t sc) d"
| "ask T (FetchIndexes t sc) d = only_reply (dd_fetch_indexes T t sc) d"
| "ask T (FetchForeignKeys t sc) d = only_reply (dd_fetch_foreign_keys T t sc) d"
| "ask T (FetchTriggers t sc) d = only_reply (dd_fetch_triggers T t sc) d"
| "ask T (FetchTableDdl t sc) d = only_reply (dd_fetch_table_ddl T t sc) d"
| "ask T (FetchViewDefinition t sc) d = only_reply (dd_fetch_view_definition T t sc) d"
| "ask T (FetchTableMetadata t sc) d = only_reply (dd_fetch_table_metadata T t sc) d"
| "ask T FetchDatabases d = only_reply (dd_fetch_databases T) d"
| "ask T (FetchDatabaseMetadata n) d = only_reply (dd_fetch_database_metadata T n) d"
| "ask T FetchSchemas d = only_reply (dd_fetch_schemas T) d"
| "ask T (SwitchSchema n) d = dd_switch_schema T n d"
| "ask T BeginTransaction d = dd_begin_transaction T d"
| "ask T CommitTransaction d = dd_commit_transaction T d"
| "ask T RollbackTransaction d = dd_rollback_transaction T d"
| "ask T CancelQuery d = dd_cancel_query T d"
| "ask T (CreateDatabase r) d = dd_create_database T r d"
| "ask T (DropDatabase n) d = dd_drop_database T n d"
| "ask T (StreamRows q) d = stream_reply (dd_stream_rows T q d)"

text \<open>The calls a driver may answer without a server, and those of a transaction.\<close>

fun answered_alone :: "trait_call \<Rightarrow> bool" where
  "answered_alone (FetchForeignKeys t sc) = True"
| "answered_alone (FetchTriggers t sc) = True"
| "answered_alone FetchSchemas = True"
| "answered_alone CancelQuery = True"
| "answered_alone c = False"

fun transactional :: "trait_call \<Rightarrow> bool" where
  "transactional BeginTransaction = True"
| "transactional CommitTransaction = True"
| "transactional RollbackTransaction = True"
| "transactional c = False"

section \<open>The life of a driver\<close>

datatype action = Connect | Disconnect | SwitchDatabase string | SetTimeout nat | Ask trait_call

fun act :: "'d database_driver \<Rightarrow> action \<Rightarrow> 'd \<Rightarrow> unit dres \<times> 'd" where
  "act T Connect d = dd_connect T d"
| "act T Disconnect d = dd_disconnect T d"
| "act T (SwitchDatabase n) d = dd_switch_database T n d"
| "act T (SetTimeout n) d = dd_apply_query_timeout T n d"
| "act T (Ask c) d = ask T c d"

text \<open>What is seen of a driver: every action with its reply, whether it left everything as it was, the
  driver object and what its server has seen, and whether it left at least the \<open>core\<close> as it was.\<close>

fun seen :: "'d database_driver \<Rightarrow> ('d \<Rightarrow> 'x) \<Rightarrow> action list \<Rightarrow> 'd \<Rightarrow> (action \<times> unit dres \<times> bool \<times> bool) list" where
  "seen T core [] d = []"
| "seen T core (a # as) d = (let (r, d1) = act T a d in (a, r, d1 = d, core d1 = core d) # seen T core as d1)"

text \<open>The specification: an automaton that is open or closed.\<close>

fun lifecycle :: "bool \<Rightarrow> bool \<Rightarrow> (action \<times> unit dres \<times> bool \<times> bool) list \<Rightarrow> bool" where
  "lifecycle tx is_open [] = True"
| "lifecycle tx is_open ((Connect, r, same, alike) # xs) = lifecycle tx (is_open \<or> r = Inr ()) xs"
| "lifecycle tx is_open ((SwitchDatabase n, r, same, alike) # xs) = lifecycle tx (is_open \<or> r = Inr ()) xs"
| "lifecycle tx is_open ((Disconnect, r, same, alike) # xs) = (r = Inr () \<and> lifecycle tx False xs)"
| "lifecycle tx is_open ((SetTimeout n, r, same, alike) # xs) = ((\<not> is_open \<longrightarrow> alike) \<and> lifecycle tx is_open xs)"
| "lifecycle tx is_open ((Ask c, r, same, alike) # xs) =
     ((\<not> is_open \<longrightarrow> same \<and> (r = Inr () \<longrightarrow> answered_alone c))
      \<and> (transactional c \<and> \<not> tx \<longrightarrow> same \<and> r \<noteq> Inr ()) \<and> lifecycle tx is_open xs)"

text \<open>\<open>settled\<close> is an invariant of the driver: closed, it holds nothing of a session it had. \<open>core\<close> is
  the driver and its server apart from the stored time limit.\<close>

locale driver_lifecycle =
  fixes T :: "'d database_driver" and is_open :: "'d \<Rightarrow> bool" and settled :: "'d \<Rightarrow> bool" and core :: "'d \<Rightarrow> 'x"
  assumes connect_opens: "is_open (snd (dd_connect T d)) \<longleftrightarrow> is_open d \<or> fst (dd_connect T d) = Inr ()"
    and switch_opens: "is_open (snd (dd_switch_database T n d)) \<longleftrightarrow> is_open d \<or> fst (dd_switch_database T n d) = Inr ()"
    and disconnect_closes: "fst (dd_disconnect T d) = Inr ()" "\<not> is_open (snd (dd_disconnect T d))"
    and timeout_steady: "is_open (snd (dd_apply_query_timeout T secs d)) = is_open d"
    and timeout_local: "\<not> is_open d \<Longrightarrow> core (snd (dd_apply_query_timeout T secs d)) = core d"
    and call_steady: "is_open (snd (ask T c d)) = is_open d"
    and settled_kept: "settled d \<Longrightarrow> settled (snd (act T a d))"
    and closed_silent: "settled d \<Longrightarrow> \<not> is_open d \<Longrightarrow> snd (ask T c d) = d \<and> (fst (ask T c d) = Inr () \<longrightarrow> answered_alone c)"
    and no_transactions: "\<not> dd_supports_transactions T \<Longrightarrow> transactional c \<Longrightarrow> snd (ask T c d) = d \<and> fst (ask T c d) \<noteq> Inr ()"
begin

lemma keeps_lifecycle: "settled d \<Longrightarrow> lifecycle (dd_supports_transactions T) (is_open d) (seen T core as d)"
proof (induction "as" arbitrary: d)
  case Nil
  show ?case by simp
next
  case (Cons a "as")
  obtain r d1 where r: "act T a d = (r, d1)" by (rule prod.exhaust)
  have "settled d1" using settled_kept [OF Cons.prems, of a] r by simp
  then have IH: "lifecycle (dd_supports_transactions T) (is_open d1) (seen T core as d1)" by (rule Cons.IH)
  show ?case
  proof (cases a)
    case Connect
    then show ?thesis using r IH connect_opens [of d] by simp
  next
    case Disconnect
    then show ?thesis using r IH disconnect_closes [of d] by simp
  next
    case (SwitchDatabase n)
    then show ?thesis using r IH switch_opens [of n d] by simp
  next
    case (SetTimeout n)
    then show ?thesis using r IH timeout_steady [of n d] timeout_local [of d n] by simp
  next
    case (Ask c)
    then show ?thesis
      using r IH call_steady [of c d] closed_silent [OF Cons.prems, of c] no_transactions [of c d] by auto
  qed
qed

lemma new_keeps_lifecycle:
  "settled d \<Longrightarrow> \<not> is_open d \<Longrightarrow> lifecycle (dd_supports_transactions T) False (seen T core as d)"
  using keeps_lifecycle [of d "as"] by simp

end

section \<open>Postgres keeps the lifecycle\<close>

definition pg_open :: "('cn, 'tok, 's) pg_world \<Rightarrow> bool" where
  "pg_open w \<longleftrightarrow> pd_client (fst w) \<noteq> None"

definition pg_settled :: "('cn, 'tok, 's) pg_world \<Rightarrow> bool" where
  "pg_settled w \<longleftrightarrow> pg_open w \<or> pd_cancel_token (fst w) = None"

lemma fst_with_session [simp]: "fst (snd (with_session f w)) = fst w"
  by (simp add: with_session_def pair_simps split: option.split)

lemma with_session_closed [simp]: "\<not> pg_open w \<Longrightarrow> with_session f w = (Inl pg_not_connected, w)"
  by (simp add: with_session_def pg_open_def)

lemma fst_in_schema [simp]: "fst (snd (in_schema schema f w)) = fst w"
  by (simp add: in_schema_def)

lemma in_schema_closed [simp]: "\<not> pg_open w \<Longrightarrow> in_schema schema f w = (Inl pg_not_connected, w)"
  by (simp add: in_schema_def)

lemma reply_simps [simp]: "snd (op_map f m w) = snd (m w)" "fst (op_map f m w) = res_map f (fst (m w))"
  by (simp_all add: op_map_def pair_simps)

lemma drv_unit_simps [simp]: "snd (drv_unit p) = snd p" "fst (drv_unit p) = res_map (\<lambda>_. ()) (fst p)"
  by (simp_all add: drv_unit_def)

lemma pg_switch_schema_eq:
  "pg_open (snd (pg_switch_schema E n w)) = pg_open w" "pg_settled (snd (pg_switch_schema E n w)) = pg_settled w"
  "\<not> pg_open w \<Longrightarrow> pg_switch_schema E n w = (Inl pg_not_connected, w)"
proof -
  obtain r w1 where r: "with_session (\<lambda>cn. pg_run_sql E cn (search_path_sql n)) w = (r, w1)" by (rule prod.exhaust)
  then have "fst w1 = fst w" using fst_with_session [of "\<lambda>cn. pg_run_sql E cn (search_path_sql n)" w] by simp
  then show "pg_open (snd (pg_switch_schema E n w)) = pg_open w" "pg_settled (snd (pg_switch_schema E n w)) = pg_settled w"
    using r by (cases r, simp_all add: pg_switch_schema_def op_bind_def pg_open_def pg_settled_def)+
  show "\<not> pg_open w \<Longrightarrow> pg_switch_schema E n w = (Inl pg_not_connected, w)"
    by (simp add: pg_switch_schema_def op_bind_def)
qed

lemma pg_open_same [simp]:
  "pg_open (snd (with_session f w)) = pg_open w" "pg_open (snd (in_schema schema g w)) = pg_open w"
  "pg_settled (snd (with_session f w)) = pg_settled w" "pg_settled (snd (in_schema schema g w)) = pg_settled w"
  by (simp_all add: pg_open_def pg_settled_def)

lemma pg_cancel_eq:
  "fst (snd (pg_cancel_task E w)) = fst w"
  "pg_open (snd (pg_cancel_task E w)) = pg_open w" "pg_settled (snd (pg_cancel_task E w)) = pg_settled w"
  "pg_settled w \<Longrightarrow> \<not> pg_open w \<Longrightarrow> pg_cancel_task E w = (Inl pg_not_connected, w)"
  by (simp_all add: pg_cancel_task_def pg_open_def pg_settled_def pg_cancel_query_def split: sum.split prod.split)

lemma pg_stream_eq:
  "pg_open (snd (pg_stream_rows L E q w)) = pg_open w" "pg_settled (snd (pg_stream_rows L E q w)) = pg_settled w"
  "\<not> pg_open w \<Longrightarrow> pg_stream_rows L E q w = (([], Inl pg_not_connected), w)"
  by (auto simp: pg_stream_rows_def pg_open_def pg_settled_def split: option.split prod.split)

lemma stream_reply_ended: "snd (stream_reply (ended_stream p)) = snd p"
  "fst (stream_reply (ended_stream (([], r), w))) = r"
  by (simp_all add: stream_reply_def ended_stream_def split: prod.split)

lemmas pg_methods = pg_execute_def pg_execute_parameterized_def pg_execute_user_query_def pg_fetch_tables_def
  pg_fetch_columns_def pg_fetch_indexes_def pg_fetch_foreign_keys_def pg_fetch_triggers_def pg_fetch_table_ddl_def
  pg_fetch_view_definition_def pg_fetch_table_metadata_def pg_fetch_databases_def pg_fetch_database_metadata_def
  pg_fetch_schemas_def pg_apply_query_timeout_def pg_create_database_def pg_drop_database_def

lemma pg_open_session:
  "pg_open (snd (open_session E c w)) \<longleftrightarrow> pg_open w \<or> fst (open_session E c w) = Inr ()"
  "pg_settled w \<Longrightarrow> pg_settled (snd (open_session E c w))"
  by (auto simp: open_session_def refresh_session_caches_def pg_open_def pg_settled_def split: prod.split sum.split)

lemmas pg_trait = postgres_driver_def pg_methods default_ping_def default_begin_transaction_def
  default_commit_transaction_def default_rollback_transaction_def pg_core_def pg_switch_schema_eq stream_reply_ended
  pg_stream_eq pg_cancel_eq

interpretation pg_life: driver_lifecycle "postgres_driver L E elapsed" pg_open pg_settled id
proof
  fix d :: "('a, 'b, 'e) pg_world" and n secs c a
  let ?T = "postgres_driver L E elapsed"
  show "pg_open (snd (dd_connect ?T d)) \<longleftrightarrow> pg_open d \<or> fst (dd_connect ?T d) = Inr ()"
    by (simp add: postgres_driver_def pg_connect_def pg_open_session)
  show "pg_open (snd (dd_switch_database ?T n d)) \<longleftrightarrow> pg_open d \<or> fst (dd_switch_database ?T n d) = Inr ()"
    by (simp add: postgres_driver_def pg_switch_database_def pg_open_session)
  show "fst (dd_disconnect ?T d) = Inr ()" "\<not> pg_open (snd (dd_disconnect ?T d))"
    by (simp_all add: postgres_driver_def pg_disconnect_def pg_open_def)
  show "pg_open (snd (dd_apply_query_timeout ?T secs d)) = pg_open d"
    by (simp add: postgres_driver_def pg_methods pg_open_def)
  show "\<not> pg_open d \<Longrightarrow> id (snd (dd_apply_query_timeout ?T secs d)) = id d"
    by (simp add: postgres_driver_def pg_methods)
  show steady: "pg_open (snd (ask ?T c d)) = pg_open d" for c
    by (cases c) (simp_all add: pg_trait)
  have kept: "pg_settled (snd (ask ?T c d)) = pg_settled d" for c
    by (cases c) (simp_all add: pg_trait)
  show "pg_settled d \<Longrightarrow> pg_settled (snd (act ?T a d))"
    by (cases a) (simp_all add: kept, simp_all add: postgres_driver_def pg_connect_def pg_switch_database_def pg_open_session
        pg_disconnect_def pg_settled_def [of "(_, _)"] pg_apply_query_timeout_def)
  show "pg_settled d \<Longrightarrow> \<not> pg_open d \<Longrightarrow> snd (ask ?T c d) = d \<and> (fst (ask ?T c d) = Inr () \<longrightarrow> answered_alone c)"
    by (cases c) (simp_all add: pg_trait)
  show "\<not> dd_supports_transactions ?T \<Longrightarrow> transactional c \<Longrightarrow> snd (ask ?T c d) = d \<and> fst (ask ?T c d) \<noteq> Inr ()"
    by (simp add: postgres_driver_def)
qed

section \<open>ClickHouse keeps the lifecycle\<close>

definition ch_open :: "('cl, 's) ch_world \<Rightarrow> bool" where
  "ch_open w \<longleftrightarrow> cd_client (fst w) \<noteq> None"

definition ch_settled :: "('cl, 's) ch_world \<Rightarrow> bool" where
  "ch_settled w \<longleftrightarrow> ch_open w \<or> cd_cancel_context (fst w) = None"

text \<open>The driver without its stored time limit, with its server.\<close>

definition ch_unlimited :: "('cl, 's) ch_world \<Rightarrow> ('cl, 's) ch_world" where
  "ch_unlimited = on_drv (\<lambda>d. d \<lparr> cd_query_timeout := None \<rparr>)"

interpretation steady_settled: request_kept E ch_settled for E
  by unfold_locales
    (auto simp: ch_settled_def ch_open_def on_drv_def clear_active_query_id_def set_current_database_def send_request_def
      Let_def split: prod.split sum.split)

lemma ch_open_keeps: "keeps (holds_slot cd_client (cd_client (fst w))) m \<Longrightarrow> ch_open (snd (m w)) = ch_open w"
  using keepsD [of "holds_slot cd_client (cd_client (fst w))" m w] by (simp add: holds_slot_def ch_open_def)

lemma ch_stream_open: "ch_open (snd (ch_stream_rows L E q w)) = ch_open w"
  using steady_client.same_ch_stream [of "cd_client (fst w)" w L E q] by (simp add: holds_slot_def ch_open_def)

lemma ch_cancel_eq:
  "ch_open (snd (ch_cancel_task E w)) = ch_open w" "ch_settled w \<Longrightarrow> ch_settled (snd (ch_cancel_task E w))"
  "ch_settled w \<Longrightarrow> \<not> ch_open w \<Longrightarrow> ch_cancel_task E w = (Inr (), w)"
  by (auto simp: ch_cancel_task_def ch_cancel_query_def ch_open_def ch_settled_def split: option.split)

lemma with_client_closed [simp]: "\<not> ch_open w \<Longrightarrow> with_client f w = (Inl ch_not_connected, w)"
  by (simp add: with_client_def ch_open_def)

lemma in_database_closed [simp]: "\<not> ch_open w \<Longrightarrow> in_database schema f w = (Inl ch_not_connected, w)"
  by (simp add: in_database_def)

lemma ch_stream_closed: "\<not> ch_open w \<Longrightarrow> ch_stream_rows L E q w = (([], Inl ch_not_connected), w)"
  by (simp add: ch_stream_rows_def)

lemmas ch_methods = ch_execute_def ch_execute_parameterized_def ch_execute_user_query_def ch_fetch_databases_def ch_fetch_tables_def
  ch_fetch_columns_def ch_fetch_indexes_def ch_fetch_table_ddl_def ch_fetch_view_definition_def ch_fetch_table_metadata_def
  ch_fetch_database_metadata_def ch_create_database_def ch_drop_database_def ch_switch_database_def

lemma ch_connect_opens: "ch_open (snd (ch_connect E w)) \<longleftrightarrow> ch_open w \<or> fst (ch_connect E w) = Inr ()"
  by (auto simp: ch_connect_def ch_adopt_def Let_def ch_open_def split: prod.split sum.split)

lemmas ch_opens = ch_open_keeps [OF steady_client.same_methods(1)] ch_open_keeps [OF steady_client.same_methods(2)]
  ch_open_keeps [OF steady_client.same_methods(3)] ch_open_keeps [OF steady_client.same_methods(4)]
  ch_open_keeps [OF steady_client.same_methods(5)] ch_open_keeps [OF steady_client.same_methods(6)]
  ch_open_keeps [OF steady_client.same_methods(7)] ch_open_keeps [OF steady_client.same_methods(8)]
  ch_open_keeps [OF steady_client.same_methods(9)] ch_open_keeps [OF steady_client.same_methods(10)]
  ch_open_keeps [OF steady_client.same_methods(11)] ch_open_keeps [OF steady_client.same_methods(12)]
  ch_open_keeps [OF steady_client.same_methods(13)] ch_open_keeps [OF steady_client.same_methods(14)] ch_stream_open

interpretation ch_life: driver_lifecycle "clickhouse_driver L E elapsed" ch_open ch_settled ch_unlimited
proof
  fix d :: "('a, 'b) ch_world" and n secs c a
  let ?T = "clickhouse_driver L E elapsed"
  show "ch_open (snd (dd_connect ?T d)) \<longleftrightarrow> ch_open d \<or> fst (dd_connect ?T d) = Inr ()"
    by (simp add: clickhouse_driver_def ch_connect_opens)
  have "\<not> ch_open d \<Longrightarrow> fst (ch_switch_database L E n d) \<noteq> Inr ()" by (simp add: ch_switch_database_def)
  then show "ch_open (snd (dd_switch_database ?T n d)) \<longleftrightarrow> ch_open d \<or> fst (dd_switch_database ?T n d) = Inr ()"
    by (auto simp: clickhouse_driver_def ch_opens)
  show "fst (dd_disconnect ?T d) = Inr ()" "\<not> ch_open (snd (dd_disconnect ?T d))"
    by (simp_all add: clickhouse_driver_def ch_disconnect_def on_drv_def set_current_database_def ch_open_def)
  show "ch_open (snd (dd_apply_query_timeout ?T secs d)) = ch_open d"
    by (simp add: clickhouse_driver_def ch_apply_query_timeout_def on_drv_def ch_open_def)
  show "\<not> ch_open d \<Longrightarrow> ch_unlimited (snd (dd_apply_query_timeout ?T secs d)) = ch_unlimited d"
    by (simp add: clickhouse_driver_def ch_apply_query_timeout_def on_drv_def ch_unlimited_def)
  show "ch_open (snd (ask ?T c d)) = ch_open d"
    by (cases c) (simp_all add: clickhouse_driver_def default_ping_def ch_core_def stream_reply_ended ch_opens ch_cancel_eq
        ch_fetch_foreign_keys_def)
  have kept: "ch_settled d \<Longrightarrow> ch_settled (snd (ask ?T c d))" for c
    by (cases c) (simp_all add: clickhouse_driver_def default_ping_def ch_core_def stream_reply_ended ch_cancel_eq
        ch_fetch_foreign_keys_def steady_settled.same_ch_stream keepsD [OF steady_settled.same_methods(1)]
        keepsD [OF steady_settled.same_methods(2)] keepsD [OF steady_settled.same_methods(3)] keepsD [OF steady_settled.same_methods(4)]
        keepsD [OF steady_settled.same_methods(5)] keepsD [OF steady_settled.same_methods(7)] keepsD [OF steady_settled.same_methods(8)]
        keepsD [OF steady_settled.same_methods(9)] keepsD [OF steady_settled.same_methods(10)] keepsD [OF steady_settled.same_methods(11)]
        keepsD [OF steady_settled.same_methods(12)] keepsD [OF steady_settled.same_methods(13)] keepsD [OF steady_settled.same_methods(14)])
  show "ch_settled d \<Longrightarrow> ch_settled (snd (act ?T a d))"
  proof (cases a)
    case Connect
    moreover assume "ch_settled d"
    ultimately show ?thesis
      by (simp add: clickhouse_driver_def ch_connect_def ch_adopt_def Let_def ch_settled_def ch_open_def split: prod.split sum.split)
  next
    case Disconnect
    then show ?thesis
      by (simp add: clickhouse_driver_def ch_disconnect_def on_drv_def set_current_database_def ch_settled_def)
  next
    case (SwitchDatabase n)
    moreover assume "ch_settled d"
    ultimately show ?thesis using keepsD [OF steady_settled.same_methods(6)] by (simp add: clickhouse_driver_def)
  next
    case (SetTimeout n)
    moreover assume "ch_settled d"
    ultimately show ?thesis
      by (simp add: clickhouse_driver_def ch_apply_query_timeout_def on_drv_def ch_settled_def ch_open_def)
  qed (simp add: kept)
  show "ch_settled d \<Longrightarrow> \<not> ch_open d \<Longrightarrow> snd (ask ?T c d) = d \<and> (fst (ask ?T c d) = Inr () \<longrightarrow> answered_alone c)"
    by (cases c) (simp_all add: clickhouse_driver_def ch_methods default_ping_def ch_core_def stream_reply_ended ch_stream_closed
        ch_cancel_eq ch_fetch_foreign_keys_def default_switch_schema_def ch_begin_transaction_def ch_commit_transaction_def
        ch_rollback_transaction_def)
  show "\<not> dd_supports_transactions ?T \<Longrightarrow> transactional c \<Longrightarrow> snd (ask ?T c d) = d \<and> fst (ask ?T c d) \<noteq> Inr ()"
    by (cases c) (simp_all add: clickhouse_driver_def ch_begin_transaction_def ch_commit_transaction_def ch_rollback_transaction_def)
qed

section \<open>Redis keeps the lifecycle\<close>

definition redis_open :: "'c RedisDriver \<times> 's \<Rightarrow> bool" where
  "redis_open w \<longleftrightarrow> rd_connection (fst w) \<noteq> None"

definition redis_settled :: "'c RedisDriver \<times> 's \<Rightarrow> bool" where
  "redis_settled w \<longleftrightarrow> redis_open w \<or> rd_client_id (fst w) = None"

lemma redis_shapes [simp]:
  "snd (of_redis f w) = w" "fst (of_redis f w) = f (fst w)" "fst (snd (at_redis g w)) = fst w"
  by (simp_all add: of_redis_def at_redis_def pair_simps)

lemma redis_closed:
  "\<not> redis_open w \<Longrightarrow> rd_manager (fst w) = Inl not_connected_error"
  "\<not> redis_open w \<Longrightarrow> with_redis (fst w) f s = (Inl not_connected_error, s)"
  by (simp_all add: redis_open_def rd_manager_def with_redis_def)

lemma at_redis_closed: "g (fst w) (snd w) = (x, snd w) \<Longrightarrow> at_redis g w = (x, w)"
  by (simp add: at_redis_def)

lemma redis_stream_eq:
  "\<not> redis_open w \<Longrightarrow> \<exists>e. redis_stream_rows L E fuel q (fst w) s = ([], Some (Inl e), s)"
  by (auto simp: redis_stream_rows_def redis_closed split: sum.split)

lemmas redis_methods = redis_ping_def redis_execute_def redis_execute_parameterized_m_def redis_user_query_def redis_fetch_databases_def
  redis_tables_def redis_fetch_columns_def redis_fetch_indexes_def redis_fetch_foreign_keys_def redis_fetch_triggers_def
  redis_fetch_table_ddl_def redis_fetch_view_definition_def redis_fetch_table_metadata_def redis_fetch_database_metadata_def
  when_connected_def redis_begin_transaction_def redis_commit_transaction_def redis_rollback_transaction_def
  redis_create_database_def redis_drop_database_def default_switch_schema_def

lemma redis_opens:
  "redis_open (snd (redis_connect L E d s)) \<longleftrightarrow> rd_connection d \<noteq> None \<or> fst (redis_connect L E d s) = Inr ()"
  "redis_open (snd (redis_switch_database L E n d s)) \<longleftrightarrow> rd_connection d \<noteq> None \<or> fst (redis_switch_database L E n d s) = Inr ()"
  "redis_settled (d, s) \<Longrightarrow> redis_settled (snd (redis_connect L E d s))"
  "redis_settled (d, s) \<Longrightarrow> redis_settled (snd (redis_switch_database L E n d s))"
  by (auto simp: redis_connect_def redis_switch_database_def adopt_def redis_open_def redis_settled_def split: prod.split sum.split)

lemma redis_cancel_closed:
  "redis_settled w \<Longrightarrow> \<not> redis_open w \<Longrightarrow> redis_cancel_task L E (fst w) s = (Inl not_connected_error, s)"
  by (simp add: redis_cancel_task_def redis_cancel_query_def redis_settled_def)

interpretation redis_life: driver_lifecycle "redis_driver L E elapsed fuel" redis_open redis_settled id
proof
  fix d :: "'b RedisDriver \<times> 'c" and n secs c a
  let ?T = "redis_driver L E elapsed fuel"
  show "redis_open (snd (dd_connect ?T d)) \<longleftrightarrow> redis_open d \<or> fst (dd_connect ?T d) = Inr ()"
    by (simp add: redis_driver_def redis_opens redis_open_def [of d])
  show "redis_open (snd (dd_switch_database ?T n d)) \<longleftrightarrow> redis_open d \<or> fst (dd_switch_database ?T n d) = Inr ()"
    by (simp add: redis_driver_def redis_opens redis_open_def [of d])
  show "fst (dd_disconnect ?T d) = Inr ()" "\<not> redis_open (snd (dd_disconnect ?T d))"
    by (simp_all add: redis_driver_def redis_disconnect_def redis_open_def)
  show "redis_open (snd (dd_apply_query_timeout ?T secs d)) = redis_open d"
    "\<not> redis_open d \<Longrightarrow> id (snd (dd_apply_query_timeout ?T secs d)) = id d"
    by (simp_all add: redis_driver_def)
  have same: "fst (snd (ask ?T c d)) = fst d" for c
    by (cases c) (simp_all add: redis_driver_def stream_reply_def pair_simps)
  show "redis_open (snd (ask ?T c d)) = redis_open d" by (simp add: redis_open_def same)
  show "redis_settled d \<Longrightarrow> redis_settled (snd (act ?T a d))"
  proof (cases a)
    case Disconnect
    then show ?thesis by (simp add: redis_driver_def redis_disconnect_def redis_settled_def)
  next
    case (Ask c)
    moreover assume "redis_settled d"
    ultimately show ?thesis by (simp add: redis_settled_def redis_open_def same)
  qed (simp_all add: redis_driver_def redis_opens)
  show "redis_settled d \<Longrightarrow> \<not> redis_open d \<Longrightarrow> snd (ask ?T c d) = d \<and> (fst (ask ?T c d) = Inr () \<longrightarrow> answered_alone c)"
  proof (cases c)
    case (StreamRows q)
    moreover assume "\<not> redis_open d"
    ultimately show ?thesis using redis_stream_eq [of d L E fuel q "snd d"]
      by (auto simp: redis_driver_def stream_reply_def)
  qed (simp_all add: redis_driver_def redis_methods redis_closed at_redis_closed redis_cancel_closed)
  show "\<not> dd_supports_transactions ?T \<Longrightarrow> transactional c \<Longrightarrow> snd (ask ?T c d) = d \<and> fst (ask ?T c d) \<noteq> Inr ()"
    by (cases c) (simp_all add: redis_driver_def redis_methods)
qed

lemma new_settled:
  "pg_settled (pg_new c, s)" "ch_settled (ch_new c, h)" "redis_settled (redis_driver_new c, r)"
  "\<not> pg_open (pg_new c, s)" "\<not> ch_open (ch_new c, h)" "\<not> redis_open (redis_driver_new c, r)"
  by (simp_all add: pg_settled_def ch_settled_def redis_settled_def pg_open_def ch_open_def redis_open_def
      pg_new_def ch_new_def redis_driver_new_def)

section \<open>Properties\<close>

text \<open>C12. The drivers keep the life of the trait. Whatever is done with a new Postgres, ClickHouse or Redis
  driver, in any order and whatever the server answers: it is opened only by a connect or a switch of
  the database that succeeds and closed by a disconnect, which always succeeds. While it is closed, no
  call of the trait, a cancel included, changes anything or reaches a server, only what needs none is
  answered, and setting the time limit changes nothing but the limit a ClickHouse driver stores. And
  where transactions are not supported, they are refused without a trace. (A connect and a switch of
  the database reach the server by their nature, and are not bound in what else they do.)\<close>

theorem drivers_keep_lifecycle:
  "lifecycle True False (seen (postgres_driver L P elapsed) id actions (pg_new c, s))
   \<and> lifecycle False False (seen (clickhouse_driver L C elapsed) ch_unlimited actions (ch_new c, h))
   \<and> lifecycle False False (seen (redis_driver L R elapsed fuel) id actions (redis_driver_new c, r))"
  using pg_life.new_keeps_lifecycle [OF new_settled(1,4), of L P elapsed actions]
    ch_life.new_keeps_lifecycle [OF new_settled(2,5), of L C elapsed actions]
    redis_life.new_keeps_lifecycle [OF new_settled(3,6), of L R elapsed fuel actions]
  by (simp add: postgres_driver_def clickhouse_driver_def redis_driver_def ch_supports_transactions_def redis_supports_transactions_def)

end
