(* ===== verification/Drivers.thy ===== *)
theory Drivers
  imports Main Prelude Lib Core Registry McpServer Profiles Manager Tools Export Server Effects
    RedisDriver ClickhouseDriver ClickhouseSteady PostgresDriver DriverTrait
begin

text \<open>
  The three drivers behind the one interface of the manager and the tools, as \<open>main.rs\<close> registers
  them. The locale \<open>driver_contract\<close> says what it takes for a property of driver objects to survive
  whatever a client of the server does: every method the manager and the tools call keeps it. It is
  interpreted on the real drivers, for the property that a connection configured read-only has only
  ever asked its server for what a read-only connection may ask.
\<close>

section \<open>The contract\<close>

text \<open>What holds of every driver object that a connection of the manager ever had, and of every new one its
  factories make; and the tools that keep it.\<close>

definition open_drivers :: "('d \<Rightarrow> bool) \<Rightarrow> 'd manager \<Rightarrow> bool" where
  "open_drivers ok m \<longleftrightarrow> (\<forall>h. pred_option ok (mg_drivers m h))"

definition drivers_all :: "('d \<Rightarrow> bool) \<Rightarrow> ('d \<Rightarrow> bool) \<Rightarrow> 'd manager \<Rightarrow> bool" where
  "drivers_all fresh ok m \<longleftrightarrow> open_drivers ok m \<and> (\<forall>ty c. pred_option (\<lambda>f. fresh (f c)) (map_of (mg_factories m) ty))"

definition tools_keep :: "('d \<Rightarrow> bool) \<Rightarrow> ('d \<Rightarrow> bool) \<Rightarrow> ('d, 's) world McpSession \<Rightarrow> bool" where
  "tools_keep fresh ok s \<longleftrightarrow> (\<forall>n t args w. map_of (ms_registry s) n = Some t \<longrightarrow> drivers_all fresh ok (w_manager w)
     \<longrightarrow> drivers_all fresh ok (w_manager (snd (tool_run t args w))))"

locale driver_contract =
  fixes D :: "'d driver_ops" and fresh :: "'d \<Rightarrow> bool" and ok :: "'d \<Rightarrow> bool"
  assumes opened: "fresh d \<Longrightarrow> do_connect D d = (Inr (), d1) \<Longrightarrow> ok (snd (do_apply_query_timeout D SERVER_SECS d1))"
    and disconnect_keeps: "ok d \<Longrightarrow> ok (snd (do_disconnect D d))"
    and query_keeps: "ok d \<Longrightarrow> ok (snd (do_execute_user_query D q cap ps d))"
    and cancel_keeps: "ok d \<Longrightarrow> ok (snd (do_cancel_query D d))"
    and tables_keeps: "ok d \<Longrightarrow> ok (snd (do_fetch_tables D sc d))"
    and metadata_keeps: "ok d \<Longrightarrow> ok (snd (do_fetch_table_metadata D t sc d))"
    and databases_keeps: "ok d \<Longrightarrow> ok (snd (do_fetch_databases D d))"
    and schemas_keeps: "ok d \<Longrightarrow> ok (snd (do_fetch_schemas D d))"
begin

lemma on_driver_keeps:
  assumes "drivers_all fresh ok m" "\<And>d. ok d \<Longrightarrow> ok (snd (f d))"
  shows "drivers_all fresh ok (snd (on_driver h f m))"
proof (cases "mg_drivers m h")
  case None
  then show ?thesis using assms by (simp add: on_driver_def)
next
  case (Some d)
  then have "ok d" using assms(1) unfolding drivers_all_def open_drivers_def by (metis option.pred_inject(2))
  then show ?thesis using assms Some by (simp add: on_driver_def pair_simps drivers_all_def open_drivers_def)
qed

lemma drivers_all_fields:
  "drivers_all fresh ok m \<Longrightarrow> mg_drivers m' = mg_drivers m \<Longrightarrow> mg_factories m' = mg_factories m \<Longrightarrow> drivers_all fresh ok m'"
  by (simp add: drivers_all_def open_drivers_def)

lemma finish_connect_keeps: "drivers_all fresh ok m \<Longrightarrow> drivers_all fresh ok (snd (finish_connect D token h m))"
proof -
  assume m: "drivers_all fresh ok m"
  have k: "drivers_all fresh ok (snd (on_driver p (do_disconnect D) (m \<lparr> mg_sessions := ss \<rparr>)))" for p ss
    by (rule on_driver_keeps) (use m in \<open>simp_all add: drivers_all_def open_drivers_def disconnect_keeps\<close>)
  have s: "drivers_all fresh ok (m \<lparr> mg_sessions := ss \<rparr>)" for ss
    using m by (simp add: drivers_all_def open_drivers_def)
  show ?thesis using k s by (simp add: finish_connect_def pair_simps split: sum.split option.split)
qed

lemma manager_connect_keeps:
  assumes m: "drivers_all fresh ok m"
  shows "drivers_all fresh ok (snd (manager_connect D ty config m))"
proof (cases "map_of (mg_factories m) ty")
  case None
  then show ?thesis using m by (simp add: manager_connect_def)
next
  case (Some f)
  have f: "pred_option (\<lambda>f. fresh (f config)) (Some f)" using m Some unfolding drivers_all_def by metis
  let ?c = "mg_uuids m (mg_minted m)"
  obtain token gs where t: "begin_attempt ?c (mg_attempts m) = (token, gs)" by (rule prod.exhaust)
  obtain res d1 where d: "do_connect D (f config) = (res, d1)" by (rule prod.exhaust)
  let ?d2 = "snd (do_apply_query_timeout D SERVER_SECS d1)"
  define m1 where "m1 = m \<lparr> mg_attempts := gs, mg_minted := Suc (mg_minted m), mg_next := Suc (mg_next m) \<rparr>"
  show ?thesis
  proof (cases res)
    case (Inl e)
    then have "snd (manager_connect D ty config m) = m1 \<lparr> mg_attempts := invalidate ?c gs \<rparr>"
      using Some t d by (simp add: manager_connect_def m1_def)
    then show ?thesis using m by (simp add: m1_def drivers_all_def open_drivers_def)
  next
    case (Inr u)
    define m2 where "m2 = m1 \<lparr> mg_drivers := (mg_drivers m1)(mg_next m \<mapsto> ?d2) \<rparr>"
    have "ok ?d2" using opened [of "f config" d1] f d Inr by simp
    then have "drivers_all fresh ok m2" using m by (simp add: m2_def m1_def drivers_all_def open_drivers_def)
    moreover obtain r m3 where fin: "finish_connect D token (mg_next m) m2 = (r, m3)" by (rule prod.exhaust)
    ultimately have m3: "drivers_all fresh ok m3" using finish_connect_keeps [of m2 token "mg_next m"] by simp
    have "manager_connect D ty config m = (case r of Inl e \<Rightarrow> (Inl e, m3) | Inr _ \<Rightarrow>
        (Inr ?c, m3 \<lparr> mg_entries := bt_insert ?c
           \<lparr> ce_driver = mg_next m, ce_database_type = ty, ce_connected_at = nat (mg_clock m3) \<rparr> (mg_entries m3) \<rparr>))"
      using Some t d Inr fin by (simp add: manager_connect_def m1_def m2_def pair_simps split: sum.split)
    then show ?thesis using m3 by (cases r) (simp_all add: drivers_all_def open_drivers_def)
  qed
qed

lemma manager_disconnect_keeps:
  assumes m: "drivers_all fresh ok m"
  shows "drivers_all fresh ok (snd (manager_disconnect D cid m))"
proof -
  define m1 where "m1 = m \<lparr> mg_entries := bt_remove cid (mg_entries m),
     mg_sessions := snd (sessions_remove cid (mg_sessions m)), mg_attempts := forget cid (mg_attempts m) \<rparr>"
  have m1: "drivers_all fresh ok m1" using m by (simp add: m1_def drivers_all_def open_drivers_def)
  have "snd (manager_disconnect D cid m) = (case entry_get cid m of None \<Rightarrow> m1
      | Some e \<Rightarrow> snd (on_driver (ce_driver e) (do_disconnect D) m1))"
    by (simp add: manager_disconnect_def m1_def pair_simps Let_def split: option.split)
  then show ?thesis using m1 on_driver_keeps [OF m1 disconnect_keeps] by (simp split: option.split)
qed

lemma call_driver_keeps:
  assumes "drivers_all fresh ok m" "\<And>d. ok d \<Longrightarrow> ok (snd (f d))"
  shows "drivers_all fresh ok (snd (call_driver L cid f m))"
  using assms(1) on_driver_keeps [OF assms]
  by (simp add: call_driver_def pair_simps split: sum.split option.split)

lemma run_user_query_keeps:
  assumes m: "drivers_all fresh ok m"
  shows "drivers_all fresh ok (snd (run_user_query L D cid q ps cap m))"
  unfolding run_user_query_def
proof (rule call_driver_keeps [OF m])
  fix d assume "ok d"
  then show "ok (snd (case do_execute_user_query D q cap ps d of (Some r, d1) \<Rightarrow> (r, d1)
      | (None, d1) \<Rightarrow> (let (_, d2) = do_cancel_query D d1 in (Inl (driver_error Timeout backstop_message), d2))))"
    using query_keeps [of d q cap ps] cancel_keeps [of "snd (do_execute_user_query D q cap ps d)"]
    by (simp add: pair_simps split: option.split)
qed

text \<open>The tools.\<close>

lemma with_connection_keeps:
  assumes "\<And>a cid. drivers_all fresh ok (w_manager (snd (f a cid w)))" "drivers_all fresh ok (w_manager w)"
  shows "drivers_all fresh ok (w_manager (snd (with_connection L ty de raw args f w)))"
  using assms by (simp add: with_connection_def split: sum.split)

lemma with_manager_keeps: "drivers_all fresh ok (snd (f (w_manager w))) \<Longrightarrow> drivers_all fresh ok (w_manager (snd (with_manager f w)))"
  by (simp add: with_manager_def pair_simps)

lemma with_profiles_manager: "w_manager (snd (with_profiles_do f w)) = w_manager w"
  by (simp add: with_profiles_do_def pair_simps)

lemma connect_call_keeps:
  assumes w: "drivers_all fresh ok (w_manager w)"
  shows "drivers_all fresh ok (w_manager (snd (connect_call L D SO enabled args w)))"
proof -
  have req: "w_manager (snd (connect_request L SO enabled a w)) = w_manager w" for a
    by (simp add: connect_request_def with_profiles_manager pair_simps split: option.split)
  have con: "drivers_all fresh ok (w_manager (snd (with_manager (manager_connect D ty config) w1)))"
    if "w_manager w1 = w_manager w" for ty config w1
    by (rule with_manager_keeps) (simp add: that manager_connect_keeps w)
  show ?thesis
  proof (cases "parse_arguments L ''ConnectArgs'' de_connect_args args")
    case (Inl e)
    then show ?thesis using w by (simp add: connect_call_def)
  next
    case (Inr a)
    obtain r w1 where r: "connect_request L SO enabled a w = (r, w1)" by (rule prod.exhaust)
    then have w1: "w_manager w1 = w_manager w" using req [of a] by simp
    show ?thesis using Inr r w w1 con [OF w1] by (cases r) (simp_all add: connect_call_def pair_simps)
  qed
qed

lemma query_tool_keeps: "drivers_all fresh ok (w_manager w) \<Longrightarrow> drivers_all fresh ok (w_manager (snd (query_tool_call L D ty reply args w)))"
  unfolding query_tool_call_def
  by (intro with_connection_keeps) (simp_all add: pair_simps with_manager_keeps run_user_query_keeps)

lemma disconnect_call_keeps: "drivers_all fresh ok (w_manager w) \<Longrightarrow> drivers_all fresh ok (w_manager (snd (disconnect_call L D args w)))"
  unfolding disconnect_call_def
  by (intro with_connection_keeps) (simp_all add: pair_simps with_manager_keeps manager_disconnect_keeps)

lemma catalogue_calls_keep:
  assumes w: "drivers_all fresh ok (w_manager w)"
  shows "drivers_all fresh ok (w_manager (snd (list_databases_call L D args w)))"
    "drivers_all fresh ok (w_manager (snd (list_tables_call L D args w)))"
    "drivers_all fresh ok (w_manager (snd (list_schemas_call L D args w)))"
    "drivers_all fresh ok (w_manager (snd (describe_table_call L D args w)))"
proof -
  have c: "drivers_all fresh ok (w_manager (snd (with_manager (call_driver L cid f) w)))" if "\<And>d. ok d \<Longrightarrow> ok (snd (f d))" for cid f
    by (rule with_manager_keeps) (rule call_driver_keeps [OF w that])
  have s: "ok d \<Longrightarrow> ok (snd (fetch_schemas_if D d))" for d
    by (simp add: fetch_schemas_if_def schemas_keeps)
  show "drivers_all fresh ok (w_manager (snd (list_databases_call L D args w)))"
    unfolding list_databases_call_def by (rule with_connection_keeps [OF _ w]) (simp add: pair_simps c databases_keeps)
  show "drivers_all fresh ok (w_manager (snd (list_tables_call L D args w)))"
    unfolding list_tables_call_def by (rule with_connection_keeps [OF _ w]) (simp add: pair_simps c tables_keeps)
  show "drivers_all fresh ok (w_manager (snd (list_schemas_call L D args w)))"
    unfolding list_schemas_call_def by (rule with_connection_keeps [OF _ w]) (simp add: pair_simps c s)
  show "drivers_all fresh ok (w_manager (snd (describe_table_call L D args w)))"
    unfolding describe_table_call_def by (rule with_connection_keeps [OF _ w]) (simp add: pair_simps c metadata_keeps)
qed

lemma other_calls_keep:
  assumes "drivers_all fresh ok (w_manager w)"
  shows "drivers_all fresh ok (w_manager (snd (list_connections_call L args w)))"
    "drivers_all fresh ok (w_manager (snd (get_connection_status_call L args w)))"
    "drivers_all fresh ok (w_manager (snd (save_connection_profile_call L SO args w)))"
    "drivers_all fresh ok (w_manager (snd (list_connection_profiles_call L args w)))"
    "drivers_all fresh ok (w_manager (snd (delete_connection_profile_call L SO args w)))"
    "drivers_all fresh ok (w_manager (snd (ping_call args w)))" "drivers_all fresh ok (w_manager (snd (echo_call args w)))"
  using assms
  by (simp_all add: list_connections_call_def get_connection_status_call_def with_connection_def save_connection_profile_call_def
      list_connection_profiles_call_def delete_connection_profile_call_def ping_call_def echo_call_def with_profiles_manager
      pair_simps split: sum.split option.split)

lemma tool_keeps:
  assumes "t \<in> set (build_tools L D SO enabled)" "drivers_all fresh ok (w_manager w)"
  shows "drivers_all fresh ok (w_manager (snd (tool_run t args w)))"
  using assms(1)
  by (auto simp: build_tools_def ping_tool_def echo_tool_def connect_tool_def disconnect_tool_def execute_query_tool_def
      export_query_jsonl_tool_def list_databases_tool_def list_schemas_tool_def list_tables_tool_def describe_table_tool_def
      list_connections_tool_def get_connection_status_tool_def save_connection_profile_tool_def
      list_connection_profiles_tool_def delete_connection_profile_tool_def execute_query_call_def export_query_jsonl_call_def
      connect_call_keeps [OF assms(2)] query_tool_keeps [OF assms(2)] disconnect_call_keeps [OF assms(2)]
      catalogue_calls_keep [OF assms(2)] other_calls_keep [OF assms(2)] split: if_splits)

text \<open>The session.\<close>

lemma dispatch_keeps:
  assumes "tools_keep fresh ok s" "drivers_all fresh ok (w_manager (ms_world s))"
  shows "drivers_all fresh ok (w_manager (ms_world (snd (dispatch_request L r s))))"
proof -
  have call: "drivers_all fresh ok (w_manager (snd (registry_call (ms_registry s) n args (ms_world s))))" for n args
    using assms by (auto simp: registry_call_def tools_keep_def pair_simps split: option.split)
  then show ?thesis using assms(2)
    by (simp add: dispatch_request_def handle_initialize_def handle_tools_call_def pair_simps
        split: sum.split option.split)
qed

lemma handle_keeps:
  assumes "tools_keep fresh ok s" "drivers_all fresh ok (w_manager (ms_world s))"
  shows "tools_keep fresh ok (snd (handle L msg s)) \<and> drivers_all fresh ok (w_manager (ms_world (snd (handle L msg s))))"
  using assms dispatch_keeps [OF assms]
  by (simp add: handle_def handle_request_def handle_notification_def audit_record_def tools_keep_def pair_simps
      split: JsonRpcMessage.split)

lemma session_keeps:
  "tools_keep fresh ok s \<Longrightarrow> drivers_all fresh ok (w_manager (ms_world s)) \<Longrightarrow>
   drivers_all fresh ok (w_manager (ms_world (snd (serve_all (handle L) msgs s))))"
proof (induction msgs arbitrary: s)
  case (Cons m ms)
  then show ?case using handle_keeps [OF Cons.prems, of L m] by (simp add: pair_simps)
qed simp

lemma build_session_keeps:
  assumes "\<And>c. fresh (fa_postgres F c)" "\<And>c. fresh (fa_redis F c)" "\<And>c. fresh (fa_clickhouse F c)"
  shows "open_drivers ok (w_manager (ms_world (snd (serve_all (handle L) msgs (build_session L' D SO F uuids idle profiles)))))"
proof -
  have "drivers_all fresh ok (w_manager (ms_world (snd (serve_all (handle L) msgs (build_session L' D SO F uuids idle profiles)))))"
  proof (rule session_keeps)
    show "tools_keep fresh ok (build_session L' D SO F uuids idle profiles)"
      unfolding tools_keep_def build_session_def session_new_def
      by (auto dest!: map_of_SomeD dest: registry_keys_are_names intro: tool_keeps)
    show "drivers_all fresh ok (w_manager (ms_world (build_session L' D SO F uuids idle profiles)))"
      using assms by (simp add: build_session_def session_new_def build_connection_manager_def register_driver_factory_def
          manager_new_def drivers_all_def open_drivers_def)
  qed
  then show ?thesis by (simp add: drivers_all_def)
qed

end

section \<open>The drivers as one\<close>

text \<open>A driver object with what its server and transport have seen of it; every connection has its own.
  \<open>cancel_query\<close> starts a task; its effect is the one of the task.\<close>

datatype ('cn, 'tok, 's, 'cl, 'h, 'rc, 'r) server_driver =
    OfPostgres "('cn, 'tok, 's) pg_world"
  | OfClickHouse "('cl, 'h) ch_world"
  | OfRedis "'rc RedisDriver" 'r

fun driver_case ::
  "(('cn, 'tok, 's) pg_world \<Rightarrow> 'a \<times> ('cn, 'tok, 's) pg_world) \<Rightarrow> (('cl, 'h) ch_world \<Rightarrow> 'a \<times> ('cl, 'h) ch_world)
   \<Rightarrow> ('rc RedisDriver \<Rightarrow> 'r \<Rightarrow> 'a \<times> 'rc RedisDriver \<times> 'r)
   \<Rightarrow> ('cn, 'tok, 's, 'cl, 'h, 'rc, 'r) server_driver \<Rightarrow> 'a \<times> ('cn, 'tok, 's, 'cl, 'h, 'rc, 'r) server_driver" where
  "driver_case p c r (OfPostgres w) = (let (x, w1) = p w in (x, OfPostgres w1))"
| "driver_case p c r (OfClickHouse w) = (let (x, w1) = c w in (x, OfClickHouse w1))"
| "driver_case p c r (OfRedis d s) = (let (x, d1, s1) = r d s in (x, OfRedis d1 s1))"

text \<open>A Redis operation that leaves the driver object alone.\<close>

definition same_redis :: "('rc RedisDriver \<Rightarrow> 'r \<Rightarrow> 'a \<times> 'r) \<Rightarrow> 'rc RedisDriver \<Rightarrow> 'r \<Rightarrow> 'a \<times> 'rc RedisDriver \<times> 'r" where
  "same_redis f d s = (let (x, s1) = f d s in (x, d, s1))"

text \<open>A query that does not come back within the client's backstop: its future is dropped at the call of
  the client library it waits for. Here such a call answers with an error that \<open>hung\<close> tells apart, for
  what dropping the future does is what the early return does: an open Postgres transaction is rolled
  back, a ClickHouse guard releases its query. Only a ClickHouse request that is still being sent has
  no guard yet, and its identifier stays; \<open>stuck\<close> gives it, nothing when the body was being read.\<close>

definition backstop_hit :: "(DriverError \<Rightarrow> bool) \<Rightarrow> 'a dres \<Rightarrow> bool" where
  "backstop_hit hung r = (case r of Inl e \<Rightarrow> hung e | Inr _ \<Rightarrow> False)"

fun drop_query ::
  "('h \<Rightarrow> string option) \<Rightarrow> ('cn, 'tok, 's, 'cl, 'h, 'rc, 'r) server_driver \<Rightarrow> ('cn, 'tok, 's, 'cl, 'h, 'rc, 'r) server_driver" where
  "drop_query stuck (OfClickHouse w) = OfClickHouse (on_drv (\<lambda>d. d \<lparr> cd_active_query_id := stuck (snd w) \<rparr>) w)"
| "drop_query stuck d = d"

definition with_backstop ::
  "(DriverError \<Rightarrow> bool) \<Rightarrow> ('h \<Rightarrow> string option)
   \<Rightarrow> 'a dres \<times> ('cn, 'tok, 's, 'cl, 'h, 'rc, 'r) server_driver \<Rightarrow> 'a dres option \<times> ('cn, 'tok, 's, 'cl, 'h, 'rc, 'r) server_driver" where
  "with_backstop hung stuck p =
     (if backstop_hit hung (fst p) then (None, drop_query stuck (snd p)) else (Some (fst p), snd p))"

definition server_ops ::
  "lib \<Rightarrow> ('cn, 'tok, 'st, 'po, 's) pg_env \<Rightarrow> ('cl, 'h) http_env \<Rightarrow> ('rcl, 'rc, 'r) redis_env
   \<Rightarrow> (DriverError \<Rightarrow> bool) \<Rightarrow> ('h \<Rightarrow> string option) \<Rightarrow> nat \<times> nat
   \<Rightarrow> ('cn, 'tok, 's, 'cl, 'h, 'rc, 'r) server_driver driver_ops" where
  "server_ops L P C R hung stuck elapsed = \<lparr>
     do_connect = driver_case (pg_connect P) (ch_connect C) (redis_connect L R),
     do_disconnect = driver_case pg_disconnect ch_disconnect (\<lambda>d s. let (x, d1) = redis_disconnect d in (x, d1, s)),
     do_apply_query_timeout = (\<lambda>n. driver_case (pg_apply_query_timeout P n) (ch_apply_query_timeout n) (\<lambda>d s. (Inr (), d, s))),
     do_keepalive = (\<lambda>d. case d of OfRedis _ _ \<Rightarrow> redis_keepalive | _ \<Rightarrow> Applied),
     do_execute_user_query = (\<lambda>q cap ps d. with_backstop hung stuck (driver_case (pg_execute_user_query L P elapsed q cap ps)
        (ch_execute_user_query L C elapsed q cap ps) (same_redis (redis_user_query L R elapsed q cap ps)) d)),
     do_cancel_query = driver_case (pg_cancel_task P) (ch_cancel_task C) (same_redis (redis_cancel_task L R)),
     do_fetch_tables = (\<lambda>sc. driver_case (pg_fetch_tables P sc) (ch_fetch_tables L C sc) (same_redis (\<lambda>d s. (redis_tables d, s)))),
     do_fetch_table_metadata = (\<lambda>t sc. driver_case (pg_fetch_table_metadata P t sc) (ch_fetch_table_metadata L C t sc)
        (same_redis (\<lambda>d s. (redis_fetch_table_metadata L t d, s)))),
     do_fetch_databases = driver_case (pg_fetch_databases P) (ch_fetch_databases L C) (same_redis (redis_fetch_databases R)),
     do_supports_schemas = (\<lambda>d. case d of OfPostgres _ \<Rightarrow> True | _ \<Rightarrow> False),
     do_fetch_schemas = driver_case (pg_fetch_schemas P) (\<lambda>w. (Inr [], w)) (\<lambda>d s. (Inr [], d, s)) \<rparr>"

text \<open>A new object of each kind, before its server has seen anything.\<close>

definition server_factories :: "'s \<Rightarrow> 'h \<Rightarrow> 'r \<Rightarrow> ('cn, 'tok, 's, 'cl, 'h, 'rc, 'r) server_driver factories" where
  "server_factories s h r = \<lparr> fa_postgres = (\<lambda>c. OfPostgres (pg_new c, s)),
     fa_redis = (\<lambda>c. OfRedis (redis_driver_new c) r), fa_clickhouse = (\<lambda>c. OfClickHouse (ch_new c, h)) \<rparr>"

text \<open>These are the methods of the trait, by the kind of the driver; a query comes with its
  backstop.\<close>

definition as_redis :: "'a \<times> 'rc RedisDriver \<times> 'r \<Rightarrow> 'a \<times> ('cn, 'tok, 's, 'cl, 'h, 'rc, 'r) server_driver" where
  "as_redis p = (case p of (x, d, s) \<Rightarrow> (x, OfRedis d s))"

lemma server_ops_are_the_trait:
  fixes P :: "('cn, 'tok, 'st, 'po, 's) pg_env" and C :: "('cl, 'h) http_env" and R :: "('rcl, 'rc, 'r) redis_env"
    and L :: lib and hung :: "DriverError \<Rightarrow> bool" and stuck :: "'h \<Rightarrow> string option" and elapsed :: "nat \<times> nat" and fuel :: nat
  defines "ops \<equiv> server_ops L P C R hung stuck elapsed" and "pg \<equiv> postgres_driver L P elapsed"
    and "ch \<equiv> clickhouse_driver L C elapsed" and "rd \<equiv> redis_driver L R elapsed fuel"
  shows "do_connect ops (OfPostgres w) = map_prod id OfPostgres (dd_connect pg w)"
    "do_connect ops (OfClickHouse v) = map_prod id OfClickHouse (dd_connect ch v)"
    "do_connect ops (OfRedis d s) = as_redis (dd_connect rd (d, s))"
    "do_disconnect ops (OfPostgres w) = map_prod id OfPostgres (dd_disconnect pg w)"
    "do_disconnect ops (OfClickHouse v) = map_prod id OfClickHouse (dd_disconnect ch v)"
    "do_disconnect ops (OfRedis d s) = as_redis (dd_disconnect rd (d, s))"
    "do_apply_query_timeout ops n (OfPostgres w) = map_prod id OfPostgres (dd_apply_query_timeout pg n w)"
    "do_apply_query_timeout ops n (OfClickHouse v) = map_prod id OfClickHouse (dd_apply_query_timeout ch n v)"
    "do_apply_query_timeout ops n (OfRedis d s) = as_redis (dd_apply_query_timeout rd n (d, s))"
    "do_execute_user_query ops q cap ps (OfPostgres w) =
       with_backstop hung stuck (map_prod id OfPostgres (dd_execute_user_query pg q cap ps w))"
    "do_execute_user_query ops q cap ps (OfClickHouse v) =
       with_backstop hung stuck (map_prod id OfClickHouse (dd_execute_user_query ch q cap ps v))"
    "do_execute_user_query ops q cap ps (OfRedis d s) = with_backstop hung stuck (as_redis (dd_execute_user_query rd q cap ps (d, s)))"
    "do_fetch_tables ops sc (OfPostgres w) = map_prod id OfPostgres (dd_fetch_tables pg sc w)"
    "do_fetch_tables ops sc (OfClickHouse v) = map_prod id OfClickHouse (dd_fetch_tables ch sc v)"
    "do_fetch_tables ops sc (OfRedis d s) = as_redis (dd_fetch_tables rd sc (d, s))"
    "do_fetch_table_metadata ops t sc (OfPostgres w) = map_prod id OfPostgres (dd_fetch_table_metadata pg t sc w)"
    "do_fetch_table_metadata ops t sc (OfClickHouse v) = map_prod id OfClickHouse (dd_fetch_table_metadata ch t sc v)"
    "do_fetch_table_metadata ops t sc (OfRedis d s) = as_redis (dd_fetch_table_metadata rd t sc (d, s))"
    "do_fetch_databases ops (OfPostgres w) = map_prod id OfPostgres (dd_fetch_databases pg w)"
    "do_fetch_databases ops (OfClickHouse v) = map_prod id OfClickHouse (dd_fetch_databases ch v)"
    "do_fetch_databases ops (OfRedis d s) = as_redis (dd_fetch_databases rd (d, s))"
    "do_fetch_schemas ops (OfPostgres w) = map_prod id OfPostgres (dd_fetch_schemas pg w)"
    "do_fetch_schemas ops (OfClickHouse v) = map_prod id OfClickHouse (dd_fetch_schemas ch v)"
    "do_fetch_schemas ops (OfRedis d s) = as_redis (dd_fetch_schemas rd (d, s))"
    "do_supports_schemas ops (OfPostgres w) = dd_supports_schemas pg" "do_supports_schemas ops (OfClickHouse v) = dd_supports_schemas ch"
    "do_supports_schemas ops (OfRedis d s) = dd_supports_schemas rd"
    "do_keepalive ops (OfPostgres w) = dd_keepalive_posture pg" "do_keepalive ops (OfClickHouse v) = dd_keepalive_posture ch"
    "do_keepalive ops (OfRedis d s) = dd_keepalive_posture rd"
    "do_cancel_query ops (OfPostgres w) = map_prod id OfPostgres (dd_cancel_query pg w)"
    "do_cancel_query ops (OfClickHouse v) = map_prod id OfClickHouse (dd_cancel_query ch v)"
    "do_cancel_query ops (OfRedis d s) = as_redis (dd_cancel_query rd (d, s))"
  by (simp_all add: ops_def pg_def ch_def rd_def server_ops_def postgres_driver_def clickhouse_driver_def redis_driver_def as_redis_def
      same_redis_def at_redis_def of_redis_def pair_simps pg_supports_schemas_def redis_supports_schemas_def pg_keepalive_def
      ch_keepalive_def default_fetch_schemas_def default_apply_query_timeout_def map_prod_def split: option.split sum.split)

section \<open>What a read-only connection may ask\<close>

text \<open>Postgres: the statements the driver itself sends outside a transaction are fixed, but for the
  number of a timeout; a user's statement runs in a transaction begun read-only; and it may ask to
  cancel.\<close>

definition own_queries :: "string list" where
  "own_queries = [databases_sql, schemas_sql, tables_sql, columns_sql, primary_key_sql, enum_labels_sql, indexes_sql,
     foreign_keys_sql, triggers_sql]"

definition pg_allows :: "('cn, 'tok, 'st, 'po, 's) pg_env \<Rightarrow> ('s \<Rightarrow> bool) \<Rightarrow> ('s \<Rightarrow> bool) \<Rightarrow> bool" where
  "pg_allows P I J \<longleftrightarrow> (\<forall>cn. read_only_session P cn I J) \<and> (\<forall>s. I s \<longrightarrow>
      (\<forall>c v. I (snd (pv_connect P c v s)))
    \<and> (\<forall>cn. I (snd (pv_simple P cn ''SHOW server_version'' s)) \<and> I (snd (pv_query_one P cn ''SELECT current_schema()'' [] s)))
    \<and> (\<forall>cn n. I (snd (pv_simple P cn (statement_timeout_sql n) s)))
    \<and> (\<forall>cn ps. list_all (\<lambda>q. I (snd (pv_query P cn q ps s))) own_queries)
    \<and> (\<forall>tok v. I (snd (pv_cancel P tok v s))))"

text \<open>Redis: a command of the read-only list, or one of the driver's own.\<close>

definition own_command :: "redis_cmd \<Rightarrow> bool" where
  "own_command cmd \<longleftrightarrow> cmd = map as_bytes [''CLIENT'', ''ID''] \<or> cmd = map as_bytes [''CONFIG'', ''GET'', ''databases'']
     \<or> (\<exists>i. cmd = map as_bytes [''CLIENT'', ''KILL'', ''ID'', show_int i])"

definition redis_allows :: "('rcl, 'rc, 'r) redis_env \<Rightarrow> ('r \<Rightarrow> bool) \<Rightarrow> bool" where
  "redis_allows R I \<longleftrightarrow> (\<forall>s. I s \<longrightarrow> (\<forall>cl. I (snd (rv_connect R cl s)))
     \<and> (\<forall>c cmd. own_command cmd \<longrightarrow> I (snd (rv_query R c cmd s)))
     \<and> (\<forall>c verb args. verb \<in> set READ_ONLY_COMMANDS \<longrightarrow> I (snd (rv_query R c (as_bytes verb # args) s))))"

text \<open>ClickHouse: what \<open>request_ok\<close> allows, read-only or not, or a request to kill a query of one's own.\<close>

definition own_context :: "ConnectionConfig \<Rightarrow> 'cl CancelContext \<Rightarrow> bool" where
  "own_context c cx \<longleftrightarrow> cx_base_url cx = resolve_base_url c \<and> cx_username cx = resolve_username c \<and> cx_password cx = cc_password c"

definition ch_allows :: "('cl, 'h) http_env \<Rightarrow> ConnectionConfig \<Rightarrow> ('h \<Rightarrow> bool) \<Rightarrow> bool" where
  "ch_allows C c I \<longleftrightarrow> server_keeps C c I
     \<and> (\<forall>cx :: 'cl CancelContext. \<forall>qid s. own_context c cx \<longrightarrow> I s \<longrightarrow> I (snd (he_send C (cx_client cx) (kill_request cx qid) s)))"

text \<open>A driver object is safe if whatever holds of its server at the start, and is kept by all that a
  read-only connection may ask, still holds, when its configuration is read-only.\<close>

definition redis_follows :: "('rcl, 'rc, 'r) redis_env \<Rightarrow> 'r \<Rightarrow> 'r \<Rightarrow> bool" where
  "redis_follows R s s1 \<longleftrightarrow> (\<forall>I. redis_allows R I \<longrightarrow> I s \<longrightarrow> I s1)"

fun driver_safe ::
  "('cn, 'tok, 'st, 'po, 's) pg_env \<Rightarrow> ('cl, 'h) http_env \<Rightarrow> ('rcl, 'rc, 'r) redis_env \<Rightarrow> 's \<Rightarrow> 'h \<Rightarrow> 'r
   \<Rightarrow> ('cn, 'tok, 's, 'cl, 'h, 'rc, 'r) server_driver \<Rightarrow> bool" where
  "driver_safe P C R s0 h0 r0 (OfPostgres w) =
     (cc_read_only (pd_config (fst w)) \<longrightarrow> (\<forall>I J. pg_allows P I J \<longrightarrow> I s0 \<longrightarrow> I (snd w)))"
| "driver_safe P C R s0 h0 r0 (OfClickHouse w) =
     (\<forall>I. ch_allows C (cd_config (fst w)) I \<longrightarrow> I h0 \<longrightarrow> ch_inv False (cd_config (fst w)) I w)"
| "driver_safe P C R s0 h0 r0 (OfRedis d s) =
     (cc_read_only (rd_config d) \<longrightarrow> redis_follows R r0 s)"

section \<open>Lemmas: Postgres\<close>

definition pg_ok :: "ConnectionConfig \<Rightarrow> ('s \<Rightarrow> bool) \<Rightarrow> ('cn, 'tok, 's) pg_world \<Rightarrow> bool" where
  "pg_ok c I w \<longleftrightarrow> pd_config (fst w) = c \<and> (cc_read_only c \<longrightarrow> I (snd w))"

lemma pg_allowsD:
  assumes "pg_allows P I J"
  shows "read_only_session P cn I J" "I s \<Longrightarrow> I (snd (pv_connect P c v s))"
    "I s \<Longrightarrow> I (snd (pv_simple P cn ''SHOW server_version'' s))" "I s \<Longrightarrow> I (snd (pv_query_one P cn ''SELECT current_schema()'' [] s))"
    "I s \<Longrightarrow> I (snd (pv_simple P cn (statement_timeout_sql n) s))"
    "I s \<Longrightarrow> q \<in> set own_queries \<Longrightarrow> I (snd (pv_query P cn q ps s))" "I s \<Longrightarrow> I (snd (pv_cancel P tok v s))"
  using assms unfolding pg_allows_def list_all_iff by blast+

lemma keeps_with_session:
  fixes f :: "'cn \<Rightarrow> ('s, 'a) op"
  assumes "\<And>cn. keeps I (f cn)"
  shows "keeps (pg_ok c I) (with_session f :: (('cn, 'tok, 's) pg_world, 'a) op)"
proof (rule keepsI)
  fix w :: "('cn, 'tok, 's) pg_world" assume "pg_ok c I w"
  then show "pg_ok c I (snd (with_session f w))"
    using keepsD [OF assms] by (simp add: with_session_def pg_ok_def pair_simps split: option.split)
qed

lemma keeps_in_schema: "(\<And>cn n. keeps I (f cn n)) \<Longrightarrow> keeps (pg_ok c I) (in_schema sc f)"
  unfolding in_schema_def by (intro keeps_with keeps_with_session)

lemma keeps_rows_of:
  assumes "pg_allows P I J" "q \<in> set own_queries"
  shows "keeps I (rows_of P cn q names f)"
  unfolding rows_of_def
  by (intro keeps_bind keeps_lift keeps_pg_call) (rule pg_allowsD(6) [OF assms(1) _ assms(2)])

lemma keeps_own_query:
  assumes "pg_allows P I J" "q \<in> set own_queries"
  shows "keeps I (pg_call (pv_query P cn q ps))"
  by (rule keeps_pg_call) (rule pg_allowsD(6) [OF assms(1) _ assms(2)])

lemma own_queries_simps [simp]:
  "databases_sql \<in> set own_queries" "schemas_sql \<in> set own_queries" "tables_sql \<in> set own_queries" "columns_sql \<in> set own_queries"
  "primary_key_sql \<in> set own_queries" "enum_labels_sql \<in> set own_queries" "indexes_sql \<in> set own_queries"
  "foreign_keys_sql \<in> set own_queries" "triggers_sql \<in> set own_queries"
  by (simp_all only: own_queries_def list.set insert_iff simp_thms)

lemma keeps_lookup_enum:
  assumes "pg_allows P I J"
  shows "keeps I (lookup_enum P cn x cache)"
  unfolding lookup_enum_def fetch_enum_labels_def
  by (simp add: keeps_lift keeps_map keeps_rows_of [OF assms] split: option.split)

lemma keeps_columns_loop:
  assumes "pg_allows P I J"
  shows "keeps I (columns_loop P cn pk cache rows)"
proof (induction rows arbitrary: cache)
  case Nil
  show ?case unfolding columns_loop.simps by (rule keeps_lift)
next
  case (Cons r rs)
  then show ?case
    unfolding columns_loop.simps split_def by (intro keeps_bind keeps_lift keeps_map keeps_lookup_enum [OF assms])
qed

lemma keeps_columns_on:
  assumes "pg_allows P I J"
  shows "keeps I (pg_columns_on P cn table schema)"
  unfolding pg_columns_on_def fetch_primary_key_columns_def
  by (intro keeps_bind keeps_own_query [OF assms] keeps_rows_of [OF assms] keeps_columns_loop [OF assms]) simp_all

lemma keeps_metadata_on:
  assumes "pg_allows P I J"
  shows "keeps I (pg_table_metadata_on P cn table schema)"
  unfolding pg_table_metadata_on_def pg_tables_on_def pg_indexes_on_def pg_foreign_keys_on_def pg_triggers_on_def
  by (intro keeps_bind keeps_map keeps_lift keeps_rows_of [OF assms] keeps_columns_on [OF assms]) simp_all

lemma keeps_fetches:
  assumes "pg_allows P I J"
  shows "keeps (pg_ok c I) (pg_fetch_tables P sc)" "keeps (pg_ok c I) (pg_fetch_table_metadata P t sc)"
    "keeps (pg_ok c I) (pg_fetch_databases P)" "keeps (pg_ok c I) (pg_fetch_schemas P)"
    "keeps (pg_ok c I) (pg_apply_query_timeout P n)"
proof -
  show "keeps (pg_ok c I) (pg_fetch_tables P sc)"
    unfolding pg_fetch_tables_def pg_tables_on_def by (intro keeps_in_schema keeps_rows_of [OF assms]) simp
  show "keeps (pg_ok c I) (pg_fetch_table_metadata P t sc)"
    unfolding pg_fetch_table_metadata_def by (intro keeps_in_schema keeps_metadata_on [OF assms])
  show "keeps (pg_ok c I) (pg_fetch_databases P)"
    unfolding pg_fetch_databases_def pg_databases_on_def by (intro keeps_with_session keeps_rows_of [OF assms]) simp
  show "keeps (pg_ok c I) (pg_fetch_schemas P)"
    unfolding pg_fetch_schemas_def pg_schemas_on_def by (intro keeps_with_session keeps_rows_of [OF assms]) simp
  show "keeps (pg_ok c I) (pg_apply_query_timeout P n)"
    unfolding pg_apply_query_timeout_def pg_run_sql_def
    by (intro keeps_with_session keeps_map keeps_pg_call) (rule pg_allowsD(5) [OF assms])
qed

lemma keeps_pg_connect:
  fixes P :: "('cn, 'tok, 'st, 'po, 's) pg_env"
  assumes a: "pg_allows P I J"
  shows "keeps (pg_ok c I) (pg_connect P)"
proof (rule keepsI)
  fix w :: "('cn, 'tok, 's) pg_world" assume w: "pg_ok c I w"
  let ?m = "connect_with_config P (pd_config (fst w))"
  have k: "keeps I ?m"
  proof -
    have "keeps I (\<lambda>s. let (r, s1) = pv_connect P cfg check s in (map_err pg_connect_error r, s1))" for cfg check
      by (rule keepsI) (simp add: pair_simps pg_allowsD(2) [OF a])
    then show ?thesis unfolding connect_with_config_def by (intro keeps_bind keeps_lift)
  qed
  obtain r s1 where m: "?m (snd w) = (r, s1)" by (rule prod.exhaust)
  have s1: "cc_read_only c \<Longrightarrow> I s1" using w keeps_result [OF k _ m] by (simp add: pg_ok_def)
  show "pg_ok c I (snd (pg_connect P w))"
    using w m s1 pg_allowsD(3,4) [OF a]
    by (cases r) (simp_all add: pg_connect_def open_session_def pg_ok_def refresh_session_caches_def pair_simps)
qed

lemma keeps_pg_user_query:
  fixes P :: "('cn, 'tok, 'st, 'po, 's) pg_env"
  assumes a: "pg_allows P I J"
  shows "keeps (pg_ok c I) (pg_execute_user_query L P elapsed q cap ps)"
proof (rule keepsI)
  fix w :: "('cn, 'tok, 's) pg_world" assume w: "pg_ok c I w"
  show "pg_ok c I (snd (pg_execute_user_query L P elapsed q cap ps w))"
  proof (cases "pd_client (fst w)")
    case None
    then show ?thesis using w by (simp add: pg_execute_user_query_def with_session_def)
  next
    case (Some cn)
    have ro: "I (snd (in_transaction P cn True (portal_body L P cn q cap ps) (snd w)))" if "I (snd w)"
    proof (rule in_transaction_protocol [OF pg_allowsD(1) [OF a]])
      show "keeps J (portal_body L P cn q cap ps)"
        by (intro portal_body_keeps) (simp_all add: read_only_inside [OF pg_allowsD(1) [OF a]])
    qed (rule that)
    show ?thesis using w ro Some
      by (auto simp: pg_execute_user_query_def with_session_def pg_ok_def user_query_body op_map_def pair_simps)
  qed
qed

lemma pg_safe_step:
  assumes "driver_safe P C R s0 h0 r0 (OfPostgres w)"
    and "\<And>I J. pg_allows P I J \<Longrightarrow> keeps (pg_ok (pd_config (fst w)) I) m"
  shows "driver_safe P C R s0 h0 r0 (OfPostgres (snd (m w)))"
proof -
  have "pg_allows P (\<lambda>_. True) (\<lambda>_. True)"
    by (simp add: pg_allows_def read_only_session_def list_all_iff pair_simps split: sum.split)
  then have c: "pd_config (fst (snd (m w))) = pd_config (fst w)"
    using assms(2) [of "\<lambda>_. True" "\<lambda>_. True"] keepsD [of "pg_ok (pd_config (fst w)) (\<lambda>_. True)" m w] by (simp add: pg_ok_def)
  have "I (snd (snd (m w)))" if "cc_read_only (pd_config (fst w))" "pg_allows P I J" "I s0" for I J
    using keepsD [OF assms(2) [OF that(2)], of w] assms(1) that by (auto simp: pg_ok_def)
  then show ?thesis using c by auto
qed

section \<open>Lemmas: ClickHouse and Redis\<close>

lemma ch_allowsD: "ch_allows C c I \<Longrightarrow> server_keeps C c I"
  by (simp add: ch_allows_def)

lemma ch_safe_step:
  assumes "driver_safe P C R s0 h0 r0 (OfClickHouse w)"
    and "\<And>c I. ch_allows C c I \<Longrightarrow> keeps (ch_inv False c I) m"
  shows "driver_safe P C R s0 h0 r0 (OfClickHouse (snd (m w)))"
proof -
  have "\<forall>I. ch_allows C (cd_config (fst w)) I \<longrightarrow> I h0 \<longrightarrow> ch_inv False (cd_config (fst w)) I w"
    using assms(1) by (simp only: driver_safe.simps)
  note all = spec [OF this]
  have "cd_config (fst (snd (m w))) = cd_config (fst w)"
  proof -
    have t: "ch_allows C (cd_config (fst w)) (\<lambda>_. True)" by (simp add: ch_allows_def server_keeps_def)
    then have "ch_inv False (cd_config (fst w)) (\<lambda>_. True) w" using all [of "\<lambda>_. True"] by simp
    from keepsD [OF assms(2) [OF t] this] show ?thesis by (simp add: ch_inv_def)
  qed
  moreover have "ch_inv False (cd_config (fst w)) I (snd (m w))" if k: "ch_allows C (cd_config (fst w)) I" and h: "I h0" for I
  proof -
    have "ch_inv False (cd_config (fst w)) I w" using mp [OF mp [OF all [of I] k] h] .
    then show ?thesis by (rule keepsD [OF assms(2) [OF k]])
  qed
  ultimately show ?thesis by simp
qed

text \<open>Leaving an identifier in the query slot, and the cancel that then sends a request.\<close>

lemma drop_query_safe:
  assumes "driver_safe P C R s0 h0 r0 d"
  shows "driver_safe P C R s0 h0 r0 (drop_query stuck d)"
proof (cases d)
  case (OfClickHouse w)
  have "ch_inv False c I (on_drv (\<lambda>x. x \<lparr> cd_active_query_id := stuck (snd w) \<rparr>) w) = ch_inv False c I w" for c I
    by (simp add: ch_inv_def on_drv_def)
  then show ?thesis using assms OfClickHouse by (simp add: on_drv_def)
qed (use assms in auto)

lemma with_backstop_safe:
  "driver_safe P C R s0 h0 r0 (snd p) \<Longrightarrow> driver_safe P C R s0 h0 r0 (snd (with_backstop hung stuck p))"
  by (simp add: with_backstop_def drop_query_safe)

lemma redis_allowsD:
  assumes "redis_allows R I" "I s"
  shows "I (snd (rv_connect R cl s))" "own_command cmd \<Longrightarrow> I (snd (rv_query R c cmd s))"
    "verb \<in> set READ_ONLY_COMMANDS \<Longrightarrow> I (snd (rv_query R c (as_bytes verb # args) s))"
  using assms unfolding redis_allows_def by blast+

lemma follows_refl [simp]: "redis_follows R s s"
  by (simp add: redis_follows_def)

lemma follows_trans: "redis_follows R r s \<Longrightarrow> redis_follows R s t \<Longrightarrow> redis_follows R r t"
  unfolding redis_follows_def by blast

lemma follows_connect: "redis_follows R s (snd (rv_connect R cl s))"
  unfolding redis_follows_def by (blast intro: redis_allowsD)

lemma follows_own: "own_command cmd \<Longrightarrow> redis_follows R s (snd (rv_query R c cmd s))"
  unfolding redis_follows_def by (blast intro: redis_allowsD)

lemma follows_read: "verb \<in> set READ_ONLY_COMMANDS \<Longrightarrow> redis_follows R s (snd (rv_query R c (as_bytes verb # args) s))"
  unfolding redis_follows_def by (blast intro: redis_allowsD)

lemma follows_establish: "redis_follows R s (snd (redis_establish L R d db s))"
proof (cases "build_client L R (rd_config d) db")
  case (Inl x)
  then show ?thesis by (simp add: redis_establish_def)
next
  case (Inr client)
  obtain q s2 where q: "rv_connect R client s = (q, s2)" by (rule prod.exhaust)
  have s2: "redis_follows R s s2" using follows_connect [of R s client] q by simp
  have "own_command (map as_bytes [''CLIENT'', ''ID''])" by (simp add: own_command_def)
  then have "redis_follows R s2 (snd (rv_query R c (map as_bytes [''CLIENT'', ''ID'']) s2))" for c
    by (rule follows_own)
  then show ?thesis using Inr q follows_trans [OF s2] s2
    by (cases q) (simp_all add: redis_establish_def send_def pair_simps)
qed

lemma follows_redis_connect:
  "rd_config (fst (snd (redis_connect L R d s))) = rd_config d \<and> redis_follows R s (snd (snd (redis_connect L R d s)))"
proof -
  obtain r s2 where e: "redis_establish L R d None s = (r, s2)" by (rule prod.exhaust)
  then show ?thesis using follows_establish [of R s L d None]
    by (cases r) (auto simp: redis_connect_def adopt_def)
qed

lemma follows_kill: "redis_follows R s (snd (redis_kill_client L R c i s))"
proof (cases "build_client L R c None")
  case (Inl x)
  then show ?thesis by (simp add: redis_kill_client_def)
next
  case (Inr client)
  obtain q s2 where q: "rv_connect R client s = (q, s2)" by (rule prod.exhaust)
  have s2: "redis_follows R s s2" using follows_connect [of R s client] q by simp
  have "own_command (map as_bytes [''CLIENT'', ''KILL'', ''ID'', show_int i])" unfolding own_command_def by blast
  then have "redis_follows R s2 (snd (rv_query R k (map as_bytes [''CLIENT'', ''KILL'', ''ID'', show_int i]) s2))" for k
    by (rule follows_own)
  then show ?thesis using Inr q follows_trans [OF s2] s2
    by (cases q) (simp_all add: redis_kill_client_def send_def pair_simps)
qed

lemma follows_cancel: "redis_follows R s (snd (redis_cancel_task L R d s))"
  by (simp add: redis_cancel_task_def follows_kill split: sum.split)

lemma follows_databases: "redis_follows R s (snd (redis_fetch_databases R d s))"
proof -
  have "own_command (map as_bytes [''CONFIG'', ''GET'', ''databases''])" by (simp add: own_command_def)
  then have "redis_follows R s (snd (rv_query R c (map as_bytes [''CONFIG'', ''GET'', ''databases'']) s))" for c
    by (rule follows_own)
  then show ?thesis by (simp add: redis_fetch_databases_def with_redis_def pair_simps split: sum.split)
qed

lemma follows_query:
  assumes "cc_read_only (rd_config d)"
  shows "redis_follows R s (snd (redis_user_query L R elapsed q cap ps d s))"
proof -
  obtain r s1 where r: "redis_user_query L R elapsed q cap ps d s = (r, s1)" by (rule prod.exhaust)
  have "s1 = s \<or> (\<exists>c verb args. verb \<in> set READ_ONLY_COMMANDS \<and> s1 = snd (rv_query R c (as_bytes verb # args) s))"
    using redis_query_gate [OF assms, of L R elapsed q cap ps s] r by (auto simp: Let_def)
  then show ?thesis using r follows_read by auto
qed

section \<open>The real drivers keep the contract\<close>

lemma ch_disconnect_keeps: "keeps (ch_inv False c I) ch_disconnect" "keeps (ch_inv False c I) (ch_apply_query_timeout n)"
  unfolding ch_disconnect_def ch_apply_query_timeout_def by (rule keeps_on_drv; simp add: set_current_database_def)+

lemma ch_cancel_keeps:
  fixes C :: "('cl, 'h) http_env"
  assumes "ch_allows C c I"
  shows "keeps (ch_inv False c I) (ch_cancel_task C)"
proof (rule keepsI)
  fix w :: "('cl, 'h) ch_world" assume w: "ch_inv False c I w"
  show "ch_inv False c I (snd (ch_cancel_task C w))"
  proof (cases "ch_cancel_query (fst w)")
    case None
    then show ?thesis using w by (simp add: ch_cancel_task_def)
  next
    case (Some p)
    then obtain cx qid where p: "cd_cancel_context (fst w) = Some cx" "p = (cx_client cx, kill_request cx qid)"
      by (auto simp: ch_cancel_query_def split: option.splits)
    have "own_context c cx" "I (snd w)" using w p(1) by (simp_all add: ch_inv_def own_context_def)
    then have "I (snd (he_send C (cx_client cx) (kill_request cx qid) (snd w)))"
      using assms unfolding ch_allows_def by blast
    then have "I (snd (http_send C (cx_client cx) (kill_request cx qid) (snd w)))"
      by (simp add: http_send_def pair_simps split: sum.split)
    then show ?thesis using w Some p by (simp add: ch_cancel_task_def ch_inv_def)
  qed
qed

lemma pg_disconnect_keeps: "keeps (pg_ok c I) pg_disconnect"
  by (rule keepsI) (simp add: pg_disconnect_def pg_ok_def)

lemma pg_cancel_keeps: "pg_allows P I J \<Longrightarrow> keeps (pg_ok c I) (pg_cancel_task P)"
  by (rule keepsI) (auto simp: pg_cancel_task_def pg_ok_def pg_allowsD(7) split: sum.split prod.split)

text \<open>A Redis method that keeps the configuration and, on a read-only driver, only asks what is allowed.\<close>

definition redis_method :: "('rcl, 'rc, 'r) redis_env \<Rightarrow> ('rc RedisDriver \<Rightarrow> 'r \<Rightarrow> 'a \<times> 'rc RedisDriver \<times> 'r) \<Rightarrow> bool" where
  "redis_method R f \<longleftrightarrow> (\<forall>d s. rd_config (fst (snd (f d s))) = rd_config d
     \<and> (cc_read_only (rd_config d) \<longrightarrow> redis_follows R s (snd (snd (f d s)))))"

lemma redis_methodI:
  "(\<And>d s. rd_config (fst (snd (f d s))) = rd_config d) \<Longrightarrow>
   (\<And>d s. cc_read_only (rd_config d) \<Longrightarrow> redis_follows R s (snd (snd (f d s)))) \<Longrightarrow> redis_method R f"
  unfolding redis_method_def by blast

lemma redis_method_same:
  "(\<And>d s. cc_read_only (rd_config d) \<Longrightarrow> redis_follows R s (snd (f d s))) \<Longrightarrow> redis_method R (same_redis f)"
  by (rule redis_methodI) (simp_all add: same_redis_def pair_simps)

lemma driver_case_safe:
  assumes safe: "driver_safe P C R s0 h0 r0 d"
    and p: "\<And>I J c. pg_allows P I J \<Longrightarrow> keeps (pg_ok c I) p" and c: "\<And>c I. ch_allows C c I \<Longrightarrow> keeps (ch_inv False c I) ch"
    and r: "redis_method R rd"
  shows "driver_safe P C R s0 h0 r0 (snd (driver_case p ch rd d))"
proof (cases d)
  case (OfPostgres w)
  then show ?thesis using pg_safe_step [OF safe [unfolded OfPostgres] p] by (simp add: pair_simps)
next
  case (OfClickHouse w)
  then show ?thesis using ch_safe_step [OF safe [unfolded OfClickHouse] c] by (simp add: pair_simps)
next
  case (OfRedis x s)
  have m: "rd_config (fst (snd (rd x s))) = rd_config x"
    "cc_read_only (rd_config x) \<Longrightarrow> redis_follows R s (snd (snd (rd x s)))"
    using r unfolding redis_method_def by blast+
  show ?thesis using safe m follows_trans [of R r0 s] OfRedis by (simp add: pair_simps)
qed

interpretation server: driver_contract "server_ops L P C R hung stuck elapsed" "driver_safe P C R s0 h0 r0" "driver_safe P C R s0 h0 r0"
proof (unfold_locales; unfold server_ops_def driver_ops.simps)
  have connect: "driver_safe P C R s0 h0 r0 d \<Longrightarrow> driver_safe P C R s0 h0 r0 (snd (driver_case (pg_connect P) (ch_connect C) (redis_connect L R) d))" for d
    by (erule driver_case_safe, erule keeps_pg_connect, rule keeps_ch_connect, erule ch_allowsD, rule redis_methodI; simp add: follows_redis_connect)
  have timeout: "driver_safe P C R s0 h0 r0 d \<Longrightarrow> driver_safe P C R s0 h0 r0
      (snd (driver_case (pg_apply_query_timeout P n) (ch_apply_query_timeout n) (\<lambda>d s. (Inr (), d, s)) d))" for n d
    by (erule driver_case_safe, erule keeps_fetches(5), rule ch_disconnect_keeps(2), rule redis_methodI; simp)
  show "driver_safe P C R s0 h0 r0 (snd (driver_case (pg_apply_query_timeout P SERVER_SECS) (ch_apply_query_timeout SERVER_SECS)
      (\<lambda>d s. (Inr (), d, s)) d1))"
    if "driver_safe P C R s0 h0 r0 d" "driver_case (pg_connect P) (ch_connect C) (redis_connect L R) d = (Inr (), d1)" for d d1
    by (rule timeout) (use connect [OF that(1)] that(2) in simp)
  show "driver_safe P C R s0 h0 r0 d \<Longrightarrow> driver_safe P C R s0 h0 r0
      (snd (driver_case pg_disconnect ch_disconnect (\<lambda>d s. let (x, d1) = redis_disconnect d in (x, d1, s)) d))" for d
    by (erule driver_case_safe, rule pg_disconnect_keeps, rule ch_disconnect_keeps(1), rule redis_methodI; simp add: redis_disconnect_def)
  show "driver_safe P C R s0 h0 r0 d \<Longrightarrow> driver_safe P C R s0 h0 r0
      (snd (with_backstop hung stuck (driver_case (pg_execute_user_query L P elapsed q cap ps) (ch_execute_user_query L C elapsed q cap ps)
         (same_redis (redis_user_query L R elapsed q cap ps)) d)))" for q cap ps d
    by (rule with_backstop_safe, erule driver_case_safe, erule keeps_pg_user_query, rule keeps_queries(3), erule ch_allowsD,
        rule redis_method_same, erule follows_query)
  show "driver_safe P C R s0 h0 r0 d \<Longrightarrow> driver_safe P C R s0 h0 r0
      (snd (driver_case (pg_cancel_task P) (ch_cancel_task C) (same_redis (redis_cancel_task L R)) d))" for d
    by (erule driver_case_safe, erule pg_cancel_keeps, erule ch_cancel_keeps, rule redis_method_same, rule follows_cancel)
  show "driver_safe P C R s0 h0 r0 d \<Longrightarrow> driver_safe P C R s0 h0 r0
      (snd (driver_case (pg_fetch_tables P sc) (ch_fetch_tables L C sc) (same_redis (\<lambda>d s. (redis_tables d, s))) d))" for sc d
    by (erule driver_case_safe, erule keeps_fetches(1), rule keeps_introspection(1), erule ch_allowsD, rule redis_method_same, simp)
  show "driver_safe P C R s0 h0 r0 d \<Longrightarrow> driver_safe P C R s0 h0 r0
      (snd (driver_case (pg_fetch_table_metadata P t sc) (ch_fetch_table_metadata L C t sc)
         (same_redis (\<lambda>d s. (redis_fetch_table_metadata L t d, s))) d))" for t sc d
    by (erule driver_case_safe, erule keeps_fetches(2), rule keeps_introspection(6), erule ch_allowsD, rule redis_method_same, simp)
  show "driver_safe P C R s0 h0 r0 d \<Longrightarrow> driver_safe P C R s0 h0 r0
      (snd (driver_case (pg_fetch_databases P) (ch_fetch_databases L C) (same_redis (redis_fetch_databases R)) d))" for d
    by (erule driver_case_safe, erule keeps_fetches(3), rule keeps_queries(7), erule ch_allowsD, rule redis_method_same, rule follows_databases)
  show "driver_safe P C R s0 h0 r0 d \<Longrightarrow> driver_safe P C R s0 h0 r0
      (snd (driver_case (pg_fetch_schemas P) (\<lambda>w. (Inr [], w)) (\<lambda>d s. (Inr [], d, s)) d))" for d
    by (erule driver_case_safe, erule keeps_fetches(4), simp add: keeps_def, rule redis_methodI, simp_all)
qed

lemma new_drivers_safe:
  "driver_safe P C R s0 h0 r0 (fa_postgres (server_factories s0 h0 r0) c)"
  "driver_safe P C R s0 h0 r0 (fa_redis (server_factories s0 h0 r0) c)"
  "driver_safe P C R s0 h0 r0 (fa_clickhouse (server_factories s0 h0 r0) c)"
  by (simp_all add: server_factories_def ch_inv_new ch_new_def [of c] ch_inv_def)

section \<open>Properties\<close>

text \<open>C1. A read-only connection stays read-only whatever a client sends. In the server that \<open>main.rs\<close>
  builds, with its three drivers, after any sequence of messages, with any tools called with any
  arguments, any answers of the databases and any queries cut off by the backstop, every driver object that any connection ever had is
  safe: if it is configured read-only, then Postgres ran the user's statements only in transactions
  begun read-only and outside them only the driver's own catalogue queries, Redis was sent only
  commands of the read-only list and the driver's own, and every ClickHouse request, read-only or
  not, went to the configured address with the configured user, with \<open>readonly=1\<close> if so configured (the
  version probe of \<open>connect\<close> and the request to kill an own query apart).\<close>

theorem read_only_end_to_end:
  "open_drivers (driver_safe P C R s0 h0 r0) (w_manager (ms_world (snd (serve_all (handle L) msgs
     (build_session L (server_ops L P C R hung stuck elapsed) SO (server_factories s0 h0 r0) uuids idle profiles)))))"
  by (rule server.build_session_keeps) (rule new_drivers_safe)+

text \<open>A ClickHouse query that the backstop cuts off while its body is read is not cancelled on the server:
  the guard has released the query slot before the cancel looks at it, and nothing is sent.\<close>

theorem cut_body_is_not_cancelled:
  assumes "do_execute_user_query (server_ops L P C R hung stuck elapsed) q cap ps (OfClickHouse w) = (None, d)"
    and "\<And>s. stuck s = None"
  shows "do_cancel_query (server_ops L P C R hung stuck elapsed) d = (Inr (), d)"
  using assms
  by (auto simp: server_ops_def with_backstop_def pair_simps on_drv_def ch_cancel_task_def ch_cancel_query_def
      split: if_splits option.split)

text \<open>What that comes to on servers that keep a log of what they are asked: the Postgres log holds the
  statements run outside a read-only transaction, and no transaction is left open.\<close>

definition own_statement :: "string \<Rightarrow> bool" where
  "own_statement q \<longleftrightarrow> q \<in> set own_queries \<or> q = ''SHOW server_version'' \<or> q = ''SELECT current_schema()''
     \<or> (\<exists>n. q = statement_timeout_sql n)"

definition allowed_command :: "redis_cmd \<Rightarrow> bool" where
  "allowed_command cmd \<longleftrightarrow> own_command cmd \<or> (\<exists>verb args. verb \<in> set READ_ONLY_COMMANDS \<and> cmd = as_bytes verb # args)"

definition allowed_request :: "ConnectionConfig \<Rightarrow> http_request \<Rightarrow> bool" where
  "allowed_request c rq \<longleftrightarrow> request_ok c rq \<or> (\<exists>(cx :: unit CancelContext) qid. own_context c cx \<and> rq = kill_request cx qid)"

fun log_clean ::
  "(unit, unit, bool option \<times> string list, unit, http_request list, unit, redis_cmd list) server_driver \<Rightarrow> bool" where
  "log_clean (OfPostgres w) = (cc_read_only (pd_config (fst w)) \<longrightarrow> fst (snd w) = None \<and> list_all own_statement (snd (snd w)))"
| "log_clean (OfClickHouse w) = list_all (allowed_request (cd_config (fst w))) (snd w)"
| "log_clean (OfRedis d s) = (cc_read_only (rd_config d) \<longrightarrow> list_all allowed_command s)"

definition pg_log_clean :: "bool option \<Rightarrow> bool option \<times> string list \<Rightarrow> bool" where
  "pg_log_clean t s \<longleftrightarrow> fst s = t \<and> list_all own_statement (snd s)"

lemma own_queries_are_own: "list_all own_statement own_queries"
  by (simp add: list_all_iff own_statement_def)

lemma watched_session_allows: "pg_allows watched_session (pg_log_clean None) (pg_log_clean (Some True))"
proof -
  have "list_all (\<lambda>q. pg_log_clean None (snd (pv_query watched_session cn q ps s))) own_queries"
    if "pg_log_clean None s" for cn ps and s :: "bool option \<times> string list"
    using own_queries_are_own that by (auto simp: list_all_iff watched_session_def pg_log_clean_def pair_simps)
  moreover have "own_statement ''SHOW server_version''" "own_statement ''SELECT current_schema()''"
    "own_statement (statement_timeout_sql n)" for n by (auto simp: own_statement_def)
  ultimately show ?thesis
    by (simp add: pg_allows_def read_only_session_def watched_session_def pg_log_clean_def pair_simps)
qed

lemma logging_env_allows: "redis_allows logging_env (list_all allowed_command)"
  by (auto simp: redis_allows_def logging_env_def allowed_command_def)

lemma logging_http_allows: "ch_allows logging_http c (list_all (allowed_request c))"
  by (auto simp: ch_allows_def server_keeps_def logging_http_def allowed_request_def)

lemma safe_log_clean:
  assumes "driver_safe watched_session logging_http logging_env (None, []) [] [] d"
  shows "log_clean d"
proof (cases d)
  case (OfPostgres w)
  have "pg_log_clean None (snd w)" if "cc_read_only (pd_config (fst w))"
  proof -
    have "\<forall>I J. pg_allows watched_session I J \<longrightarrow> I (None, []) \<longrightarrow> I (snd w)"
      using assms [unfolded OfPostgres driver_safe.simps] that by (rule mp)
    from spec [OF spec [OF this, of "pg_log_clean None"], of "pg_log_clean (Some True)"]
    show ?thesis using watched_session_allows by (simp add: pg_log_clean_def)
  qed
  then show ?thesis using OfPostgres by (simp add: pg_log_clean_def)
next
  case (OfClickHouse w)
  from spec [OF assms [unfolded OfClickHouse driver_safe.simps], of "list_all (allowed_request (cd_config (fst w)))"]
  show ?thesis using OfClickHouse logging_http_allows by (simp add: ch_inv_def)
next
  case (OfRedis rd s)
  have "list_all allowed_command s" if "cc_read_only (rd_config rd)"
  proof -
    have "redis_follows logging_env [] s" using assms [unfolded OfRedis driver_safe.simps] that by (rule mp)
    from spec [OF this [unfolded redis_follows_def], of "list_all allowed_command"]
    show ?thesis using logging_env_allows by simp
  qed
  then show ?thesis using OfRedis by simp
qed

lemma open_drivers_mono:
  assumes "open_drivers ok m" "\<And>d. ok d \<Longrightarrow> ok' d"
  shows "open_drivers ok' m"
  using assms unfolding open_drivers_def by (metis option.pred_mono_strong)

corollary read_only_logs_clean:
  "open_drivers log_clean (w_manager (ms_world (snd (serve_all (handle L) msgs
     (build_session L (server_ops L watched_session logging_http logging_env hung stuck elapsed) SO
        (server_factories (None, []) [] []) uuids idle profiles)))))"
  by (rule open_drivers_mono [OF server.build_session_keeps safe_log_clean]) (rule new_drivers_safe)+

section \<open>The time limit of the server\<close>

text \<open>The limit that \<open>connect\<close> of the manager asks for stays with a ClickHouse driver, and what it sends
  carries it: apart from the probe of \<open>connect\<close>, sent before there is a limit, and the request to kill a
  query. (A Postgres session keeps its own limit, which a statement of the user may set again; Redis has
  none.)\<close>

definition limited_request :: "http_request \<Rightarrow> bool" where
  "limited_request rq \<longleftrightarrow> (''max_execution_time'', ''30'') \<in> set (rq_params rq)
     \<or> (\<exists>c. rq = probe_request c) \<or> rq_params rq = [] \<and> prefix ''KILL QUERY WHERE query_id = '' (rq_body rq)"

text \<open>What holds of the server of a driver that has sent it nothing else: whatever held at the start and is
  kept by such requests.\<close>

definition kept_by_limited :: "('cl, 'h) http_env \<Rightarrow> ('h \<Rightarrow> bool) \<Rightarrow> bool" where
  "kept_by_limited C I \<longleftrightarrow> (\<forall>s. I s \<longrightarrow> I (snd (he_query_id C s))
     \<and> (\<forall>cl rq. limited_request rq \<longrightarrow> I (snd (he_send C cl rq s))))"

definition sent_limited :: "('cl, 'h) http_env \<Rightarrow> 'h \<Rightarrow> 'h \<Rightarrow> bool" where
  "sent_limited C h0 h \<longleftrightarrow> (\<forall>I. kept_by_limited C I \<longrightarrow> I h0 \<longrightarrow> I h)"

fun requests_limited ::
  "('cl, 'h) http_env \<Rightarrow> 'h \<Rightarrow> ('cn, 'tok, 's, 'cl, 'h, 'rc, 'r) server_driver \<Rightarrow> bool" where
  "requests_limited C h0 (OfClickHouse w) = sent_limited C h0 (snd w)"
| "requests_limited C h0 d = True"

definition has_limit :: "('cl, 'h) http_env \<Rightarrow> 'h \<Rightarrow> ('cl, 'h) ch_world \<Rightarrow> bool" where
  "has_limit C h0 w \<longleftrightarrow> cd_query_timeout (fst w) = Some SERVER_SECS \<and> sent_limited C h0 (snd w)"

fun limited ::
  "('cl, 'h) http_env \<Rightarrow> 'h \<Rightarrow> ('cn, 'tok, 's, 'cl, 'h, 'rc, 'r) server_driver \<Rightarrow> bool" where
  "limited C h0 (OfClickHouse w) = has_limit C h0 w"
| "limited C h0 d = True"

lemma sent_limited_step:
  assumes "sent_limited C h0 h"
  shows "sent_limited C h0 (snd (he_query_id C h))"
    "limited_request rq \<Longrightarrow> sent_limited C h0 (snd (http_send C cl rq h))"
proof -
  show "sent_limited C h0 (snd (he_query_id C h))"
    using assms unfolding sent_limited_def kept_by_limited_def by blast
  have "sent_limited C h0 (snd (he_send C cl rq h))" if "limited_request rq"
    using assms that unfolding sent_limited_def kept_by_limited_def by blast
  moreover have "snd (http_send C cl rq h) = snd (he_send C cl rq h)"
    by (simp add: http_send_def pair_simps split: sum.split)
  ultimately show "limited_request rq \<Longrightarrow> sent_limited C h0 (snd (http_send C cl rq h))" by simp
qed

lemma driver_request_limited:
  "cd_query_timeout d = Some SERVER_SECS \<Longrightarrow> limited_request (driver_request d cn qid body extra)"
proof -
  have "show_nat SERVER_SECS = ''30''" by code_simp
  then show "cd_query_timeout d = Some SERVER_SECS \<Longrightarrow> ?thesis"
    by (simp add: limited_request_def driver_request_def request_params_def)
qed

lemma kill_request_limited: "limited_request (kill_request cx qid)"
  by (simp add: limited_request_def kill_request_def)

lemma probe_request_limited: "limited_request (probe_request c)"
  unfolding limited_request_def by blast

interpretation limited_requests: request_kept C "has_limit C h0" for C h0
proof
  fix w :: "('a, 'b) ch_world" and cn body extra qid n
  assume w: "has_limit C h0 w"
  show "has_limit C h0 (on_drv (clear_active_query_id qid) w)" "has_limit C h0 (on_drv (set_current_database n) w)"
    using w by (simp_all add: has_limit_def on_drv_def clear_active_query_id_def set_current_database_def)
  obtain q s1 where q: "he_query_id C (snd w) = (q, s1)" by (rule prod.exhaust)
  have s1: "sent_limited C h0 s1" using sent_limited_step(1) [of C h0 "snd w"] w q by (simp add: has_limit_def)
  let ?d = "(fst w) \<lparr> cd_active_query_id := Some q \<rparr>"
  have rq: "limited_request (driver_request ?d cn q body extra)"
    using w by (intro driver_request_limited) (simp add: has_limit_def)
  obtain r s2 where h: "http_send C (cn_client cn) (driver_request ?d cn q body extra) s1 = (r, s2)" by (rule prod.exhaust)
  have "sent_limited C h0 s2" using sent_limited_step(2) [OF s1 rq, of "cn_client cn"] h by simp
  then show "has_limit C h0 (snd (send_request C cn body extra w))"
    using w q h by (cases r) (auto simp: send_request_def has_limit_def clear_active_query_id_def)
qed

lemma limited_case: "keeps (has_limit C h0) ch \<Longrightarrow> limited C h0 d \<Longrightarrow> limited C h0 (snd (driver_case p ch rd d))"
  by (cases d) (simp_all add: pair_simps keepsD)

lemma limit_kept:
  "keeps (has_limit C h0) ch_disconnect" "keeps (has_limit C h0) (ch_cancel_task C)" "keeps (has_limit C h0) (Pair r)"
proof -
  show "keeps (has_limit C h0) ch_disconnect" "keeps (has_limit C h0) (Pair r)"
    by (auto intro!: keepsI simp: ch_disconnect_def on_drv_def set_current_database_def has_limit_def)
  have "has_limit C h0 (snd (ch_cancel_task C w))" if "has_limit C h0 w" for w
  proof (cases "ch_cancel_query (fst w)")
    case (Some x)
    then obtain cx qid where "x = (cx_client cx, kill_request cx qid)"
      by (auto simp: ch_cancel_query_def split: option.splits)
    moreover have "sent_limited C h0 (snd w)" using that by (simp add: has_limit_def)
    ultimately show ?thesis
      using that Some sent_limited_step(2) [OF \<open>sent_limited C h0 (snd w)\<close> kill_request_limited [of cx qid], of "cx_client cx"]
      by (simp add: ch_cancel_task_def has_limit_def)
  qed (use that in \<open>simp add: ch_cancel_task_def\<close>)
  then show "keeps (has_limit C h0) (ch_cancel_task C)" by (rule keepsI)
qed

lemma limited_backstop: "limited C h0 (snd p) \<Longrightarrow> limited C h0 (snd (with_backstop hung stuck p))"
  by (cases "snd p") (simp_all add: with_backstop_def on_drv_def has_limit_def)

text \<open>A connect sends the probe, and then the manager sets the limit.\<close>

lemma connected_limited:
  assumes "sent_limited C h0 (snd w)"
  shows "has_limit C h0 (snd (ch_apply_query_timeout SERVER_SECS (snd (ch_connect C w))))"
proof -
  have "sent_limited C h0 (snd (snd (ch_connect C w)))"
    using assms sent_limited_step(2) [OF assms probe_request_limited]
    by (auto simp: ch_connect_def Let_def pair_simps split: sum.split prod.split)
  then show ?thesis by (simp add: has_limit_def ch_apply_query_timeout_def on_drv_def)
qed

interpretation limits: driver_contract "server_ops L P C R hung stuck elapsed" "requests_limited C h0" "limited C h0"
proof (unfold_locales; unfold server_ops_def driver_ops.simps)
  show "limited C h0 (snd (driver_case (pg_apply_query_timeout P SERVER_SECS) (ch_apply_query_timeout SERVER_SECS) (\<lambda>d s. (Inr (), d, s)) d1))"
    if "requests_limited C h0 d" "driver_case (pg_connect P) (ch_connect C) (redis_connect L R) d = (Inr (), d1)" for d d1
  proof (cases d)
    case (OfClickHouse w)
    then have "d1 = OfClickHouse (snd (ch_connect C w))" using that(2) by (auto simp: pair_simps)
    then show ?thesis using connected_limited [of C h0 w] that(1) OfClickHouse by (simp add: pair_simps)
  qed (use that(2) in \<open>auto simp: pair_simps\<close>)
qed (simp_all only: limited_backstop limited_case limit_kept limited_requests.same_methods)

lemma limited_requests_limited: "limited C h0 d \<Longrightarrow> requests_limited C h0 d"
  by (cases d) (simp_all add: has_limit_def)

text \<open>C16. No ClickHouse statement without a time limit. Whatever messages a client sends to the server that
  \<open>main.rs\<close> builds, every request that a ClickHouse driver of any connection has handed to the HTTP
  client carries the limit of 30 seconds, except two that the driver makes itself: the probe
  \<open>SELECT version()\<close> of \<open>connect\<close>, and \<open>KILL QUERY\<close>. That is, the state of the server and the client
  library has every property that held at the start and that drawing query identifiers and sending
  such requests keep.\<close>

theorem clickhouse_queries_limited:
  "open_drivers (requests_limited C h0) (w_manager (ms_world (snd (serve_all (handle L) msgs
     (build_session L (server_ops L P C R hung stuck elapsed) SO (server_factories s0 h0 r0) uuids idle profiles)))))"
  by (rule open_drivers_mono [OF limits.build_session_keeps limited_requests_limited])
    (simp_all add: server_factories_def sent_limited_def)

text \<open>On a client library that keeps a log of what it is handed, the log holds such requests only.\<close>

corollary clickhouse_log_limited:
  "open_drivers (\<lambda>d. case d of OfClickHouse w \<Rightarrow> list_all limited_request (snd w) | _ \<Rightarrow> True)
     (w_manager (ms_world (snd (serve_all (handle L) msgs
     (build_session L (server_ops L P logging_http R hung stuck elapsed) SO (server_factories s0 [] r0) uuids idle profiles)))))"
proof (rule open_drivers_mono [OF limits.build_session_keeps])
  fix d :: "('a, 'b, 'c, unit, http_request list, 'd, 'e) server_driver" assume d: "limited logging_http [] d"
  have k: "kept_by_limited logging_http (list_all limited_request)"
    by (auto simp: kept_by_limited_def logging_http_def)
  have "list_all limited_request (snd w)" if "d = OfClickHouse w" for w
  proof -
    have "sent_limited logging_http [] (snd w)" using d that by (simp add: has_limit_def)
    from this [unfolded sent_limited_def, THEN spec [of _ "list_all limited_request"]] k show ?thesis by simp
  qed
  then show "case d of OfClickHouse w \<Rightarrow> list_all limited_request (snd w) | _ \<Rightarrow> True"
    by (cases d) simp_all
qed (simp_all add: server_factories_def sent_limited_def)

end
