(* ===== verification/Spec2Isabelle.thy ===== *)
theory Spec2Isabelle
  imports Main Prelude Lib Codec Core Registry Sse Jsonrpc McpServer Stdio Http Secrets Profiles
    Manager ManagerSteps ManagerProgress ManagerSpec Tools Export Server Effects Quoting Redis
    RedisDriver RedisScan Clickhouse ClickhouseDriver ClickhouseSteady ClickhouseSlot ClickhouseStream Postgres PostgresDriver
    PostgresCalls PostgresSession PostgresCancel PostgresStream DriverTrait Drivers
begin

text \<open>
  A verification development for \<open>db-headless-mcp\<close>, a headless server that lets an MCP client connect
  to Postgres, ClickHouse and Redis databases, query them and keep connection profiles. All paths
  below are under \<open>src/crates\<close>.

  \<^bold>\<open>The program.\<close> The binary (\<open>server/src/main.rs\<close>) reads its configuration from the environment, builds
  one MCP session and serves it over standard input and output (\<open>transport-stdio\<close>) or HTTP
  (\<open>transport-http\<close>). The session (\<open>mcp-server\<close>) decodes JSON-RPC messages (\<open>mcp-wire\<close>), guards the
  methods by its initialization state, runs the registered tools and records an audit event per
  request. The tools (\<open>connections/src/tools\<close>) work on the connection manager
  (\<open>connections/src/manager.rs\<close>) and the profile manager (\<open>connection-profiles\<close>, with the passwords in
  the encrypted file of \<open>secrets\<close>). The manager keeps the open drivers and fences racing connects by
  the generations of \<open>registry\<close>. The three drivers (\<open>driver-postgres\<close>, \<open>driver-clickhouse\<close>,
  \<open>driver-redis\<close>) implement the trait \<open>DatabaseDriver\<close> of \<open>core\<close>.

  \<^bold>\<open>Conventions.\<close> A fallible operation returns \<open>error + value\<close>, the error on the left, and every early
  return of the source is a branch. Strings are the lists of their UTF-8 bytes; a theorem that sends
  one through \<open>serde_json\<close> says that it is UTF-8 (\<open>is_utf8\<close>). Machine integers are
  words where they wrap and naturals with explicit saturation where the code saturates. State is
  passed explicitly: an operation on a driver is a function of type \<open>('w, 'a) op\<close> (theory \<open>Effects\<close>)
  from a world to a result and the world after it. What is not in the repository is a parameter: the
  functions of \<open>serde_json\<close>, Unicode tables, AES-GCM and base64 are the record \<open>lib\<close>; a client library
  with the server behind it is a record of functions on the server's state (\<open>pg_env\<close>, \<open>http_env\<close>,
  \<open>redis_env\<close>, \<open>tls_env\<close>), and what a theorem needs of them is a named hypothesis with a witness.

  \<^bold>\<open>Theories, with the code they model.\<close>
  \<^item> \<open>Prelude\<close>, \<open>Lib\<close>, \<open>Codec\<close>: results, byte strings, UTF-8, numbers as text, the ordered map; JSON
    values, serde's derived readers and the record \<open>lib\<close>; a concrete instance of it for the witnesses. A
    derived writer is the tree of its fields in the order they are declared; \<open>json_value\<close> is the value a
    reader of its text sees, for the trees that \<open>json_codec\<close> is assumed of (\<open>json_text\<close>: no key twice, no
    floating point number, at most 127 levels).
  \<^item> \<open>Core\<close>: \<open>core/src\<close> (configuration, errors, limits, cells, results, schema records, and the default
    methods of the driver trait). \<open>SslMode\<close> is an instance of \<open>linorder\<close>, by strictness.
  \<^item> \<open>Registry\<close>: \<open>registry/src\<close>. The locale \<open>attempt_fence\<close> is what the manager relies on, interpreted
    on the registry's operations as \<open>fence\<close>.
  \<^item> \<open>Sse\<close>, \<open>Jsonrpc\<close>: \<open>mcp-wire/src\<close>; both directions of each format, round trips, independence of
    chunk borders, error codes, the nesting guard.
  \<^item> \<open>McpServer\<close>: \<open>mcp-server/src\<close>. The locale \<open>message_server\<close> (extended by \<open>logged_server\<close>) is a
    server that answers what wants an answer; it is interpreted on the session (\<open>mcp\<close>) and, in
    \<open>Stdio\<close>, on the line loop of \<open>transport-stdio/src/lib.rs\<close> (\<open>stdio\<close>).
  \<^item> \<open>Http\<close>: \<open>transport-http/src\<close> (bearer check, rate limit, handler, demo stream).
  \<^item> \<open>Secrets\<close>: \<open>secrets/src\<close>, with the atomic write as a sequence of steps, each of which may fail, over
    files that know what of them is synced; \<open>write_trace\<close> has every state a crash may find, the ones with
    a part of the bytes written included. The
    locales \<open>secret_store\<close> and \<open>reliable_secret_store\<close> are what \<open>Profiles\<close> needs of a store,
    interpreted on the encrypted file store (\<open>enc\<close>, \<open>renc\<close>).
  \<^item> \<open>Profiles\<close>: \<open>connection-profiles/src\<close>, with \<open>save\<close> also split at its lock for interleavings.
  \<^item> \<open>Manager\<close>: \<open>connections/src/manager.rs\<close>, one operation at a time, over any drivers (\<open>driver_ops\<close>).
    \<open>ManagerSteps\<close> has its tasks as a step relation, one step per lock; \<open>ManagerProgress\<close> shows that
    they end; \<open>ManagerSpec\<close> states the table of connections it promises and that it refines it.
  \<^item> \<open>Tools\<close>, \<open>Export\<close>: \<open>connections/src/tools\<close>, every tool with its argument parsing and schema.
  \<^item> \<open>Effects\<close>, \<open>Quoting\<close>: what the drivers share: composition of operations with what they keep
    (\<open>keeps\<close>) and yield (\<open>yields\<close>); quoting by doubling, the locale \<open>quoting\<close>, interpreted on the
    identifier and literal quoting of both SQL drivers (\<open>ch_ident\<close>, \<open>ch_literal\<close>, \<open>pg_ident\<close>,
    \<open>pg_literal\<close>).
  \<^item> \<open>Redis\<close>, \<open>RedisDriver\<close>: \<open>driver-redis/src\<close>; \<open>Clickhouse\<close>, \<open>ClickhouseDriver\<close>:
    \<open>driver-clickhouse/src\<close>; \<open>Postgres\<close>, \<open>PostgresDriver\<close>: \<open>driver-postgres/src\<close>. The first of each pair
    has the pure parts (command and SQL text, parameters, conversion, errors, TLS decisions), the
    second the driver object, its connection, queries, introspection, cancelling and streaming.
    \<open>ClickhouseSlot\<close> interleaves the requests on one ClickHouse driver at every access to its slot
    for the query in flight; \<open>ClickhouseStream\<close> relates its streaming loop to its capped query.
    \<open>PostgresCalls\<close> takes the two calls that hold a Postgres transaction apart at their awaits, with
    futures dropped at any of them; \<open>PostgresSession\<close> interleaves such calls, and the ones under the
    read lock, on one Postgres driver; \<open>PostgresCancel\<close> interleaves connects, switches of the database,
    disconnects, calls and cancels on it at every access to a slot they share; \<open>PostgresStream\<close>
    relates its stream to its user query. \<open>ClickhouseSteady\<close> has what every ClickHouse call keeps, as the
    locale \<open>request_kept\<close> over what sending a request keeps, interpreted on the fields no call writes
    (\<open>steady_client\<close>, \<open>steady_timeout\<close>, \<open>steady_config\<close>), in \<open>DriverTrait\<close> on a closed driver's empty slots
    (\<open>steady_settled\<close>) and in \<open>Drivers\<close> on the time limit of the requests sent (\<open>limited_requests\<close>).
    \<open>RedisScan\<close> relates the stream of Redis to the pages its server hands the keys out in.
  \<^item> \<open>DriverTrait\<close>: the trait \<open>DatabaseDriver\<close> of \<open>core/src/driver.rs\<close> as a record of all its methods, with
    the three drivers as its values, \<open>cancel_query\<close> with what the task it starts asks of the server. The
    locale \<open>driver_lifecycle\<close> is what a driver of the trait promises about being open, closed and without
    transactions, interpreted on the three (\<open>pg_life\<close>, \<open>ch_life\<close>,
    \<open>redis_life\<close>).
  \<^item> \<open>Server\<close>: \<open>server/src/main.rs\<close>. \<open>Drivers\<close> puts the three drivers behind \<open>driver_ops\<close> as \<open>main\<close>
    registers them; the locale \<open>driver_contract\<close> carries a property of drivers through the manager, the
    tools and the session, and is interpreted on the real drivers, for what a
    read-only connection may ask (\<open>server\<close>) and for the time limit of its queries (\<open>limits\<close>).

  \<^bold>\<open>What the lemmas show.\<close> Each theory ends with its properties; the others are the steps to them.
  \<^item> End to end: whatever messages a client sends, a connection configured read-only only has its
    server asked for what a read-only connection may ask, and every request of a ClickHouse driver
    carries the time limit, but for the probe of its connect and the one that kills a query (\<open>Drivers\<close>); what \<open>connect\<close> replies with
    reaches the driver it opened, and a saved password the connection that uses it (\<open>Tools\<close>).
  \<^item> Connections: no driver is lost or left open under any interleaving, every task ends, an older
    attempt never replaces a newer one, and one call after the other the manager is a table.
  \<^item> Queries: the rows of a result are exact, capped, and independent of batches and chunks; a failed
    Postgres query changes nothing; parameters stay data; reads and results are bounded. A cancel of
    a ClickHouse query hits the one started last, however the queries overlap; one of a Postgres query
    names the session in use, as long as changes of the session do not overlap, are not given up
    halfway and are not between their two writes. Overlapping calls on a
    Postgres driver come out as if run one after the other, and one that is dropped changes nothing. A
    stream of either SQL driver is its query without a cap, in batches; a stream of Redis has the rows
    of every scanned key.
  \<^item> Drivers: each of the three keeps the life cycle of the trait, whatever is called in any order.
  \<^item> Protocol: one reply per request, in order; tools are run once per call and closed before
    initialization, and \<open>/mcp\<close> is closed without the bearer token (the demo stream is open); decoding
    gives back what was encoded, up to an explicit null as an error's data (JSON-RPC), and to line ends
    in names and carriage returns at line ends (server-sent events).
  \<^item> Storage: a secret is read back, an operation that fails changes nothing, and a crash at any moment of
    a write leaves the old file or the complete new one; a password does not show in replies or in the profile file.
  \<^item> Where the code does something else than its comments say, or than one would want, a theorem states
    what it does (for instance \<open>PostgresCancel.waiting_backstop_cancels_another\<close>, \<open>Profiles.concurrent_save_drops_read_only\<close>,
    \<open>PostgresDriver.row_cap_zero_runs_nothing\<close>, \<open>ClickhouseDriver.cut_character_is_replaced\<close>).

  \<^bold>\<open>Loops and bounds.\<close> All loops are total functions but one. The portal loops end because every turn
  that goes on adds a row and the cap, at most \<open>EMERGENCY_MAX\<close> of five million rows, is fixed; the line
  loops shorten their buffer; tokenizers and parsers consume their input. The line loop of
  \<open>transport-stdio\<close> runs over what its reader yields up to the end of file. The SCAN loop of
  \<open>driver-redis/src/stream.rs\<close> goes on as long as the server hands out a cursor other than 0, which may
  be for ever, so \<open>scan_loop\<close> has fuel and running out of it is a result of its own. Its bounds hold for
  every amount of fuel, and where the cursor comes back to 0 fuel for every page is enough (\<open>RedisScan\<close>).

  \<^bold>\<open>Not modelled, and why.\<close>
  \<^item> \<open>connections/src/test_support.rs\<close> and the test modules: mock drivers for tests.
  \<^item> Tracing set-up and log lines other than the audit events: pure output.
  \<^item> The HTTP stack (axum, tower, the governor's clock) and process input and output: third-party code;
    \<open>Http\<close> has the parts that are the program's own, with routing and limiter as parameters.
  \<^item> The wire protocols of the databases and the insides of the client libraries.
  \<^item> In \<open>Drivers\<close>: every connection has a server state of its own. Which calls outlast the client's
    backstop, and whether they are dropped before or while the answer is read, are parameters (\<open>stuck\<close>,
    \<open>hung\<close>) of \<open>server_ops\<close>. Calls on one driver object come one after the other there;
    \<open>PostgresSession\<close> interleaves them for Postgres, from one connect to the disconnect after it, with
    their requests, \<open>PostgresCancel\<close> all of them with the session and its token but without the requests,
    and \<open>ClickhouseSlot\<close> for ClickHouse, at the query slot, the only state its calls share. The Redis
    driver's calls are not interleaved: they are pipelined on one connection by the client library.
  \<^item> Nothing is claimed of the time limit of a Postgres session once a client has used it: a statement of
    the client may set it again.
  \<^item> The clock is a value of the state and does not advance inside an operation.
\<close>

end
